(* ===== verification/Bridge_Prelude.thy ===== *)
theory Bridge_Prelude
  imports Main "HOL-Library.Word"
begin

text \<open>
  What the components share: the byte and word types, the big- and little-endian
  readers and writers of Go's \<^verbatim>\<open>encoding/binary\<close>, Go's wrapping 64-bit
  integers, the collections of simplification rules, and the contract
  \<open>sequence_codec\<close> of a loop that parses back what a loop has written.
\<close>

unbundle bit_operations_syntax

named_theorems wire_simps \<open>equations that compute on wire formats\<close>
named_theorems step_inv \<open>invariants kept by the operations of a component\<close>

type_synonym byte = "8 word"
type_synonym u16 = "16 word"
type_synonym u32 = "32 word"
type_synonym u64 = "64 word"
type_synonym bytes = "byte list"

subsection \<open>Fixed-width integers on the wire\<close>

text \<open>
  \<open>be16\<close>, \<open>be32\<close> and \<open>le32\<close> are what \<^verbatim>\<open>binary.BigEndian.PutUint16\<close>,
  \<^verbatim>\<open>PutUint32\<close> and \<^verbatim>\<open>binary.LittleEndian.PutUint32\<close> write; the
  \<open>of_\<close> functions are the readers, on the bytes themselves, so that a caller has to
  have checked that the bytes are there, as the Go code has to.
\<close>

definition be16 :: "u16 \<Rightarrow> bytes" where
  "be16 w = [ucast (drop_bit 8 w), ucast w]"

definition be32 :: "u32 \<Rightarrow> bytes" where
  "be32 w = [ucast (drop_bit 24 w), ucast (drop_bit 16 w), ucast (drop_bit 8 w), ucast w]"

definition le32 :: "u32 \<Rightarrow> bytes" where
  "le32 w = [ucast w, ucast (drop_bit 8 w), ucast (drop_bit 16 w), ucast (drop_bit 24 w)]"

definition le16 :: "u16 \<Rightarrow> bytes" where
  "le16 w = [ucast w, ucast (drop_bit 8 w)]"

definition of_be16 :: "byte \<Rightarrow> byte \<Rightarrow> u16" where
  "of_be16 a b = push_bit 8 (ucast a) OR ucast b"

definition of_be32 :: "byte \<Rightarrow> byte \<Rightarrow> byte \<Rightarrow> byte \<Rightarrow> u32" where
  "of_be32 a b c d =
     push_bit 24 (ucast a) OR push_bit 16 (ucast b) OR push_bit 8 (ucast c) OR ucast d"

definition of_le32 :: "byte \<Rightarrow> byte \<Rightarrow> byte \<Rightarrow> byte \<Rightarrow> u32" where
  "of_le32 a b c d = of_be32 d c b a"

definition of_le16 :: "byte \<Rightarrow> byte \<Rightarrow> u16" where
  "of_le16 a b = of_be16 b a"

lemma length_be16 [simp]: "length (be16 w) = 2"
  by (simp add: be16_def)

lemma length_be32 [simp]: "length (be32 w) = 4"
  by (simp add: be32_def)

lemma length_le32 [simp]: "length (le32 w) = 4"
  by (simp add: le32_def)

lemma length_le16 [simp]: "length (le16 w) = 2"
  by (simp add: le16_def)

lemma of_be16_be16 [simp]:
  "of_be16 (ucast (drop_bit 8 w)) (ucast w) = w"
  by (rule bit_word_eqI) (auto simp: of_be16_def bit_simps)

lemma of_be32_be32 [simp]:
  "of_be32 (ucast (drop_bit 24 w)) (ucast (drop_bit 16 w)) (ucast (drop_bit 8 w)) (ucast w) = w"
proof (rule bit_word_eqI)
  fix n assume "n < LENGTH(32)"
  then show "bit (of_be32 (ucast (drop_bit 24 w)) (ucast (drop_bit 16 w))
      (ucast (drop_bit 8 w)) (ucast w)) n \<longleftrightarrow> bit w n"
    by (cases "n < 8"; cases "n < 16"; cases "n < 24") (auto simp: of_be32_def bit_simps)
qed

lemma of_le16_le16 [simp]:
  "of_le16 (ucast w) (ucast (drop_bit 8 w)) = w"
  by (simp add: of_le16_def)

lemma of_le32_le32 [simp]:
  "of_le32 (ucast w) (ucast (drop_bit 8 w)) (ucast (drop_bit 16 w)) (ucast (drop_bit 24 w)) = w"
  by (simp add: of_le32_def)

text \<open>Go's \<^verbatim>\<open>int\<close> and \<^verbatim>\<open>int64\<close> on the 64-bit targets: wrap-around.\<close>

definition wrap64 :: "int \<Rightarrow> int" where
  "wrap64 i = signed_take_bit 63 i"

lemma wrap64_id [simp]: "- (2 ^ 63) \<le> i \<Longrightarrow> i < 2 ^ 63 \<Longrightarrow> wrap64 i = i"
  by (simp add: wrap64_def signed_take_bit_int_eq_self)

text \<open>Go's integer division and remainder truncate towards zero.\<close>

definition go_div :: "int \<Rightarrow> int \<Rightarrow> int" where
  "go_div a b = sgn a * sgn b * (\<bar>a\<bar> div \<bar>b\<bar>)"

lemma go_div_nonneg [simp]: "0 \<le> a \<Longrightarrow> 0 < b \<Longrightarrow> go_div a b = a div b"
  by (cases "a = 0") (auto simp: go_div_def)

subsection \<open>Loops that write a sequence, loops that read it back\<close>

text \<open>
  A writer runs over the items with a state it updates (the last option number in CoAP,
  nothing for the stream's extensions); \<open>enc_seq\<close> is that loop, \<open>end_state\<close>
  the state it leaves and \<open>ok_seq\<close> says that every item can be written in the state
  the loop has when it reaches it.
\<close>

fun enc_seq :: "('s \<Rightarrow> 'a \<Rightarrow> bytes) \<Rightarrow> ('s \<Rightarrow> 'a \<Rightarrow> 's) \<Rightarrow> 's \<Rightarrow> 'a list \<Rightarrow> bytes" where
  "enc_seq enc upd s [] = []"
| "enc_seq enc upd s (x # xs) = enc s x @ enc_seq enc upd (upd s x) xs"

fun end_state :: "('s \<Rightarrow> 'a \<Rightarrow> 's) \<Rightarrow> 's \<Rightarrow> 'a list \<Rightarrow> 's" where
  "end_state upd s [] = s"
| "end_state upd s (x # xs) = end_state upd (upd s x) xs"

fun ok_seq :: "('s \<Rightarrow> 'a \<Rightarrow> bool) \<Rightarrow> ('s \<Rightarrow> 'a \<Rightarrow> 's) \<Rightarrow> 's \<Rightarrow> 'a list \<Rightarrow> bool" where
  "ok_seq ok upd s [] = True"
| "ok_seq ok upd s (x # xs) = (ok s x \<and> ok_seq ok upd (upd s x) xs)"

lemma ok_seq_stateless: "ok_seq (\<lambda>_. p) upd s xs \<longleftrightarrow> list_all p xs"
  by (induction xs arbitrary: s) auto

text \<open>
  The contract of a parsing loop: in front of an encoded item it takes one turn, adds
  the item to its result and goes on behind it with the updated state.
\<close>

locale sequence_codec =
  fixes enc :: "'s \<Rightarrow> 'a \<Rightarrow> bytes"
    and upd :: "'s \<Rightarrow> 'a \<Rightarrow> 's"
    and ok :: "'s \<Rightarrow> 'a \<Rightarrow> bool"
    and parse :: "'s \<Rightarrow> bytes \<Rightarrow> 'r"
    and add :: "'a \<Rightarrow> 'r \<Rightarrow> 'r"
  assumes parse_item: "ok s x \<Longrightarrow> parse s (enc s x @ rest) = add x (parse (upd s x) rest)"
begin

lemma parse_sequence:
  "ok_seq ok upd s xs \<Longrightarrow>
   parse s (enc_seq enc upd s xs @ rest) = foldr add xs (parse (end_state upd s xs) rest)"
  by (induction xs arbitrary: s) (simp_all add: parse_item)

end

subsection \<open>Lists\<close>

lemma take_length_append [simp]: "take (length xs) (xs @ ys) = xs"
  by simp

lemma drop_length_append [simp]: "drop (length xs) (xs @ ys) = ys"
  by simp

lemma unat_of_nat_small16: "n < 65536 \<Longrightarrow> unat (word_of_nat n :: u16) = n"
  by (simp add: unat_of_nat take_bit_nat_eq_self)

lemma unat_of_nat_small32: "n < 4294967296 \<Longrightarrow> unat (word_of_nat n :: u32) = n"
  by (simp add: unat_of_nat take_bit_nat_eq_self)

end
