(* ===== verification/CoAP.thy ===== *)
theory CoAP
  imports Go_Strings
begin

text \<open>
  The CoAP codec of \<^verbatim>\<open>pkg/nabtopure/coap.go\<close>: messages and options, the encoder
  with its in-place stable sort and delta-encoded options, the decoder with every early
  return, and the builder of requests. A slice that is nil and one that is empty are the
  same list here, since the code only takes lengths of them.
\<close>

record coap_option =
  opt_number :: u16
  opt_value :: bytes

record coap_message =
  msg_type :: byte
  msg_code :: byte
  message_id :: u16
  msg_token :: bytes
  msg_options :: "coap_option list"
  msg_payload :: bytes

datatype coap_error =
    TokenTooLong nat
  | MessageTooShort nat
  | UnsupportedVersion byte
  | UnexpectedEOFToken
  | UnexpectedEOFExtension
  | UnexpectedEOFOption u16

subsection \<open>Status codes\<close>

definition status_code :: "coap_message \<Rightarrow> nat" where
  "status_code m = unat (drop_bit 5 (msg_code m)) * 100 + unat (msg_code m AND 0x1F)"

subsection \<open>Encoding\<close>

definition encode_option_value :: "u16 \<Rightarrow> byte \<times> bytes" where
  "encode_option_value val =
     (if val < 13 then (ucast val, [])
      else if val < 269 then (13, [ucast (val - 13)])
      else (14, be16 (val - 269)))"

definition encode_option :: "u16 \<Rightarrow> coap_option \<Rightarrow> bytes" where
  "encode_option last_number opt =
     (let (dn, de) = encode_option_value (opt_number opt - last_number);
          (ln, le) = encode_option_value (word_of_nat (length (opt_value opt)))
      in (push_bit 4 dn OR ln) # de @ le @ opt_value opt)"

definition encode_options :: "u16 \<Rightarrow> coap_option list \<Rightarrow> bytes" where
  "encode_options = enc_seq encode_option (\<lambda>_. opt_number)"

definition header_byte :: "byte \<Rightarrow> nat \<Rightarrow> byte" where
  "header_byte ty token_len =
     push_bit 6 1 OR push_bit 4 (ty AND 3) OR (word_of_nat token_len AND 0x0F)"

text \<open>
  \<^verbatim>\<open>Encode\<close> sorts \<^verbatim>\<open>m.Options\<close> in place, so it returns the message it leaves
  behind too; the error return comes before the sort.
\<close>

definition coap_encode :: "coap_message \<Rightarrow> (coap_error + bytes) \<times> coap_message" where
  "coap_encode m =
     (if length (msg_token m) > 8 then (Inl (TokenTooLong (length (msg_token m))), m)
      else
        let opts = sort_key opt_number (msg_options m);
            buf = header_byte (msg_type m) (length (msg_token m)) # msg_code m #
                  be16 (message_id m) @ msg_token m @ encode_options 0 opts @
                  (if msg_payload m \<noteq> [] then 0xFF # msg_payload m else [])
        in (Inr buf, m\<lparr>msg_options := opts\<rparr>))"

subsection \<open>Decoding\<close>

text \<open>
  The Go code walks an offset through \<^verbatim>\<open>data\<close>; here the functions take the bytes that
  are left and return the bytes behind what they consumed.
\<close>

definition decode_ext :: "u16 \<Rightarrow> bytes \<Rightarrow> coap_error + (u16 \<times> bytes)" where
  "decode_ext nibble bs =
     (if nibble = 13 then
        (case bs of [] \<Rightarrow> Inl UnexpectedEOFExtension
         | b # rest \<Rightarrow> Inr (ucast b + 13, rest))
      else if nibble = 14 then
        (case bs of b1 # b2 # rest \<Rightarrow> Inr (of_be16 b1 b2 + 269, rest)
         | _ \<Rightarrow> Inl UnexpectedEOFExtension)
      else Inr (nibble, bs))"

definition decode_option :: "u16 \<Rightarrow> byte \<Rightarrow> bytes \<Rightarrow> coap_error + (coap_option \<times> bytes)" where
  "decode_option current opt_byte bs =
     (case decode_ext (ucast (drop_bit 4 opt_byte AND 0x0F)) bs of
        Inl e \<Rightarrow> Inl e
      | Inr (delta, bs1) \<Rightarrow>
          (case decode_ext (ucast (opt_byte AND 0x0F)) bs1 of
             Inl e \<Rightarrow> Inl e
           | Inr (opt_len, bs2) \<Rightarrow>
               (let number = current + delta in
                if unat opt_len > length bs2 then Inl (UnexpectedEOFOption number)
                else Inr (\<lparr>opt_number = number, opt_value = take (unat opt_len) bs2\<rparr>,
                          drop (unat opt_len) bs2))))"

lemma decode_ext_shorter:
  "decode_ext n bs = Inr (v, rest) \<Longrightarrow> length rest \<le> length bs"
  by (auto simp: decode_ext_def split: if_splits list.splits)

lemma decode_option_shorter:
  "decode_option c b bs = Inr (opt, rest) \<Longrightarrow> length rest \<le> length bs"
  by (auto simp: decode_option_def Let_def split: sum.splits prod.splits if_splits
      dest!: decode_ext_shorter)

text \<open>The option loop; it hands back the payload, empty when there was no marker.\<close>

function decode_options :: "u16 \<Rightarrow> bytes \<Rightarrow> coap_error + (coap_option list \<times> bytes)" where
  "decode_options current bs =
     (case bs of
        [] \<Rightarrow> Inr ([], [])
      | b # rest \<Rightarrow>
          (if b = 0xFF then Inr ([], rest)
           else case decode_option current b rest of
               Inl e \<Rightarrow> Inl e
             | Inr (opt, rest') \<Rightarrow>
                 (case decode_options (opt_number opt) rest' of
                    Inl e \<Rightarrow> Inl e
                  | Inr (opts, payload) \<Rightarrow> Inr (opt # opts, payload))))"
  by pat_completeness auto
termination
  by (relation "measure (\<lambda>(c, bs). length bs)") (auto dest: decode_option_shorter)

declare decode_options.simps [simp del]

definition coap_decode :: "bytes \<Rightarrow> coap_error + coap_message" where
  "coap_decode data =
     (case data of
        b0 # b1 # b2 # b3 # rest \<Rightarrow>
          (let ver = drop_bit 6 b0 AND 3; token_len = unat (b0 AND 0x0F) in
           if ver \<noteq> 1 then Inl (UnsupportedVersion ver)
           else if length rest < token_len then Inl UnexpectedEOFToken
           else (case decode_options 0 (drop token_len rest) of
                   Inl e \<Rightarrow> Inl e
                 | Inr (opts, payload) \<Rightarrow>
                     Inr \<lparr>msg_type = drop_bit 4 b0 AND 3, msg_code = b1,
                          message_id = of_be16 b2 b3, msg_token = take token_len rest,
                          msg_options = opts, msg_payload = payload\<rparr>))
      | _ \<Rightarrow> Inl (MessageTooShort (length data)))"

subsection \<open>Requests\<close>

abbreviation OptionUriPath :: u16 where "OptionUriPath \<equiv> 11"
abbreviation OptionContentFormat :: u16 where "OptionContentFormat \<equiv> 12"

definition uri_path_options :: "string \<Rightarrow> coap_option list" where
  "uri_path_options path =
     (let clean = trim_set (\<lambda>c. c = CHR ''/'') path in
      if clean = [] then []
      else map (\<lambda>seg. \<lparr>opt_number = OptionUriPath, opt_value = bytes_of seg\<rparr>)
             (split_on (CHR ''/'') clean))"

definition content_format_options :: "u16 \<Rightarrow> bytes \<Rightarrow> coap_option list" where
  "content_format_options fmt payload =
     (if fmt > 0 \<or> (payload \<noteq> [] \<and> fmt = 0)
      then [\<lparr>opt_number = OptionContentFormat,
             opt_value = (if fmt < 256 then [ucast fmt] else be16 fmt)\<rparr>]
      else [])"

definition new_request :: "byte \<Rightarrow> string \<Rightarrow> u16 \<Rightarrow> bytes \<Rightarrow> coap_message" where
  "new_request method path fmt payload =
     \<lparr>msg_type = 0, msg_code = method, message_id = 0, msg_token = [],
      msg_options = uri_path_options path @ content_format_options fmt payload,
      msg_payload = payload\<rparr>"

end
