(* ===== verification/CoAP_Proofs.thy ===== *)
theory CoAP_Proofs
  imports CoAP
begin

text \<open>
  Correctness of the CoAP codec. The contract \<open>sequence_codec\<close> of the prelude is
  interpreted on the two option loops, so the round trip of a message rests on the round
  trip of one option. Then what the decoder refuses, and what a request looks like.
\<close>

subsection \<open>Nibbles and option headers\<close>

lemma nibble_take: "(d :: byte) < 16 \<Longrightarrow> take_bit 4 d = d"
  by (simp add: word_unat_eq_iff unsigned_take_bit_eq word_less_nat_alt take_bit_nat_eq_self take_bit_nat_def)

lemma and_15: "(w :: byte) AND 0x0F = take_bit 4 w"
  by (simp add: take_bit_eq_mask mask_eq_exp_minus_1)

lemma nibble_high: 
  assumes "(d :: byte) < 16" "(l :: byte) < 16"
  shows "drop_bit 4 (push_bit 4 d OR l) AND 0x0F = d"
proof -
  from assms have d: "take_bit 4 d = d" and l: "take_bit 4 l = l" by (simp_all add: nibble_take)
  have "take_bit 4 (drop_bit 4 (push_bit 4 (take_bit 4 d) OR take_bit 4 l)) = take_bit 4 d"
    by (rule bit_word_eqI) (auto simp: bit_simps)
  with d l show ?thesis by (simp add: and_15)
qed

lemma nibble_low: 
  assumes "(d :: byte) < 16" "(l :: byte) < 16"
  shows "(push_bit 4 d OR l) AND 0x0F = l"
proof -
  from assms have d: "take_bit 4 d = d" and l: "take_bit 4 l = l" by (simp_all add: nibble_take)
  have "take_bit 4 (push_bit 4 (take_bit 4 d) OR take_bit 4 l) = take_bit 4 l"
    by (rule bit_word_eqI) (auto simp: bit_simps)
  with d l show ?thesis by (simp add: and_15)
qed

lemma nibble_not_marker:
  assumes "(d :: byte) \<le> 14" "(l :: byte) < 16"
  shows "push_bit 4 d OR l \<noteq> 0xFF"
proof
  assume "push_bit 4 d OR l = 0xFF"
  then have "drop_bit 4 (0xFF :: byte) AND 0x0F = d"
    using nibble_high[of d l] assms by (simp add: word_le_nat_alt word_less_nat_alt)
  then show False using assms by (simp add: word_le_nat_alt)
qed

lemma unat_byte_of_u16: "unat (v :: u16) < 256 \<Longrightarrow> unat (ucast v :: byte) = unat v"
  by (simp add: unsigned_ucast_eq take_bit_nat_eq_self)

lemma u16_of_byte_of_u16: "unat (v :: u16) < 256 \<Longrightarrow> ucast (ucast v :: byte) = v"
  by (rule word_unat_eq_iff[THEN iffD2])
    (simp add: unsigned_ucast_eq take_bit_nat_eq_self unsigned_take_bit_eq)

lemma encode_option_value_nibble:
  "encode_option_value v = (n, e) \<Longrightarrow> n \<le> 14"
  by (auto simp: encode_option_value_def word_le_nat_alt word_less_nat_alt unat_byte_of_u16
      split: if_splits)

lemma decode_ext_encode:
  assumes "encode_option_value v = (n, e)"
  shows "decode_ext (ucast n) (e @ rest) = Inr (v, rest)"
proof -
  consider "v < 13" | "\<not> v < 13" "v < 269" | "\<not> v < 269" by blast
  then show ?thesis
  proof cases
    case 1
    then have "ucast (ucast v :: byte) = v"
      by (intro u16_of_byte_of_u16) (simp add: word_less_nat_alt)
    with 1 assms show ?thesis by (auto simp: encode_option_value_def decode_ext_def)
  next
    case 2
    then have "ucast (ucast (v - 13) :: byte) = v - 13"
      by (intro u16_of_byte_of_u16)
        (simp add: word_less_nat_alt unat_sub_if' word_le_nat_alt)
    with 2 assms show ?thesis by (auto simp: encode_option_value_def decode_ext_def)
  next
    case 3
    then have "\<not> v < 13" by (simp add: word_less_nat_alt)
    with 3 assms show ?thesis by (auto simp: encode_option_value_def decode_ext_def be16_def)
  qed
qed

lemma decode_option_encode:
  assumes "length (opt_value opt) < 65536" and "encode_option s opt = b # bs"
  shows "b \<noteq> 0xFF \<and> decode_option s b (bs @ rest) = Inr (opt, rest)"
proof -
  obtain dn de where d: "encode_option_value (opt_number opt - s) = (dn, de)" by fastforce
  obtain ln le where l: "encode_option_value (word_of_nat (length (opt_value opt))) = (ln, le)"
    by fastforce
  have n: "dn \<le> 14" "ln \<le> 14" using d l encode_option_value_nibble by blast+
  then have n': "dn < 16" "ln < 16" by (simp_all add: word_le_nat_alt word_less_nat_alt)
  from assms(2) d l have b: "b = push_bit 4 dn OR ln" "bs = de @ le @ opt_value opt"
    by (simp_all add: encode_option_def)
  have "drop_bit 4 b AND 0x0F = dn" "b AND 0x0F = ln" "b \<noteq> 0xFF"
    unfolding b by (rule nibble_high nibble_low nibble_not_marker; fact n n')+
  then show ?thesis using assms(1)
    by (simp add: b(2) decode_option_def decode_ext_encode[OF d] decode_ext_encode[OF l]
        unat_of_nat_small16)
qed

definition option_ok :: "coap_option \<Rightarrow> bool" where
  "option_ok opt \<longleftrightarrow> length (opt_value opt) < 65536"

definition add_option ::
  "coap_option \<Rightarrow> coap_error + (coap_option list \<times> bytes) \<Rightarrow> coap_error + (coap_option list \<times> bytes)"
where
  "add_option opt r = (case r of Inl e \<Rightarrow> Inl e | Inr (opts, p) \<Rightarrow> Inr (opt # opts, p))"

interpretation options: sequence_codec encode_option "\<lambda>_. opt_number" "\<lambda>_. option_ok"
  decode_options add_option
proof
  fix s opt rest assume "option_ok opt"
  moreover obtain b bs where "encode_option s opt = b # bs"
    by (cases "encode_option s opt") (auto simp: encode_option_def split: prod.splits)
  ultimately show "decode_options s (encode_option s opt @ rest) =
      add_option opt (decode_options (opt_number opt) rest)"
    using decode_option_encode[of opt s b bs rest]
    by (simp add: decode_options.simps[of s] add_option_def option_ok_def)
qed

lemma fold_add_option: "foldr add_option opts (Inr (os, p)) = Inr (opts @ os, p)"
  by (induction opts) (simp_all add: add_option_def)

lemma decode_encode_options:
  assumes "list_all option_ok opts"
  shows "decode_options 0 (encode_options 0 opts @ (if p \<noteq> [] then 0xFF # p else [])) = Inr (opts, p)"
  using options.parse_sequence[of 0 opts] assms
  by (auto simp: encode_options_def ok_seq_stateless fold_add_option decode_options.simps)

lemma header_byte_fields:
  assumes "n \<le> 8"
  shows "drop_bit 6 (header_byte ty n) AND 3 = 1"
    and "drop_bit 4 (header_byte ty n) AND 3 = ty AND 3"
    and "header_byte ty n AND 0x0F = word_of_nat n"
proof -
  have three: "(3 :: byte) = mask 2" and fifteen: "(15 :: byte) = mask 4"
    by (simp_all add: mask_eq_exp_minus_1)
  have "(word_of_nat n :: byte) < 16"
    using assms by (simp add: word_less_nat_alt unat_of_nat take_bit_nat_eq_self)
  then have n: "take_bit 4 (word_of_nat n :: byte) = word_of_nat n" by (rule nibble_take)
  have one: "bit (1 :: byte) i \<longleftrightarrow> i = 0" for i by (simp add: bit_1_iff)
  have "drop_bit 6 (push_bit 6 1 OR push_bit 4 (ty AND mask 2) OR take_bit 4 (word_of_nat n)) AND mask 2
      = (1 :: byte)"
    by (rule bit_word_eqI) (auto simp: bit_simps one)
  then show "drop_bit 6 (header_byte ty n) AND 3 = 1"
    unfolding header_byte_def three fifteen take_bit_eq_mask[symmetric] n .
  have "drop_bit 4 (push_bit 6 1 OR push_bit 4 (ty AND mask 2) OR take_bit 4 (word_of_nat n)) AND mask 2
      = ty AND mask 2"
    by (rule bit_word_eqI) (auto simp: bit_simps one less_2_cases_iff)
  then show "drop_bit 4 (header_byte ty n) AND 3 = ty AND 3"
    unfolding header_byte_def three fifteen by (simp add: take_bit_eq_mask)
  have "take_bit 4 (push_bit 6 1 OR push_bit 4 (ty AND mask 2) OR take_bit 4 (word_of_nat n))
      = take_bit 4 (word_of_nat n :: byte)"
    by (rule bit_word_eqI) (auto simp: bit_simps one)
  then show "header_byte ty n AND 0x0F = word_of_nat n"
    unfolding header_byte_def three fifteen using n by (simp add: take_bit_eq_mask)
qed


subsection \<open>The decoder stays inside the datagram\<close>

lemma decode_option_size:
  "decode_option c b bs = Inr (opt, rest) \<Longrightarrow> length (opt_value opt) + length rest \<le> length bs"
  by (auto simp: decode_option_def Let_def split: sum.splits prod.splits if_splits
      dest!: decode_ext_shorter)

lemma decode_options_size:
  "decode_options c bs = Inr (opts, p) \<Longrightarrow>
   length p + sum_list (map (\<lambda>opt. length (opt_value opt)) opts) \<le> length bs"
proof (induction c bs arbitrary: opts p rule: decode_options.induct)
  case (1 c bs)
  show ?case
  proof (cases bs)
    case Nil
    with "1.prems" show ?thesis by (simp add: decode_options.simps)
  next
    case (Cons b rest)
    show ?thesis
    proof (cases "b = 0xFF")
      case True
      with Cons "1.prems" show ?thesis by (simp add: decode_options.simps)
    next
      case False
      with Cons "1.prems" obtain opt rest' os where
        opt: "decode_option c b rest = Inr (opt, rest')" and
        os: "decode_options (opt_number opt) rest' = Inr (os, p)" and opts: "opts = opt # os"
        by (auto simp: decode_options.simps[of c] split: sum.splits prod.splits)
      have "length p + sum_list (map (\<lambda>opt. length (opt_value opt)) os) \<le> length rest'"
        using "1.IH"[OF Cons False opt _ os] by simp
      with decode_option_size[OF opt] Cons opts show ?thesis by simp
    qed
  qed
qed

subsection \<open>Requests and status codes\<close>

lemma join_uri_path:
  "join_with (CHR ''/'') (map (string_of \<circ> opt_value) (uri_path_options path)) =
   trim_set (\<lambda>c. c = CHR ''/'') path"
  by (simp add: uri_path_options_def Let_def o_def join_split_on)

lemma uri_path_numbers: "opt \<in> set (uri_path_options path) \<Longrightarrow> opt_number opt = OptionUriPath"
  by (auto simp: uri_path_options_def Let_def split: if_splits)

lemma request_options_in_order:
  "sort_key opt_number (msg_options (new_request method path fmt payload)) =
   msg_options (new_request method path fmt payload)"
proof (rule sort_key_id_if_sorted)
  have "sorted (map opt_number (uri_path_options path))"
    by (simp add: uri_path_options_def Let_def o_def sorted_wrt_iff_nth_less)
  then show "sorted (map opt_number (msg_options (new_request method path fmt payload)))"
    using uri_path_numbers[of _ path]
    by (auto simp: new_request_def content_format_options_def sorted_append)
qed

subsection \<open>Properties\<close>

text \<open>
  C1. Decoding what \<^verbatim>\<open>Encode\<close> wrote gives the message back, with its options in
  stable order of their numbers, for every message with a two-bit type, a token of at most
  8 bytes and option values shorter than 65536 bytes.
\<close>

theorem coap_roundtrip:
  assumes "unat (msg_type m) < 4" and "length (msg_token m) \<le> 8"
    and "list_all option_ok (msg_options m)"
  shows "\<exists>raw. coap_encode m = (Inr raw, m\<lparr>msg_options := sort_key opt_number (msg_options m)\<rparr>)
    \<and> coap_decode raw = Inr (m\<lparr>msg_options := sort_key opt_number (msg_options m)\<rparr>)"
proof -
  let ?opts = "sort_key opt_number (msg_options m)"
  let ?n = "length (msg_token m)"
  let ?tail = "if msg_payload m \<noteq> [] then 0xFF # msg_payload m else []"
  let ?raw = "header_byte (msg_type m) ?n # msg_code m # be16 (message_id m) @ msg_token m @
      encode_options 0 ?opts @ ?tail"
  have "msg_type m AND 3 = take_bit 2 (msg_type m)"
    by (simp add: take_bit_eq_mask mask_eq_exp_minus_1)
  also have "\<dots> = msg_type m" using assms(1)
    by (simp add: word_unat_eq_iff unsigned_take_bit_eq take_bit_nat_eq_self)
  finally have ty: "drop_bit 4 (header_byte (msg_type m) ?n) AND 3 = msg_type m"
    using header_byte_fields(2)[OF assms(2)] by simp
  have tok: "unat (header_byte (msg_type m) ?n AND 0x0F) = ?n"
    using assms(2) header_byte_fields(3)[OF assms(2)]
    by (simp add: unat_of_nat take_bit_nat_eq_self)
  have "list_all option_ok ?opts" using assms(3) by (simp add: list_all_iff)
  from decode_encode_options[OF this]
  have opts: "decode_options 0 (encode_options 0 ?opts @ ?tail) = Inr (?opts, msg_payload m)" .
  have "coap_decode ?raw = Inr (m\<lparr>msg_options := ?opts\<rparr>)"
    using header_byte_fields(1)[OF assms(2)]
    by (simp add: coap_decode_def be16_def ty tok opts)
  then show ?thesis using assms(2) by (simp add: coap_encode_def Let_def)
qed

theorem coap_roundtrip_witness:
  "\<exists>raw. fst (coap_encode \<lparr>msg_type = 0, msg_code = 1, message_id = 101, msg_token = [0, 0, 0, 2],
        msg_options = [\<lparr>opt_number = 12, opt_value = [50]\<rparr>, \<lparr>opt_number = 11, opt_value = [112, 50]\<rparr>],
        msg_payload = [123, 125]\<rparr>) = Inr raw \<and>
    (case coap_decode raw of Inl _ \<Rightarrow> False | Inr m \<Rightarrow> map opt_number (msg_options m) = [11, 12])"
proof -
  let ?m = "\<lparr>msg_type = 0, msg_code = 1, message_id = 101, msg_token = [0, 0, 0, 2],
        msg_options = [\<lparr>opt_number = 12, opt_value = [50]\<rparr>, \<lparr>opt_number = 11, opt_value = [112, 50]\<rparr>],
        msg_payload = [123, 125]\<rparr>"
  have "sort_key opt_number (msg_options ?m) =
      [\<lparr>opt_number = 11, opt_value = [112, 50]\<rparr>, \<lparr>opt_number = 12, opt_value = [50]\<rparr>]"
    by simp
  moreover have "unat (msg_type ?m) < 4" "length (msg_token ?m) \<le> 8"
    "list_all option_ok (msg_options ?m)"
    by (simp_all add: option_ok_def)
  ultimately show ?thesis using coap_roundtrip[of ?m] by auto
qed

text \<open>
  The decoder is exact about what it refuses up front: it accepts only datagrams of
  version 1 that hold the four header bytes and the whole token, and the message it builds
  carries exactly the token bytes and the message id of the datagram.
\<close>

theorem coap_decode_sound:
  assumes "coap_decode data = Inr m"
  shows "\<exists>b0 b1 b2 b3 rest. data = b0 # b1 # b2 # b3 # rest \<and> drop_bit 6 b0 AND 3 = 1 \<and>
    msg_code m = b1 \<and> message_id m = of_be16 b2 b3 \<and>
    length (msg_token m) = unat (b0 AND 0x0F) \<and> has_prefix rest (msg_token m) \<and>
    length (msg_payload m) + sum_list (map (\<lambda>opt. length (opt_value opt)) (msg_options m)) \<le>
      length rest - length (msg_token m)"
proof -
  obtain b0 b1 b2 b3 rest where d: "data = b0 # b1 # b2 # b3 # rest"
    using assms by (auto simp: coap_decode_def split: list.splits)
  from assms d show ?thesis
    by (auto simp: coap_decode_def Let_def has_prefix_def min_def
        dest!: decode_options_size split: if_splits sum.splits prod.splits)
qed

theorem coap_decode_sound_witness:
  "\<exists>m. coap_decode [0x41, 0x45, 0x12, 0x34, 7, 0xFF, 9] = Inr m \<and> message_id m = of_be16 0x12 0x34"
proof -
  have "\<exists>m. coap_decode [0x41, 0x45, 0x12, 0x34, 7, 0xFF, 9] = Inr m"
    by (simp add: coap_decode_def decode_options.simps)
  then obtain m where m: "coap_decode [0x41, 0x45, 0x12, 0x34, 7, 0xFF, 9] = Inr m" by blast
  with coap_decode_sound[OF m] show ?thesis by auto
qed

text \<open>
  \<^verbatim>\<open>NewRequest\<close> splits the path into Uri-Path options that join back to the path
  without its leading and trailing slashes; no segment holds a slash, and the options are
  already in the order in which the encoder wants them.
\<close>

theorem new_request_path:
  "join_with (CHR ''/'') (map (string_of \<circ> opt_value)
      (filter (\<lambda>opt. opt_number opt = OptionUriPath)
        (msg_options (new_request method path fmt payload)))) =
     trim_set (\<lambda>c. c = CHR ''/'') path \<and>
   list_all (\<lambda>opt. CHR ''/'' \<notin> set (string_of (opt_value opt)))
      (filter (\<lambda>opt. opt_number opt = OptionUriPath)
        (msg_options (new_request method path fmt payload))) \<and>
   sort_key opt_number (msg_options (new_request method path fmt payload)) =
     msg_options (new_request method path fmt payload)"
proof -
  have uri: "filter (\<lambda>opt. opt_number opt = OptionUriPath)
        (msg_options (new_request method path fmt payload)) = uri_path_options path"
    using uri_path_numbers[of _ path]
    by (auto simp: new_request_def content_format_options_def filter_id_conv)
  have "list_all (\<lambda>opt. CHR ''/'' \<notin> set (string_of (opt_value opt))) (uri_path_options path)"
    by (auto simp: uri_path_options_def Let_def list_all_iff dest: split_on_no_sep)
  then show ?thesis
    unfolding uri by (simp add: join_uri_path request_options_in_order)
qed

end
