(* ===== verification/CoAP_Client.thy ===== *)
theory CoAP_Client
  imports CoAP_Proofs "HOL-Library.AList"
begin

text \<open>
  \<^verbatim>\<open>CoAPClient\<close> of \<^verbatim>\<open>pkg/nabtopure/coap.go\<close>: the map of pending requests, the
  channels (capacity 1) that carry a response to its waiter, \<^verbatim>\<open>Execute\<close>,
  \<^verbatim>\<open>HandleIncomingPacket\<close> and \<^verbatim>\<open>Close\<close>. The operations are functions on the
  client's state, cut where the code gives up a mutex; the step relation at the end runs any
  number of \<^verbatim>\<open>Execute\<close> calls, the packet reader and \<^verbatim>\<open>Close\<close> against each other at
  those cuts. The connection's \<^verbatim>\<open>Write\<close> and the passing of time are not under
  \<^verbatim>\<open>src/\<close>: a failed write and a timeout are steps that may happen at any time.
\<close>

record chan =
  chan_buf :: "coap_message option"
  chan_closed :: bool

record coap_client =
  conn_open :: bool
  msg_id_seq :: u32
  token_seq :: u32
  pending :: "(bytes \<times> nat) list"
  chans :: "nat \<Rightarrow> chan"
  next_chan :: nat

definition new_coap_client :: coap_client where
  "new_coap_client = \<lparr>conn_open = True, msg_id_seq = 100, token_seq = 1, pending = [],
     chans = (\<lambda>_. \<lparr>chan_buf = None, chan_closed = False\<rparr>), next_chan = 0\<rparr>"

subsection \<open>Execute\<close>

text \<open>
  The first half: number the request, make the response channel and enter it under the
  token.
\<close>

definition exec_register :: "coap_client \<Rightarrow> coap_message \<Rightarrow> coap_message \<times> nat \<times> coap_client" where
  "exec_register c req =
     (let mid = msg_id_seq c + 1; tok = token_seq c + 1; ch = next_chan c;
          req' = req\<lparr>message_id := ucast mid, msg_token := be32 tok\<rparr>
      in (req', ch,
          c\<lparr>msg_id_seq := mid, token_seq := tok,
            pending := AList.update (be32 tok) ch (pending c),
            chans := (chans c)(ch := \<lparr>chan_buf = None, chan_closed = False\<rparr>),
            next_chan := Suc ch\<rparr>))"

text \<open>The deferred clean-up.\<close>

definition exec_cleanup :: "bytes \<Rightarrow> coap_client \<Rightarrow> coap_client" where
  "exec_cleanup tok c = c\<lparr>pending := AList.delete tok (pending c)\<rparr>"

datatype exec_result =
    ExecOk coap_message
  | ConnectionClosed
  | EncodeFailed coap_error
  | SendFailed
  | RequestAborted
  | RequestTimedOut

text \<open>What the \<^verbatim>\<open>select\<close> reads from the channel: None when it would block.\<close>

definition chan_recv :: "chan \<Rightarrow> (exec_result \<times> chan) option" where
  "chan_recv ch =
     (case chan_buf ch of
        Some m \<Rightarrow> Some (ExecOk m, ch\<lparr>chan_buf := None\<rparr>)
      | None \<Rightarrow> if chan_closed ch then Some (RequestAborted, ch) else None)"

subsection \<open>HandleIncomingPacket and Close\<close>

datatype lookup =
    DecodeError coap_error
  | Unmatched coap_message
  | Matched nat coap_message

definition lookup_waiter :: "coap_client \<Rightarrow> bytes \<Rightarrow> lookup" where
  "lookup_waiter c raw =
     (case coap_decode raw of
        Inl e \<Rightarrow> DecodeError e
      | Inr resp \<Rightarrow>
          (case map_of (pending c) (msg_token resp) of
             None \<Rightarrow> Unmatched resp
           | Some ch \<Rightarrow> Matched ch resp))"

text \<open>
  The non-blocking send: dropped when the buffer is full; a send on a closed channel
  panics, also under \<^verbatim>\<open>select\<close> with a default branch (None).
\<close>

definition chan_send :: "nat \<Rightarrow> coap_message \<Rightarrow> coap_client \<Rightarrow> coap_client option" where
  "chan_send ch m c =
     (if chan_closed (chans c ch) then None
      else if chan_buf (chans c ch) = None
        then Some (c\<lparr>chans := (chans c)(ch := (chans c ch)\<lparr>chan_buf := Some m\<rparr>)\<rparr>)
      else Some c)"

definition handle_incoming :: "bytes \<Rightarrow> coap_client \<Rightarrow> coap_client option" where
  "handle_incoming raw c =
     (case lookup_waiter c raw of
        Matched ch m \<Rightarrow> chan_send ch m c
      | _ \<Rightarrow> Some c)"

definition close_pending :: "coap_client \<Rightarrow> coap_client" where
  "close_pending c =
     c\<lparr>chans := (\<lambda>ch. if ch \<in> snd ` set (pending c)
                      then (chans c ch)\<lparr>chan_closed := True\<rparr> else chans c ch),
       pending := []\<rparr>"

definition close_conn :: "coap_client \<Rightarrow> coap_client" where
  "close_conn c = c\<lparr>conn_open := False\<rparr>"

definition coap_close :: "coap_client \<Rightarrow> coap_client" where
  "coap_close c = close_conn (close_pending c)"

subsection \<open>Calls, the reader and Close together\<close>

datatype call =
    NotStarted
  | Connected coap_message
  | Registered coap_message nat
  | Waiting coap_message nat
  | Returned "coap_message option" exec_result

datatype reader = Idle | Sending nat coap_message

record coap_sys =
  client :: coap_client
  calls :: "nat \<Rightarrow> call"
  reader :: reader
  panicked :: bool

definition init_sys :: coap_sys where
  "init_sys = \<lparr>client = new_coap_client, calls = (\<lambda>_. NotStarted), reader = Idle, panicked = False\<rparr>"

inductive coap_step :: "coap_sys \<Rightarrow> coap_sys \<Rightarrow> bool" where
  exec_closed: "calls s i = NotStarted \<Longrightarrow> \<not> conn_open (client s) \<Longrightarrow>
    coap_step s (s\<lparr>calls := (calls s)(i := Returned None ConnectionClosed)\<rparr>)"
| exec_open: "calls s i = NotStarted \<Longrightarrow> conn_open (client s) \<Longrightarrow>
    coap_step s (s\<lparr>calls := (calls s)(i := Connected req)\<rparr>)"
| exec_reg: "calls s i = Connected req \<Longrightarrow> exec_register (client s) req = (req', ch, c) \<Longrightarrow>
    coap_step s (s\<lparr>client := c, calls := (calls s)(i := Registered req' ch)\<rparr>)"
| exec_encode_fails: "calls s i = Registered req ch \<Longrightarrow> fst (coap_encode req) = Inl e \<Longrightarrow>
    coap_step s (s\<lparr>client := exec_cleanup (msg_token req) (client s),
                   calls := (calls s)(i := Returned (Some req) (EncodeFailed e))\<rparr>)"
| exec_send: "calls s i = Registered req ch \<Longrightarrow> coap_encode req = (Inr raw, req') \<Longrightarrow>
    coap_step s (s\<lparr>calls := (calls s)(i := Waiting req' ch)\<rparr>)"
| exec_send_fails: "calls s i = Registered req ch \<Longrightarrow> coap_encode req = (Inr raw, req') \<Longrightarrow>
    coap_step s (s\<lparr>client := exec_cleanup (msg_token req) (client s),
                   calls := (calls s)(i := Returned (Some req') SendFailed)\<rparr>)"
| exec_recv: "calls s i = Waiting req ch \<Longrightarrow> chan_recv (chans (client s) ch) = Some (r, ch') \<Longrightarrow>
    coap_step s (s\<lparr>client := exec_cleanup (msg_token req)
                     ((client s)\<lparr>chans := (chans (client s))(ch := ch')\<rparr>),
                   calls := (calls s)(i := Returned (Some req) r)\<rparr>)"
| exec_timeout: "calls s i = Waiting req ch \<Longrightarrow>
    coap_step s (s\<lparr>client := exec_cleanup (msg_token req) (client s),
                   calls := (calls s)(i := Returned (Some req) RequestTimedOut)\<rparr>)"
| read_matched: "reader s = Idle \<Longrightarrow> lookup_waiter (client s) raw = Matched ch m \<Longrightarrow>
    coap_step s (s\<lparr>reader := Sending ch m\<rparr>)"
| read_send: "reader s = Sending ch m \<Longrightarrow> chan_send ch m (client s) = Some c \<Longrightarrow>
    coap_step s (s\<lparr>client := c, reader := Idle\<rparr>)"
| read_panic: "reader s = Sending ch m \<Longrightarrow> chan_send ch m (client s) = None \<Longrightarrow>
    coap_step s (s\<lparr>panicked := True\<rparr>)"
| close_p: "coap_step s (s\<lparr>client := close_pending (client s)\<rparr>)"
| close_c: "coap_step s (s\<lparr>client := close_conn (client s)\<rparr>)"

inductive coap_reachable :: "coap_sys \<Rightarrow> bool" where
  start: "coap_reachable init_sys"
| step: "coap_reachable s \<Longrightarrow> coap_step s t \<Longrightarrow> coap_reachable t"

end
