(* ===== verification/CoAP_Client_Proofs.thy ===== *)
theory CoAP_Client_Proofs
  imports CoAP_Client
begin

text \<open>
  The invariant of the CoAP client under every interleaving of calls, reader and
  \<^verbatim>\<open>Close\<close>: who owns which channel (\<open>owned\<close>), that a pending entry belongs to a
  running call and its channel is open (\<open>pending_live\<close>), that what is buffered or being
  sent carries the owner's token (\<open>routed\<close>) and that what a call has returned is its own
  response (\<open>answered\<close>). Then the properties, and the one way the client can crash.
\<close>

subsection \<open>The invariant\<close>

definition call_chan :: "call \<Rightarrow> (bytes \<times> nat) option" where
  "call_chan c = (case c of Registered req ch \<Rightarrow> Some (msg_token req, ch)
     | Waiting req ch \<Rightarrow> Some (msg_token req, ch) | _ \<Rightarrow> None)"

lemma call_chan_simps [simp]:
  "call_chan NotStarted = None" "call_chan (Connected req) = None"
  "call_chan (Registered req ch) = Some (msg_token req, ch)"
  "call_chan (Waiting req ch) = Some (msg_token req, ch)"
  "call_chan (Returned req' r) = None"
  by (simp_all add: call_chan_def)

definition owned :: "coap_sys \<Rightarrow> bool" where
  "owned s \<longleftrightarrow>
     (\<forall>i j t t' ch. call_chan (calls s i) = Some (t, ch) \<longrightarrow>
        call_chan (calls s j) = Some (t', ch) \<longrightarrow> i = j) \<and>
     (\<forall>i t ch. call_chan (calls s i) = Some (t, ch) \<longrightarrow> ch < next_chan (client s) \<and> length t = 4)"

definition pending_live :: "coap_sys \<Rightarrow> bool" where
  "pending_live s \<longleftrightarrow>
     (\<forall>p \<in> set (pending (client s)). (\<exists>i. call_chan (calls s i) = Some p) \<and>
        \<not> chan_closed (chans (client s) (snd p)))"

definition routed :: "coap_sys \<Rightarrow> bool" where
  "routed s \<longleftrightarrow>
     (\<forall>i t ch m. call_chan (calls s i) = Some (t, ch) \<longrightarrow>
        chan_buf (chans (client s) ch) = Some m \<longrightarrow> msg_token m = t) \<and>
     (\<forall>i t ch m. call_chan (calls s i) = Some (t, ch) \<longrightarrow> reader s = Sending ch m \<longrightarrow> msg_token m = t) \<and>
     (\<forall>ch m. reader s = Sending ch m \<longrightarrow> ch < next_chan (client s))"

text \<open>What a returned call may say.\<close>

definition good_result :: "coap_message option \<Rightarrow> exec_result \<Rightarrow> bool" where
  "good_result req r = (case r of ExecOk m \<Rightarrow> (\<exists>q. req = Some q \<and> msg_token q = msg_token m)
     | EncodeFailed e \<Rightarrow> False | _ \<Rightarrow> True)"

definition answered :: "coap_sys \<Rightarrow> bool" where
  "answered s \<longleftrightarrow>
     (\<forall>i req r. calls s i = Returned req r \<longrightarrow>
        good_result req r)"

definition coap_inv :: "coap_sys \<Rightarrow> bool" where
  "coap_inv s \<longleftrightarrow> owned s \<and> pending_live s \<and> routed s \<and> answered s"

lemmas coap_inv_defs = coap_inv_def owned_def pending_live_def routed_def answered_def

lemma coap_inv_init: "coap_inv init_sys"
  by (simp add: coap_inv_defs init_sys_def new_coap_client_def)

lemma exec_register_fields:
  assumes "exec_register c req = (req', ch, c')"
  shows "ch = next_chan c" "next_chan c' = Suc (next_chan c)" "length (msg_token req') = 4"
    "pending c' = AList.update (msg_token req') ch (pending c)"
    "chans c' = (chans c)(ch := \<lparr>chan_buf = None, chan_closed = False\<rparr>)"
  using assms by (auto simp: exec_register_def Let_def)

lemma coap_encode_token: "coap_encode m = (Inr raw, m') \<Longrightarrow> msg_token m' = msg_token m"
  by (auto simp: coap_encode_def Let_def split: if_splits)

lemma coap_encode_fails: "fst (coap_encode m) = Inl e \<Longrightarrow> 8 < length (msg_token m)"
  by (auto simp: coap_encode_def Let_def split: if_splits)

lemma set_update_subset: "p \<in> set (AList.update k v xs) \<Longrightarrow> p = (k, v) \<or> p \<in> set xs"
  by (induction xs) (auto split: if_splits)

lemma pending_cleanup: "set (pending (exec_cleanup t c)) \<subseteq> {p \<in> set (pending c). fst p \<noteq> t}"
  by (auto simp: exec_cleanup_def AList.delete_eq)

lemma exec_cleanup_fields [simp]:
  "chans (exec_cleanup t c) = chans c" "next_chan (exec_cleanup t c) = next_chan c"
  "conn_open (exec_cleanup t c) = conn_open c"
  by (simp_all add: exec_cleanup_def)

lemma close_fields [simp]:
  "pending (close_pending c) = []" "next_chan (close_pending c) = next_chan c"
  "chan_buf (chans (close_pending c) ch) = chan_buf (chans c ch)"
  "pending (close_conn c) = pending c" "next_chan (close_conn c) = next_chan c"
  "chans (close_conn c) = chans c"
  by (simp_all add: close_pending_def close_conn_def)

lemma chan_send_fields:
  assumes "chan_send ch m c = Some c'"
  shows "pending c' = pending c" "next_chan c' = next_chan c"
    "chan_closed (chans c' x) = chan_closed (chans c x)"
    "chan_buf (chans c' x) = Some k \<Longrightarrow> chan_buf (chans c x) = Some k \<or> x = ch \<and> k = m"
  using assms by (auto simp: chan_send_def split: if_splits)

lemma lookup_matched:
  "lookup_waiter c raw = Matched ch m \<Longrightarrow> (msg_token m, ch) \<in> set (pending c)"
  by (auto simp: lookup_waiter_def split: sum.splits option.splits dest: map_of_SomeD)

lemma same_chan_call:
  assumes inv: "coap_inv s" and same: "call_chan d = call_chan (calls s i)"
    and d: "\<And>req r. d = Returned req r \<Longrightarrow> good_result req r"
  shows "coap_inv (s\<lparr>calls := (calls s)(i := d)\<rparr>)"
proof -
  have eq: "call_chan (((calls s)(i := d)) j) = call_chan (calls s j)" for j
    using same by simp
  have "answered (s\<lparr>calls := (calls s)(i := d)\<rparr>)"
    using inv d by (auto simp: coap_inv_def answered_def good_result_def)
  then show ?thesis using inv
    by (simp add: coap_inv_def owned_def pending_live_def routed_def eq del: fun_upd_apply)
qed

text \<open>A call that leaves \<open>Registered\<close> or \<open>Waiting\<close> with its entry cleaned up.\<close>

lemma finish_call:
  assumes inv: "coap_inv s" and call: "call_chan (calls s i) = Some (t, ch)"
    and r: "good_result req r"
    and cl: "\<And>p. p \<in> set (pending c) \<Longrightarrow> p \<in> set (pending (client s)) \<and> fst p \<noteq> t"
    and nx: "next_chan c = next_chan (client s)"
    and chn: "\<And>x. x \<noteq> ch \<Longrightarrow> chans c x = chans (client s) x"
  shows "coap_inv (s\<lparr>client := c, calls := (calls s)(i := Returned req r)\<rparr>)"
proof -
  have "owned (s\<lparr>client := c, calls := (calls s)(i := Returned req r)\<rparr>)"
    using inv nx by (auto simp: coap_inv_defs)
  moreover have "pending_live (s\<lparr>client := c, calls := (calls s)(i := Returned req r)\<rparr>)"
    unfolding pending_live_def
  proof
    fix p assume p: "p \<in> set (pending (client (s\<lparr>client := c, calls := (calls s)(i := Returned req r)\<rparr>)))"
    then have p': "p \<in> set (pending (client s))" "fst p \<noteq> t" using cl by auto
    then obtain j where j: "call_chan (calls s j) = Some p" and open_p: "\<not> chan_closed (chans (client s) (snd p))"
      using inv by (auto simp: coap_inv_def pending_live_def)
    then have "j \<noteq> i" using call p' by auto
    moreover have "snd p \<noteq> ch"
      using inv j call \<open>j \<noteq> i\<close> by (cases p) (fastforce simp: coap_inv_def owned_def)
    ultimately show "(\<exists>ia. call_chan (calls (s\<lparr>client := c, calls := (calls s)(i := Returned req r)\<rparr>) ia) = Some p) \<and>
        \<not> chan_closed (chans (client (s\<lparr>client := c, calls := (calls s)(i := Returned req r)\<rparr>)) (snd p))"
      using j open_p chn by (auto intro!: exI[of _ j])
  qed
  moreover have "routed (s\<lparr>client := c, calls := (calls s)(i := Returned req r)\<rparr>)"
  proof -
    have "x \<noteq> ch" if "j \<noteq> i" "call_chan (calls s j) = Some (u, x)" for j u x
      using inv that call by (auto simp: coap_inv_def owned_def)
    then show ?thesis using inv nx chn by (auto simp: coap_inv_def routed_def)
  qed
  moreover have "answered (s\<lparr>client := c, calls := (calls s)(i := Returned req r)\<rparr>)"
    using inv r by (auto simp: coap_inv_def answered_def)
  ultimately show ?thesis by (simp add: coap_inv_def)
qed

lemma coap_step_inv: "coap_step s s' \<Longrightarrow> coap_inv s \<Longrightarrow> coap_inv s'"
proof (induction rule: coap_step.induct)
  case (exec_closed s i)
  then show ?case by (auto intro!: same_chan_call simp: good_result_def)
next
  case (exec_open s i req)
  then show ?case by (auto intro!: same_chan_call)
next
  case (exec_reg s i req req' ch c)
  note f = exec_register_fields[OF exec_reg.hyps(2)]
  have free: "\<And>j t x. call_chan (calls s j) = Some (t, x) \<Longrightarrow> x \<noteq> ch"
    using exec_reg.prems f(1) by (fastforce simp: coap_inv_def owned_def)
  have "owned (s\<lparr>client := c, calls := (calls s)(i := Registered req' ch)\<rparr>)"
    using exec_reg.prems f free by (auto simp: coap_inv_def owned_def less_SucI)
  moreover have "pending_live (s\<lparr>client := c, calls := (calls s)(i := Registered req' ch)\<rparr>)"
    unfolding pending_live_def
  proof
    fix p assume "p \<in> set (pending (client (s\<lparr>client := c, calls := (calls s)(i := Registered req' ch)\<rparr>)))"
    then have "p = (msg_token req', ch) \<or> p \<in> set (pending (client s))"
      using f(4) by (auto dest: set_update_subset)
    then show "(\<exists>ia. call_chan (calls (s\<lparr>client := c, calls := (calls s)(i := Registered req' ch)\<rparr>) ia) = Some p) \<and>
        \<not> chan_closed (chans (client (s\<lparr>client := c, calls := (calls s)(i := Registered req' ch)\<rparr>)) (snd p))"
    proof
      assume "p = (msg_token req', ch)"
      then show ?thesis using f(5) by (auto intro!: exI[of _ i])
    next
      assume p: "p \<in> set (pending (client s))"
      then obtain j where j: "call_chan (calls s j) = Some p" "\<not> chan_closed (chans (client s) (snd p))"
        using exec_reg.prems by (auto simp: coap_inv_def pending_live_def)
      then have "j \<noteq> i" using exec_reg.hyps(1) by auto
      then show ?thesis using j f(5) free[of j "fst p" "snd p"] by (auto intro!: exI[of _ j])
    qed
  qed
  moreover have "routed (s\<lparr>client := c, calls := (calls s)(i := Registered req' ch)\<rparr>)"
    using exec_reg.prems f free by (auto simp: coap_inv_def routed_def less_SucI)
  moreover have "answered (s\<lparr>client := c, calls := (calls s)(i := Registered req' ch)\<rparr>)"
    using exec_reg.prems by (auto simp: coap_inv_def answered_def)
  ultimately show ?case by (simp add: coap_inv_def)
next
  case (exec_encode_fails s i req ch e)
  then have "call_chan (calls s i) = Some (msg_token req, ch)" by simp
  with exec_encode_fails.prems have "length (msg_token req) = 4"
    unfolding coap_inv_def owned_def by blast
  with coap_encode_fails[OF exec_encode_fails.hyps(2)] show ?case by simp
next
  case (exec_send s i req ch raw req')
  have "call_chan (Waiting req' ch) = call_chan (calls s i)"
    using exec_send.hyps coap_encode_token by simp
  with exec_send.prems show ?case by (auto intro!: same_chan_call)
next
  case (exec_send_fails s i req ch raw req')
  then show ?case using pending_cleanup
    by (intro finish_call[where t = "msg_token req" and ch = ch]) (auto simp: good_result_def)
next
  case (exec_recv s i req ch r ch')
  from exec_recv.hyps(1) have call: "call_chan (calls s i) = Some (msg_token req, ch)" by simp
  have "msg_token m = msg_token req" if "chan_buf (chans (client s) ch) = Some m" for m
    using exec_recv.prems call that unfolding coap_inv_def routed_def by blast
  then have "good_result (Some req) r" using exec_recv.hyps(2)
    by (auto simp: good_result_def chan_recv_def split: option.splits if_splits)
  with exec_recv.prems call show ?case
    by (rule finish_call) (use pending_cleanup in \<open>fastforce+\<close>)
next
  case (exec_timeout s i req ch)
  then show ?case using pending_cleanup
    by (intro finish_call[where t = "msg_token req" and ch = ch]) (auto simp: good_result_def)
next
  case (read_matched s raw ch m)
  note mem = lookup_matched[OF read_matched.hyps(2)]
  then obtain i where "call_chan (calls s i) = Some (msg_token m, ch)"
    using read_matched.prems by (auto simp: coap_inv_def pending_live_def)
  then have "ch < next_chan (client s)"
    "\<And>j t. call_chan (calls s j) = Some (t, ch) \<Longrightarrow> msg_token m = t"
    using read_matched.prems unfolding coap_inv_def owned_def by (blast, fastforce)
  then show ?case using read_matched.prems
    by (simp add: coap_inv_defs) 
next
  case (read_send s ch m c)
  note f = chan_send_fields[OF read_send.hyps(2)]
  have "routed (s\<lparr>client := c, reader := Idle\<rparr>)"
    using read_send f(4) unfolding coap_inv_def routed_def by fastforce
  then show ?case using read_send.prems f(1-3)
    by (simp add: coap_inv_def owned_def pending_live_def answered_def)
next
  case (read_panic s ch m)
  then show ?case by (simp add: coap_inv_defs)
next
  case (close_p s)
  then show ?case by (simp add: coap_inv_defs)
next
  case (close_c s)
  then show ?case by (simp add: coap_inv_defs)
qed


lemma coap_reachable_inv: "coap_reachable s \<Longrightarrow> coap_inv s"
  by (induction rule: coap_reachable.induct) (auto intro: coap_inv_init coap_step_inv)

lemma handle_incoming_total:
  assumes "coap_reachable s"
  shows "handle_incoming raw (client s) \<noteq> None"
proof -
  have "pending_live s" using coap_reachable_inv[OF assms] by (simp add: coap_inv_def)
  then have "\<not> chan_closed (chans (client s) ch)" if "lookup_waiter (client s) raw = Matched ch m" for ch m
    using lookup_matched[OF that] unfolding pending_live_def by fastforce
  then show ?thesis
    by (cases "lookup_waiter (client s) raw") (simp_all add: handle_incoming_def chan_send_def)
qed

text \<open>Consecutive requests carry different tokens until the 32-bit counter has gone round.\<close>

lemma be32_inject:
  assumes "be32 v = be32 w"
  shows "v = w"
proof -
  from assms have "ucast (drop_bit 24 v) = (ucast (drop_bit 24 w) :: byte)"
    "ucast (drop_bit 16 v) = (ucast (drop_bit 16 w) :: byte)"
    "ucast (drop_bit 8 v) = (ucast (drop_bit 8 w) :: byte)" "ucast v = (ucast w :: byte)"
    unfolding be32_def by (simp_all only: list.inject)
  then have "of_be32 (ucast (drop_bit 24 v)) (ucast (drop_bit 16 v)) (ucast (drop_bit 8 v)) (ucast v)
      = of_be32 (ucast (drop_bit 24 w)) (ucast (drop_bit 16 w)) (ucast (drop_bit 8 w)) (ucast w)"
    by (simp only:)
  then show "v = w" by (simp only: of_be32_be32)
qed

fun register_many :: "coap_message list \<Rightarrow> coap_client \<Rightarrow> bytes list \<times> coap_client" where
  "register_many [] c = ([], c)"
| "register_many (r # rs) c =
     (let (r', ch, c') = exec_register c r; (ts, c'') = register_many rs c'
      in (msg_token r' # ts, c''))"

lemma register_many_tokens:
  "fst (register_many rs c) = map (\<lambda>k. be32 (token_seq c + 1 + word_of_nat k)) [0..<length rs]"
proof (induction rs arbitrary: c)
  case (Cons r rs)
  obtain r' ch c' where e: "exec_register c r = (r', ch, c')"
    by (cases "exec_register c r") auto
  then have f: "msg_token r' = be32 (token_seq c + 1)" "token_seq c' = token_seq c + 1"
    by (auto simp: exec_register_def Let_def)
  have "fst (register_many (r # rs) c) = be32 (token_seq c + 1) # fst (register_many rs c')"
    by (simp add: e f split: prod.split)
  also have "\<dots> = map (\<lambda>k. be32 (token_seq c + 1 + word_of_nat k)) (0 # map Suc [0..<length rs])"
    by (simp add: Cons f o_def add_ac)
  also have "0 # map Suc [0..<length rs] = [0..<length (r # rs)]"
    by (simp add: map_Suc_upt upt_conv_Cons del: upt_Suc)
  finally show ?case .
qed simp

subsection \<open>A run: one request, answered\<close>

definition ex_request :: coap_message where
  "ex_request = new_request 1 ''p2p'' 0 []"

definition ex_response :: coap_message where
  "ex_response = \<lparr>msg_type = 2, msg_code = 0x45, message_id = 101, msg_token = be32 2,
     msg_options = [], msg_payload = []\<rparr>"

lemma ex_response_wire: "\<exists>raw. coap_decode raw = Inr ex_response"
  by (rule exI[of _ "[0x64, 0x45, 0, 101, 0, 0, 0, 2]"])
    (simp add: coap_decode_def ex_response_def decode_options.simps be32_def of_be16_def)

lemma ex_registered:
  obtains s ch where "coap_reachable s" "reader s = Idle" "\<not> panicked s"
    "calls s 0 = Registered (ex_request\<lparr>message_id := 101, msg_token := be32 2\<rparr>) ch"
    "pending (client s) = [(be32 2, ch)]" "chans (client s) ch = \<lparr>chan_buf = None, chan_closed = False\<rparr>"
proof -
  let ?s1 = "init_sys\<lparr>calls := (calls init_sys)(0 := Connected ex_request)\<rparr>"
  have s1: "coap_reachable ?s1"
    by (rule coap_reachable.step[OF coap_reachable.start], rule coap_step.exec_open)
      (simp_all add: init_sys_def new_coap_client_def)
  obtain req' ch c where r: "exec_register new_coap_client ex_request = (req', ch, c)"
    by (cases "exec_register new_coap_client ex_request") auto
  let ?s2 = "?s1\<lparr>client := c, calls := (calls ?s1)(0 := Registered req' ch)\<rparr>"
  have s2: "coap_reachable ?s2"
    by (rule coap_reachable.step[OF s1], rule coap_step.exec_reg[where req = ex_request])
      (simp_all add: r init_sys_def)
  from s2 show thesis
    by (rule that[of ?s2 ch])
      (use r in \<open>auto simp: init_sys_def exec_register_def new_coap_client_def Let_def\<close>)
qed

lemma ex_answered:
  obtains s q where "coap_reachable s" "calls s 0 = Returned (Some q) (ExecOk ex_response)"
proof -
  obtain raw where raw: "coap_decode raw = Inr ex_response" using ex_response_wire by blast
  obtain s ch where s: "coap_reachable s" "reader s = Idle"
    "calls s 0 = Registered (ex_request\<lparr>message_id := 101, msg_token := be32 2\<rparr>) ch"
    "pending (client s) = [(be32 2, ch)]" "chans (client s) ch = \<lparr>chan_buf = None, chan_closed = False\<rparr>"
    by (rule ex_registered)
  obtain w q where e: "coap_encode (ex_request\<lparr>message_id := 101, msg_token := be32 2\<rparr>) = (Inr w, q)"
    by (simp add: coap_encode_def Let_def)
  let ?s1 = "s\<lparr>calls := (calls s)(0 := Waiting q ch)\<rparr>"
  have s1: "coap_reachable ?s1"
    by (rule coap_reachable.step[OF s(1)], rule coap_step.exec_send) (fact s e)+
  let ?s2 = "?s1\<lparr>reader := Sending ch ex_response\<rparr>"
  have s2: "coap_reachable ?s2"
    by (rule coap_reachable.step[OF s1], rule coap_step.read_matched[where raw = raw])
      (simp_all add: lookup_waiter_def raw s, simp add: ex_response_def s)
  let ?c = "(client s)\<lparr>chans := (chans (client s))(ch := \<lparr>chan_buf = Some ex_response, chan_closed = False\<rparr>)\<rparr>"
  let ?s3 = "?s2\<lparr>client := ?c, reader := Idle\<rparr>"
  have s3: "coap_reachable ?s3"
    by (rule coap_reachable.step[OF s2], rule coap_step.read_send[where ch = ch and m = ex_response])
      (simp_all add: chan_send_def s)
  have "coap_step ?s3 (?s3\<lparr>client := exec_cleanup (msg_token q)
        ((client ?s3)\<lparr>chans := (chans (client ?s3))(ch := \<lparr>chan_buf = None, chan_closed = False\<rparr>)\<rparr>),
      calls := (calls ?s3)(0 := Returned (Some q) (ExecOk ex_response))\<rparr>)"
    by (rule coap_step.exec_recv) (simp_all add: chan_recv_def)
  from coap_reachable.step[OF s3 this] show thesis by (rule that) simp
qed

subsection \<open>Properties\<close>

text \<open>
  C2. Under every interleaving of concurrent requests, the packet reader and
  \<^verbatim>\<open>Close\<close>, a response that \<^verbatim>\<open>Execute\<close> returns carries the token of the request
  that this very call sent: responses are never swapped between callers.
\<close>

theorem execute_gets_own_response:
  assumes "coap_reachable s" and "calls s i = Returned req (ExecOk m)"
  shows "\<exists>q. req = Some q \<and> msg_token m = msg_token q"
  using coap_reachable_inv[OF assms(1)] assms(2)
  by (fastforce simp: coap_inv_def answered_def good_result_def)

theorem execute_gets_own_response_witness:
  "\<exists>s q. coap_reachable s \<and> calls s 0 = Returned (Some q) (ExecOk ex_response) \<and>
     msg_token ex_response = msg_token q"
proof -
  obtain s q where s: "coap_reachable s" "calls s 0 = Returned (Some q) (ExecOk ex_response)"
    by (rule ex_answered)
  with execute_gets_own_response[OF s] show ?thesis by auto
qed

text \<open>
  In every reachable state, routing a whole incoming packet in one go never sends on a
  closed channel: the channel found under a pending token is open.
\<close>

theorem handle_incoming_safe:
  assumes "coap_reachable s"
  shows "handle_incoming raw (client s) \<noteq> None"
  using assms by (rule handle_incoming_total)

theorem handle_incoming_safe_witness: "handle_incoming [] (client init_sys) \<noteq> None"
  by (rule handle_incoming_safe) (rule coap_reachable.start)

text \<open>
  But \<^verbatim>\<open>HandleIncomingPacket\<close> gives up \<^verbatim>\<open>pendingMu\<close> between its lookup and its
  send: with \<^verbatim>\<open>Close\<close> in between the send hits a closed channel and the process
  panics. Such a run exists.
\<close>

theorem handle_close_race: "\<exists>s. coap_reachable s \<and> panicked s"
proof -
  obtain raw where raw: "coap_decode raw = Inr ex_response" using ex_response_wire by blast
  obtain s ch where s: "coap_reachable s" "reader s = Idle" "pending (client s) = [(be32 2, ch)]"
    by (rule ex_registered)
  let ?s1 = "s\<lparr>reader := Sending ch ex_response\<rparr>"
  have s1: "coap_reachable ?s1"
    by (rule coap_reachable.step[OF s(1)], rule coap_step.read_matched[where raw = raw])
      (simp_all add: lookup_waiter_def raw s, simp add: ex_response_def s)
  let ?s2 = "?s1\<lparr>client := close_pending (client ?s1)\<rparr>"
  have s2: "coap_reachable ?s2" by (rule coap_reachable.step[OF s1], rule coap_step.close_p)
  have "coap_step ?s2 (?s2\<lparr>panicked := True\<rparr>)"
    by (rule coap_step.read_panic[where ch = ch and m = ex_response])
      (simp_all add: chan_send_def close_pending_def s)
  from coap_reachable.step[OF s2 this] show ?thesis by fastforce
qed

text \<open>
  Any run of up to $2^{32}$ consecutive requests gives them pairwise different tokens.
\<close>

theorem tokens_distinct:
  assumes "length rs \<le> 2 ^ 32"
  shows "distinct (fst (register_many rs c))"
  unfolding register_many_tokens distinct_map
proof
  show "inj_on (\<lambda>k. be32 (token_seq c + 1 + word_of_nat k)) (set [0..<length rs])"
  proof (rule inj_onI)
    fix a b assume "a \<in> set [0..<length rs]" "b \<in> set [0..<length rs]"
      "be32 (token_seq c + 1 + word_of_nat a) = be32 (token_seq c + 1 + word_of_nat b)"
    then have "unat (word_of_nat a :: u32) = unat (word_of_nat b :: u32)"
      by (auto dest: be32_inject)
    moreover have "a < 2 ^ 32" "b < 2 ^ 32"
      using \<open>a \<in> _\<close> \<open>b \<in> _\<close> assms by auto
    ultimately show "a = b" by (simp add: unat_of_nat_small32)
  qed
qed simp


theorem tokens_distinct_witness:
  "distinct (fst (register_many [ex_request, ex_request] new_coap_client))"
  by (rule tokens_distinct) simp

end
