(* ===== verification/Nabto_Stream.thy ===== *)
theory Nabto_Stream
  imports Go_Strings
begin

text \<open>
  The virtual stream of \<^verbatim>\<open>pkg/nabtopure/stream.go\<close>: variable-length integers, stream
  packets and their extensions, the SYN handshake of \<^verbatim>\<open>Open\<close>, and the length-prefixed
  messages of \<^verbatim>\<open>ReadMsg\<close> and \<^verbatim>\<open>WriteMsg\<close>. What the code waits for in a
  \<^verbatim>\<open>select\<close> is a list of events; every packet it builds takes the clock's value as an
  argument; whether a write on the DTLS connection succeeded is an argument too.
\<close>

subsection \<open>Variable-length integers\<close>

definition write_var_uint :: "u64 \<Rightarrow> bytes" where
  "write_var_uint val =
     (if val < 2 ^ 6 then [ucast val]
      else if val < 2 ^ 14 then be16 (ucast val OR push_bit 14 1)
      else if val < 2 ^ 30 then be32 (ucast val OR push_bit 30 2)
      else [])"

definition read_var_uint :: "bytes \<Rightarrow> u64 \<times> nat" where
  "read_var_uint buf =
     (case buf of
        [] \<Rightarrow> (0, 0)
      | first # rest \<Rightarrow>
          (let tag = drop_bit 6 first in
           if tag = 0 then (ucast (first AND 0x3F), 1)
           else if tag = 1 then
             (case rest of b1 # _ \<Rightarrow> (ucast (of_be16 first b1 AND 0x3FFF), 2) | _ \<Rightarrow> (0, 0))
           else if tag = 2 then
             (case rest of
                b1 # b2 # b3 # _ \<Rightarrow> (ucast (of_be32 first b1 b2 b3 AND 0x3FFFFFFF), 4)
              | _ \<Rightarrow> (0, 0))
           else (0, 1)))"

subsection \<open>Extensions and packets\<close>

abbreviation StreamAppDataType :: byte where "StreamAppDataType \<equiv> 0x05"
abbreviation FlagACK :: byte where "FlagACK \<equiv> 0x10"
abbreviation FlagSYN :: byte where "FlagSYN \<equiv> 0x80"
abbreviation ExtSegmentSizes :: u16 where "ExtSegmentSizes \<equiv> 0x1000"
abbreviation ExtACK :: u16 where "ExtACK \<equiv> 0x1001"
abbreviation ExtDATA :: u16 where "ExtDATA \<equiv> 0x1002"
abbreviation ExtContentType :: u16 where "ExtContentType \<equiv> 0x1003"
abbreviation ExtSYN :: u16 where "ExtSYN \<equiv> 0x1006"
abbreviation ExtNonce :: u16 where "ExtNonce \<equiv> 0x1007"
abbreviation ExtNonceResponse :: u16 where "ExtNonceResponse \<equiv> 0x1008"

record stream_header =
  flags :: byte
  timestamp_value :: u32

record extension =
  ext_type :: u16
  ext_data :: bytes

record stream =
  stream_id :: u64
  port :: u32
  client_seq :: u32
  server_seq :: u32
  server_ts :: u32
  max_send_segment_size :: u16
  nonce :: bytes
  send_nonce :: bool
  established :: bool
  closed :: bool
  read_buf :: bytes
  incoming :: "bytes list"

definition new_stream :: "u64 \<Rightarrow> u32 \<Rightarrow> stream" where
  "new_stream sid p = \<lparr>stream_id = sid, port = p, client_seq = 1, server_seq = 0, server_ts = 0,
     max_send_segment_size = 256, nonce = replicate 8 0, send_nonce = False, established = False,
     closed = False, read_buf = [], incoming = []\<rparr>"

text \<open>The dispatcher's hand-over: the channel holds 100 packets, more are dropped.\<close>

definition stream_enqueue :: "bytes \<Rightarrow> stream \<Rightarrow> stream" where
  "stream_enqueue raw s =
     (if length (incoming s) < 100 then s\<lparr>incoming := incoming s @ [raw]\<rparr> else s)"

definition ext_uint32 :: "u16 \<Rightarrow> u32 \<Rightarrow> bytes" where
  "ext_uint32 ty val = be16 ty @ be16 4 @ be32 val"

definition ext_uint16_pair :: "u16 \<Rightarrow> u16 \<Rightarrow> u16 \<Rightarrow> bytes" where
  "ext_uint16_pair ty v1 v2 = be16 ty @ be16 4 @ be16 v1 @ be16 v2"

definition ext_ack :: "u32 \<Rightarrow> u32 \<Rightarrow> u32 \<Rightarrow> u32 \<Rightarrow> bytes" where
  "ext_ack ack window ts_ecr delay =
     be16 ExtACK @ be16 16 @ be32 ack @ be32 window @ be32 ts_ecr @ be32 delay"

definition build_syn_packet :: "stream \<Rightarrow> u32 \<Rightarrow> bytes" where
  "build_syn_packet s now =
     StreamAppDataType # write_var_uint (stream_id s) @ FlagSYN # be32 now @
     ext_uint32 ExtSYN (client_seq s) @ ext_uint16_pair ExtSegmentSizes 1024 1024 @
     ext_uint32 ExtContentType (port s)"

text \<open>Building an ACK packet answers a pending nonce challenge, once.\<close>

definition build_ack_packet :: "stream \<Rightarrow> u32 \<Rightarrow> bytes \<Rightarrow> bytes \<times> stream" where
  "build_ack_packet s now data =
     (StreamAppDataType # write_var_uint (stream_id s) @ FlagACK # be32 now @
      (if send_nonce s then be16 ExtNonceResponse @ be16 8 @ nonce s else []) @
      ext_ack (server_seq s) 65535 (server_ts s) 0 @
      (if data \<noteq> []
       then be16 ExtDATA @ be16 (word_of_nat (4 + length data)) @ be32 (client_seq s) @ data
       else []),
      s\<lparr>send_nonce := False\<rparr>)"

function parse_exts :: "bytes \<Rightarrow> extension list" where
  "parse_exts bs =
     (case bs of
        t1 # t2 # l1 # l2 # rest \<Rightarrow>
          (let n = unat (of_be16 l1 l2) in
           if n > length rest then []
           else \<lparr>ext_type = of_be16 t1 t2, ext_data = take n rest\<rparr> # parse_exts (drop n rest))
      | _ \<Rightarrow> [])"
  by pat_completeness auto
termination
  by (relation "measure length") auto

declare parse_exts.simps [simp del]

definition parse_stream_packet :: "bytes \<Rightarrow> (stream_header \<times> extension list) option" where
  "parse_stream_packet raw =
     (case raw of
        ty # body \<Rightarrow>
          if body = [] \<or> ty \<noteq> StreamAppDataType then None
          else (case drop (snd (read_var_uint body)) body of
                  f # a # b # c # d # rest \<Rightarrow>
                    Some (\<lparr>flags = f, timestamp_value = of_be32 a b c d\<rparr>, parse_exts rest)
                | _ \<Rightarrow> None)
      | [] \<Rightarrow> None)"

subsection \<open>Open: the handshake\<close>

definition take_syn_ack_ext :: "extension \<Rightarrow> stream \<Rightarrow> stream" where
  "take_syn_ack_ext ext s =
     (let s1 = (if ext_type ext = ExtSYN
                then (case ext_data ext of a # b # c # d # _ \<Rightarrow> s\<lparr>server_seq := of_be32 a b c d\<rparr>
                      | _ \<Rightarrow> s)
                else s);
          s2 = (if ext_type ext = ExtSegmentSizes
                then (case ext_data ext of a # b # c # d # _ \<Rightarrow>
                        (let seg = of_be16 a b in
                         if seg > 0 \<and> seg \<le> 1024 then s1\<lparr>max_send_segment_size := seg\<rparr> else s1)
                      | _ \<Rightarrow> s1)
                else s1)
      in if ext_type ext = ExtNonce \<and> length (ext_data ext) \<ge> 8
         then s2\<lparr>nonce := take 8 (ext_data ext), send_nonce := True\<rparr>
         else s2)"

text \<open>
  One turn of the handshake loop: the SYN is sent (again), then the \<^verbatim>\<open>select\<close> yields a
  packet, the close signal or one second of silence. The ACK's write error is ignored.
\<close>

datatype open_event =
    OpenPacket bytes u32
  | OpenClosed
  | OpenTick
  | OpenWriteFails

datatype open_result = OpenOk | OpenEOF | OpenSendError | OpenTimeout

fun open_loop :: "stream \<Rightarrow> bytes \<Rightarrow> open_event list \<Rightarrow> open_result \<times> stream \<times> bytes list" where
  "open_loop s syn [] = (OpenTimeout, s, [])"
| "open_loop s syn (OpenWriteFails # evs) = (OpenSendError, s, [])"
| "open_loop s syn (OpenClosed # evs) = (OpenEOF, s, [syn])"
| "open_loop s syn (OpenTick # evs) =
     (case open_loop s syn evs of (r, s', out) \<Rightarrow> (r, s', syn # out))"
| "open_loop s syn (OpenPacket raw now # evs) =
     (case parse_stream_packet raw of
        None \<Rightarrow> (case open_loop s syn evs of (r, s', out) \<Rightarrow> (r, s', syn # out))
      | Some (hdr, exts) \<Rightarrow>
          (let s1 = s\<lparr>server_ts := timestamp_value hdr\<rparr> in
           if flags hdr AND (FlagSYN OR FlagACK) = FlagSYN OR FlagACK then
             (let s2 = (fold take_syn_ack_ext exts s1)\<lparr>client_seq := 2\<rparr>;
                  (ack, s3) = build_ack_packet s2 now []
              in (OpenOk, s3\<lparr>established := True\<rparr>, [syn, ack]))
           else (case open_loop s1 syn evs of (r, s', out) \<Rightarrow> (r, s', syn # out))))"

definition stream_open :: "stream \<Rightarrow> u32 \<Rightarrow> open_event list \<Rightarrow> open_result \<times> stream \<times> bytes list" where
  "stream_open s now evs =
     (let s1 = s\<lparr>client_seq := 1\<rparr> in open_loop s1 (build_syn_packet s1 now) evs)"

subsection \<open>ReadMsg\<close>

datatype read_result = ReadMessage bytes | ReadEOF

text \<open>What the head of the loop can answer without waiting.\<close>

definition take_msg :: "stream \<Rightarrow> (read_result \<times> stream) option" where
  "take_msg s =
     (if closed s then Some (ReadEOF, s)
      else case read_buf s of
        a # b # c # d # rest \<Rightarrow>
          (let n = unat (of_le32 a b c d) in
           if n \<le> length rest
           then Some (ReadMessage (take n rest), s\<lparr>read_buf := drop n rest\<rparr>)
           else None)
      | _ \<Rightarrow> None)"

text \<open>The DATA extensions of a packet, and whether there was one with a payload.\<close>

fun take_data_exts :: "extension list \<Rightarrow> stream \<Rightarrow> stream \<times> bool" where
  "take_data_exts [] s = (s, False)"
| "take_data_exts (ext # exts) s =
     (case ext_data ext of
        a # b # c # d # payload \<Rightarrow>
          if ext_type ext = ExtDATA \<and> payload \<noteq> []
          then (fst (take_data_exts exts
                  (s\<lparr>read_buf := read_buf s @ payload, server_seq := of_be32 a b c d\<rparr>)), True)
          else take_data_exts exts s
      | _ \<Rightarrow> take_data_exts exts s)"

definition receive_packet :: "bytes \<Rightarrow> u32 \<Rightarrow> stream \<Rightarrow> stream \<times> bytes list" where
  "receive_packet raw now s =
     (case parse_stream_packet raw of
        None \<Rightarrow> (s, [])
      | Some (hdr, exts) \<Rightarrow>
          (let (s1, has_new) = take_data_exts exts (s\<lparr>server_ts := timestamp_value hdr\<rparr>) in
           if has_new \<or> flags hdr AND FlagACK \<noteq> 0
           then (case build_ack_packet s1 now [] of (ack, s2) \<Rightarrow> (s2, [ack]))
           else (s1, [])))"

text \<open>
  What happens while \<^verbatim>\<open>ReadMsg\<close> waits: a packet arrives in the channel, the loop takes
  one out, the stream is closed, or two seconds pass and the ACK is repeated.
\<close>

datatype read_event =
    Arrive bytes
  | Take u32
  | CloseSignal
  | Tick u32

fun read_msg :: "stream \<Rightarrow> read_event list \<Rightarrow> read_result option \<times> stream \<times> bytes list" where
  "read_msg s [] =
     (case take_msg s of Some (r, s') \<Rightarrow> (Some r, s', []) | None \<Rightarrow> (None, s, []))"
| "read_msg s (ev # evs) =
     (case take_msg s of
        Some (r, s') \<Rightarrow> (Some r, s', [])
      | None \<Rightarrow>
          (case ev of
             Arrive raw \<Rightarrow> read_msg (stream_enqueue raw s) evs
           | Take now \<Rightarrow>
               (case incoming s of
                  [] \<Rightarrow> read_msg s evs
                | raw # q \<Rightarrow>
                    (case receive_packet raw now (s\<lparr>incoming := q\<rparr>) of
                       (s1, out1) \<Rightarrow>
                         (case read_msg s1 evs of (r, s2, out2) \<Rightarrow> (r, s2, out1 @ out2))))
           | CloseSignal \<Rightarrow> (Some ReadEOF, s, [])
           | Tick now \<Rightarrow>
               (case build_ack_packet s now [] of
                  (ack, s1) \<Rightarrow>
                    (case read_msg s1 evs of (r, s2, out) \<Rightarrow> (r, s2, ack # out)))))"

subsection \<open>WriteMsg\<close>

function chunks :: "nat \<Rightarrow> bytes \<Rightarrow> bytes list" where
  "chunks n bs = (if bs = [] \<or> n = 0 then [] else take n bs # chunks n (drop n bs))"
  by pat_completeness auto
termination
  by (relation "measure (\<lambda>(n, bs). length bs)") auto

declare chunks.simps [simp del]

definition chunk_size :: "stream \<Rightarrow> nat" where
  "chunk_size s = (if unat (max_send_segment_size s) \<le> 0 then 256 else unat (max_send_segment_size s))"

definition frame_msg :: "bytes \<Rightarrow> bytes" where
  "frame_msg payload = le32 (word_of_nat (length payload)) @ payload"

datatype write_result = WriteOk | WriteStreamClosed | WriteFailed

text \<open>The send loop; \<open>env\<close> gives, for each packet, the clock and whether the write succeeds.\<close>

fun send_chunks :: "stream \<Rightarrow> bytes list \<Rightarrow> (u32 \<times> bool) list \<Rightarrow> write_result \<times> stream \<times> bytes list" where
  "send_chunks s [] env = (WriteOk, s, [])"
| "send_chunks s (c # cs) [] = (WriteFailed, s, [])"
| "send_chunks s (c # cs) ((now, ok) # env) =
     (case build_ack_packet s now c of
        (pkt, s1) \<Rightarrow>
          if ok then
            (case send_chunks (s1\<lparr>client_seq := client_seq s1 + 1\<rparr>) cs env of
               (r, s2, out) \<Rightarrow> (r, s2, pkt # out))
          else (WriteFailed, s1, []))"

definition write_msg :: "stream \<Rightarrow> bytes \<Rightarrow> (u32 \<times> bool) list \<Rightarrow> write_result \<times> stream \<times> bytes list" where
  "write_msg s payload env =
     (if closed s then (WriteStreamClosed, s, [])
      else send_chunks s (chunks (chunk_size s) (frame_msg payload)) env)"

definition stream_close :: "stream \<Rightarrow> stream" where
  "stream_close s = (if closed s then s else s\<lparr>closed := True\<rparr>)"

end
