(* ===== verification/Nabto_Stream_Proofs.thy ===== *)
theory Nabto_Stream_Proofs
  imports Nabto_Stream
begin

text \<open>
  Correctness of the stream: the variable-length integers and the extension loop are read
  back as written (\<open>sequence_codec\<close> interpreted on the extensions), a packet built by
  the ACK builder parses to what went in, and therefore \<^verbatim>\<open>ReadMsg\<close> on one side
  reassembles what \<^verbatim>\<open>WriteMsg\<close> on the other side cut into packets.
\<close>

subsection \<open>Variable-length integers\<close>

lemma var_uint_1:
  assumes "val < 2 ^ 6"
  shows "read_var_uint (write_var_uint val @ rest) = (val, 1) \<and> length (write_var_uint val) = 1"
proof -
  have v: "take_bit 6 val = val"
    using assms by (simp add: word_unat_eq_iff unsigned_take_bit_eq word_less_nat_alt take_bit_nat_eq_self)
  have "drop_bit 6 (ucast (take_bit 6 val) :: byte) = 0"
    by (rule bit_word_eqI) (auto simp: bit_simps)
  moreover have "(ucast (ucast (take_bit 6 val) AND (mask 6 :: byte)) :: u64) = take_bit 6 val"
    by (rule bit_word_eqI) (auto simp: bit_simps)
  moreover have "(mask 6 :: byte) = 0x3F" by (simp add: mask_eq_exp_minus_1)
  ultimately show ?thesis using assms by (simp add: write_var_uint_def read_var_uint_def v)
qed

lemma var_uint_2:
  assumes "\<not> val < 2 ^ 6" and "val < 2 ^ 14"
  shows "read_var_uint (write_var_uint val @ rest) = (val, 2) \<and> length (write_var_uint val) = 2"
proof -
  have v: "take_bit 14 val = val"
    using assms by (simp add: word_unat_eq_iff unsigned_take_bit_eq word_less_nat_alt take_bit_nat_eq_self)
  define w where "w = (ucast (take_bit 14 val) OR push_bit 14 1 :: u16)"
  have tag: "drop_bit 6 (ucast (drop_bit 8 w) :: byte) = 1"
    unfolding w_def by (rule bit_word_eqI) (auto simp: bit_simps less_2_cases_iff)
  have "(ucast ((ucast (take_bit 14 val) OR push_bit 14 x :: u16) AND mask 14) :: u64) = take_bit 14 val" for x
    by (rule bit_word_eqI) (auto simp: bit_simps)
  moreover have "(mask 14 :: u16) = 0x3FFF" by (simp add: mask_eq_exp_minus_1)
  ultimately have val: "(ucast (w AND 0x3FFF) :: u64) = val"
    unfolding w_def by (simp only: v)
  have w: "write_var_uint val = be16 w" using assms v by (simp add: write_var_uint_def w_def)
  show ?thesis unfolding w be16_def using tag val by (simp add: read_var_uint_def Let_def)
qed

lemma var_uint_4:
  assumes "\<not> val < 2 ^ 14" and "val < 2 ^ 30"
  shows "read_var_uint (write_var_uint val @ rest) = (val, 4) \<and> length (write_var_uint val) = 4"
proof -
  have v: "take_bit 30 val = val"
    using assms by (simp add: word_unat_eq_iff unsigned_take_bit_eq word_less_nat_alt take_bit_nat_eq_self)
  define w where "w = (ucast (take_bit 30 val) OR push_bit 31 1 :: u32)"
  have tag: "drop_bit 6 (ucast (drop_bit 24 w) :: byte) = push_bit 1 1"
    unfolding w_def by (rule bit_word_eqI) (auto simp: bit_simps less_2_cases_iff)
  have "(ucast ((ucast (take_bit 30 val) OR push_bit 31 x :: u32) AND mask 30) :: u64) = take_bit 30 val" for x
    by (rule bit_word_eqI) (auto simp: bit_simps)
  moreover have "(mask 30 :: u32) = 0x3FFFFFFF" by (simp add: mask_eq_exp_minus_1)
  ultimately have val: "(ucast (w AND 0x3FFFFFFF) :: u64) = val"
    unfolding w_def by (simp only: v)
  have two: "push_bit 30 2 = (push_bit 31 1 :: u32)" by simp
  have "\<not> val < 2 ^ 6" using assms(1) by (simp add: word_less_nat_alt)
  then have w: "write_var_uint val = be32 w"
    using assms v unfolding write_var_uint_def two w_def by simp
  show ?thesis unfolding w be32_def using tag val by (simp add: read_var_uint_def Let_def)
qed

lemma read_write_var_uint:
  assumes "val < 2 ^ 30"
  shows "read_var_uint (write_var_uint val @ rest) = (val, length (write_var_uint val))"
    and "write_var_uint val \<noteq> []"
  using assms var_uint_1[of val rest] var_uint_2[of val rest] var_uint_4[of val rest]
  by (cases "val < 2 ^ 6"; cases "val < 2 ^ 14"; fastforce)+

subsection \<open>Extensions\<close>

definition enc_ext :: "extension \<Rightarrow> bytes" where
  "enc_ext e = be16 (ext_type e) @ be16 (word_of_nat (length (ext_data e))) @ ext_data e"

definition ext_ok :: "extension \<Rightarrow> bool" where
  "ext_ok e \<longleftrightarrow> length (ext_data e) < 65536"

interpretation exts: sequence_codec "\<lambda>_. enc_ext" "\<lambda>_ _. ()" "\<lambda>_. ext_ok" "\<lambda>_. parse_exts" Cons
proof
  fix e rest assume "ext_ok e"
  then show "parse_exts (enc_ext e @ rest) = e # parse_exts rest"
    by (simp add: enc_ext_def be16_def ext_ok_def parse_exts.simps[of "_ # _"] unat_of_nat_small16)
qed

lemma parse_exts_short: "length bs < 4 \<Longrightarrow> parse_exts bs = []"
  by (auto simp: parse_exts.simps[of bs] split: list.splits)

lemma enc_exts: "enc_seq (\<lambda>_. enc_ext) (\<lambda>_ _. ()) () es = concat (map enc_ext es)"
  by (induction es) simp_all

lemma foldr_Cons_Nil: "foldr Cons xs [] = xs"
  by (induction xs) simp_all

lemma parse_enc_exts:
  "list_all ext_ok es \<Longrightarrow> length junk < 4 \<Longrightarrow> parse_exts (concat (map enc_ext es) @ junk) = es"
  using exts.parse_sequence[where xs = es and rest = junk]
  by (simp add: enc_exts ok_seq_stateless parse_exts_short foldr_Cons_Nil)

subsection \<open>Packets\<close>

definition nonce_exts :: "stream \<Rightarrow> extension list" where
  "nonce_exts s = (if send_nonce s then [\<lparr>ext_type = ExtNonceResponse, ext_data = nonce s\<rparr>] else [])"

definition ack_exts :: "stream \<Rightarrow> bytes \<Rightarrow> extension list" where
  "ack_exts s data = nonce_exts s @
     [\<lparr>ext_type = ExtACK, ext_data = be32 (server_seq s) @ be32 65535 @ be32 (server_ts s) @ be32 0\<rparr>] @
     (if data \<noteq> [] then [\<lparr>ext_type = ExtDATA, ext_data = be32 (client_seq s) @ data\<rparr>] else [])"

definition stream_ok :: "stream \<Rightarrow> bool" where
  "stream_ok s \<longleftrightarrow> stream_id s < 2 ^ 30 \<and> length (nonce s) = 8 \<and>
     0 < max_send_segment_size s \<and> max_send_segment_size s \<le> 1024"

lemma build_ack_packet_exts:
  assumes "length (nonce s) = 8"
  shows "fst (build_ack_packet s now data) =
    StreamAppDataType # write_var_uint (stream_id s) @ FlagACK # be32 now @ concat (map enc_ext (ack_exts s data))"
  using assms
  by (simp add: build_ack_packet_def ack_exts_def nonce_exts_def enc_ext_def ext_ack_def be16_def)

lemma parse_packet:
  assumes "sid < 2 ^ 30"
  shows "parse_stream_packet (StreamAppDataType # write_var_uint sid @ f # be32 now @ rest) =
    Some (\<lparr>flags = f, timestamp_value = now\<rparr>, parse_exts rest)"
  using read_write_var_uint(1)[OF assms, of "f # be32 now @ rest"] read_write_var_uint(2)[OF assms]
  by (simp add: parse_stream_packet_def be32_def)

lemma parse_ack_packet:
  assumes "stream_ok s" and "length data < 65532"
  shows "parse_stream_packet (fst (build_ack_packet s now data)) =
    Some (\<lparr>flags = FlagACK, timestamp_value = now\<rparr>, ack_exts s data)"
proof -
  have "list_all ext_ok (ack_exts s data)"
    using assms by (simp add: ack_exts_def nonce_exts_def ext_ok_def stream_ok_def)
  then have "parse_exts (concat (map enc_ext (ack_exts s data))) = ack_exts s data"
    using parse_enc_exts[of "ack_exts s data" "[]"] by simp
  with assms show ?thesis by (simp add: build_ack_packet_exts parse_packet stream_ok_def)
qed


subsection \<open>Sending\<close>

lemma concat_chunks: "n \<noteq> 0 \<Longrightarrow> concat (chunks n bs) = bs"
  by (induction n bs rule: chunks.induct) (subst chunks.simps, simp)

lemma chunks_sizes: "c \<in> set (chunks n bs) \<Longrightarrow> c \<noteq> [] \<and> length c \<le> n"
  by (induction n bs rule: chunks.induct) (subst (asm) (2) chunks.simps, auto split: if_splits)

lemma length_le_concat: "\<forall>c \<in> set cs. c \<noteq> [] \<Longrightarrow> length cs \<le> length (concat cs)"
proof (induction cs)
  case (Cons c cs)
  then have "1 \<le> length c" "length cs \<le> length (concat cs)" by (simp_all add: Suc_leI)
  then show ?case by simp
qed simp

lemma build_ack_packet_stream [simp]: "snd (build_ack_packet s now data) = s\<lparr>send_nonce := False\<rparr>"
  by (simp add: build_ack_packet_def)

lemma chunk_size_bounds: "stream_ok s \<Longrightarrow> 0 < chunk_size s \<and> chunk_size s \<le> 1024"
  by (auto simp: stream_ok_def chunk_size_def word_less_nat_alt word_le_nat_alt)

text \<open>What a packet of the send loop carries, seen by the parser.\<close>

definition carries :: "bytes \<Rightarrow> bytes \<Rightarrow> bool" where
  "carries pkt data \<longleftrightarrow> (\<exists>hdr pre seq. parse_stream_packet pkt =
     Some (hdr, pre @ [\<lparr>ext_type = ExtDATA, ext_data = be32 seq @ data\<rparr>]) \<and>
     list_all (\<lambda>e. ext_type e \<noteq> ExtDATA) pre)"

lemma ack_packet_carries:
  assumes "stream_ok s" "data \<noteq> []" "length data < 65532"
  shows "carries (fst (build_ack_packet s now data)) data"
  unfolding carries_def parse_ack_packet[OF assms(1,3)] using assms(2)
  by (auto simp: ack_exts_def nonce_exts_def)

lemma stream_ok_update [simp]:
  "stream_ok (s\<lparr>send_nonce := b\<rparr>) = stream_ok s" "stream_ok (s\<lparr>client_seq := q\<rparr>) = stream_ok s"
  by (simp_all add: stream_ok_def)

lemma send_chunks_carry:
  assumes "stream_ok s" "\<forall>c \<in> set cs. c \<noteq> [] \<and> length c \<le> 1024"
    and "length cs \<le> length env" "\<forall>e \<in> set env. snd e"
  shows "\<exists>s' pkts. send_chunks s cs env = (WriteOk, s', pkts) \<and> list_all2 carries pkts cs \<and>
    client_seq s' = client_seq s + word_of_nat (length cs)"
  using assms
proof (induction cs arbitrary: s env)
  case (Cons c cs)
  then obtain now env' where env: "env = (now, True) # env'"
    by (cases env; cases "hd env") auto
  let ?s1 = "s\<lparr>send_nonce := False, client_seq := client_seq s + 1\<rparr>"
  obtain pkt where pkt: "build_ack_packet s now c = (pkt, s\<lparr>send_nonce := False\<rparr>)"
    by (metis build_ack_packet_stream prod.collapse)
  have "carries pkt c" using Cons.prems ack_packet_carries[of s c now] pkt by auto
  moreover obtain s' pkts where "send_chunks ?s1 cs env' = (WriteOk, s', pkts)"
    "list_all2 carries pkts cs" "client_seq s' = client_seq ?s1 + word_of_nat (length cs)"
    using Cons.IH[of ?s1 env'] Cons.prems env by auto
  ultimately show ?case by (auto simp: env pkt)
qed simp

subsection \<open>Receiving\<close>

lemma take_data_exts_skip:
  "list_all (\<lambda>e. ext_type e \<noteq> ExtDATA) pre \<Longrightarrow> take_data_exts (pre @ es) s = take_data_exts es s"
  by (induction pre) (auto split: list.split)

lemma receive_carried:
  assumes "carries pkt data" "data \<noteq> []"
  shows "\<exists>s' out. receive_packet pkt now s = (s', out) \<and> read_buf s' = read_buf s @ data \<and>
    closed s' = closed s \<and> incoming s' = incoming s"
proof -
  obtain hdr pre q where p: "parse_stream_packet pkt =
      Some (hdr, pre @ [\<lparr>ext_type = ExtDATA, ext_data = be32 q @ data\<rparr>])"
    "list_all (\<lambda>e. ext_type e \<noteq> ExtDATA) pre"
    using assms(1) unfolding carries_def by blast
  then show ?thesis using assms(2)
    by (simp add: receive_packet_def take_data_exts_skip be32_def build_ack_packet_def)
qed

text \<open>A delivery: every packet arrives and is taken out at once.\<close>

fun deliver :: "u32 \<Rightarrow> bytes list \<Rightarrow> read_event list" where
  "deliver now [] = []"
| "deliver now (p # ps) = Arrive p # Take now # deliver now ps"

lemma take_msg_incomplete:
  assumes "length payload < 2 ^ 32" "\<not> closed s"
    and "read_buf s @ rest = frame_msg payload" "rest \<noteq> []"
  shows "take_msg s = None"
proof -
  have len: "length (read_buf s) + length rest = 4 + length payload"
    using arg_cong[OF assms(3), of length] by (simp add: frame_msg_def)
  show ?thesis
  proof (cases "length (read_buf s) < 4")
    case True
    then show ?thesis using assms(2) by (auto simp: take_msg_def split: list.splits)
  next
    case False
    have "take 4 (read_buf s) = le32 (word_of_nat (length payload))"
      using False arg_cong[OF assms(3), of "take 4"] by (simp add: frame_msg_def)
    then obtain tl where "read_buf s = le32 (word_of_nat (length payload)) @ tl"
      by (metis append_take_drop_id)
    moreover from this len have "length tl < length payload" using assms(4) by (cases rest) auto
    ultimately show ?thesis using assms(1,2)
      by (simp add: take_msg_def le32_def unat_of_nat_small32)
  qed
qed

lemma take_msg_complete:
  assumes "length payload < 2 ^ 32" "\<not> closed s" "read_buf s = frame_msg payload @ rest"
  shows "take_msg s = Some (ReadMessage payload, s\<lparr>read_buf := rest\<rparr>)"
  using assms by (simp add: take_msg_def frame_msg_def le32_def unat_of_nat_small32)

lemma read_delivered:
  assumes "list_all2 carries pkts cs" "\<forall>c \<in> set cs. c \<noteq> []" "length payload < 2 ^ 32"
    and "\<not> closed s" "incoming s = []" "read_buf s @ concat cs = frame_msg payload"
  shows "\<exists>s' out. read_msg s (deliver now pkts) = (Some (ReadMessage payload), s', out) \<and> read_buf s' = []"
  using assms
proof (induction pkts cs arbitrary: s rule: list_all2_induct)
  case Nil
  then show ?case using take_msg_complete[of payload s "[]"] by simp
next
  case (Cons p ps c cs)
  then have "take_msg s = None"
    using take_msg_incomplete[of payload s "c @ concat cs"] by simp
  obtain s1 out1 where r: "receive_packet p now s = (s1, out1)" "read_buf s1 = read_buf s @ c"
    "\<not> closed s1" "incoming s1 = []"
    using receive_carried[of p c now s] Cons by auto
  obtain s' out where "read_msg s1 (deliver now ps) = (Some (ReadMessage payload), s', out)" "read_buf s' = []"
    using Cons.IH[of s1] Cons.prems r by auto
  moreover have "stream_enqueue p s = s\<lparr>incoming := [p]\<rparr>"
    using Cons.prems by (simp add: stream_enqueue_def)
  moreover have "take_msg (s\<lparr>incoming := [p]\<rparr>) = None"
    using \<open>take_msg s = None\<close> by (auto simp: take_msg_def Let_def split: list.splits if_splits)
  moreover have "s\<lparr>incoming := []\<rparr> = s" using Cons.prems by simp
  ultimately show ?case using \<open>take_msg s = None\<close> r by simp
qed


subsection \<open>The handshake\<close>

lemma take_syn_ack_ext_ok:
  "stream_ok s \<Longrightarrow> stream_ok (take_syn_ack_ext ext s)"
  by (auto simp: take_syn_ack_ext_def stream_ok_def Let_def split: list.splits if_splits)

lemma fold_syn_ack_ok: "stream_ok s \<Longrightarrow> stream_ok (fold take_syn_ack_ext exts s)"
  by (induction exts arbitrary: s) (simp_all add: take_syn_ack_ext_ok)

lemma stream_ok_ts [simp]: "stream_ok (s\<lparr>server_ts := t\<rparr>) = stream_ok s"
  "stream_ok (s\<lparr>established := e\<rparr>) = stream_ok s"
  by (simp_all add: stream_ok_def)

lemma open_loop_ok:
  "stream_ok s \<Longrightarrow> open_loop s syn evs = (OpenOk, s', out) \<Longrightarrow>
   stream_ok s' \<and> established s' \<and> client_seq s' = 2 \<and> \<not> send_nonce s' \<and>
   (\<exists>n ack. out = replicate n syn @ [ack])"
proof (induction s syn evs arbitrary: s' out rule: open_loop.induct)
  case (4 s syn evs)
  then obtain out' where "open_loop s syn evs = (OpenOk, s', out')" "out = syn # out'"
    by (auto split: prod.splits)
  with 4 show ?case by (metis append_Cons replicate_Suc)
next
  case (5 s syn raw now evs)
  show ?case
  proof (cases "parse_stream_packet raw")
    case None
    with 5 obtain out' where "open_loop s syn evs = (OpenOk, s', out')" "out = syn # out'"
      by (auto split: prod.splits)
    with 5 None show ?thesis by (metis append_Cons replicate_Suc)
  next
    case (Some p)
    obtain hdr exts where p: "p = (hdr, exts)" by (cases p)
    let ?s1 = "s\<lparr>server_ts := timestamp_value hdr\<rparr>"
    show ?thesis
    proof (cases "flags hdr AND (FlagSYN OR FlagACK) = FlagSYN OR FlagACK")
      case True
      with Some p "5.prems" show ?thesis
        by (auto simp: build_ack_packet_def fold_syn_ack_ok Let_def intro!: exI[of _ "Suc 0"])
    next
      case False
      with Some p "5.prems" obtain out' where
        "open_loop ?s1 syn evs = (OpenOk, s', out')" "out = syn # out'"
        by (auto split: prod.splits if_splits)
      with "5.IH"(2)[OF Some p[symmetric] refl False] "5.prems" show ?thesis
        by (metis append_Cons replicate_Suc stream_ok_ts(1))
    qed
  qed
qed auto

subsection \<open>Properties\<close>

text \<open>
  Variable-length integers below $2^{30}$ are read back exactly, and the reader consumes
  what the writer wrote, whatever follows. (At $2^{30}$ and above the writer emits nothing.)
\<close>

theorem var_uint_roundtrip:
  "(val < 2 ^ 30 \<longrightarrow> read_var_uint (write_var_uint val @ rest) = (val, length (write_var_uint val))) \<and>
   (val \<ge> 2 ^ 30 \<longrightarrow> write_var_uint val = [])"
proof -
  have "\<not> val < 2 ^ 6 \<and> \<not> val < 2 ^ 14" if "val \<ge> 2 ^ 30"
    using that by (simp add: word_less_nat_alt word_le_nat_alt)
  then show ?thesis using read_write_var_uint(1)[of val rest]
    by (auto simp: write_var_uint_def)
qed

theorem var_uint_roundtrip_witness:
  "read_var_uint (write_var_uint 1000 @ [9]) = (1000, length (write_var_uint 1000)) \<and>
   write_var_uint (2 ^ 30) = []"
  using var_uint_roundtrip[of 1000 "[9]"] var_uint_roundtrip[of "2 ^ 30" "[]"] by simp



text \<open>
  There is no sequence check on receipt: a data packet that is delivered twice (a
  retransmission) puts its payload into the byte stream twice.
\<close>

theorem duplicate_packet_duplicates_data:
  assumes "carries pkt data" "data \<noteq> []"
  shows "read_buf (fst (receive_packet pkt t2 (fst (receive_packet pkt t1 s)))) =
    read_buf s @ data @ data"
proof -
  obtain s1 o1 where 1: "receive_packet pkt t1 s = (s1, o1)" "read_buf s1 = read_buf s @ data"
    using receive_carried[OF assms] by blast
  obtain s2 o2 where "receive_packet pkt t2 s1 = (s2, o2)" "read_buf s2 = read_buf s1 @ data"
    using receive_carried[OF assms] by blast
  with 1 show ?thesis by simp
qed

theorem duplicate_packet_duplicates_data_witness:
  "read_buf (fst (receive_packet (fst (build_ack_packet (new_stream 0 5) 0 [7])) 0
     (fst (receive_packet (fst (build_ack_packet (new_stream 0 5) 0 [7])) 0 (new_stream 0 5))))) = [7, 7]"
proof -
  have "carries (fst (build_ack_packet (new_stream 0 5) 0 [7])) [7]"
    by (rule ack_packet_carries) (simp_all add: stream_ok_def new_stream_def)
  from duplicate_packet_duplicates_data[OF this, of 0 0 "new_stream 0 5"]
  show ?thesis by (simp add: new_stream_def)
qed

text \<open>
  When \<^verbatim>\<open>Open\<close> succeeds the stream is established with the first data sequence
  number 2, the nonce challenge answered and a usable segment size of 1 to 1024 bytes,
  whatever the camera put into its SYN|ACK; what was sent is some SYNs and then one ACK.
\<close>

theorem open_establishes:
  assumes "stream_ok s" and "stream_open s now evs = (OpenOk, s', out)"
  shows "established s' \<and> client_seq s' = 2 \<and> \<not> send_nonce s' \<and>
    0 < max_send_segment_size s' \<and> max_send_segment_size s' \<le> 1024 \<and>
    (\<exists>n ack. out = replicate n (build_syn_packet (s\<lparr>client_seq := 1\<rparr>) now) @ [ack])"
proof -
  have "stream_ok (s\<lparr>client_seq := 1\<rparr>)" using assms(1) by simp
  from open_loop_ok[OF this] assms(2) show ?thesis
    by (auto simp: stream_open_def Let_def stream_ok_def)
qed

theorem open_establishes_witness:
  "\<exists>s' out. stream_open (new_stream 0 5) 0 [OpenTick, OpenPacket [5, 0, 0x90, 0, 0, 0, 0] 0] = (OpenOk, s', out) \<and>
    established s'"
proof -
  have ok: "stream_ok (new_stream 0 5)" by (simp add: stream_ok_def new_stream_def)
  have "\<exists>s' out. stream_open (new_stream 0 5) 0 [OpenTick, OpenPacket [5, 0, 0x90, 0, 0, 0, 0] 0] = (OpenOk, s', out)"
    by (simp add: stream_open_def parse_stream_packet_def read_var_uint_def parse_exts.simps Let_def build_ack_packet_def)
  then show ?thesis using open_establishes[OF ok] by blast
qed

end
