(* ===== verification/Nabto_Client.thy ===== *)
theory Nabto_Client
  imports CoAP_Client_Proofs Nabto_Stream_Proofs
begin

text \<open>
  The packet layer around the two protocols: the 16-byte connection header of
  \<^verbatim>\<open>pkg/nabtopure/packet_conn.go\<close>, and from \<^verbatim>\<open>pkg/nabtopure/client.go\<close> the
  dispatcher of incoming DTLS packets, \<^verbatim>\<open>Close\<close> and the parser of the pairing answer.
\<close>

subsection \<open>The connection header\<close>

record packet_conn =
  conn_id :: bytes

definition new_packet_conn :: "bytes \<Rightarrow> packet_conn" where
  "new_packet_conn rand = \<lparr>conn_id = rand\<rparr>"

definition new_server_packet_conn :: packet_conn where
  "new_server_packet_conn = \<lparr>conn_id = replicate 14 0\<rparr>"

definition add_header :: "packet_conn \<Rightarrow> bytes \<Rightarrow> bytes" where
  "add_header c p = 0xF0 # conn_id c @ 0x00 # p"

text \<open>
  \<^verbatim>\<open>ReadFrom\<close> with a caller's buffer of \<open>n\<close> bytes: a pooled buffer of 2048 bytes, or
  a bigger one when that is not enough; the socket cuts a datagram off at the buffer's end.
  Datagrams that are too short or have another first byte are skipped. None when the
  datagrams run out (the loop waits on).
\<close>

definition read_buf_size :: "nat \<Rightarrow> nat" where
  "read_buf_size n = (if n + 16 + 64 \<le> 2048 then 2048 else n + 16 + 64)"

fun read_from :: "packet_conn \<Rightarrow> nat \<Rightarrow> bytes list \<Rightarrow> (bytes \<times> bytes list) option \<times> packet_conn" where
  "read_from c n [] = (None, c)"
| "read_from c n (d # ds) =
     (let buf = take (read_buf_size n) d in
      if length buf < 16 \<or> hd buf \<noteq> 0xF0 then read_from c n ds
      else
        let c' = (if conn_id c = replicate 14 0 then c\<lparr>conn_id := take 14 (drop 1 buf)\<rparr> else c);
            payload_len = min (length buf - 16) n
        in (Some (take payload_len (drop 16 buf), ds), c'))"

subsection \<open>The client\<close>

record nabto_client =
  dtls_open :: bool
  coap :: "coap_client option"
  current_stream :: "stream option"
  reader_open :: bool
  close_done :: bool

text \<open>\<^verbatim>\<open>writeDTLS\<close>: nothing goes out once the connection is gone.\<close>

definition write_dtls :: "nabto_client \<Rightarrow> bytes \<Rightarrow> bytes option" where
  "write_dtls c data = (if dtls_open c then Some data else None)"

definition keep_alive_request :: bytes where
  "keep_alive_request = 0x04 # 0x01 # replicate 16 0"

text \<open>
  One packet of the reader loop: routed by its first byte. The result is None when the
  routing panics, else the new state and what was written back.
\<close>

definition dispatch_packet :: "bytes \<Rightarrow> nabto_client \<Rightarrow> (nabto_client \<times> bytes list) option" where
  "dispatch_packet pkt c =
     (case pkt of
        [] \<Rightarrow> Some (c, [])
      | b # rest \<Rightarrow>
          if 0x40 \<le> b \<and> b \<le> 0x7F then
            (case coap c of
               None \<Rightarrow> Some (c, [])
             | Some k \<Rightarrow> map_option (\<lambda>k'. (c\<lparr>coap := Some k'\<rparr>, [])) (handle_incoming pkt k))
          else if b = StreamAppDataType then
            (case current_stream c of
               None \<Rightarrow> Some (c, [])
             | Some s \<Rightarrow> Some (c\<lparr>current_stream := Some (stream_enqueue pkt s)\<rparr>, []))
          else if b = 0x04 then
            (case rest of
               t # body \<Rightarrow>
                 if t = 0x01 then
                   Some (c, case write_dtls c (b # 0x02 # body) of Some w \<Rightarrow> [w] | None \<Rightarrow> [])
                 else Some (c, [])
             | [] \<Rightarrow> Some (c, []))
          else Some (c, []))"

text \<open>
  \<^verbatim>\<open>Close\<close> runs once; the stream and the CoAP client it took out of the state are closed
  and handed back, for what other goroutines still hold of them.
\<close>

definition nabto_close :: "nabto_client \<Rightarrow> nabto_client \<times> stream option \<times> coap_client option" where
  "nabto_close c =
     (if close_done c then (c, None, None)
      else (c\<lparr>dtls_open := False, coap := None, current_stream := None, reader_open := False,
              close_done := True\<rparr>,
            map_option stream_close (current_stream c), map_option coap_close (coap c)))"

subsection \<open>The pairing answer\<close>

fun find_id :: "string \<Rightarrow> string \<Rightarrow> string" where
  "find_id p [] = []"
| "find_id p (c # s) =
     (if 11 \<le> length (c # s) then
        (if has_prefix (c # s) p then take 11 (c # s) else find_id p s)
      else [])"

definition extract_pairing_ids :: "string \<Rightarrow> string \<times> string" where
  "extract_pairing_ids str =
     ((case index_of str ''ProductId'' of Some i \<Rightarrow> find_id ''pr-'' (drop (i + 9) str) | None \<Rightarrow> []),
      (case index_of str ''DeviceId'' of Some i \<Rightarrow> find_id ''de-'' (drop (i + 8) str) | None \<Rightarrow> []))"

subsection \<open>Facts\<close>

lemma has_prefix_take: "has_prefix s p \<Longrightarrow> length p \<le> n \<Longrightarrow> has_prefix (take n s) p"
  by (simp add: has_prefix_def min_absorb1)

lemma find_id_shape:
  "length p \<le> 11 \<Longrightarrow> find_id p s = [] \<or> length (find_id p s) = 11 \<and> has_prefix (find_id p s) p"
proof (induction s)
  case (Cons c s)
  show ?case
  proof (cases "11 \<le> length (c # s) \<and> has_prefix (c # s) p")
    case True
    with has_prefix_take[of "c # s" p 11] Cons.prems show ?thesis by simp
  next
    case False
    with Cons show ?thesis by auto
  qed
qed simp

lemma extract_pairing_ids_shape:
  "fst (extract_pairing_ids str) = [] \<or>
     length (fst (extract_pairing_ids str)) = 11 \<and> has_prefix (fst (extract_pairing_ids str)) ''pr-''"
  "snd (extract_pairing_ids str) = [] \<or>
     length (snd (extract_pairing_ids str)) = 11 \<and> has_prefix (snd (extract_pairing_ids str)) ''de-''"
  using find_id_shape[of "''pr-''"] find_id_shape[of "''de-''"]
  by (auto simp: extract_pairing_ids_def split: option.splits)

lemma add_header_length: "length (conn_id c) = 14 \<Longrightarrow> length (add_header c p) = 16 + length p"
  by (simp add: add_header_def)

text \<open>
  A datagram that \<^verbatim>\<open>WriteTo\<close> framed comes out of \<^verbatim>\<open>ReadFrom\<close> as the payload
  that went in, after any number of foreign or undersized datagrams that are skipped, and a
  server side that does not know a connection id yet takes over the client's.
\<close>

theorem packet_conn_roundtrip:
  assumes "length (conn_id w) = 14" and "length p \<le> n"
    and "\<forall>d \<in> set noise. length d < 16 \<or> hd d \<noteq> 0xF0"
  shows "read_from r n (noise @ add_header w p # ds) =
    (Some (p, ds), if conn_id r = replicate 14 0 then r\<lparr>conn_id := conn_id w\<rparr> else r)"
  using assms(3)
proof (induction noise)
  case Nil
  have "length (add_header w p) \<le> read_buf_size n"
    using assms(1,2) by (simp add: add_header_length read_buf_size_def)
  then have t: "take (read_buf_size n) (add_header w p) = add_header w p" by simp
  have "drop 16 (add_header w p) = p" "take 14 (drop 1 (add_header w p)) = conn_id w"
    using assms(1) by (simp_all add: add_header_def)
  with t assms show ?case by (simp add: add_header_length Let_def) (simp add: add_header_def)
next
  case (Cons d noise)
  let ?b = "take (read_buf_size n) d"
  have "read_buf_size n \<ge> 16" by (simp add: read_buf_size_def)
  then have "length ?b < 16 \<or> hd ?b \<noteq> 0xF0"
    using Cons.prems by (cases d) (auto simp: min_def take_Cons' split: if_splits)
  with Cons show ?case by (simp add: Let_def)
qed

theorem packet_conn_roundtrip_witness:
  "read_from new_server_packet_conn 100 ([[1, 2]] @ add_header (new_packet_conn (replicate 14 7)) [9, 8] # []) =
    (Some ([9, 8], []), \<lparr>conn_id = replicate 14 7\<rparr>)"
  using packet_conn_roundtrip[of "new_packet_conn (replicate 14 7)" "[9, 8]" 100 "[[1, 2]]"
      new_server_packet_conn "[]"]
  by (simp add: new_packet_conn_def new_server_packet_conn_def)

text \<open>
  On a client whose CoAP state is one the protocol can reach, dispatching any packet
  succeeds, changes at most the one of the two protocol states that the first byte selects,
  and writes something only as the answer to a keep-alive request: the same packet with its
  type byte set to 2.
\<close>

theorem dispatch_packet_frame:
  assumes "\<forall>k. coap c = Some k \<longrightarrow> (\<exists>s. coap_reachable s \<and> client s = k)"
  shows "\<exists>c' out. dispatch_packet pkt c = Some (c', out) \<and>
    (current_stream c' = current_stream c \<or> coap c' = coap c) \<and>
    dtls_open c' = dtls_open c \<and> close_done c' = close_done c \<and>
    (out \<noteq> [] \<longrightarrow> dtls_open c \<and> (\<exists>body. pkt = 0x04 # 0x01 # body \<and> out = [0x04 # 0x02 # body]))"
proof -
  have "handle_incoming pkt k \<noteq> None" if "coap c = Some k" for k
    using assms that handle_incoming_total by blast
  then show ?thesis
    by (cases pkt) (auto simp: dispatch_packet_def write_dtls_def split: option.splits list.splits)
qed

theorem dispatch_packet_frame_witness:
  "\<exists>c' out. dispatch_packet [4, 1, 5] \<lparr>dtls_open = True, coap = None, current_stream = None,
      reader_open = True, close_done = False\<rparr> = Some (c', out) \<and> out = [[4, 2, 5]]"
proof -
  let ?c = "\<lparr>dtls_open = True, coap = None, current_stream = None, reader_open = True, close_done = False\<rparr>"
  obtain c' out where "dispatch_packet [4, 1, 5] ?c = Some (c', out)"
    using dispatch_packet_frame[of ?c "[4, 1, 5]"] by auto
  then show ?thesis by (auto simp: dispatch_packet_def write_dtls_def)
qed

end
