(* ===== verification/Recording_Cache.thy ===== *)
theory Recording_Cache
  imports Go_Strings "HOL-Library.AList" "HOL-Library.List_Lexorder" "HOL-Library.Char_ord"
begin

text \<open>
  \<^verbatim>\<open>RecordingCache\<close> of \<^verbatim>\<open>pkg/storage/cache.go\<close>: the index of cached recordings
  and failure markers, and the directory it is kept in. The directory is part of the state: a
  list of names with what the code can see of a file, its size and whether it holds the JSON
  of an item. Names are those of the code without the directory part, so ids are taken to be
  plain file names. Whether the operating system lets an operation succeed is an argument.
  Times are nanoseconds since the year 1, so that 0 is Go's zero time.
\<close>

type_synonym gtime = int

definition unix_time :: "int \<Rightarrow> gtime" where
  "unix_time secs = wrap64 (secs + 62135596800) * 1000000000"

record recording_item =
  item_id :: string
  start_time :: gtime
  end_time :: gtime
  duration_seconds :: int
  event_type :: string
  file_size_bytes :: int
  file_name :: string
  thumbnail_url :: string
  video_url :: string

definition zero_item :: recording_item where
  "zero_item = \<lparr>item_id = [], start_time = 0, end_time = 0, duration_seconds = 0, event_type = [],
     file_size_bytes = 0, file_name = [], thumbnail_url = [], video_url = []\<rparr>"

subsection \<open>The directory\<close>

datatype file_kind = Plain | Json recording_item | Dir

record dir_file =
  f_size :: int
  f_kind :: file_kind

type_synonym directory = "(string \<times> dir_file) list"

definition dir_remove :: "string \<Rightarrow> directory \<Rightarrow> directory" where
  "dir_remove name d = AList.delete name d"

definition dir_write :: "string \<Rightarrow> dir_file \<Rightarrow> directory \<Rightarrow> directory" where
  "dir_write name f d = AList.update name f d"

definition dir_rename :: "string \<Rightarrow> string \<Rightarrow> directory \<Rightarrow> directory" where
  "dir_rename old new d =
     (case map_of d old of None \<Rightarrow> d | Some f \<Rightarrow> dir_write new f (dir_remove old d))"

subsection \<open>The cache\<close>

record cache =
  max_count :: nat
  items :: "string \<Rightarrow> recording_item option"
  failed_ids :: "string set"
  attempts :: "string \<Rightarrow> nat"
  sorted_ids :: "string list"
  disk :: directory

definition new_cache :: "int \<Rightarrow> directory \<Rightarrow> cache" where
  "new_cache maxc d = \<lparr>max_count = nat maxc, items = (\<lambda>_. None), failed_ids = {},
     attempts = (\<lambda>_. 0), sorted_ids = [], disk = d\<rparr>"

text \<open>\<^verbatim>\<open>strconv.ParseInt(id, 10, 64)\<close>: an optional sign, decimal digits, in range.\<close>

definition digit_value :: "char \<Rightarrow> int option" where
  "digit_value c = (let n = of_char c :: int in if 48 \<le> n \<and> n \<le> 57 then Some (n - 48) else None)"

fun digits_value :: "int \<Rightarrow> string \<Rightarrow> int option" where
  "digits_value acc [] = Some acc"
| "digits_value acc (c # s) =
     (case digit_value c of None \<Rightarrow> None | Some d \<Rightarrow> digits_value (acc * 10 + d) s)"

definition parse_int64 :: "string \<Rightarrow> int option" where
  "parse_int64 s =
     (let (neg, ds) = (case s of c # r \<Rightarrow> if c = CHR ''-'' then (True, r)
                         else if c = CHR ''+'' then (False, r) else (False, s)
                       | [] \<Rightarrow> (False, []))
      in if ds = [] then None
         else case digits_value 0 ds of
           None \<Rightarrow> None
         | Some n \<Rightarrow> (let v = (if neg then - n else n) in
                      if - (2 ^ 63) \<le> v \<and> v < 2 ^ 63 then Some v else None))"

definition id_time :: "cache \<Rightarrow> string \<Rightarrow> gtime" where
  "id_time c i =
     (case items c i of
        Some it \<Rightarrow> if start_time it \<noteq> 0 then start_time it
                   else (case parse_int64 i of Some ts \<Rightarrow> unix_time ts | None \<Rightarrow> 0)
      | None \<Rightarrow> (case parse_int64 i of Some ts \<Rightarrow> unix_time ts | None \<Rightarrow> 0))"

text \<open>
  Newest first. \<^verbatim>\<open>sort.Slice\<close> leaves the order of equal times open; the stable order
  is the one its insertion sort gives on the short lists it sees here.
\<close>

definition sort_ids :: "cache \<Rightarrow> cache" where
  "sort_ids c = c\<lparr>sorted_ids := sort_key (\<lambda>i. - id_time c i) (sorted_ids c)\<rparr>"

definition remove_files :: "string \<Rightarrow> directory \<Rightarrow> directory" where
  "remove_files i d =
     dir_remove (i @ ''.mp4.tmp'') (dir_remove (i @ ''.failed'') (dir_remove (i @ ''.json'')
       (dir_remove (i @ ''.jpg'') (dir_remove (i @ ''.mp4'') d))))"

text \<open>Forgetting an id: the three maps and the five files.\<close>

definition drop_id :: "string \<Rightarrow> cache \<Rightarrow> cache" where
  "drop_id i c =
     c\<lparr>items := (items c)(i := None), failed_ids := failed_ids c - {i},
       attempts := (attempts c)(i := 0), disk := remove_files i (disk c)\<rparr>"

function prune_loop :: "cache \<Rightarrow> cache" where
  "prune_loop c =
     (if length (sorted_ids c) > max_count c
      then prune_loop (drop_id (last (sorted_ids c)) (c\<lparr>sorted_ids := butlast (sorted_ids c)\<rparr>))
      else c)"
  by pat_completeness auto
termination
  by (relation "measure (\<lambda>c. length (sorted_ids c))") (auto simp: drop_id_def)

declare prune_loop.simps [simp del]

definition prune :: "cache \<Rightarrow> cache" where
  "prune c = (if max_count c = 0 then c else prune_loop c)"

definition index_id :: "string \<Rightarrow> cache \<Rightarrow> cache" where
  "index_id i c = (if i \<in> set (sorted_ids c) then c else c\<lparr>sorted_ids := sorted_ids c @ [i]\<rparr>)"

subsection \<open>Thumbnails\<close>

text \<open>
  \<^verbatim>\<open>FFmpegExtractor.ExtractFrame\<close>: \<open>run\<close> stands for one run of ffmpeg at an offset in
  milliseconds and gives the size of the picture it left, None if it failed.
\<close>

definition run_extraction :: "(int \<Rightarrow> int option) \<Rightarrow> int \<Rightarrow> int option" where
  "run_extraction run off = (case run off of Some n \<Rightarrow> if n = 0 then None else Some n | None \<Rightarrow> None)"

definition extract_frame :: "(int \<Rightarrow> int option) \<Rightarrow> int option \<Rightarrow> int \<Rightarrow> int option" where
  "extract_frame run video_size off =
     (case video_size of
        None \<Rightarrow> None
      | Some n \<Rightarrow>
          if n = 0 then None
          else (case run_extraction run off of
                  Some t \<Rightarrow> Some t
                | None \<Rightarrow>
                    (case (if off > 1000 then run_extraction run 1000 else None) of
                       Some t \<Rightarrow> Some t
                     | None \<Rightarrow> run_extraction run 0)))"

definition thumb_offset :: "recording_item \<Rightarrow> int" where
  "thumb_offset it =
     (if duration_seconds it > 0 \<and> duration_seconds it < 5
      then go_div (duration_seconds it) 2 * 1000 else 5000)"

definition video_url_of :: "string \<Rightarrow> string" where
  "video_url_of i = ''/api/sdcard/events/'' @ i @ ''/video.mp4''"

definition thumb_url_of :: "string \<Rightarrow> string" where
  "thumb_url_of i = ''/api/sdcard/events/'' @ i @ ''/thumbnail.jpg''"

text \<open>
  The extractor's work in a directory: None without an extractor. The result is the
  thumbnail URL and the directory with the new picture in it.
\<close>

definition make_thumb ::
  "(int \<Rightarrow> int option) option \<Rightarrow> recording_item \<Rightarrow> string \<Rightarrow> directory \<Rightarrow> string \<times> directory" where
  "make_thumb ex it i d =
     (case ex of
        None \<Rightarrow> ([], d)
      | Some run \<Rightarrow>
          (case extract_frame run (map_option f_size (map_of d (i @ ''.mp4''))) (thumb_offset it) of
             None \<Rightarrow> ([], d)
           | Some n \<Rightarrow> (thumb_url_of i, dir_write (i @ ''.jpg'') \<lparr>f_size = n, f_kind = Plain\<rparr> d)))"

subsection \<open>Add\<close>

record add_env =
  open_ok :: bool
  copied :: int
  copy_ok :: bool
  close_ok :: bool
  rename_ok :: bool
  extractor :: "(int \<Rightarrow> int option) option"
  json_ok :: bool
  json_rename_ok :: bool
  json_size :: int

datatype add_error = EmptyID | CreateFailed | WriteFailed | CloseFailed | NoData | Incomplete int int | FinalizeFailed

text \<open>The first part: the video goes to a temporary file and is renamed when complete.\<close>

definition store_video :: "recording_item \<Rightarrow> add_env \<Rightarrow> directory \<Rightarrow> (add_error + unit) \<times> directory" where
  "store_video it e d =
     (let i = item_id it; tmp = i @ ''.mp4.tmp'' in
      if \<not> open_ok e then (Inl CreateFailed, d)
      else
        let d1 = dir_write tmp \<lparr>f_size = copied e, f_kind = Plain\<rparr> d in
        if \<not> copy_ok e then (Inl WriteFailed, dir_remove tmp d1)
        else if \<not> close_ok e then (Inl CloseFailed, dir_remove tmp d1)
        else if copied e = 0 then (Inl NoData, dir_remove tmp d1)
        else if file_size_bytes it > 0 \<and> copied e < file_size_bytes it
          then (Inl (Incomplete (copied e) (file_size_bytes it)), dir_remove tmp d1)
        else if \<not> rename_ok e then (Inl FinalizeFailed, dir_remove tmp d1)
        else (Inr (), dir_rename tmp (i @ ''.mp4'') d1))"

definition store_json :: "recording_item \<Rightarrow> add_env \<Rightarrow> directory \<Rightarrow> directory" where
  "store_json it e d =
     (if json_ok e then
        (let d1 = dir_write (item_id it @ ''.json.tmp'') \<lparr>f_size = json_size e, f_kind = Json it\<rparr> d
         in if json_rename_ok e
            then dir_rename (item_id it @ ''.json.tmp'') (item_id it @ ''.json'') d1 else d1)
      else d)"

definition cache_add :: "recording_item \<Rightarrow> add_env \<Rightarrow> cache \<Rightarrow> (add_error + recording_item) \<times> cache" where
  "cache_add it e c =
     (if max_count c = 0 then (Inr it, c)
      else if item_id it = [] then (Inl EmptyID, c)
      else
        case store_video it e (disk c) of
          (Inl err, d) \<Rightarrow> (Inl err, c\<lparr>disk := d\<rparr>)
        | (Inr _, d1) \<Rightarrow>
            (let i = item_id it;
                 it1 = it\<lparr>file_size_bytes := copied e, video_url := video_url_of i,
                         file_name := (if file_name it = [] then ''event_'' @ i @ ''.mp4'' else file_name it)\<rparr>;
                 (url, d2) = make_thumb (extractor e) it1 i d1;
                 it2 = it1\<lparr>thumbnail_url := url\<rparr>;
                 d3 = store_json it2 e d2;
                 c1 = c\<lparr>disk := d3, items := (items c)(i := Some it2)\<rparr>
             in (Inr it2, prune (sort_ids (index_id i c1)))))"

subsection \<open>Lookups, failures and deletion\<close>

definition cache_get :: "cache \<Rightarrow> string \<Rightarrow> recording_item option" where
  "cache_get c i = items c i"

definition cache_has :: "cache \<Rightarrow> string \<Rightarrow> bool" where
  "cache_has c i \<longleftrightarrow> items c i \<noteq> None \<or> i \<in> failed_ids c"

definition cache_has_failed :: "cache \<Rightarrow> string \<Rightarrow> bool" where
  "cache_has_failed c i \<longleftrightarrow> i \<in> failed_ids c"

text \<open>
  \<open>marker\<close> is the size of the marker file, None when it cannot be written. The file is
  written last, after the pruning.
\<close>

definition mark_failed :: "string \<Rightarrow> int option \<Rightarrow> cache \<Rightarrow> cache" where
  "mark_failed i marker c =
     (let c1 = prune (sort_ids (index_id i (c\<lparr>failed_ids := insert i (failed_ids c)\<rparr>))) in
      case marker of
        Some n \<Rightarrow> c1\<lparr>disk := dir_write (i @ ''.failed'') \<lparr>f_size = n, f_kind = Plain\<rparr> (disk c1)\<rparr>
      | None \<Rightarrow> c1)"

definition record_failure :: "string \<Rightarrow> int option \<Rightarrow> cache \<Rightarrow> bool \<times> cache" where
  "record_failure i marker c =
     (let n = Suc (attempts c i); c1 = c\<lparr>attempts := (attempts c)(i := n)\<rparr> in
      if n \<ge> 2 then (True, mark_failed i marker c1) else (False, c1))"

definition cache_delete :: "string \<Rightarrow> cache \<Rightarrow> bool \<times> cache" where
  "cache_delete i c =
     (if items c i = None \<and> i \<notin> failed_ids c then (False, c)
      else (True, drop_id i (c\<lparr>sorted_ids := remove1 i (sorted_ids c)\<rparr>)))"

definition get_video :: "cache \<Rightarrow> string \<Rightarrow> string option" where
  "get_video c i =
     (if contains i ''/'' \<or> contains i [CHR 0x5C] \<or> contains i ''..'' then None
      else case items c i of
        None \<Rightarrow> None
      | Some _ \<Rightarrow> (case map_of (disk c) (i @ ''.mp4'') of
                    Some f \<Rightarrow> if f_size f > 0 then Some (i @ ''.mp4'') else None
                  | None \<Rightarrow> None))"

definition get_thumbnail :: "cache \<Rightarrow> string \<Rightarrow> string option" where
  "get_thumbnail c i =
     (if contains i ''/'' \<or> contains i [CHR 0x5C] \<or> contains i ''..'' then None
      else case items c i of
        None \<Rightarrow> None
      | Some it \<Rightarrow>
          if thumbnail_url it = [] then None
          else (case map_of (disk c) (i @ ''.jpg'') of
                  Some f \<Rightarrow> if f_size f > 0 then Some (i @ ''.jpg'') else None
                | None \<Rightarrow> None))"

text \<open>An id without an item reads as the zero item, as a missing key of a Go map does.\<close>

definition item_or_zero :: "cache \<Rightarrow> string \<Rightarrow> recording_item" where
  "item_or_zero c i = (case items c i of Some it \<Rightarrow> it | None \<Rightarrow> zero_item)"

definition cache_count :: "cache \<Rightarrow> nat" where
  "cache_count c = length (sorted_ids c)"

definition cache_latest :: "cache \<Rightarrow> recording_item option" where
  "cache_latest c = (case sorted_ids c of [] \<Rightarrow> None | i # _ \<Rightarrow> Some (item_or_zero c i))"

definition oldest_start_time :: "cache \<Rightarrow> gtime" where
  "oldest_start_time c =
     (if sorted_ids c = [] then 0 else start_time (item_or_zero c (last (sorted_ids c))))"

definition newest_start_time :: "cache \<Rightarrow> gtime" where
  "newest_start_time c =
     (case sorted_ids c of [] \<Rightarrow> 0 | i # _ \<Rightarrow> start_time (item_or_zero c i))"

subsection \<open>List\<close>

record list_response =
  resp_count :: int
  resp_total :: int
  resp_list :: "recording_item list"

definition in_range :: "gtime \<Rightarrow> gtime \<Rightarrow> recording_item \<Rightarrow> bool" where
  "in_range start stop it \<longleftrightarrow>
     \<not> (start \<noteq> 0 \<and> end_time it < start) \<and> \<not> (stop \<noteq> 0 \<and> start_time it > stop)"

definition matched :: "cache \<Rightarrow> gtime \<Rightarrow> gtime \<Rightarrow> recording_item list" where
  "matched c start stop = filter (in_range start stop) (map (item_or_zero c) (sorted_ids c))"

text \<open>
  The page is cut out of the matches with \<^verbatim>\<open>matched[offset:endIdx]\<close>: None is the
  run-time panic of a slice expression that is out of range. \<^verbatim>\<open>page * limit\<close> and
  \<^verbatim>\<open>offset + limit\<close> are 64-bit products and sums.
\<close>

definition list_page :: "recording_item list \<Rightarrow> int \<Rightarrow> int \<Rightarrow> list_response option" where
  "list_page ms page limit =
     (let total = int (length ms);
          limit = (if limit \<le> 0 then total else limit);
          page = (if page < 0 then 0 else page);
          off = wrap64 (page * limit)
      in if off \<ge> total then Some \<lparr>resp_count = 0, resp_total = total, resp_list = []\<rparr>
         else
           let stop = (if wrap64 (off + limit) > total then total else wrap64 (off + limit))
           in if 0 \<le> off \<and> off \<le> stop \<and> stop \<le> total
              then (let r = take (nat (stop - off)) (drop (nat off) ms)
                    in Some \<lparr>resp_count = int (length r), resp_total = total, resp_list = r\<rparr>)
              else None)"

definition cache_list :: "cache \<Rightarrow> gtime \<Rightarrow> gtime \<Rightarrow> int \<Rightarrow> int \<Rightarrow> list_response option" where
  "cache_list c start stop page limit = list_page (matched c start stop) page limit"

subsection \<open>LoadExisting\<close>

record load_env =
  l_extractor :: "(int \<Rightarrow> int option) option"
  l_json_ok :: bool
  l_json_size :: int

text \<open>A metadata file whose video is there: repaired, indexed, or thrown away with its video.\<close>

definition load_item :: "load_env \<Rightarrow> string \<Rightarrow> recording_item \<Rightarrow> int \<Rightarrow> cache \<Rightarrow> cache" where
  "load_item e i it vsize c =
     (if file_size_bytes it > 0 \<and> vsize < file_size_bytes it then
        c\<lparr>disk := dir_remove (i @ ''.jpg'') (dir_remove (i @ ''.json'')
                   (dir_remove (i @ ''.mp4'') (disk c)))\<rparr>
      else
        let it1 = it\<lparr>file_size_bytes := vsize, video_url := video_url_of i\<rparr>;
            has_thumb = (case map_of (disk c) (i @ ''.jpg'') of
                           Some f \<Rightarrow> f_size f > 0 | None \<Rightarrow> False);
            (url, d1) = (if has_thumb then (thumb_url_of i, disk c)
                         else make_thumb (l_extractor e) it1 i (disk c));
            it2 = it1\<lparr>thumbnail_url := url\<rparr>;
            d2 = (if \<not> has_thumb \<and> url \<noteq> [] \<and> l_json_ok e
                  then dir_write (i @ ''.json'') \<lparr>f_size = l_json_size e, f_kind = Json it2\<rparr> d1
                  else d1)
        in c\<lparr>disk := d2, items := (items c)(i := Some it2), sorted_ids := sorted_ids c @ [i]\<rparr>)"

definition load_entry :: "load_env \<Rightarrow> string \<times> dir_file \<Rightarrow> cache \<Rightarrow> cache" where
  "load_entry e entry c =
     (let name = fst entry; is_dir = (f_kind (snd entry) = Dir) in
      if has_suffix name ''.tmp'' \<or> has_prefix name ''.tmp_''
      then c\<lparr>disk := dir_remove name (disk c)\<rparr>
      else if \<not> is_dir \<and> has_suffix name ''.failed'' then
        (let i = trim_suffix name ''.failed''
         in c\<lparr>failed_ids := insert i (failed_ids c), sorted_ids := sorted_ids c @ [i]\<rparr>)
      else if \<not> is_dir \<and> has_suffix name ''.json'' then
        (let i = trim_suffix name ''.json'' in
         case map_of (disk c) (i @ ''.mp4'') of
           None \<Rightarrow> c\<lparr>disk := dir_remove name (disk c)\<rparr>
         | Some v \<Rightarrow>
             if f_size v = 0 then c\<lparr>disk := dir_remove name (disk c)\<rparr>
             else (case map_of (disk c) name of
                     Some f \<Rightarrow> (case f_kind f of Json it \<Rightarrow> load_item e i it (f_size v) c | _ \<Rightarrow> c)
                   | None \<Rightarrow> c))
      else c)"

text \<open>\<^verbatim>\<open>os.ReadDir\<close> lists by name; the listing is read once, before the loop.\<close>

definition load_existing :: "load_env \<Rightarrow> cache \<Rightarrow> cache" where
  "load_existing e c =
     prune (sort_ids (fold (load_entry e) (sort_key fst (disk c))
       (c\<lparr>items := (\<lambda>_. None), failed_ids := {}, sorted_ids := []\<rparr>)))"

definition open_cache :: "load_env \<Rightarrow> int \<Rightarrow> directory \<Rightarrow> cache" where
  "open_cache e maxc d =
     (if maxc > 0 then load_existing e (new_cache maxc d) else new_cache maxc d)"

end
