(* ===== verification/Recording_Sync.thy ===== *)
theory Recording_Sync
  imports Recording_Cache
begin

text \<open>
  \<^verbatim>\<open>CachedRecordingProvider\<close> (\<^verbatim>\<open>pkg/storage/cached_provider.go\<close>), which puts
  the cache in front of a camera, and \<^verbatim>\<open>RecordingSyncer\<close>
  (\<^verbatim>\<open>pkg/storage/syncer.go\<close>), which fills the cache in the background and announces new
  recordings. The camera is a \<^verbatim>\<open>RecordingProvider\<close>: a record of its four methods. The
  syncer takes the provider's \<^verbatim>\<open>SyncLatest\<close> as an argument, as the code finds it by a type
  assertion on the interface.
\<close>

datatype storage_error =
    StorageBusy
  | StorageTimeout
  | StorageNotFound
  | TransferAborted
  | FeatureDisabled
  | OtherError string

text \<open>What was written to a writer before a stream ended, and the error it ended with.\<close>

type_synonym streamed = "bytes \<times> storage_error option"

record upstream =
  up_list :: "gtime \<Rightarrow> gtime \<Rightarrow> int \<Rightarrow> int \<Rightarrow> string \<Rightarrow> storage_error + list_response option"
  up_get :: "string \<Rightarrow> storage_error + recording_item"
  up_thumbnail :: "string \<Rightarrow> streamed"
  up_video :: "string \<Rightarrow> streamed"

record provider =
  p_cache :: "cache option"
  p_upstream :: "upstream option"
  sync_running :: bool

definition new_provider :: "cache option \<Rightarrow> upstream option \<Rightarrow> provider" where
  "new_provider c u = \<lparr>p_cache = c, p_upstream = u, sync_running = False\<rparr>"

subsection \<open>Listing and single recordings\<close>

text \<open>The two cases in which the cache alone answers a query.\<close>

definition served_from_cache :: "cache \<Rightarrow> gtime \<Rightarrow> gtime \<Rightarrow> int \<Rightarrow> int \<Rightarrow> bool" where
  "served_from_cache c start stop page limit \<longleftrightarrow>
     max_count c > 0 \<and> cache_count c > 0 \<and>
     (page = 0 \<and> start = 0 \<and> stop = 0 \<and> (limit \<le> 0 \<or> limit \<le> int (cache_count c)) \<or>
      start \<noteq> 0 \<and> oldest_start_time c \<noteq> 0 \<and> start \<ge> oldest_start_time c)"

definition enrich :: "cache \<Rightarrow> recording_item \<Rightarrow> recording_item" where
  "enrich c it =
     (if cache_has c (item_id it) then
        (case cache_get c (item_id it) of
           Some k \<Rightarrow> it\<lparr>thumbnail_url := (if thumbnail_url k \<noteq> [] then thumbnail_url k else thumbnail_url it),
                       video_url := video_url k\<rparr>
         | None \<Rightarrow> it)
      else it)"

text \<open>The outer option is the panic that \<^verbatim>\<open>List\<close> of the cache can end in.\<close>

definition list_recordings ::
  "provider \<Rightarrow> gtime \<Rightarrow> gtime \<Rightarrow> int \<Rightarrow> int \<Rightarrow> string \<Rightarrow> (storage_error + list_response) option" where
  "list_recordings p start stop page limit ty =
     (let from_cache = (\<lambda>c. map_option Inr (cache_list c start stop page limit)) in
      case (p_cache p, p_upstream p) of
        (None, None) \<Rightarrow> Some (Inl FeatureDisabled)
      | (None, Some u) \<Rightarrow>
          (case up_list u start stop page limit ty of
             Inl e \<Rightarrow> Some (Inl e)
           | Inr None \<Rightarrow> Some (Inr \<lparr>resp_count = 0, resp_total = 0, resp_list = []\<rparr>)
           | Inr (Some r) \<Rightarrow> Some (Inr r))
      | (Some c, None) \<Rightarrow>
          (if served_from_cache c start stop page limit \<or> cache_count c > 0 then from_cache c
           else Some (Inl FeatureDisabled))
      | (Some c, Some u) \<Rightarrow>
          (if served_from_cache c start stop page limit then from_cache c
           else case up_list u start stop page limit ty of
               Inl e \<Rightarrow> if cache_count c > 0 then from_cache c else Some (Inl e)
             | Inr None \<Rightarrow> Some (Inr \<lparr>resp_count = 0, resp_total = 0, resp_list = []\<rparr>)
             | Inr (Some r) \<Rightarrow> Some (Inr (r\<lparr>resp_list := map (enrich c) (resp_list r)\<rparr>))))"

definition get_recording :: "provider \<Rightarrow> string \<Rightarrow> storage_error + recording_item" where
  "get_recording p i =
     (case (case p_cache p of Some c \<Rightarrow> cache_get c i | None \<Rightarrow> None) of
        Some it \<Rightarrow> Inr it
      | None \<Rightarrow> (case p_upstream p of Some u \<Rightarrow> up_get u i | None \<Rightarrow> Inl StorageNotFound))"

subsection \<open>Streams\<close>

text \<open>
  A stream comes from a file of the cache (its name, and the name and size \<^verbatim>\<open>onStart\<close> is
  told, if it is called) or from the camera. \<open>can_open\<close> and \<open>can_stat\<close> are the
  outcomes of \<^verbatim>\<open>os.Open\<close> and \<^verbatim>\<open>Stat\<close>.
\<close>

datatype delivery =
    CachedFile string "(string \<times> int) option"
  | FromCamera streamed
  | Refused storage_error

definition bad_id :: "string \<Rightarrow> bool" where
  "bad_id i \<longleftrightarrow> contains i ''/'' \<or> contains i [CHR 0x5C] \<or> contains i ''..''"

definition stream_thumbnail :: "provider \<Rightarrow> string \<Rightarrow> bool \<Rightarrow> delivery" where
  "stream_thumbnail p i can_open =
     (if bad_id i then Refused StorageNotFound
      else
        let camera = (case p_upstream p of Some u \<Rightarrow> FromCamera (up_thumbnail u i)
                      | None \<Rightarrow> Refused FeatureDisabled)
        in case p_cache p of
          None \<Rightarrow> camera
        | Some c \<Rightarrow>
            (case get_thumbnail c i of
               None \<Rightarrow> camera
             | Some path \<Rightarrow>
                 if contains path ''..'' then Refused StorageNotFound
                 else if can_open then CachedFile path None else camera))"

definition stream_video :: "provider \<Rightarrow> string \<Rightarrow> bool \<Rightarrow> bool \<Rightarrow> bool \<Rightarrow> delivery" where
  "stream_video p i on_start can_open can_stat =
     (if bad_id i then Refused StorageNotFound
      else
        let camera = (case p_upstream p of Some u \<Rightarrow> FromCamera (up_video u i)
                      | None \<Rightarrow> Refused StorageNotFound)
        in case p_cache p of
          None \<Rightarrow> camera
        | Some c \<Rightarrow>
            (case get_video c i of
               None \<Rightarrow> camera
             | Some path \<Rightarrow>
                 if contains path ''..'' then Refused StorageNotFound
                 else if can_open then
                   CachedFile path
                     (if can_stat \<and> on_start
                      then Some (''event_'' @ i @ ''.mp4'',
                                 (case map_of (disk c) path of Some f \<Rightarrow> f_size f | None \<Rightarrow> 0))
                      else None)
                 else camera))"

definition get_cached_video_path :: "provider \<Rightarrow> string \<Rightarrow> string option" where
  "get_cached_video_path p i =
     (if bad_id i then None else case p_cache p of None \<Rightarrow> None | Some c \<Rightarrow> get_video c i)"

subsection \<open>SyncLatest\<close>

text \<open>
  The environment of one download: what \<^verbatim>\<open>Add\<close> meets, the size of a failure marker,
  whether the context is done before the download and in the pause after it, and whether the
  camera still has data to write into the pipe when \<^verbatim>\<open>Add\<close> returns. In that last case the
  writer is stuck for good, as nobody reads or closes its pipe, and with it
  \<^verbatim>\<open>wg.Wait()\<close>; a download that ran to its end leaves nothing unread.
\<close>

record item_env =
  download :: add_env
  marker :: "int option"
  ctx_done :: bool
  ctx_done_after :: bool
  unread :: bool

text \<open>The errors with which \<^verbatim>\<open>Add\<close> returns before it has read the stream to its end.\<close>

definition stops_early :: "add_error \<Rightarrow> bool" where
  "stops_early err \<longleftrightarrow> err = EmptyID \<or> err = CreateFailed \<or> err = WriteFailed"

text \<open>
  The loop over the camera's list. The result is None if a download never returns; otherwise
  the new items, the ids that were asked for, whether the context ended it, and the cache.
\<close>

fun sync_items ::
  "(recording_item \<times> item_env) list \<Rightarrow> cache \<Rightarrow> (recording_item list \<times> string list \<times> bool \<times> cache) option" where
  "sync_items [] c = Some ([], [], False, c)"
| "sync_items ((it, e) # its) c =
     (if ctx_done e then Some ([], [], False, c)
      else if cache_has c (item_id it) then sync_items its c
      else case cache_add it (download e) c of
          (Inl err, c1) \<Rightarrow>
            (if stops_early err \<and> unread e then None
             else case sync_items its (snd (record_failure (item_id it) (marker e) c1)) of
                 None \<Rightarrow> None
               | Some (ns, fs, b, c2) \<Rightarrow> Some (ns, item_id it # fs, b, c2))
        | (Inr saved, c1) \<Rightarrow>
            (if ctx_done_after e then Some ([saved], [item_id it], True, c1)
             else case sync_items its c1 of
                 None \<Rightarrow> None
               | Some (ns, fs, b, c2) \<Rightarrow> Some (saved # ns, item_id it # fs, b, c2)))"

datatype sync_error = QueryFailed storage_error | ContextDone

type_synonym sync_outcome = "sync_error option \<times> recording_item list \<times> string list"

text \<open>\<open>envs k\<close> is the environment of the \<open>k\<close>-th item of the camera's list.\<close>

definition sync_latest :: "(nat \<Rightarrow> item_env) \<Rightarrow> provider \<Rightarrow> (sync_outcome \<times> provider) option" where
  "sync_latest envs p =
     (case (p_cache p, p_upstream p) of
        (Some c, Some u) \<Rightarrow>
          (if max_count c = 0 \<or> sync_running p then Some ((None, [], []), p)
           else case up_list u 0 0 0 (int (max_count c)) [] of
               Inl e \<Rightarrow> Some ((Some (QueryFailed e), [], []), p)
             | Inr None \<Rightarrow> Some ((None, [], []), p)
             | Inr (Some r) \<Rightarrow>
                 (case sync_items (map (\<lambda>(k, it). (it, envs k)) (enumerate 0 (resp_list r))) c of
                    None \<Rightarrow> None
                  | Some (ns, fs, b, c') \<Rightarrow>
                      Some ((if b then Some ContextDone else None, ns, fs), p\<lparr>p_cache := Some c'\<rparr>)))
      | _ \<Rightarrow> Some ((None, [], []), p))"

subsection \<open>The syncer\<close>

record syncer =
  poll_interval :: int
  stream_active :: "bool option"
  last_periodic_poll :: gtime
  last_seen_id :: string
  last_seen_time :: gtime
  trigger_pending :: bool

definition new_syncer :: "int \<Rightarrow> syncer" where
  "new_syncer interval = \<lparr>poll_interval = (if interval < 0 then 0 else interval), stream_active = None,
     last_periodic_poll = 0, last_seen_id = [], last_seen_time = 0, trigger_pending = False\<rparr>"

text \<open>The channel of capacity one: a second trigger is dropped.\<close>

definition trigger_sync :: "syncer \<Rightarrow> syncer" where
  "trigger_sync s = s\<lparr>trigger_pending := True\<rparr>"

definition set_stream_active :: "bool option \<Rightarrow> syncer \<Rightarrow> syncer" where
  "set_stream_active f s = s\<lparr>stream_active := f\<rparr>"

text \<open>What both paths do with the newest recording: remember it and announce it.\<close>

definition note_latest :: "recording_item \<Rightarrow> syncer \<Rightarrow> syncer \<times> recording_item list" where
  "note_latest it s = (s\<lparr>last_seen_id := item_id it, last_seen_time := start_time it\<rparr>, [it])"

definition sync_cached :: "recording_item list \<Rightarrow> syncer \<Rightarrow> syncer \<times> recording_item list" where
  "sync_cached newly s =
     (case newly of
        [] \<Rightarrow> (s, [])
      | latest # _ \<Rightarrow> if item_id latest = [] \<or> start_time latest = 0 then (s, []) else note_latest latest s)"

definition query_start :: "syncer \<Rightarrow> gtime" where
  "query_start s = (if last_seen_time s \<noteq> 0 then last_seen_time s - 10 * 1000000000 else 0)"

definition sync_query :: "storage_error + list_response option \<Rightarrow> syncer \<Rightarrow> syncer \<times> recording_item list" where
  "sync_query resp s =
     (case resp of
        Inr (Some r) \<Rightarrow>
          (case resp_list r of
             [] \<Rightarrow> (s, [])
           | latest # _ \<Rightarrow>
               if item_id latest = [] \<or> start_time latest = 0 then (s, [])
               else if last_seen_id s = [] \<or> item_id latest \<noteq> last_seen_id s then note_latest latest s
               else (s, []))
      | _ \<Rightarrow> (s, []))"

text \<open>
  \<^verbatim>\<open>syncOnce\<close>: no provider, one with \<^verbatim>\<open>SyncLatest\<close>, or a plain one. The result
  carries the recordings given to \<^verbatim>\<open>onNewRecording\<close> and the provider afterwards.
\<close>

datatype 'p source = NoProvider | Caching 'p | Direct upstream

definition sync_once ::
  "('p \<Rightarrow> (sync_outcome \<times> 'p) option) \<Rightarrow> 'p source \<Rightarrow> syncer \<Rightarrow>
     ((syncer \<times> recording_item list) \<times> 'p source) option" where
  "sync_once sync src s =
     (case src of
        NoProvider \<Rightarrow> Some ((s, []), src)
      | Caching p \<Rightarrow>
          (case sync p of
             None \<Rightarrow> None
           | Some ((err, newly, fetched), p') \<Rightarrow> Some (sync_cached newly s, Caching p'))
      | Direct u \<Rightarrow> Some (sync_query (up_list u (query_start s) 0 0 5 []) s, src))"

text \<open>
  A tick of the periodic timer: whether it leads to a poll, and the state afterwards. While
  video is streamed, polls keep five minutes of distance.
\<close>

definition five_minutes :: int where "five_minutes = 5 * 60 * 1000000000"

definition on_tick :: "gtime \<Rightarrow> syncer \<Rightarrow> bool \<times> syncer" where
  "on_tick now s =
     (if stream_active s = Some True \<and> last_periodic_poll s \<noteq> 0 \<and>
         now - last_periodic_poll s < five_minutes
      then (False, s)
      else (True, s\<lparr>last_periodic_poll := now\<rparr>))"

definition on_trigger :: "syncer \<Rightarrow> bool \<times> syncer" where
  "on_trigger s = (if trigger_pending s then (True, s\<lparr>trigger_pending := False\<rparr>) else (False, s))"

text \<open>
  The loop of \<^verbatim>\<open>Start\<close> as a sequence of the events its \<^verbatim>\<open>select\<close> takes; the
  result lists the times of the periodic polls, and a trigger without a time.
\<close>

datatype sync_event = Tick gtime | MotionSeen | TriggerRead | StreamState "bool option"

fun syncer_events :: "sync_event list \<Rightarrow> syncer \<Rightarrow> gtime option list \<times> syncer" where
  "syncer_events [] s = ([], s)"
| "syncer_events (Tick now # es) s =
     (case on_tick now s of
        (poll, s1) \<Rightarrow> (case syncer_events es s1 of
           (ps, s2) \<Rightarrow> (if poll then Some now # ps else ps, s2)))"
| "syncer_events (MotionSeen # es) s = syncer_events es (trigger_sync s)"
| "syncer_events (TriggerRead # es) s =
     (case on_trigger s of
        (run, s1) \<Rightarrow> (case syncer_events es s1 of
           (ps, s2) \<Rightarrow> (if run then None # ps else ps, s2)))"
| "syncer_events (StreamState f # es) s = syncer_events es (set_stream_active f s)"

end
