(* ===== verification/Sdcard_Transfer.thy ===== *)
theory Sdcard_Transfer
  imports Recording_Sync
begin

text \<open>
  \<^verbatim>\<open>SDCardManager\<close> of \<^verbatim>\<open>pkg/webrtc/sdcard.go\<close>: one download at a time from the
  camera's SD card over the data channel. The download (\<^verbatim>\<open>streamFile\<close>) and the handlers
  of what the data channel brings run concurrently; each turn of a \<^verbatim>\<open>select\<close> and each
  handled message is one event, and a run is a sequence of events. A chunk carries, for the
  reader of the model only, the number of the transfer the camera sent it for.
\<close>

record chunk =
  c_origin :: nat
  c_data :: bytes

datatype transfer_error =
    CameraError string
  | ConsumerStalled
  | WriterFailed
  | SendFailedError
  | TransferTimeout
  | TransferStopped
  | TransferBusy

record transfer =
  file_name :: string
  file_size :: int
  chunk_chan :: "chunk list"
  done_closed :: bool
  err_chan :: "transfer_error option"
  last_data :: gtime

definition new_transfer :: "gtime \<Rightarrow> transfer" where
  "new_transfer now = \<lparr>file_name = [], file_size = 0, chunk_chan = [], done_closed = False,
     err_chan = None, last_data = now\<rparr>"

text \<open>Where the download is: waiting in its \<^verbatim>\<open>select\<close>, emptying the channel, over.\<close>

datatype pump =
    Idle
  | Pumping bool bool
  | Draining
  | Finished "transfer_error option"

record manager =
  active :: "transfer option"
  pump :: pump
  written :: "chunk list"
  started_with :: "(string \<times> int) list"
  serial :: nat
  panicked :: bool

definition new_manager :: manager where
  "new_manager = \<lparr>active = None, pump = Idle, written = [], started_with = [], serial = 0, panicked = False\<rparr>"

definition chunk_chan_capacity :: nat where "chunk_chan_capacity = 1024"

definition running :: "pump \<Rightarrow> bool" where
  "running p \<longleftrightarrow> (case p of Idle \<Rightarrow> False | Finished _ \<Rightarrow> False | _ \<Rightarrow> True)"

subsection \<open>streamFile\<close>

text \<open>
  Its beginning: \<^verbatim>\<open>TryLock\<close>, the new transfer, the request to the camera. The deferred
  clean-up forgets the transfer, whatever the end.
\<close>

definition finish :: "transfer_error option \<Rightarrow> manager \<Rightarrow> manager" where
  "finish r m = m\<lparr>active := None, pump := Finished r\<rparr>"

definition start_transfer :: "gtime \<Rightarrow> bool \<Rightarrow> manager \<Rightarrow> manager" where
  "start_transfer now send_ok m =
     (let m1 = m\<lparr>active := Some (new_transfer now), pump := Pumping False False, written := [],
                 started_with := [], serial := Suc (serial m)\<rparr>
      in if send_ok then m1 else finish (Some SendFailedError) m1)"

text \<open>One chunk taken from the channel in the main loop: header, then data.\<close>

definition pump_chunk :: "gtime \<Rightarrow> bool \<Rightarrow> bool \<Rightarrow> manager \<Rightarrow> manager option" where
  "pump_chunk now write_ok wants_start m =
     (case (active m, pump m) of
        (Some t, Pumping first hdr) \<Rightarrow>
          (case chunk_chan t of
             [] \<Rightarrow> None
           | ch # rest \<Rightarrow>
               (let report = \<not> hdr \<and> wants_start \<and> file_size t > 0;
                    m1 = m\<lparr>active := Some (t\<lparr>chunk_chan := rest, last_data := now\<rparr>),
                           pump := Pumping True (hdr \<or> report),
                           started_with := (if report then started_with m @ [(file_name t, file_size t)]
                                            else started_with m)\<rparr>
                in Some (if c_data ch = [] then m1
                         else if write_ok then m1\<lparr>written := written m @ [ch]\<rparr>
                         else finish (Some WriterFailed) m1)))
      | _ \<Rightarrow> None)"

definition pump_done :: "manager \<Rightarrow> manager option" where
  "pump_done m =
     (case (active m, pump m) of
        (Some t, Pumping _ _) \<Rightarrow> if done_closed t then Some (m\<lparr>pump := Draining\<rparr>) else None
      | _ \<Rightarrow> None)"

definition pump_error :: "manager \<Rightarrow> manager option" where
  "pump_error m =
     (case (active m, pump m) of
        (Some t, Pumping _ _) \<Rightarrow> map_option (\<lambda>e. finish (Some e) m) (err_chan t)
      | _ \<Rightarrow> None)"

definition pump_cancel :: "manager \<Rightarrow> manager option" where
  "pump_cancel m = (case pump m of Pumping _ _ \<Rightarrow> Some (finish (Some TransferStopped) m) | _ \<Rightarrow> None)"

text \<open>The watchdog: 25 seconds for the first chunk, 10 between chunks.\<close>

definition pump_tick :: "gtime \<Rightarrow> manager \<Rightarrow> manager option" where
  "pump_tick now m =
     (case (active m, pump m) of
        (Some t, Pumping first _) \<Rightarrow>
          (let limit = (if first then 10 else 25) * 1000000000 in
           Some (if now - last_data t > limit then finish (Some TransferTimeout) m else m))
      | _ \<Rightarrow> None)"

definition drain_step :: "bool \<Rightarrow> manager \<Rightarrow> manager option" where
  "drain_step write_ok m =
     (case (active m, pump m) of
        (Some t, Draining) \<Rightarrow>
          Some (case chunk_chan t of
                  [] \<Rightarrow> finish None m
                | ch # rest \<Rightarrow>
                    (let m1 = m\<lparr>active := Some (t\<lparr>chunk_chan := rest\<rparr>)\<rparr> in
                     if c_data ch = [] then m1
                     else if write_ok then m1\<lparr>written := written m @ [ch]\<rparr>
                     else finish (Some WriterFailed) m1))
      | _ \<Rightarrow> None)"

subsection \<open>The data channel\<close>

definition push_error :: "transfer_error \<Rightarrow> transfer \<Rightarrow> transfer" where
  "push_error e t = (if err_chan t = None then t\<lparr>err_chan := Some e\<rparr> else t)"

text \<open>
  \<^verbatim>\<open>HandleBinaryChunk\<close>: delivered, or after five seconds in front of a full channel an
  error. Without a transfer, or empty, a chunk is dropped.
\<close>

definition handle_chunk :: "chunk \<Rightarrow> manager \<Rightarrow> manager" where
  "handle_chunk ch m =
     (case active m of
        None \<Rightarrow> m
      | Some t \<Rightarrow>
          (if c_data ch = [] then m
           else if length (chunk_chan t) < chunk_chan_capacity
             then m\<lparr>active := Some (t\<lparr>chunk_chan := chunk_chan t @ [ch]\<rparr>)\<rparr>
           else m\<lparr>active := Some (push_error ConsumerStalled t)\<rparr>))"

text \<open>
  \<^verbatim>\<open>HandleJSONMessage\<close> for a video or snapshot response: the action, name and size if
  the message has them, and the code if it is an error. A second \<^verbatim>\<open>end\<close> closes a closed
  channel, which panics.
\<close>

record json_msg =
  j_action :: string
  j_name :: "string option"
  j_size :: "int option"
  j_code :: "int option"

definition handle_transfer_json :: "json_msg \<Rightarrow> manager \<Rightarrow> manager" where
  "handle_transfer_json j m =
     (case active m of
        None \<Rightarrow> m
      | Some t \<Rightarrow>
          (if j_action j = ''end'' \<and> done_closed t then m\<lparr>panicked := True\<rparr>
           else
             let t1 = (if j_action j = ''start'' then
                         t\<lparr>file_name := (case j_name j of Some n \<Rightarrow> n | None \<Rightarrow> file_name t),
                           file_size := (case j_size j of Some n \<Rightarrow> n | None \<Rightarrow> file_size t)\<rparr>
                       else if j_action j = ''end'' then t\<lparr>done_closed := True\<rparr>
                       else if j_action j = ''fail'' \<or> j_action j = ''error''
                         then push_error (CameraError (j_action j)) t
                       else t);
                 t2 = (case j_code j of
                         Some c \<Rightarrow> if c \<noteq> 200 \<and> c \<noteq> 0 then push_error (CameraError ''code'') t1 else t1
                       | None \<Rightarrow> t1)
             in m\<lparr>active := Some t2\<rparr>))"

subsection \<open>Runs\<close>

datatype sd_event =
    Start gtime bool
  | TakeChunk gtime bool bool
  | TakeDone
  | TakeError
  | Cancel
  | TickAt gtime
  | Drain bool
  | ChunkIn chunk
  | JsonIn json_msg

definition sd_apply :: "sd_event \<Rightarrow> manager \<Rightarrow> manager option" where
  "sd_apply e m =
     (if panicked m then None
      else case e of
        Start now ok \<Rightarrow> if running (pump m) then None else Some (start_transfer now ok m)
      | TakeChunk now ok st \<Rightarrow> pump_chunk now ok st m
      | TakeDone \<Rightarrow> pump_done m
      | TakeError \<Rightarrow> pump_error m
      | Cancel \<Rightarrow> pump_cancel m
      | TickAt now \<Rightarrow> pump_tick now m
      | Drain ok \<Rightarrow> drain_step ok m
      | ChunkIn ch \<Rightarrow> Some (handle_chunk ch m)
      | JsonIn j \<Rightarrow> Some (handle_transfer_json j m))"

inductive sd_run :: "manager \<Rightarrow> sd_event list \<Rightarrow> manager \<Rightarrow> bool" where
  run_nil: "sd_run m [] m"
| run_snoc: "sd_run m es m1 \<Longrightarrow> sd_apply e m1 = Some m2 \<Longrightarrow> sd_run m (es @ [e]) m2"

inductive_cases sd_run_snocE: "sd_run m (es @ [e]) m2"

subsection \<open>GetEventList\<close>

record sd_query =
  sq_start :: int
  sq_end :: int
  sq_page :: int
  sq_limit :: int

definition normal_query :: "sd_query \<Rightarrow> sd_query" where
  "normal_query q = q\<lparr>sq_limit := (if sq_limit q \<le> 0 then 1000 else sq_limit q),
     sq_page := (if sq_page q < 0 then 0 else sq_page q),
     sq_end := (if sq_end q = 0 then 2147483647 else sq_end q)\<rparr>"

datatype query_outcome = QAnswered | QDeadline | QCancelled | QTimedOut | QNotSent

text \<open>The counter of consecutive timeouts, and whether the handler is called.\<close>

definition record_timeout :: "nat \<Rightarrow> nat \<times> bool" where
  "record_timeout n = (Suc n, Suc n \<ge> 3)"

definition query_step :: "query_outcome \<Rightarrow> nat \<Rightarrow> nat \<times> bool" where
  "query_step q n =
     (case q of
        QAnswered \<Rightarrow> (0, False)
      | QDeadline \<Rightarrow> record_timeout n
      | QTimedOut \<Rightarrow> record_timeout n
      | _ \<Rightarrow> (n, False))"

text \<open>The calls of the handler over a sequence of queries.\<close>

fun query_run :: "query_outcome list \<Rightarrow> nat \<Rightarrow> bool list" where
  "query_run [] n = []"
| "query_run (q # qs) n = (case query_step q n of (n', reset) \<Rightarrow> reset # query_run qs n')"

subsection \<open>ListRecordings and GetRecording\<close>

record event_item =
  time_tag :: int
  record_time :: int
  ev_type :: string
  ev_name :: string
  ev_size :: int

fun dec_of_nat :: "nat \<Rightarrow> string" where
  "dec_of_nat n = (if n < 10 then [char_of (48 + n)] else dec_of_nat (n div 10) @ [char_of (48 + n mod 10)])"

declare dec_of_nat.simps [simp del]

definition dec_of_int :: "int \<Rightarrow> string" where
  "dec_of_int i = (if i < 0 then ''-'' @ dec_of_nat (nat (- i)) else dec_of_nat (nat i))"

definition seconds :: "int \<Rightarrow> int" where "seconds n = wrap64 (n * 1000000000)"

definition item_of_event :: "event_item \<Rightarrow> recording_item" where
  "item_of_event ev =
     (let dur = (if record_time ev \<le> 0 then 30 else record_time ev); i = dec_of_int (time_tag ev) in
      \<lparr>item_id = i, start_time = unix_time (time_tag ev),
       end_time = unix_time (time_tag ev) + seconds dur, duration_seconds = dur,
       event_type = (if ev_type ev = [] then ''motion'' else ev_type ev),
       file_size_bytes = ev_size ev,
       recording_item.file_name = (if ev_name ev = [] then ''event_'' @ i @ ''.mp4'' else ev_name ev),
       thumbnail_url = [], video_url = video_url_of i\<rparr>)"

definition sd_get_recording :: "string \<Rightarrow> storage_error + recording_item" where
  "sd_get_recording i =
     (case parse_int64 i of
        None \<Rightarrow> Inl (OtherError ''invalid recording ID'')
      | Some ts \<Rightarrow>
          Inr \<lparr>item_id = i, start_time = unix_time ts, end_time = unix_time ts + seconds 30,
               duration_seconds = 30, event_type = ''motion'', file_size_bytes = 0,
               recording_item.file_name = ''event_'' @ i @ ''.mp4'', thumbnail_url = [], video_url = video_url_of i\<rparr>)"

end
