(* ===== verification/Bridge_Config.thy ===== *)
theory Bridge_Config
  imports Sdcard_Transfer
begin

text \<open>
  The configuration (\<^verbatim>\<open>pkg/config\<close>): defaults, the options file of Home Assistant, the
  MQTT service of its supervisor, environment variables and flags, each layer over the one before;
  the QR code with the pairing data and the choice of the Nabto driver (\<^verbatim>\<open>pkg/nabto\<close>).
\<close>

subsection \<open>The configuration and its defaults\<close>

record nabto_config =
  nb_camera_ip :: string
  nb_camera_port :: int
  nb_product_id :: string
  nb_device_id :: string
  nb_sct :: string
  nb_pair_pwd :: string
  nb_key_path :: string
  nb_is_beta :: bool

record config =
  cf_nabto :: nabto_config
  cf_camera_type :: string
  cf_camera_user :: string
  cf_camera_password :: string
  cf_resolution :: string
  cf_audio_codec :: string
  cf_rtsp_port :: int
  cf_rtsp_path :: string
  cf_onvif_port :: int
  cf_reset_pairing :: bool
  cf_mqtt_broker :: string
  cf_mqtt_user :: string
  cf_mqtt_password :: string
  cf_mqtt_topic :: string
  cf_mqtt_discovery :: string
  cf_log_level :: string
  cf_log_format :: string
  cf_sync_interval :: int
  cf_nabto_driver :: string
  cf_bridge_user :: string
  cf_bridge_pass :: string
  cf_cache_recordings :: int
  cf_cache_dir :: string
  cf_is_beta :: bool
  cf_app_version :: string

definition default_config :: "bool \<Rightarrow> config" where
  "default_config data_dir =
     \<lparr>cf_nabto = \<lparr>nb_camera_ip = [], nb_camera_port = 5592, nb_product_id = [], nb_device_id = [], nb_sct = [],
        nb_pair_pwd = [], nb_key_path = ''data/client.key'', nb_is_beta = False\<rparr>,
      cf_camera_type = [], cf_camera_user = [], cf_camera_password = [], cf_resolution = ''1080p'',
      cf_audio_codec = ''aac'', cf_rtsp_port = 8554, cf_rtsp_path = ''steinel'', cf_onvif_port = 8000,
      cf_reset_pairing = False, cf_mqtt_broker = [], cf_mqtt_user = [], cf_mqtt_password = [],
      cf_mqtt_topic = ''steinel'', cf_mqtt_discovery = ''homeassistant'', cf_log_level = ''info'',
      cf_log_format = [], cf_sync_interval = 120, cf_nabto_driver = ''cgo'', cf_bridge_user = [],
      cf_bridge_pass = [], cf_cache_recordings = 5,
      cf_cache_dir = (if data_dir then ''/data/recordings'' else ''data/recordings''),
      cf_is_beta = False, cf_app_version = ''dev''\<rparr>"

definition on_nabto :: "(nabto_config \<Rightarrow> nabto_config) \<Rightarrow> config \<Rightarrow> config" where
  "on_nabto f c = c\<lparr>cf_nabto := f (cf_nabto c)\<rparr>"

subsection \<open>The QR code\<close>

definition qr_part :: "string \<Rightarrow> nabto_config \<Rightarrow> nabto_config" where
  "qr_part p c =
     (case split2 (CHR ''='') (trim_space p) of
        [k, v] \<Rightarrow>
          (if k = ''did'' then c\<lparr>nb_device_id := v\<rparr>
           else if k = ''pid'' then c\<lparr>nb_product_id := v\<rparr>
           else if k = ''sct'' then c\<lparr>nb_sct := v\<rparr>
           else if k = ''pairPwd'' then c\<lparr>nb_pair_pwd := v\<rparr> else c)
      | _ \<Rightarrow> c)"

definition parse_qr :: "string \<Rightarrow> nabto_config \<Rightarrow> nabto_config" where
  "parse_qr qr c = fold qr_part (split_on (CHR '','') qr) c"

subsection \<open>The options file\<close>

text \<open>The members of the file, empty, zero, false or None when missing, as the JSON decoder leaves them.\<close>

record options =
  op_camera_ip :: string
  op_camera_type :: string
  op_camera_user :: string
  op_camera_password :: string
  op_qr_code :: string
  op_resolution :: string
  op_audio_codec :: string
  op_rtsp_port :: int
  op_onvif_port :: int
  op_reset_pairing :: bool
  op_mqtt_broker :: string
  op_mqtt_host :: string
  op_mqtt_port :: int
  op_mqtt_user :: string
  op_mqtt_password :: string
  op_mqtt_topic :: string
  op_mqtt_discovery :: string
  op_log_level :: string
  op_sync_interval :: "int option"
  op_nabto_driver :: string
  op_use_cgo :: bool
  op_bridge_user :: string
  op_bridge_pass :: string
  op_bridge_password :: string
  op_cache_recordings :: "int option"
  op_cache_dir :: string

definition given :: "string \<Rightarrow> string \<Rightarrow> string" where
  "given new old = (if new \<noteq> [] then new else old)"

definition given_port :: "int \<Rightarrow> int \<Rightarrow> int" where
  "given_port new old = (if new > 0 then new else old)"

definition load_options :: "options \<Rightarrow> config \<Rightarrow> config" where
  "load_options opt c =
     c\<lparr>cf_nabto := (if op_qr_code opt \<noteq> [] then parse_qr (op_qr_code opt) else id)
                     ((cf_nabto c)\<lparr>nb_camera_ip := given (op_camera_ip opt) (nb_camera_ip (cf_nabto c))\<rparr>),
       cf_camera_type := given (op_camera_type opt) (cf_camera_type c),
       cf_camera_user := given (op_camera_user opt) (cf_camera_user c),
       cf_camera_password := given (op_camera_password opt) (cf_camera_password c),
       cf_resolution := given (op_resolution opt) (cf_resolution c),
       cf_audio_codec := given (op_audio_codec opt) (cf_audio_codec c),
       cf_rtsp_port := given_port (op_rtsp_port opt) (cf_rtsp_port c),
       cf_onvif_port := given_port (op_onvif_port opt) (cf_onvif_port c),
       cf_reset_pairing := (op_reset_pairing opt \<or> cf_reset_pairing c),
       cf_mqtt_broker :=
         (if op_mqtt_broker opt \<noteq> [] then op_mqtt_broker opt
          else if op_mqtt_host opt \<noteq> []
               then ''tcp://'' @ op_mqtt_host opt @ '':'' @ dec_of_int (if op_mqtt_port opt > 0 then op_mqtt_port opt else 1883)
               else cf_mqtt_broker c),
       cf_mqtt_user := given (op_mqtt_user opt) (cf_mqtt_user c),
       cf_mqtt_password := given (op_mqtt_password opt) (cf_mqtt_password c),
       cf_mqtt_topic := given (op_mqtt_topic opt) (cf_mqtt_topic c),
       cf_mqtt_discovery := given (op_mqtt_discovery opt) (cf_mqtt_discovery c),
       cf_log_level := given (op_log_level opt) (cf_log_level c),
       cf_sync_interval := (case op_sync_interval opt of Some s \<Rightarrow> if s \<ge> 0 then s else cf_sync_interval c
                                                     | None \<Rightarrow> cf_sync_interval c),
       cf_nabto_driver := (if op_nabto_driver opt \<noteq> [] then op_nabto_driver opt
                           else if op_use_cgo opt then ''cgo'' else cf_nabto_driver c),
       cf_bridge_user := given (op_bridge_user opt) (cf_bridge_user c),
       cf_bridge_pass := given (op_bridge_pass opt) (given (op_bridge_password opt) (cf_bridge_pass c)),
       cf_cache_recordings := (case op_cache_recordings opt of Some n \<Rightarrow> n | None \<Rightarrow> cf_cache_recordings c),
       cf_cache_dir := given (op_cache_dir opt) (cf_cache_dir c)\<rparr>"

subsection \<open>The MQTT service of the supervisor\<close>

record mqtt_service =
  ms_result :: string
  ms_host :: string
  ms_port :: int
  ms_ssl :: bool
  ms_user :: string
  ms_password :: string

text \<open>What a request to one of the addresses ends in.\<close>

datatype service_reply = RequestFails | NotOk int | BadJson | Service mqtt_service

fun first_service :: "service_reply list \<Rightarrow> (string \<times> string \<times> string) option" where
  "first_service [] = None"
| "first_service (r # rs) =
     (case r of
        Service s \<Rightarrow>
          (if ms_result s = ''ok'' \<and> ms_host s \<noteq> []
           then Some ((if ms_ssl s then ''ssl'' else ''tcp'') @ ''://'' @ ms_host s @ '':'' @
                        dec_of_int (if ms_port s \<le> 0 then 1883 else ms_port s),
                      ms_user s, ms_password s)
           else first_service rs)
      | _ \<Rightarrow> first_service rs)"

definition supervisor_urls :: "string list" where
  "supervisor_urls = [''http://supervisor/services/mqtt'', ''http://hassio/services/mqtt'',
     ''http://172.30.32.2/services/mqtt'']"

definition fetch_service ::
  "(string \<Rightarrow> string) \<Rightarrow> (string \<Rightarrow> service_reply) \<Rightarrow> (string \<times> string \<times> string) option" where
  "fetch_service env ask =
     (if env ''SUPERVISOR_TOKEN'' = [] \<and> env ''HASSIO_TOKEN'' = [] then None
      else first_service (map ask supervisor_urls))"

definition discover_broker ::
  "(string \<Rightarrow> string) \<Rightarrow> (string \<Rightarrow> service_reply) \<Rightarrow> config \<Rightarrow> config" where
  "discover_broker env ask c =
     (if cf_mqtt_broker c = [] then
        (case fetch_service env ask of
           Some (b, u, p) \<Rightarrow> c\<lparr>cf_mqtt_broker := b, cf_mqtt_user := u, cf_mqtt_password := p\<rparr>
         | None \<Rightarrow> c)
      else c)"

subsection \<open>The environment\<close>

text \<open>\<^verbatim>\<open>Atoi\<close> guarded by a test, else what was there.\<close>

definition number_or :: "(int \<Rightarrow> bool) \<Rightarrow> string \<Rightarrow> int \<Rightarrow> int" where
  "number_or ok s old = (case parse_int64 s of Some v \<Rightarrow> if ok v then v else old | None \<Rightarrow> old)"

definition switched_on :: "string \<Rightarrow> bool" where
  "switched_on s \<longleftrightarrow> s = ''true'' \<or> s = ''1''"

definition switched_off :: "string \<Rightarrow> bool" where
  "switched_off s \<longleftrightarrow> s = ''false'' \<or> s = ''0''"

definition load_env :: "(string \<Rightarrow> string) \<Rightarrow> config \<Rightarrow> config" where
  "load_env env c =
     c\<lparr>cf_nabto :=
         (let n = (if env ''QR_CODE'' \<noteq> [] then parse_qr (env ''QR_CODE'') (cf_nabto c) else cf_nabto c) in
          n\<lparr>nb_camera_ip := given (env ''CAMERA_IP'') (nb_camera_ip n),
            nb_key_path := given (env ''KEY_PATH'') (nb_key_path n),
            nb_sct := given (env ''SCT'') (nb_sct n),
            nb_pair_pwd := given (env ''PAIR_PWD'') (nb_pair_pwd n),
            nb_device_id := given (env ''DEVICE_ID'') (nb_device_id n),
            nb_product_id := given (env ''PRODUCT_ID'') (nb_product_id n)\<rparr>),
       cf_resolution := given (env ''RESOLUTION'') (cf_resolution c),
       cf_audio_codec := given (env ''AUDIO_CODEC'') (cf_audio_codec c),
       cf_reset_pairing := (switched_on (env ''RESET_PAIRING'') \<or> cf_reset_pairing c),
       cf_rtsp_port := number_or (\<lambda>p. p > 0) (env ''RTSP_PORT'') (cf_rtsp_port c),
       cf_rtsp_path := given (env ''RTSP_PATH'') (cf_rtsp_path c),
       cf_onvif_port := number_or (\<lambda>p. p > 0) (env ''ONVIF_PORT'') (cf_onvif_port c),
       cf_camera_type := given (env ''CAMERA_TYPE'') (cf_camera_type c),
       cf_camera_user := given (env ''CAMERA_USER'') (cf_camera_user c),
       cf_camera_password := given (env ''CAMERA_PASSWORD'') (given (env ''CAMERA_PASS'') (cf_camera_password c)),
       cf_bridge_user := given (env ''BRIDGE_USER'') (cf_bridge_user c),
       cf_bridge_pass := given (env ''BRIDGE_PASS'') (given (env ''BRIDGE_PASSWORD'') (cf_bridge_pass c)),
       cf_mqtt_broker := given (env ''MQTT_BROKER'') (cf_mqtt_broker c),
       cf_mqtt_user := given (env ''MQTT_USER'') (cf_mqtt_user c),
       cf_mqtt_password := given (env ''MQTT_PASSWORD'') (cf_mqtt_password c),
       cf_mqtt_topic := given (env ''MQTT_TOPIC_PREFIX'') (cf_mqtt_topic c),
       cf_mqtt_discovery := given (env ''MQTT_DISCOVERY_PREFIX'') (cf_mqtt_discovery c),
       cf_sync_interval :=
         (if env ''SDCARD_SYNC_INTERVAL'' \<noteq> []
          then number_or (\<lambda>s. s \<ge> 0) (env ''SDCARD_SYNC_INTERVAL'') (cf_sync_interval c)
          else number_or (\<lambda>s. s \<ge> 0) (env ''SYNC_INTERVAL'') (cf_sync_interval c)),
       cf_nabto_driver :=
         (if switched_off (env ''USE_CGO_NABTO'') then ''pure''
          else if switched_on (env ''USE_CGO_NABTO'') then ''cgo''
          else given (env ''NABTO_DRIVER'') (cf_nabto_driver c)),
       cf_log_level := given (env ''LOG_LEVEL'') (cf_log_level c),
       cf_log_format := given (env ''LOG_FORMAT'') (cf_log_format c),
       cf_app_version := given (env ''APP_VERSION'') (given (env ''VERSION'') (cf_app_version c)),
       cf_cache_recordings := number_or (\<lambda>n. n \<ge> 0) (env ''CACHE_RECORDINGS'') (cf_cache_recordings c),
       cf_cache_dir := given (env ''CACHE_DIR'') (cf_cache_dir c)\<rparr>"

subsection \<open>The flags\<close>

text \<open>\<^verbatim>\<open>strconv.ParseBool\<close>.\<close>

definition parse_bool :: "string \<Rightarrow> bool option" where
  "parse_bool s =
     (if s \<in> {''1'', ''t'', ''T'', ''true'', ''TRUE'', ''True''} then Some True
      else if s \<in> {''0'', ''f'', ''F'', ''false'', ''FALSE'', ''False''} then Some False else None)"

text \<open>
  A flag that was set, with its value; the state is the configuration with \<^verbatim>\<open>cliBeta\<close>. Flags are visited in
  the order of their names.
\<close>

definition set_flag :: "string \<times> string \<Rightarrow> config \<times> bool \<Rightarrow> config \<times> bool" where
  "set_flag f s =
     (let (n, v) = f; (c, beta) = s in
      if n = ''ip'' then (on_nabto (nb_camera_ip_update (\<lambda>_. v)) c, beta)
      else if n = ''type'' then (c\<lparr>cf_camera_type := v\<rparr>, beta)
      else if n = ''user'' then (c\<lparr>cf_camera_user := v\<rparr>, beta)
      else if n = ''pass'' \<or> n = ''password'' then (c\<lparr>cf_camera_password := v\<rparr>, beta)
      else if n = ''bridge-user'' then (c\<lparr>cf_bridge_user := v\<rparr>, beta)
      else if n = ''bridge-pass'' \<or> n = ''bridge-password'' then (c\<lparr>cf_bridge_pass := v\<rparr>, beta)
      else if n = ''qr'' then (on_nabto (parse_qr v) c, beta)
      else if n = ''key'' then (on_nabto (nb_key_path_update (\<lambda>_. v)) c, beta)
      else if n = ''res'' then (c\<lparr>cf_resolution := v\<rparr>, beta)
      else if n = ''port'' then (c\<lparr>cf_rtsp_port := number_or (\<lambda>p. p > 0) v (cf_rtsp_port c)\<rparr>, beta)
      else if n = ''path'' then (c\<lparr>cf_rtsp_path := v\<rparr>, beta)
      else if n = ''onvif'' then (c\<lparr>cf_onvif_port := number_or (\<lambda>p. p > 0) v (cf_onvif_port c)\<rparr>, beta)
      else if n = ''reset-pairing'' then
        (case parse_bool v of Some b \<Rightarrow> (c\<lparr>cf_reset_pairing := b\<rparr>, beta) | None \<Rightarrow> (c, beta))
      else if n = ''mqtt-broker'' then (c\<lparr>cf_mqtt_broker := v\<rparr>, beta)
      else if n = ''mqtt-user'' then (c\<lparr>cf_mqtt_user := v\<rparr>, beta)
      else if n = ''mqtt-pass'' then (c\<lparr>cf_mqtt_password := v\<rparr>, beta)
      else if n = ''mqtt-topic'' then (c\<lparr>cf_mqtt_topic := v\<rparr>, beta)
      else if n = ''mqtt-disc'' then (c\<lparr>cf_mqtt_discovery := v\<rparr>, beta)
      else if n = ''audio-codec'' then (c\<lparr>cf_audio_codec := v\<rparr>, beta)
      else if n = ''sync-interval'' \<or> n = ''sdcard-sync-interval'' then
        (c\<lparr>cf_sync_interval := number_or (\<lambda>x. x \<ge> 0) v (cf_sync_interval c)\<rparr>, beta)
      else if n = ''cache-recordings'' then
        (c\<lparr>cf_cache_recordings := number_or (\<lambda>x. x \<ge> 0) v (cf_cache_recordings c)\<rparr>, beta)
      else if n = ''cache-dir'' then (c\<lparr>cf_cache_dir := v\<rparr>, beta)
      else if n = ''nabto-driver'' then (c\<lparr>cf_nabto_driver := v\<rparr>, beta)
      else if n = ''use-cgo'' then ((if parse_bool v = Some True then c\<lparr>cf_nabto_driver := ''cgo''\<rparr> else c), beta)
      else if n = ''log-level'' \<or> n = ''loglevel'' then (c\<lparr>cf_log_level := v\<rparr>, beta)
      else if n = ''beta'' then (c, case parse_bool v of Some b \<Rightarrow> b | None \<Rightarrow> beta)
      else s)"

definition mark_beta :: "(string \<Rightarrow> string) \<Rightarrow> config \<times> bool \<Rightarrow> config" where
  "mark_beta env s =
     (let (c, beta) = s;
          b = (beta \<or> contains (to_lower (cf_app_version c)) ''beta'' \<or> switched_on (env ''IS_BETA'') \<or>
               env ''BETA'' = ''true'')
      in on_nabto (nb_is_beta_update (\<lambda>_. b)) (c\<lparr>cf_is_beta := b\<rparr>))"

text \<open>\<^verbatim>\<open>Resolve\<close>; the options are None if there is no readable file.\<close>

definition resolve ::
  "bool \<Rightarrow> options option \<Rightarrow> (string \<Rightarrow> service_reply) \<Rightarrow> (string \<Rightarrow> string) \<Rightarrow> (string \<times> string) list \<Rightarrow> config" where
  "resolve data_dir file ask env flags =
     (let c1 = default_config data_dir;
          c2 = (case file of Some opt \<Rightarrow> load_options opt c1 | None \<Rightarrow> c1);
          c3 = discover_broker env ask c2
      in mark_beta env (fold set_flag flags (load_env env c3, False)))"

subsection \<open>Checks\<close>

datatype config_error = NoCameraIp | BadRtspPort int | BadOnvifPort int

definition validate_config :: "config \<Rightarrow> config_error option" where
  "validate_config c =
     (if nb_camera_ip (cf_nabto c) = [] then Some NoCameraIp
      else if cf_rtsp_port c \<le> 0 \<or> cf_rtsp_port c > 65535 then Some (BadRtspPort (cf_rtsp_port c))
      else if cf_onvif_port c \<le> 0 \<or> cf_onvif_port c > 65535 then Some (BadOnvifPort (cf_onvif_port c)) else None)"

text \<open>\<^verbatim>\<open>ProbeCameraModel\<close>: whether it is an L 620, its name, and the configuration with its identifiers.\<close>

definition probe_model :: "(string \<Rightarrow> bool) \<Rightarrow> config \<Rightarrow> bool \<times> string \<times> config" where
  "probe_model sofia_open c =
     (let t = to_lower (trim_space (cf_camera_type c));
          l620 = (if t = ''l620'' then True else if t = ''l625'' then False
                  else sofia_open (nb_camera_ip (cf_nabto c)))
      in if l620
         then (True, ''L 620 CAM'',
               on_nabto (\<lambda>n. n\<lparr>nb_device_id := given (nb_device_id n) ''steinel-l620'',
                               nb_product_id := given (nb_product_id n) ''pr-xiongmai''\<rparr>) c)
         else (False, ''L 625 CAM SC'', c))"

subsection \<open>The choice of the Nabto driver\<close>

definition resolve_driver_type :: "(string \<Rightarrow> string) \<Rightarrow> string \<Rightarrow> string" where
  "resolve_driver_type env configured =
     (if switched_off (env ''USE_CGO_NABTO'') then ''pure''
      else
        let t = to_lower (trim_space configured) in
        if t \<in> {''pure'', ''pure-go'', ''native''} then ''pure''
        else if t \<in> {''cgo'', ''c'', ''sdk'', ''auto'', []} then ''cgo'' else t)"

text \<open>The registry: None is the panic of a second registration.\<close>

definition register_driver :: "string \<Rightarrow> 'f \<Rightarrow> (string \<times> 'f) list \<Rightarrow> (string \<times> 'f) list option" where
  "register_driver name f reg =
     (let k = to_lower (trim_space name) in
      if map_of reg k \<noteq> None then None else Some ((k, f) # reg))"

definition new_driver :: "(string \<Rightarrow> string) \<Rightarrow> (string \<times> 'f) list \<Rightarrow> string \<Rightarrow> 'f option" where
  "new_driver env reg configured = map_of reg (resolve_driver_type env configured)"

end
