(* ===== verification/Nabto_Connect.thy ===== *)
theory Nabto_Connect
  imports Nabto_Client Bridge_Config
begin

text \<open>
  The rest of \<^verbatim>\<open>pkg/nabtopure/client.go\<close>: the client key, \<^verbatim>\<open>Connect\<close> with what it opens and gives back, the
  queries that the session asks, the text of the signaling port, and, as a step relation, the search for the camera's identifiers
  that \<^verbatim>\<open>Connect\<close> makes while it holds the client's mutex and the packet reader waits for it.
\<close>

subsection \<open>The client key\<close>

text \<open>
  The decoders of PEM, of the two key formats and the writer of one are library code; a PKCS8 key can be of another kind than
  an elliptic curve (the inner None).
\<close>

record 'k key_codec =
  kc_pem :: "bytes \<Rightarrow> bytes option"
  kc_ec :: "bytes \<Rightarrow> 'k option"
  kc_pkcs8 :: "bytes \<Rightarrow> 'k option option"
  kc_marshal :: "'k \<Rightarrow> bytes option"
  kc_to_pem :: "bytes \<Rightarrow> bytes"

definition key_of_file :: "'k key_codec \<Rightarrow> bytes \<Rightarrow> 'k option" where
  "key_of_file k b =
     (case kc_pem k b of
        None \<Rightarrow> None
      | Some d \<Rightarrow>
          (case kc_ec k d of
             Some key \<Rightarrow> Some key
           | None \<Rightarrow> (case kc_pkcs8 k d of Some (Some key) \<Rightarrow> Some key | _ \<Rightarrow> None)))"

text \<open>
  The file (None: unreadable) before and after; the generator's key is None when it fails, and the write, whose error is ignored,
  happens only on a writable path. The flag of the result says that the key is new.
\<close>

definition load_or_generate_key ::
  "'k key_codec \<Rightarrow> 'k option \<Rightarrow> bool \<Rightarrow> bytes option \<Rightarrow> ('k \<times> bool) option \<times> bytes option" where
  "load_or_generate_key k gen writable file0 =
     (case (case file0 of None \<Rightarrow> None | Some b \<Rightarrow> key_of_file k b) of
        Some key \<Rightarrow> (Some (key, False), file0)
      | None \<Rightarrow>
          (case gen of
             None \<Rightarrow> (None, file0)
           | Some key \<Rightarrow>
               (Some (key, True),
                case kc_marshal k key of
                  Some der \<Rightarrow> if writable then Some (kc_to_pem k der) else file0
                | None \<Rightarrow> file0)))"

subsection \<open>Connect and Close\<close>

text \<open>
  The client, with the socket and the DTLS session that it holds by number; \<open>pc_ids\<close> are the device and the product
  identifier of the configuration, which \<^verbatim>\<open>Connect\<close> may fill in.
\<close>

record pure_client =
  pc_conn :: nabto_client
  pc_udp :: "nat option"
  pc_dtls :: "nat option"
  pc_port :: int
  pc_ids :: "string \<times> string"

definition new_pure_client :: "nabto_config option \<Rightarrow> pure_client" where
  "new_pure_client cfg =
     \<lparr>pc_conn = \<lparr>dtls_open = False, coap = None, current_stream = None, reader_open = False, close_done = False\<rparr>,
      pc_udp = None, pc_dtls = None,
      pc_port = (case cfg of None \<Rightarrow> 5592 | Some c \<Rightarrow> if nb_camera_port c = 0 then 5592 else nb_camera_port c),
      pc_ids = (case cfg of None \<Rightarrow> ([], []) | Some c \<Rightarrow> (nb_device_id c, nb_product_id c))\<rparr>"

datatype connect_error =
    KeyFailed
  | CertificateFailed
  | ResolveFailed
  | ListenFailed
  | HeaderFailed
  | DtlsFailed
  | HandshakeFailed

datatype dial_action =
    WakeUp
  | OpenSocket nat
  | CloseSocket nat
  | OpenDtls nat
  | CloseDtls nat
  | StartReader
  | StartKeepAlive
  | AskPairing

text \<open>How the calls of the libraries end; the answer to the question for the identifiers is one of \<^verbatim>\<open>Execute\<close>'s results.\<close>

record dial_env =
  dv_key :: bool
  dv_cert :: bool
  dv_resolve :: bool
  dv_listen :: bool
  dv_header :: bool
  dv_dtls :: bool
  dv_handshake :: bool
  dv_pairing :: exec_result

definition pairing_request :: coap_message where
  "pairing_request = new_request 1 ''/iam/pairing'' 0 []"

text \<open>An answer fills in only what the configuration leaves open.\<close>

definition take_ids :: "exec_result \<Rightarrow> string \<times> string \<Rightarrow> string \<times> string" where
  "take_ids r ids =
     (case r of
        ExecOk m \<Rightarrow>
          if status_code m = 205 \<or> status_code m = 200 then
            (case extract_pairing_ids (string_of (msg_payload m)) of (pid, did) \<Rightarrow>
               (if fst ids = [] then did else fst ids, if snd ids = [] then pid else snd ids))
          else ids
      | _ \<Rightarrow> ids)"

text \<open>The number \<open>n\<close> names the socket that this call opens.\<close>

definition pure_connect :: "dial_env \<Rightarrow> nat \<Rightarrow> pure_client \<Rightarrow> connect_error option \<times> pure_client \<times> dial_action list" where
  "pure_connect e n c0 =
     (let c = c0\<lparr>pc_conn := (pc_conn c0)\<lparr>close_done := False\<rparr>\<rparr> in
      if \<not> dv_key e then (Some KeyFailed, c, [])
      else if \<not> dv_cert e then (Some CertificateFailed, c, [])
      else if \<not> dv_resolve e then (Some ResolveFailed, c, [])
      else if \<not> dv_listen e then (Some ListenFailed, c, [WakeUp])
      else let c = c\<lparr>pc_udp := Some n\<rparr>; as = [WakeUp, OpenSocket n] in
      if \<not> dv_header e then (Some HeaderFailed, c, as @ [CloseSocket n])
      else if \<not> dv_dtls e then (Some DtlsFailed, c, as @ [CloseSocket n])
      else let as = as @ [OpenDtls n] in
      if \<not> dv_handshake e then (Some HandshakeFailed, c, as @ [CloseDtls n, CloseSocket n])
      else let c = c\<lparr>pc_conn := (pc_conn c)\<lparr>dtls_open := True, coap := Some new_coap_client, reader_open := True\<rparr>,
                    pc_dtls := Some n\<rparr>;
               as = as @ [StartReader, StartKeepAlive] in
      if fst (pc_ids c) = [] \<or> snd (pc_ids c) = []
      then (None, c\<lparr>pc_ids := take_ids (dv_pairing e) (pc_ids c)\<rparr>, as @ [AskPairing])
      else (None, c, as))"

definition pure_close :: "pure_client \<Rightarrow> pure_client \<times> dial_action list" where
  "pure_close c =
     (if close_done (pc_conn c) then (c, [])
      else (c\<lparr>pc_conn := fst (nabto_close (pc_conn c)), pc_udp := None, pc_dtls := None\<rparr>,
            (case pc_udp c of Some n \<Rightarrow> [CloseSocket n] | None \<Rightarrow> []) @
            (case pc_dtls c of Some n \<Rightarrow> [CloseDtls n] | None \<Rightarrow> [])))"

subsection \<open>The text of the signaling port\<close>

text \<open>
  \<^verbatim>\<open>Sscanf\<close> with the verb d for a 32-bit number: spaces are skipped (a line feed is an error), at least one digit, and
  no more than 32 bits.
\<close>

fun skip_space :: "string \<Rightarrow> string option" where
  "skip_space [] = Some []"
| "skip_space (c # s) =
     (if c = CHR 0x0A then None else if is_space c then skip_space s else Some (c # s))"

definition is_digit :: "char \<Rightarrow> bool" where
  "is_digit c \<longleftrightarrow> digit_value c \<noteq> None"

definition scan_u32 :: "string \<Rightarrow> (nat \<times> string) option" where
  "scan_u32 s =
     (case skip_space s of
        None \<Rightarrow> None
      | Some t \<Rightarrow>
          (let ds = takeWhile is_digit t in
           if ds = [] then None
           else case digits_value 0 ds of
                  None \<Rightarrow> None
                | Some v \<Rightarrow> if v < 2 ^ 32 then Some (nat v, dropWhile is_digit t) else None))"

definition port_key :: string where "port_key = ''SignalingStreamPort''"

definition port_prefix :: string where "port_prefix = ''{\"SignalingStreamPort\":''"

text \<open>
  First the exact text, then the number behind the first colon after the name. A number that the exact text has yielded stays in
  the variable when only its closing brace is missing.
\<close>

definition signaling_port :: "string \<Rightarrow> nat option" where
  "signaling_port s =
     (let exact = (if has_prefix s port_prefix then scan_u32 (drop (length port_prefix) s) else None);
          p = (case exact of Some (v, r) \<Rightarrow> v | None \<Rightarrow> 0)
      in if (case exact of Some (v, c # r) \<Rightarrow> c = CHR ''}'' | _ \<Rightarrow> False) \<and> p > 0 then Some p
         else case index_of s port_key of
                None \<Rightarrow> None
              | Some i \<Rightarrow>
                  (case index_of (drop i s) '':'' of
                     None \<Rightarrow> None
                   | Some j \<Rightarrow>
                       (let q = (case scan_u32 (drop (i + j + 1) s) of Some (v, r) \<Rightarrow> v | None \<Rightarrow> p)
                        in if q > 0 then Some q else None)))"

subsection \<open>The queries of a session\<close>

datatype query_error =
    NotConnected
  | CoapFailed exec_result
  | BadStatus nat
  | NoPort string
  | NotPaired nat

definition port_request :: coap_message where
  "port_request = new_request 1 ''/p2p/webrtc-info'' 0 []"

definition get_signaling_port :: "nabto_client \<Rightarrow> exec_result \<Rightarrow> query_error + nat" where
  "get_signaling_port c r =
     (case coap c of
        None \<Rightarrow> Inl NotConnected
      | Some k \<Rightarrow>
          (case r of
             ExecOk m \<Rightarrow>
               if status_code m \<noteq> 205 \<and> status_code m \<noteq> 200 then Inl (BadStatus (status_code m))
               else (case signaling_port (string_of (msg_payload m)) of
                       Some p \<Rightarrow> Inr p
                     | None \<Rightarrow> Inl (NoPort (string_of (msg_payload m))))
           | failed \<Rightarrow> Inl (CoapFailed failed)))"

definition tracks_request :: coap_message where
  "tracks_request = new_request 2 ''/webrtc/tracks'' 50
     (bytes_of ''{\"tracks\": [\"frontdoor-video\", \"frontdoor-audio\"]}'')"

text \<open>The status, also where the error is that the key is not paired.\<close>

definition request_tracks :: "nabto_client \<Rightarrow> exec_result \<Rightarrow> query_error option \<times> nat" where
  "request_tracks c r =
     (case coap c of
        None \<Rightarrow> (Some NotConnected, 0)
      | Some k \<Rightarrow>
          (case r of
             ExecOk m \<Rightarrow>
               (if status_code m = 401 \<or> status_code m = 403 then Some (NotPaired (status_code m)) else None,
                status_code m)
           | failed \<Rightarrow> (Some (CoapFailed failed), 0)))"

text \<open>The stream stays in the state also when it does not open; \<^verbatim>\<open>Close\<close> finds it there.\<close>

definition open_signaling_stream ::
  "nabto_client \<Rightarrow> u32 \<Rightarrow> u32 \<Rightarrow> open_event list \<Rightarrow> open_result option \<times> nabto_client \<times> bytes list" where
  "open_signaling_stream c p now evs =
     (if \<not> dtls_open c then (None, c, [])
      else case stream_open (new_stream 0 p) now evs of
             (r, s, out) \<Rightarrow> (Some r, c\<lparr>current_stream := Some s\<rparr>, out))"

subsection \<open>The search for the identifiers, with the mutex\<close>

text \<open>
  From the start of the packet reader: \<^verbatim>\<open>Connect\<close> holds the client's mutex until it returns and runs one
  \<^verbatim>\<open>Execute\<close> in it; the reader takes the mutex for every look at the connection and at the CoAP client. What happens in
  a short critical section is one step, which needs the mutex free. \<open>AskStart\<close> to \<open>AskDone\<close> are the stages of
  \<^verbatim>\<open>Connect\<close>; after \<open>AskDone\<close> it has released the mutex.
\<close>

datatype ask_stage = AskStart | AskWaiting coap_message nat | AskDone exec_result

datatype reader_stage = WantConn | Reading | HavePacket bytes | Routing bytes

record ask_sys =
  as_locked :: bool
  as_coap :: coap_client
  as_ask :: ask_stage
  as_reader :: reader_stage
  as_ids :: "string \<times> string"

definition ask_init :: "string \<times> string \<Rightarrow> ask_sys" where
  "ask_init ids = \<lparr>as_locked = True, as_coap = new_coap_client, as_ask = AskStart, as_reader = WantConn, as_ids = ids\<rparr>"

inductive ask_step :: "ask_sys \<Rightarrow> ask_sys \<Rightarrow> bool" where
  ask_send: "as_ask s = AskStart \<Longrightarrow> exec_register (as_coap s) pairing_request = (req, ch, k) \<Longrightarrow>
    ask_step s (s\<lparr>as_coap := k, as_ask := AskWaiting req ch\<rparr>)"
| ask_receive: "as_ask s = AskWaiting req ch \<Longrightarrow> chan_recv (chans (as_coap s) ch) = Some (r, ch') \<Longrightarrow>
    ask_step s (s\<lparr>as_coap := exec_cleanup (msg_token req) ((as_coap s)\<lparr>chans := (chans (as_coap s))(ch := ch')\<rparr>),
      as_ask := AskDone r, as_ids := take_ids r (as_ids s), as_locked := False\<rparr>)"
| ask_give_up: "as_ask s = AskWaiting req ch \<Longrightarrow> r \<in> {SendFailed, RequestTimedOut} \<Longrightarrow>
    ask_step s (s\<lparr>as_coap := exec_cleanup (msg_token req) (as_coap s),
      as_ask := AskDone r, as_ids := take_ids r (as_ids s), as_locked := False\<rparr>)"
| reader_conn: "as_reader s = WantConn \<Longrightarrow> \<not> as_locked s \<Longrightarrow> ask_step s (s\<lparr>as_reader := Reading\<rparr>)"
| reader_timeout: "as_reader s = Reading \<Longrightarrow> ask_step s (s\<lparr>as_reader := WantConn\<rparr>)"
| reader_packet: "as_reader s = Reading \<Longrightarrow> ask_step s (s\<lparr>as_reader := HavePacket pkt\<rparr>)"
| reader_coap: "as_reader s = HavePacket pkt \<Longrightarrow> \<not> as_locked s \<Longrightarrow> ask_step s (s\<lparr>as_reader := Routing pkt\<rparr>)"
| reader_route: "as_reader s = Routing pkt \<Longrightarrow> handle_incoming pkt (as_coap s) = Some k \<Longrightarrow>
    ask_step s (s\<lparr>as_coap := k, as_reader := WantConn\<rparr>)"

inductive ask_reachable :: "string \<times> string \<Rightarrow> ask_sys \<Rightarrow> bool" for ids where
  ask_start: "ask_reachable ids (ask_init ids)"
| ask_next: "ask_reachable ids s \<Longrightarrow> ask_step s t \<Longrightarrow> ask_reachable ids t"

end
