(* ===== verification/Sdcard_Transfer_Proofs.thy ===== *)
theory Sdcard_Transfer_Proofs
  imports Sdcard_Transfer
begin

text \<open>
  A download that ends without an error has written every chunk that was accepted for it, in
  order; the watchdog asks for a new session after three unanswered queries; identifiers of
  recordings lead back to the recording. And two things that the protocol does not guard
  against: a repeated end message and data of an earlier transfer.
\<close>

subsection \<open>What was accepted during a transfer\<close>

definition accepted :: "chunk \<Rightarrow> manager \<Rightarrow> bool" where
  "accepted ch m \<longleftrightarrow> (case active m of
     Some t \<Rightarrow> c_data ch \<noteq> [] \<and> length (chunk_chan t) < chunk_chan_capacity | None \<Rightarrow> False)"

text \<open>
  The log of a run: the chunks accepted since the last start, and whether the camera has
  announced the end since then.
\<close>

fun log_step :: "sd_event \<Rightarrow> manager \<Rightarrow> chunk list \<times> bool \<Rightarrow> chunk list \<times> bool" where
  "log_step (Start now ok) m l = ([], False)"
| "log_step (ChunkIn ch) m l = (if accepted ch m then (fst l @ [ch], snd l) else l)"
| "log_step (JsonIn j) m l = (fst l, snd l \<or> j_action j = ''end'' \<and> active m \<noteq> None)"
| "log_step e m l = l"

inductive logged :: "manager \<Rightarrow> chunk list \<times> bool \<Rightarrow> bool" where
  fresh: "logged new_manager ([], False)"
| event: "logged m l \<Longrightarrow> sd_apply e m = Some m' \<Longrightarrow> logged m' (log_step e m l)"

definition transfer_inv :: "manager \<Rightarrow> chunk list \<times> bool \<Rightarrow> bool" where
  "transfer_inv m l \<longleftrightarrow>
     (case pump m of
        Idle \<Rightarrow> active m = None
      | Finished r \<Rightarrow> active m = None \<and> (\<exists>rest. fst l = written m @ rest \<and> (r = None \<longrightarrow> rest = [] \<and> snd l))
      | p \<Rightarrow> (\<exists>t. active m = Some t \<and> fst l = written m @ chunk_chan t \<and>
               (\<forall>ch \<in> set (chunk_chan t). c_data ch \<noteq> []) \<and> (done_closed t \<longrightarrow> snd l) \<and>
               (p = Draining \<longrightarrow> done_closed t))) \<and>
     length (started_with m) \<le> 1 \<and>
     (\<forall>f h. pump m = Pumping f h \<longrightarrow> (h \<longleftrightarrow> started_with m \<noteq> []))"

lemma push_error_fields [simp]:
  "chunk_chan (push_error e t) = chunk_chan t" "done_closed (push_error e t) = done_closed t"
  "last_data (push_error e t) = last_data t"
  by (simp_all add: push_error_def)

lemma finish_fields [simp]:
  "active (finish r m) = None" "pump (finish r m) = Finished r" "written (finish r m) = written m"
  "started_with (finish r m) = started_with m"
  by (simp_all add: finish_def)

lemma inv_start: "transfer_inv (start_transfer now ok m) ([], False)"
  by (simp add: transfer_inv_def start_transfer_def new_transfer_def Let_def)

lemma inv_pump_chunk: "transfer_inv m l \<Longrightarrow> pump_chunk now ok st m = Some m' \<Longrightarrow> transfer_inv m' l"
  by (auto simp: transfer_inv_def pump_chunk_def Let_def split: option.splits pump.splits list.splits if_splits)

lemma inv_drain: "transfer_inv m l \<Longrightarrow> drain_step ok m = Some m' \<Longrightarrow> transfer_inv m' l"
  by (auto simp: transfer_inv_def drain_step_def Let_def split: option.splits pump.splits list.splits if_splits)

lemma inv_other_pump:
  assumes "transfer_inv m l"
  shows "pump_done m = Some m' \<Longrightarrow> transfer_inv m' l" "pump_error m = Some m' \<Longrightarrow> transfer_inv m' l"
    "pump_cancel m = Some m' \<Longrightarrow> transfer_inv m' l" "pump_tick now m = Some m' \<Longrightarrow> transfer_inv m' l"
  using assms
  by (auto simp: transfer_inv_def pump_done_def pump_error_def pump_cancel_def pump_tick_def Let_def
      split: option.splits pump.splits if_splits)

lemma inv_handle_chunk: "transfer_inv m l \<Longrightarrow> transfer_inv (handle_chunk ch m) (log_step (ChunkIn ch) m l)"
  by (auto simp: transfer_inv_def handle_chunk_def accepted_def split: option.splits pump.splits)

lemma json_effect:
  assumes "active m = Some t"
  shows "handle_transfer_json j m = m\<lparr>panicked := True\<rparr> \<and> j_action j = ''end'' \<and> done_closed t \<or>
    (\<exists>t'. handle_transfer_json j m = m\<lparr>active := Some t'\<rparr> \<and> chunk_chan t' = chunk_chan t \<and>
       (done_closed t' \<longleftrightarrow> done_closed t \<or> j_action j = ''end''))"
proof (cases "j_action j = ''end'' \<and> done_closed t")
  case True
  then show ?thesis using assms by (simp add: handle_transfer_json_def)
next
  case False
  let ?t1 = "if j_action j = ''start'' then
       t\<lparr>file_name := (case j_name j of Some n \<Rightarrow> n | None \<Rightarrow> file_name t),
         file_size := (case j_size j of Some n \<Rightarrow> n | None \<Rightarrow> file_size t)\<rparr>
     else if j_action j = ''end'' then t\<lparr>done_closed := True\<rparr>
     else if j_action j = ''fail'' \<or> j_action j = ''error''
       then push_error (CameraError (j_action j)) t
     else t"
  let ?t2 = "case j_code j of
       Some c \<Rightarrow> if c \<noteq> 200 \<and> c \<noteq> 0 then push_error (CameraError ''code'') ?t1 else ?t1
     | None \<Rightarrow> ?t1"
  have "handle_transfer_json j m = m\<lparr>active := Some ?t2\<rparr>"
    unfolding handle_transfer_json_def assms option.case Let_def if_not_P[OF False] ..
  moreover have t1: "chunk_chan ?t1 = chunk_chan t"
    "done_closed ?t1 \<longleftrightarrow> done_closed t \<or> j_action j = ''end''" by auto
  have "chunk_chan ?t2 = chunk_chan ?t1" "done_closed ?t2 \<longleftrightarrow> done_closed ?t1"
    by (cases "j_code j"; simp only: option.case push_error_fields split: if_split; simp)+
  then have "chunk_chan ?t2 = chunk_chan t" "done_closed ?t2 \<longleftrightarrow> done_closed t \<or> j_action j = ''end''"
    unfolding t1 by blast+
  ultimately show ?thesis by blast
qed

lemma inv_handle_json: "transfer_inv m l \<Longrightarrow> transfer_inv (handle_transfer_json j m) (log_step (JsonIn j) m l)"
proof (cases "active m")
  case None
  assume "transfer_inv m l"
  with None show ?thesis by (simp add: handle_transfer_json_def)
next
  case (Some t)
  assume inv: "transfer_inv m l"
  from json_effect[OF Some, of j] show ?thesis
  proof (elim disjE exE conjE)
    fix t' assume "handle_transfer_json j m = m\<lparr>active := Some t'\<rparr>" "chunk_chan t' = chunk_chan t"
      "done_closed t' \<longleftrightarrow> done_closed t \<or> j_action j = ''end''"
    then show ?thesis using inv Some by (cases "pump m") (auto simp: transfer_inv_def)
  next
    assume "handle_transfer_json j m = m\<lparr>panicked := True\<rparr>"
    then show ?thesis using inv Some by (cases "pump m") (auto simp: transfer_inv_def)
  qed
qed

lemma logged_inv: "logged m l \<Longrightarrow> transfer_inv m l"
proof (induction rule: logged.induct)
  case fresh
  show ?case by (simp add: transfer_inv_def new_manager_def)
next
  case (event m l e m')
  consider (chunk) c where "e = ChunkIn c" | (json) j where "e = JsonIn j"
    | (other) "\<forall>c j. e \<noteq> ChunkIn c \<and> e \<noteq> JsonIn j" by blast
  then show ?case
  proof cases
    case chunk
    then have "m' = handle_chunk c m" using event.hyps(2) by (simp add: sd_apply_def split: if_splits)
    then show ?thesis unfolding chunk using inv_handle_chunk[OF event.IH] by (simp only:)
  next
    case json
    then have "m' = handle_transfer_json j m" using event.hyps(2) by (simp add: sd_apply_def split: if_splits)
    then show ?thesis unfolding json using inv_handle_json[OF event.IH] by (simp only:)
  next
    case other
    then show ?thesis
      using event
      by (cases e) (auto simp: sd_apply_def inv_start split: if_splits dest: inv_pump_chunk inv_drain inv_other_pump)
  qed
qed


fun sd_exec :: "sd_event list \<Rightarrow> manager \<times> chunk list \<times> bool \<Rightarrow> (manager \<times> chunk list \<times> bool) option" where
  "sd_exec [] s = Some s"
| "sd_exec (e # es) (m, l) =
     (case sd_apply e m of None \<Rightarrow> None | Some m' \<Rightarrow> sd_exec es (m', log_step e m l))"

lemma sd_exec_logged: "sd_exec es (m, l) = Some (m', l') \<Longrightarrow> logged m l \<Longrightarrow> logged m' l'"
proof (induction es arbitrary: m l)
  case (Cons e es)
  then obtain m1 where m1: "sd_apply e m = Some m1" "sd_exec es (m1, log_step e m l) = Some (m', l')"
    by (cases l) (auto split: option.splits)
  show ?case by (rule Cons.IH[OF m1(2) logged.event[OF Cons.prems(2) m1(1)]])
qed simp

definition ch :: "nat \<Rightarrow> bytes \<Rightarrow> chunk" where
  "ch k bs = \<lparr>c_origin = k, c_data = bs\<rparr>"

definition action_msg :: "string \<Rightarrow> json_msg" where
  "action_msg a = \<lparr>j_action = a, j_name = None, j_size = None, j_code = None\<rparr>"

definition good_run :: "sd_event list" where
  "good_run = [Start 0 True, JsonIn (action_msg ''start''), ChunkIn (ch 1 [1, 2]), TakeChunk 1 True True,
     ChunkIn (ch 1 [3]), JsonIn (action_msg ''end''), TakeDone, Drain True, Drain True]"


text \<open>
  The camera can crash the bridge: a second end message for a transfer that is still being
  read closes its channel again, whenever it comes.
\<close>

theorem second_end_panics:
  assumes "active m = Some t" "j_action j = ''end''" "j_action k = ''end''"
  shows "panicked (handle_transfer_json k (handle_transfer_json j m))"
proof (cases "done_closed t")
  case True
  then show ?thesis using assms by (simp add: handle_transfer_json_def)
next
  case False
  then obtain t' where "active (handle_transfer_json j m) = Some t'" "done_closed t'"
    using assms by (auto simp: handle_transfer_json_def Let_def split: option.split)
  then show ?thesis using assms(3) by (simp add: handle_transfer_json_def)
qed

theorem second_end_panics_witness:
  "panicked (handle_transfer_json (action_msg ''end'') (handle_transfer_json (action_msg ''end'')
     (start_transfer 0 True new_manager)))"
  by (rule second_end_panics[where t = "new_transfer 0"])
    (simp_all add: start_transfer_def action_msg_def Let_def)

text \<open>
  Data of an aborted transfer can end up in the next file: a run in which the first transfer
  times out, the second one begins, a late chunk of the first arrives, and the second ends
  successfully with that chunk in front of its own.
\<close>

definition late_chunk_run :: "sd_event list" where
  "late_chunk_run = [Start 0 True, TickAt 26000000000, Start 27000000000 True, ChunkIn (ch 1 [7]),
     ChunkIn (ch 2 [1]), TakeChunk 28000000000 True True, JsonIn (action_msg ''end''), TakeDone,
     Drain True, Drain True]"

theorem late_chunk_corrupts_next_file:
  "map_option (\<lambda>(m, l). (serial m, pump m, map c_origin (written m)))
     (sd_exec late_chunk_run (new_manager, [], False)) = Some (2, Finished None, [1, 2])"
  by code_simp

subsection \<open>Unanswered queries\<close>

definition is_timeout :: "query_outcome \<Rightarrow> bool" where
  "is_timeout q \<longleftrightarrow> q = QDeadline \<or> q = QTimedOut"

text \<open>The timeouts since the last answer, at the end of a sequence of outcomes.\<close>

definition unanswered :: "query_outcome list \<Rightarrow> nat" where
  "unanswered qs = length (filter is_timeout (takeWhile (\<lambda>q. q \<noteq> QAnswered) (rev qs)))"

lemma unanswered_snoc:
  "unanswered (qs @ [q]) = (if q = QAnswered then 0 else unanswered qs + (if is_timeout q then 1 else 0))"
  by (simp add: unanswered_def)

lemma query_run_append:
  "query_run (ps @ [q]) n = query_run ps n @ [snd (query_step q (fold (\<lambda>q n. fst (query_step q n)) ps n))]"
  by (induction ps arbitrary: n) (auto split: prod.split)

lemma query_count: "fold (\<lambda>q n. fst (query_step q n)) qs 0 = unanswered qs"
proof (induction qs rule: rev_induct)
  case (snoc q qs)
  then show ?case
    by (cases q) (simp_all add: unanswered_snoc query_step_def record_timeout_def is_timeout_def)
qed (simp add: unanswered_def)

text \<open>
  A new session is requested exactly after those queries that time out and are at least
  the third to do so since the last answer; a query that could not be sent or was cancelled
  neither counts nor resets the count.
\<close>

theorem reset_after_three_timeouts:
  "query_run (qs @ [q]) 0 = query_run qs 0 @ [is_timeout q \<and> unanswered (qs @ [q]) \<ge> 3]"
  unfolding query_run_append query_count unanswered_snoc
  by (cases q) (simp_all add: query_step_def record_timeout_def is_timeout_def)

subsection \<open>Identifiers\<close>

lemma digit_value_char: "(n :: nat) < 10 \<Longrightarrow> digit_value (char_of (48 + n)) = Some (int n)"
proof -
  assume n: "n < 10"
  have "(of_char (char_of (48 + n) :: char) :: int) = int (of_char (char_of (48 + n) :: char))"
    by (simp only: of_nat_of_char)
  also have "\<dots> = 48 + int n" using n by (simp only: of_char_of) simp
  finally show ?thesis using n by (simp add: digit_value_def)
qed

lemma digits_value_append: "digits_value acc (s @ t) =
    (case digits_value acc s of None \<Rightarrow> None | Some n \<Rightarrow> digits_value n t)"
  by (induction s arbitrary: acc) (auto split: option.split)

lemma digits_of_nat: "digits_value 0 (dec_of_nat n) = Some (int n)"
proof (induction n rule: dec_of_nat.induct)
  case (1 n)
  show ?case
  proof (cases "n < 10")
    case True
    then show ?thesis by (subst dec_of_nat.simps) (simp add: digit_value_char)
  next
    case False
    have "int (n div 10) * 10 + int (n mod 10) = int n" by (metis of_nat_mult of_nat_add of_nat_numeral div_mult_mod_eq)
    with False 1 show ?thesis
      by (subst dec_of_nat.simps) (simp add: digits_value_append digit_value_char)
  qed
qed

lemma dec_of_nat_hd: "\<exists>k < (10 :: nat). \<exists>r. dec_of_nat n = char_of (48 + k) # r"
proof (induction n rule: dec_of_nat.induct)
  case (1 n)
  show ?case
  proof (cases "n < 10")
    case True
    then show ?thesis by (subst dec_of_nat.simps) auto
  next
    case False
    with 1 obtain k :: nat and r where k: "k < 10" "dec_of_nat (n div 10) = char_of (48 + k) # r" by blast
    have "dec_of_nat n = char_of (48 + k) # (r @ [char_of (48 + n mod 10)])"
      using False k(2) by (subst dec_of_nat.simps) simp
    with k(1) show ?thesis by blast
  qed
qed

lemma parse_dec_of_int:
  assumes "- (2 ^ 63) \<le> i" "i < 2 ^ 63"
  shows "parse_int64 (dec_of_int i) = Some i"
proof -
  let ?s = "dec_of_nat (nat \<bar>i\<bar>)"
  obtain k :: nat and r where k: "k < 10" "?s = char_of (48 + k) # r" using dec_of_nat_hd by blast
  have "digit_value (char_of (48 + k)) \<noteq> None" using k(1) by (simp add: digit_value_char)
  then have sign: "char_of (48 + k) \<noteq> CHR ''-''" "char_of (48 + k) \<noteq> CHR ''+''"
    by (auto simp: digit_value_def)
  have v: "digits_value 0 ?s = Some \<bar>i\<bar>" by (simp add: digits_of_nat)
  show ?thesis
  proof (cases "i < 0")
    case True
    then have "dec_of_int i = CHR ''-'' # ?s" by (simp add: dec_of_int_def)
    then show ?thesis using v k(2) assms True by (simp add: parse_int64_def Let_def)
  next
    case False
    then have "dec_of_int i = ?s" by (simp add: dec_of_int_def)
    then show ?thesis using v k(2) sign assms False by (simp add: parse_int64_def Let_def)
  qed
qed

text \<open>
  The identifier of a listed recording is its time: looking the recording up by the
  identifier gives the same start and video URL, and recordings with different time tags have
  different identifiers.
\<close>

theorem recording_ids_lead_back:
  assumes "- (2 ^ 63) \<le> time_tag ev" "time_tag ev < 2 ^ 63" "- (2 ^ 63) \<le> time_tag ev'" "time_tag ev' < 2 ^ 63"
  shows "\<exists>it. sd_get_recording (item_id (item_of_event ev)) = Inr it \<and>
      item_id it = item_id (item_of_event ev) \<and> start_time it = start_time (item_of_event ev) \<and>
      video_url it = video_url (item_of_event ev) \<and>
    (item_id (item_of_event ev) = item_id (item_of_event ev') \<longleftrightarrow> time_tag ev = time_tag ev')"
proof -
  have p: "parse_int64 (item_id (item_of_event e)) = Some (time_tag e)"
    if "- (2 ^ 63) \<le> time_tag e" "time_tag e < 2 ^ 63" for e
    using parse_dec_of_int[OF that] by (simp add: item_of_event_def Let_def)
  have "item_id (item_of_event ev) = item_id (item_of_event ev') \<longleftrightarrow> time_tag ev = time_tag ev'"
  proof
    assume "item_id (item_of_event ev) = item_id (item_of_event ev')"
    then show "time_tag ev = time_tag ev'" using p[OF assms(1,2)] p[OF assms(3,4)] by simp
  qed (simp add: item_of_event_def Let_def)
  then show ?thesis using p[OF assms(1,2)] by (simp add: sd_get_recording_def item_of_event_def Let_def)
qed

definition ex_event :: "int \<Rightarrow> event_item" where
  "ex_event t = \<lparr>time_tag = t, record_time = 0, ev_type = [], ev_name = [], ev_size = 10\<rparr>"

theorem recording_ids_lead_back_witness:
  "\<exists>it. sd_get_recording (item_id (item_of_event (ex_event 1700000000))) = Inr it \<and>
     start_time it = unix_time 1700000000"
proof -
  have "\<exists>it. sd_get_recording (item_id (item_of_event (ex_event 1700000000))) = Inr it \<and>
      start_time it = start_time (item_of_event (ex_event 1700000000))"
    using recording_ids_lead_back[of "ex_event 1700000000" "ex_event 5"] by (auto simp: ex_event_def)
  then show ?thesis by (simp add: item_of_event_def ex_event_def Let_def)
qed

end
