(* ===== verification/Nabto_Connect_Proofs.thy ===== *)
theory Nabto_Connect_Proofs
  imports Nabto_Connect Sdcard_Transfer_Proofs
begin

text \<open>
  What \<^verbatim>\<open>Connect\<close> leaves open, that the text of the port is read back, that the key file keeps the key, and that the
  search for the camera's identifiers cannot find any: the reader that would bring the answer waits for the mutex.
\<close>

subsection \<open>What stays open\<close>

text \<open>The sockets and the sessions that are open after a sequence of actions.\<close>

fun still_open :: "dial_action list \<Rightarrow> nat set \<times> nat set \<Rightarrow> nat set \<times> nat set" where
  "still_open [] st = st"
| "still_open (a # as) st =
     still_open as
       (case a of
          OpenSocket n \<Rightarrow> (insert n (fst st), snd st)
        | CloseSocket n \<Rightarrow> (fst st - {n}, snd st)
        | OpenDtls n \<Rightarrow> (fst st, insert n (snd st))
        | CloseDtls n \<Rightarrow> (fst st, snd st - {n})
        | _ \<Rightarrow> st)"

lemma still_open_append: "still_open (as @ bs) st = still_open bs (still_open as st)"
  by (induction as arbitrary: st) simp_all

text \<open> Whatever key, certificate, address, socket, header and handshake do, a failed \<^verbatim>\<open>Connect\<close> of a new client leaves no
  socket and no session open, a successful one leaves exactly its own, and after the \<^verbatim>\<open>Close\<close> that follows nothing is open. \<close>

theorem connect_leaves_nothing_open:
  "case pure_connect e n (new_pure_client cfg) of (err, c, as) \<Rightarrow>
     still_open as ({}, {}) = (if err = None then ({n}, {n}) else ({}, {})) \<and>
     (err = None \<longleftrightarrow> dtls_open (pc_conn c)) \<and>
     still_open (as @ snd (pure_close c)) ({}, {}) = ({}, {}) \<and>
     pure_close (fst (pure_close c)) = (fst (pure_close c), [])"
  by (auto simp: pure_connect_def new_pure_client_def pure_close_def nabto_close_def still_open_append Let_def)

subsection \<open>The text of the port\<close>

lemma is_digit_dec: "c \<in> set (dec_of_nat n) \<Longrightarrow> is_digit c"
proof (induction n rule: dec_of_nat.induct)
  case (1 n)
  have d: "is_digit (char_of (48 + k))" if "k < 10" for k :: nat
    using digit_value_char[OF that] by (simp add: is_digit_def)
  show ?case
  proof (cases "n < 10")
    case True
    with 1 d show ?thesis by (subst (asm) (2) dec_of_nat.simps) simp
  next
    case False
    with 1 d[of "n mod 10"] show ?thesis by (subst (asm) (2) dec_of_nat.simps) auto
  qed
qed

lemma digit_not_space:
  assumes "is_digit c"
  shows "\<not> is_space c \<and> c \<noteq> CHR 0x0A"
proof -
  have "int (of_char c) = of_char c" by (rule of_nat_of_char)
  with assms have "48 \<le> (of_char c :: nat)" "of_char c \<le> (57 :: nat)"
    by (simp_all add: is_digit_def digit_value_def Let_def split: if_splits)
  then show ?thesis by (auto simp: is_space_def)
qed

lemma dec_of_nat_ne: "dec_of_nat n \<noteq> []"
  by (subst dec_of_nat.simps) simp

lemma skip_spaces: "\<forall>c \<in> set ws. is_space c \<and> c \<noteq> CHR 0x0A \<Longrightarrow> skip_space (ws @ s) = skip_space s"
  by (induction ws) auto

lemma skip_to_digit: "is_digit c \<Longrightarrow> skip_space (c # s) = Some (c # s)"
  using digit_not_space by simp

lemma scan_dec:
  assumes "n < 2 ^ 32" and "\<forall>c \<in> set ws. is_space c \<and> c \<noteq> CHR 0x0A" and "t = [] \<or> \<not> is_digit (hd t)"
  shows "scan_u32 (ws @ dec_of_nat n @ t) = Some (n, t)"
proof -
  obtain d ds where d: "dec_of_nat n = d # ds" using dec_of_nat_ne by (cases "dec_of_nat n") auto
  have all: "\<forall>c \<in> set (dec_of_nat n). is_digit c" using is_digit_dec by blast
  have tw: "takeWhile is_digit t = []" "dropWhile is_digit t = t" using assms(3) by (cases t; simp)+
  have "skip_space (ws @ dec_of_nat n @ t) = Some (dec_of_nat n @ t)"
    using all d skip_to_digit by (simp add: skip_spaces[OF assms(2)])
  moreover have "takeWhile is_digit (dec_of_nat n @ t) = dec_of_nat n"
    "dropWhile is_digit (dec_of_nat n @ t) = t"
    using all tw by (simp_all add: takeWhile_append2 dropWhile_append2)
  moreover have "int n < 2 ^ 32" using assms(1) by simp
  ultimately show ?thesis using dec_of_nat_ne by (simp add: scan_u32_def Let_def digits_of_nat)
qed

lemma index_of_behind:
  assumes "\<not> contains (pre @ butlast p) p" and "p \<noteq> []"
  shows "index_of (pre @ p @ s) p = Some (length pre)"
  using assms
proof (induction pre)
  case Nil
  have "has_prefix (p @ s) p" by (simp add: has_prefix_def)
  with Nil show ?case by (cases "p @ s") auto
next
  case (Cons c pre)
  have "\<not> has_prefix (c # pre @ p @ s) p"
  proof
    assume "has_prefix (c # pre @ p @ s) p"
    then have t: "take (length p) (c # pre @ p @ s) = p" by (simp add: has_prefix_def)
    have "length p \<le> length (c # pre @ butlast p)" using Cons.prems(2) by (cases p) auto
    moreover have "c # pre @ p @ s = (c # pre @ butlast p) @ (last p # s)"
      using Cons.prems(2) by simp
    ultimately have "take (length p) (c # pre @ butlast p) = p" using t by (metis append_Cons take_append diff_is_0_eq take_0 append_Nil2)
    then have "has_prefix (c # pre @ butlast p) p" by (simp add: has_prefix_def)
    with Cons.prems(1) show False by (auto simp: contains_iff has_prefix_iff) (metis append_Nil append_Cons)
  qed
  moreover have "\<not> contains (pre @ butlast p) p"
    using Cons.prems(1) by (auto simp: contains_iff) (metis append_Cons)
  ultimately show ?case using Cons by simp
qed

text \<open> The port is read back from the camera's answer: a JSON text in which the member with the name of the port comes behind
  any text without that name, with spaces before the number and anything but a digit behind it, gives exactly the number, for
  every port but zero that fits 32 bits. \<close>

theorem signaling_port_read_back:
  assumes "0 < n" and "n < 2 ^ 32" and "\<forall>c \<in> set ws. is_space c \<and> c \<noteq> CHR 0x0A"
    and "t = [] \<or> \<not> is_digit (hd t)" and "\<not> contains (pre @ butlast port_key) port_key"
  shows "signaling_port (pre @ port_key @ ''\":'' @ ws @ dec_of_nat n @ t) = Some n"
proof -
  let ?s = "pre @ port_key @ ''\":'' @ ws @ dec_of_nat n @ t"
  have i: "index_of ?s port_key = Some (length pre)"
    using assms(5) by (intro index_of_behind) (simp_all add: port_key_def)
  have d: "drop (length pre) ?s = port_key @ ''\":'' @ ws @ dec_of_nat n @ t" by simp
  have j: "index_of (port_key @ ''\":'' @ x) '':'' = Some 20" for x
    by (simp add: port_key_def has_prefix_def)
  have "drop (length pre + 20 + 1) ?s = drop 21 (drop (length pre) ?s)" by (simp only: drop_drop add.commute add.assoc) simp
  then have r: "drop (length pre + 20 + 1) ?s = ws @ dec_of_nat n @ t"
    unfolding d by (simp add: port_key_def)
  have sc: "scan_u32 (ws @ dec_of_nat n @ t) = Some (n, t)" using scan_dec assms by blast
  define exact where "exact = (if has_prefix ?s port_prefix then scan_u32 (drop (length port_prefix) ?s) else None)"
  have e: "exact = None \<or> exact = Some (n, t)"
  proof (cases "has_prefix ?s port_prefix")
    case True
    then obtain u where u: "?s = port_prefix @ u" by (auto simp: has_prefix_iff)
    have pp: "port_prefix = ''{\"'' @ port_key @ ''\":''" by (simp add: port_prefix_def port_key_def)
    have "index_of (port_prefix @ u) port_key = Some 2"
      unfolding pp append_assoc by (subst index_of_behind) (simp_all add: port_key_def contains_def has_prefix_def)
    with i u have "length pre = 2" by simp
    then have "length port_prefix = length pre + 20 + 1" by (simp add: port_prefix_def)
    then have "drop (length port_prefix) ?s = ws @ dec_of_nat n @ t" by (simp only: r)
    with True sc show ?thesis by (simp add: exact_def)
  qed (simp add: exact_def)
  show ?thesis
    unfolding signaling_port_def Let_def exact_def[symmetric] i option.case d j r sc
    using e assms(1) by (auto split: list.split)
qed

theorem signaling_port_read_back_witness:
  "signaling_port (''{\"a\": 1, \"'' @ port_key @ ''\":'' @ '' '' @ dec_of_nat 4711 @ ''}'') = Some 4711"
  by (rule signaling_port_read_back) (simp_all add: port_key_def contains_def has_prefix_def is_space_def is_digit_def digit_value_def)


subsection \<open>The client key\<close>

text \<open>
  After a first call on a writable path, with a codec that reads back the keys it writes, every later call finds the same key,
  whatever the generator would give then, and does not take it for a new one: the camera knows the client again.
\<close>

lemma key_is_kept:
  assumes "load_or_generate_key k gen True file0 = (Some (key, fresh), file1)"
    and "\<And>key. \<exists>der. kc_marshal k key = Some der \<and> key_of_file k (kc_to_pem k der) = Some key"
  shows "load_or_generate_key k gen' w file1 = (Some (key, False), file1)"
proof -
  obtain der where der: "kc_marshal k key = Some der" "key_of_file k (kc_to_pem k der) = Some key"
    using assms(2) by blast
  then show ?thesis
    using assms(1) by (auto simp: load_or_generate_key_def split: option.splits)
qed

subsection \<open>The search for the identifiers\<close>

text \<open>As long as \<^verbatim>\<open>Connect\<close> is asking, it has the mutex, the reader is before its first look, and nothing is buffered.\<close>

definition still_asking :: "ask_sys \<Rightarrow> bool" where
  "still_asking s \<longleftrightarrow> as_locked s \<and> as_reader s = WantConn \<and>
     (case as_ask s of
        AskStart \<Rightarrow> True
      | AskWaiting req cn \<Rightarrow> chans (as_coap s) cn = \<lparr>chan_buf = None, chan_closed = False\<rparr>
      | AskDone r \<Rightarrow> False)"

definition ask_failed :: "ask_sys \<Rightarrow> bool" where
  "ask_failed s \<longleftrightarrow> (case as_ask s of AskDone r \<Rightarrow> r \<in> {SendFailed, RequestTimedOut} | _ \<Rightarrow> False)"

definition ask_inv :: "string \<times> string \<Rightarrow> ask_sys \<Rightarrow> bool" where
  "ask_inv ids s \<longleftrightarrow> as_ids s = ids \<and> (still_asking s \<or> ask_failed s)"

lemmas ask_inv_defs = ask_inv_def still_asking_def ask_failed_def

lemma ask_inv_init: "ask_inv ids (ask_init ids)"
  by (simp add: ask_inv_defs ask_init_def)

lemma register_chan: "exec_register c req = (req', cn, k) \<Longrightarrow> chans k cn = \<lparr>chan_buf = None, chan_closed = False\<rparr>"
  by (auto simp: exec_register_def Let_def)

lemma ask_inv_step: "ask_step s t \<Longrightarrow> ask_inv ids s \<Longrightarrow> ask_inv ids t"
  by (induction rule: ask_step.induct)
     (auto simp: ask_inv_defs register_chan chan_recv_def take_ids_def split: ask_stage.splits option.splits if_splits)

lemma ask_reachable_inv: "ask_reachable ids s \<Longrightarrow> ask_inv ids s"
  by (induction rule: ask_reachable.induct) (use ask_inv_init ask_inv_step in blast)+

text \<open> C33. The search for the camera's identifiers never finds any: in every run of \<^verbatim>\<open>Connect\<close> and the packet reader, with any
  packets from the camera, the request ends without an answer (it cannot be sent or it times out), because the reader waits for
  the mutex that \<^verbatim>\<open>Connect\<close> holds, and both identifiers stay what the configuration says. \<close>

theorem discovery_never_answered:
  assumes "ask_reachable ids s"
  shows "as_ids s = ids \<and> (\<forall>r. as_ask s = AskDone r \<longrightarrow> r \<in> {SendFailed, RequestTimedOut})"
  using ask_reachable_inv[OF assms] by (auto simp: ask_inv_defs split: ask_stage.splits)

theorem discovery_never_answered_witness:
  "\<exists>s pkt. ask_reachable ([], []) s \<and> as_ask s = AskDone RequestTimedOut \<and> as_reader s = HavePacket pkt \<and>
     (case coap_decode pkt of Inr m \<Rightarrow> msg_token m = be32 2 \<and> status_code m = 205 | _ \<Rightarrow> False) \<and> as_ids s = ([], [])"
proof -
  obtain req cn k where r: "exec_register new_coap_client pairing_request = (req, cn, k)" using prod_cases3 by blast
  let ?i = "ask_init ([], [])"
  let ?s1 = "?i\<lparr>as_coap := k, as_ask := AskWaiting req cn\<rparr>"
  let ?s2 = "?s1\<lparr>as_coap := exec_cleanup (msg_token req) (as_coap ?s1), as_ask := AskDone RequestTimedOut,
      as_ids := take_ids RequestTimedOut (as_ids ?s1), as_locked := False\<rparr>"
  let ?s3 = "?s2\<lparr>as_reader := Reading\<rparr>"
  let ?s4 = "?s3\<lparr>as_reader := HavePacket [0x44, 0x45, 0, 101, 0, 0, 0, 2]\<rparr>"
  have "ask_reachable ([], []) ?s1"
    using ask_next[OF ask_start ask_send] r by (simp add: ask_init_def)
  then have "ask_reachable ([], []) ?s2" by (rule ask_next) (rule ask_give_up, simp_all)
  then have "ask_reachable ([], []) ?s3" by (rule ask_next) (rule reader_conn, simp_all add: ask_init_def)
  then have s4: "ask_reachable ([], []) ?s4" by (rule ask_next) (rule reader_packet, simp)
  have "case coap_decode [0x44, 0x45, 0, 101, 0, 0, 0, 2] of Inr m \<Rightarrow> msg_token m = be32 2 \<and> status_code m = 205
      | _ \<Rightarrow> False" by code_simp
  with s4 discovery_never_answered[OF s4] show ?thesis
    by (intro exI[of _ ?s4] exI[of _ "[0x44, 0x45, 0, 101, 0, 0, 0, 2]"]) simp
qed

end
