(* ===== verification/Onvif_Auth.thy ===== *)
theory Onvif_Auth
  imports Recording_Sync
begin

text \<open>
  \<^verbatim>\<open>pkg/onvif/auth.go\<close>: nonces that authenticate themselves, the parser of the Digest
  header, the check of a Digest response over all plausible request URIs, and WS-Security
  tokens. The hash functions and the URL parser are arguments (\<open>prims\<close>); hexadecimal and
  base64 are written out. Strings are bytes; case folding is that of ASCII.
\<close>

record url =
  u_path :: string
  u_query :: string
  u_request_uri :: string

record prims =
  md5 :: "bytes \<Rightarrow> bytes"
  sha1 :: "bytes \<Rightarrow> bytes"
  hmac_sha256 :: "bytes \<Rightarrow> bytes \<Rightarrow> bytes"
  url_parse :: "string \<Rightarrow> url option"

subsection \<open>Hexadecimal\<close>

definition hex_char :: "nat \<Rightarrow> char" where
  "hex_char n = char_of (if n < 10 then 48 + n else 87 + n)"

fun hex_of_nat :: "nat \<Rightarrow> string" where
  "hex_of_nat n = (if n < 16 then [hex_char n] else hex_of_nat (n div 16) @ [hex_char (n mod 16)])"

declare hex_of_nat.simps [simp del]

text \<open>\<^verbatim>\<open>%x\<close> of an integer and of a byte slice.\<close>

definition hex_of_int :: "int \<Rightarrow> string" where
  "hex_of_int i = (if i < 0 then ''-'' @ hex_of_nat (nat (- i)) else hex_of_nat (nat i))"

definition hex_of_bytes :: "bytes \<Rightarrow> string" where
  "hex_of_bytes bs = concat (map (\<lambda>b. [hex_char (unat b div 16), hex_char (unat b mod 16)]) bs)"

definition hex_value :: "char \<Rightarrow> nat option" where
  "hex_value c = (let n = of_char c :: nat in
     if 48 \<le> n \<and> n \<le> 57 then Some (n - 48)
     else if 97 \<le> n \<and> n \<le> 102 then Some (n - 87)
     else if 65 \<le> n \<and> n \<le> 70 then Some (n - 55) else None)"

text \<open>\<^verbatim>\<open>hex.DecodeString\<close> and \<^verbatim>\<open>strconv.ParseInt(s, 16, 64)\<close>.\<close>

fun hex_decode :: "string \<Rightarrow> bytes option" where
  "hex_decode [] = Some []"
| "hex_decode [c] = None"
| "hex_decode (c # d # s) =
     (case (hex_value c, hex_value d, hex_decode s) of
        (Some h, Some l, Some bs) \<Rightarrow> Some (word_of_nat (h * 16 + l) # bs)
      | _ \<Rightarrow> None)"

fun hex_digits :: "nat \<Rightarrow> string \<Rightarrow> nat option" where
  "hex_digits acc [] = Some acc"
| "hex_digits acc (c # s) =
     (case hex_value c of None \<Rightarrow> None | Some d \<Rightarrow> hex_digits (acc * 16 + d) s)"

definition parse_hex64 :: "string \<Rightarrow> int option" where
  "parse_hex64 s =
     (let (neg, ds) = (case s of c # r \<Rightarrow> if c = CHR ''-'' then (True, r)
                         else if c = CHR ''+'' then (False, r) else (False, s)
                       | [] \<Rightarrow> (False, []))
      in if ds = [] then None
         else case hex_digits 0 ds of
           None \<Rightarrow> None
         | Some n \<Rightarrow> (let v = (if neg then - int n else int n) in
                      if - (2 ^ 63) \<le> v \<and> v < 2 ^ 63 then Some v else None))"

subsection \<open>Nonces\<close>

datatype auth_status = AuthSuccess | AuthFailed | AuthStale

record nonce_manager =
  nm_secret :: bytes
  nm_ttl :: int

definition be64 :: "u64 \<Rightarrow> bytes" where
  "be64 w = be32 (ucast (drop_bit 32 w)) @ be32 (ucast w)"

definition nonce_sig :: "prims \<Rightarrow> nonce_manager \<Rightarrow> int \<Rightarrow> bytes \<Rightarrow> bytes" where
  "nonce_sig pr m now salt =
     take 8 (hmac_sha256 pr (nm_secret m) (be64 (word_of_int now) @ salt))"

definition unix_secs :: "gtime \<Rightarrow> int" where
  "unix_secs t = t div 1000000000 - 62135596800"

text \<open>\<open>salt\<close> is the four random bytes (or the bytes of the clock, should there be none).\<close>

definition nonce_generate :: "prims \<Rightarrow> nonce_manager \<Rightarrow> gtime \<Rightarrow> bytes \<Rightarrow> string" where
  "nonce_generate pr m now salt =
     hex_of_int (unix_secs now) @ ''-'' @ hex_of_bytes salt @ ''-'' @
     hex_of_bytes (nonce_sig pr m (unix_secs now) salt)"

text \<open>\<^verbatim>\<open>time.Since\<close> saturates at the limits of a 64-bit duration.\<close>

definition sat64 :: "int \<Rightarrow> int" where
  "sat64 d = (if d < - (2 ^ 63) then - (2 ^ 63) else if d > 2 ^ 63 - 1 then 2 ^ 63 - 1 else d)"

definition nonce_validate :: "prims \<Rightarrow> nonce_manager \<Rightarrow> gtime \<Rightarrow> string \<Rightarrow> auth_status" where
  "nonce_validate pr m now nonce =
     (case split_on (CHR ''-'') nonce of
        [t, sl, sg] \<Rightarrow>
          (case (parse_hex64 t, hex_decode sl, hex_decode sg) of
             (Some secs, Some salt, Some sig) \<Rightarrow>
               (if length salt \<noteq> 4 \<or> length sig \<noteq> 8 then AuthFailed
                else if sig \<noteq> nonce_sig pr m secs salt then AuthFailed
                else let age = sat64 (now - unix_time secs) in
                     if age < 0 \<or> age > nm_ttl m then AuthStale else AuthSuccess)
           | _ \<Rightarrow> AuthFailed)
      | _ \<Rightarrow> AuthFailed)"

subsection \<open>The Digest header\<close>

text \<open>
  The regular expression
  \<^verbatim>\<open>(?i)([a-z0-9_-]+)\s*=\s*(?:"([^"]*)"|([^\s,]+))\<close>, matched at the beginning of a
  string: key, quoted value, unquoted value and what follows.
\<close>

definition is_key_char :: "char \<Rightarrow> bool" where
  "is_key_char c \<longleftrightarrow> (let n = of_char c :: nat in
     97 \<le> n \<and> n \<le> 122 \<or> 65 \<le> n \<and> n \<le> 90 \<or> 48 \<le> n \<and> n \<le> 57 \<or> n = 95 \<or> n = 45)"

definition is_re_space :: "char \<Rightarrow> bool" where
  "is_re_space c \<longleftrightarrow> of_char c \<in> {9, 10, 12, 13, 32 :: nat}"

abbreviation quote :: char where "quote \<equiv> CHR 0x22"

definition match_unquoted :: "string \<Rightarrow> (string \<times> string) option" where
  "match_unquoted v =
     (let u = takeWhile (\<lambda>c. \<not> is_re_space c \<and> c \<noteq> CHR '','') v
      in if u = [] then None else Some (u, drop (length u) v))"

definition match_value :: "string \<Rightarrow> (string \<times> string \<times> string) option" where
  "match_value v =
     (case v of
        c # q \<Rightarrow>
          (if c = quote \<and> quote \<in> set q
           then Some (takeWhile (\<lambda>c. c \<noteq> quote) q, [], tl (dropWhile (\<lambda>c. c \<noteq> quote) q))
           else map_option (\<lambda>(u, rest). ([], u, rest)) (match_unquoted v))
      | [] \<Rightarrow> None)"

definition match_param :: "string \<Rightarrow> ((string \<times> string \<times> string) \<times> string) option" where
  "match_param s =
     (let key = takeWhile is_key_char s;
          r = dropWhile is_re_space (dropWhile is_key_char s)
      in if key = [] \<or> r = [] \<or> hd r \<noteq> CHR ''='' then None
         else map_option (\<lambda>(q, u, rest). ((key, q, u), rest)) (match_value (dropWhile is_re_space (tl r))))"

lemma match_value_shorter: "match_value v = Some (q, u, rest) \<Longrightarrow> length rest \<le> length v"
  by (auto simp: match_value_def match_unquoted_def Let_def split: list.splits if_splits)
     (meson le_SucI le_trans length_dropWhile_le diff_le_self length_tl)+

lemma match_param_shorter: "match_param s = Some (m, rest) \<Longrightarrow> length rest < length s"
proof -
  assume "match_param s = Some (m, rest)"
  then obtain k q u where v: "match_value (dropWhile is_re_space (tl (dropWhile is_re_space (dropWhile is_key_char s))))
      = Some (q, u, rest)" "dropWhile is_re_space (dropWhile is_key_char s) \<noteq> []"
    by (auto simp: match_param_def Let_def split: if_splits)
  have "length rest \<le> length (tl (dropWhile is_re_space (dropWhile is_key_char s)))"
    using match_value_shorter[OF v(1)] length_dropWhile_le le_trans by blast
  also have "\<dots> < length (dropWhile is_re_space (dropWhile is_key_char s))" using v(2) by simp
  also have "\<dots> \<le> length s" using length_dropWhile_le le_trans by blast
  finally show ?thesis .
qed

text \<open>\<^verbatim>\<open>FindAllStringSubmatch\<close>: leftmost matches that do not overlap.\<close>

function find_params :: "string \<Rightarrow> (string \<times> string \<times> string) list" where
  "find_params s =
     (case match_param s of
        Some (m, rest) \<Rightarrow> m # find_params rest
      | None \<Rightarrow> (case s of [] \<Rightarrow> [] | c # s' \<Rightarrow> find_params s'))"
  by pat_completeness auto
termination
  by (relation "measure length") (auto dest: match_param_shorter)

declare find_params.simps [simp del]

type_synonym params = "string \<Rightarrow> string option"

definition parse_digest :: "string \<Rightarrow> params option" where
  "parse_digest header =
     (let t = trim_space header in
      if \<not> has_prefix (to_lower t) ''digest '' then None
      else let ms = find_params (trim_space (drop 7 t)) in
        if ms = [] then None
        else Some (fold (\<lambda>(k, q, u) m. m(to_lower k \<mapsto> if q = [] then u else q)) ms Map.empty))"

text \<open>A parameter as the code reads it: missing is empty, and quotes are trimmed.\<close>

definition trim_quotes :: "string \<Rightarrow> string" where
  "trim_quotes s = trim_set (\<lambda>c. c = quote) s"

definition param :: "params \<Rightarrow> string \<Rightarrow> string" where
  "param m k = trim_quotes (case m k of Some v \<Rightarrow> v | None \<Rightarrow> [])"

subsection \<open>Request URIs\<close>

definition is_uri_match :: "prims \<Rightarrow> string \<Rightarrow> string \<Rightarrow> bool" where
  "is_uri_match pr client req \<longleftrightarrow>
     client = req \<or>
     (case url_parse pr client of Some u \<Rightarrow> u_path u = req | None \<Rightarrow> False) \<or>
     has_suffix client req \<and>
       (let idx = length client - length req in
        idx = 0 \<or> client ! (idx - 1) = CHR ''/'' \<or> client ! (idx - 1) = CHR '':'')"

text \<open>\<^verbatim>\<open>net.SplitHostPort\<close>, the host only: None is any of its errors.\<close>

definition last_index :: "char \<Rightarrow> string \<Rightarrow> nat option" where
  "last_index c s = (if c \<in> set s then Some (length s - 1 - length (takeWhile (\<lambda>x. x \<noteq> c) (rev s))) else None)"

definition split_host_port :: "string \<Rightarrow> string option" where
  "split_host_port s =
     (case last_index (CHR '':'') s of
        None \<Rightarrow> None
      | Some i \<Rightarrow>
          (if take 1 s = ''['' then
             (case index_of s '']'' of
                None \<Rightarrow> None
              | Some e \<Rightarrow>
                  if e + 1 = length s \<or> e + 1 \<noteq> i then None
                  else if CHR ''['' \<in> set (drop 1 s) \<or> CHR '']'' \<in> set (drop (e + 1) s) then None
                  else Some (drop 1 (take e s)))
           else if CHR '':'' \<in> set (take i s) \<or> CHR ''['' \<in> set s \<or> CHR '']'' \<in> set s then None
           else Some (take i s)))"

definition add_uri :: "string \<Rightarrow> string list \<Rightarrow> string list" where
  "add_uri u us = (let t = trim_space u in if t = [] \<or> t \<in> set us then us else us @ [t])"

definition host_uris :: "string \<Rightarrow> string \<Rightarrow> string list" where
  "host_uris host p =
     (let host_only = (case split_host_port host of Some h \<Rightarrow> if h \<noteq> [] then h else host | None \<Rightarrow> host)
      in if p = [] then []
         else [''http://'' @ host @ p, ''https://'' @ host @ p] @
              (if host_only \<noteq> host
               then [''http://'' @ host_only @ p, ''https://'' @ host_only @ p]
               else [''http://'' @ host_only @ '':8000'' @ p, ''http://'' @ host_only @ '':80'' @ p]))"

definition uri_candidates :: "prims \<Rightarrow> string \<Rightarrow> string \<Rightarrow> string \<Rightarrow> string list" where
  "uri_candidates pr client req host =
     (let parsed = (case url_parse pr client of
                      Some u \<Rightarrow> if u_path u \<noteq> []
                                then u_path u # (if u_query u \<noteq> [] then [u_request_uri u] else [])
                                else []
                    | None \<Rightarrow> []);
          h = trim_space host;
          targets = req # (if client \<noteq> [] \<and> client \<noteq> req \<and> has_prefix client ''/'' then [client] else []);
          absolute = (if h = [] then [] else concat (map (host_uris h) targets))
      in fold add_uri (client # parsed @ req # absolute) [])"

subsection \<open>The check of a Digest response\<close>

datatype auth_reason =
    NoReason
  | MalformedHeader
  | UserMismatch string
  | RealmMismatch string
  | UnsupportedAlgorithm string
  | StaleNonce
  | InvalidNonce
  | UriMismatch string
  | UnsupportedQop string
  | ResponseMismatch

definition md5_hex :: "prims \<Rightarrow> string \<Rightarrow> string" where
  "md5_hex pr s = hex_of_bytes (md5 pr (bytes_of s))"

definition colons :: "string list \<Rightarrow> string" where
  "colons xs = join_with (CHR '':'') xs"

definition legacy_response :: "prims \<Rightarrow> string \<Rightarrow> string \<Rightarrow> string \<Rightarrow> string" where
  "legacy_response pr ha1 nonce ha2 = md5_hex pr (colons [ha1, nonce, ha2])"

definition qop_response :: "prims \<Rightarrow> string \<Rightarrow> string \<Rightarrow> string \<Rightarrow> string \<Rightarrow> string \<Rightarrow> string \<Rightarrow> string" where
  "qop_response pr ha1 nonce nc cnonce qop ha2 = md5_hex pr (colons [ha1, nonce, nc, cnonce, qop, ha2])"

record digest_fields =
  d_nonce :: string
  d_nc :: string
  d_cnonce :: string
  d_qop :: string
  d_response :: string

fun try_candidates ::
  "prims \<Rightarrow> string \<Rightarrow> string \<Rightarrow> digest_fields \<Rightarrow> string list \<Rightarrow> auth_status \<times> auth_reason" where
  "try_candidates pr meth ha1 d [] = (AuthFailed, ResponseMismatch)"
| "try_candidates pr meth ha1 d (u # us) =
     (let ha2 = md5_hex pr (colons [meth, u]);
          legacy = legacy_response pr ha1 (d_nonce d) ha2;
          check = (\<lambda>expected. if d_response d = expected then (AuthSuccess, NoReason)
                     else if d_qop d \<noteq> [] \<and> d_response d = legacy then (AuthSuccess, NoReason)
                     else try_candidates pr meth ha1 d us)
      in if d_qop d = ''auth'' \<or> d_qop d = ''auth-int''
         then check (qop_response pr ha1 (d_nonce d) (d_nc d) (d_cnonce d) (d_qop d) ha2)
         else if d_qop d = [] then check legacy
         else (AuthFailed, UnsupportedQop (d_qop d)))"

record credentials =
  c_user :: string
  c_pass :: string

definition validate_digest ::
  "prims \<Rightarrow> string \<Rightarrow> string \<Rightarrow> string \<Rightarrow> string \<Rightarrow> credentials \<Rightarrow> string \<Rightarrow> nonce_manager option \<Rightarrow>
     gtime \<Rightarrow> auth_status \<times> auth_reason" where
  "validate_digest pr meth req host header cred realm mgr now =
     (if c_user cred = [] then (AuthSuccess, NoReason)
      else case parse_digest header of
        None \<Rightarrow> (AuthFailed, MalformedHeader)
      | Some ps \<Rightarrow>
         (let user = param ps ''username'';
              given_realm = (case ps ''realm'' of Some r \<Rightarrow> r | None \<Rightarrow> []);
              alg = (case ps ''algorithm'' of Some a \<Rightarrow> a | None \<Rightarrow> []);
              nonce = param ps ''nonce'';
              nonce_status = (case mgr of Some m \<Rightarrow> nonce_validate pr m now nonce | None \<Rightarrow> AuthSuccess);
              client = param ps ''uri''
          in if user \<noteq> c_user cred then (AuthFailed, UserMismatch user)
             else if given_realm \<noteq> [] \<and> trim_quotes given_realm \<noteq> realm
               then (AuthFailed, RealmMismatch (trim_quotes given_realm))
             else if alg \<noteq> [] \<and> \<not> equal_fold (trim_quotes alg) ''MD5''
               then (AuthFailed, UnsupportedAlgorithm (trim_quotes alg))
             else if nonce_status = AuthStale then (AuthStale, StaleNonce)
             else if nonce_status \<noteq> AuthSuccess then (AuthFailed, InvalidNonce)
             else if client = [] \<or> \<not> is_uri_match pr client req then (AuthFailed, UriMismatch client)
             else
               let used_realm = (if given_realm \<noteq> [] then trim_quotes given_realm else realm);
                   ha1 = md5_hex pr (colons [c_user cred, used_realm, c_pass cred])
               in try_candidates pr meth ha1
                    \<lparr>d_nonce = nonce, d_nc = param ps ''nc'', d_cnonce = param ps ''cnonce'',
                     d_qop = to_lower (param ps ''qop''), d_response = to_lower (param ps ''response'')\<rparr>
                    (uri_candidates pr client req host)))"

text \<open>What a log line shows of the header.\<close>

datatype redacted = RedactNone | RedactDigestUser string | RedactDigest | RedactBasic | RedactOther

definition redact_header :: "string \<Rightarrow> redacted" where
  "redact_header header =
     (let t = trim_space header in
      if t = [] then RedactNone
      else if has_prefix (to_lower t) ''digest '' then
        (case (case parse_digest header of Some ps \<Rightarrow> ps ''username'' | None \<Rightarrow> None) of
           Some u \<Rightarrow> if u \<noteq> [] then RedactDigestUser u else RedactDigest
         | None \<Rightarrow> RedactDigest)
      else if has_prefix (to_lower t) ''basic '' then RedactBasic
      else RedactOther)"

subsection \<open>Base64 and WS-Security\<close>

definition b64_alphabet :: string where
  "b64_alphabet = ''ABCDEFGHIJKLMNOPQRSTUVWXYZabcdefghijklmnopqrstuvwxyz0123456789+/''"

definition b64_char :: "byte \<Rightarrow> char" where
  "b64_char v = b64_alphabet ! unat (take_bit 6 v)"

definition b64_value :: "char \<Rightarrow> byte option" where
  "b64_value c =
     (if c \<in> set b64_alphabet then Some (word_of_nat (length (takeWhile (\<lambda>x. x \<noteq> c) b64_alphabet))) else None)"

fun b64_encode :: "bytes \<Rightarrow> string" where
  "b64_encode [] = []"
| "b64_encode [a] = [b64_char (drop_bit 2 a), b64_char (push_bit 4 (a AND 3)), CHR ''='', CHR ''='']"
| "b64_encode [a, b] =
     [b64_char (drop_bit 2 a), b64_char (push_bit 4 (a AND 3) OR drop_bit 4 b),
      b64_char (push_bit 2 (b AND 15)), CHR ''='']"
| "b64_encode (a # b # c # bs) =
     b64_char (drop_bit 2 a) # b64_char (push_bit 4 (a AND 3) OR drop_bit 4 b) #
     b64_char (push_bit 2 (b AND 15) OR drop_bit 6 c) # b64_char (c AND 63) # b64_encode bs"

fun b64_groups :: "string \<Rightarrow> bytes option" where
  "b64_groups [] = Some []"
| "b64_groups (p # q # r # t # rest) =
     (case (b64_value p, b64_value q) of
        (Some a, Some b) \<Rightarrow>
          (let x = push_bit 2 a OR drop_bit 4 b in
           if r = CHR ''='' then (if t = CHR ''='' \<and> rest = [] then Some [x] else None)
           else case b64_value r of
             None \<Rightarrow> None
           | Some c \<Rightarrow>
               (let y = push_bit 4 b OR drop_bit 2 c in
                if t = CHR ''='' then (if rest = [] then Some [x, y] else None)
                else case (b64_value t, b64_groups rest) of
                  (Some d, Some bs) \<Rightarrow> Some (x # y # (push_bit 6 c OR d) # bs)
                | _ \<Rightarrow> None))
      | _ \<Rightarrow> None)"
| "b64_groups s = None"

text \<open>\<^verbatim>\<open>base64.StdEncoding.DecodeString\<close> skips line breaks.\<close>

definition b64_decode :: "string \<Rightarrow> bytes option" where
  "b64_decode s = b64_groups (filter (\<lambda>c. of_char c \<noteq> (10 :: nat) \<and> of_char c \<noteq> (13 :: nat)) s)"

record username_token =
  t_username :: string
  t_password_type :: string
  t_password :: string
  t_nonce :: string
  t_created :: string

definition ws_digest :: "prims \<Rightarrow> bytes \<Rightarrow> string \<Rightarrow> string \<Rightarrow> string" where
  "ws_digest pr nonce created pass = b64_encode (sha1 pr (nonce @ bytes_of created @ bytes_of pass))"

definition validate_ws_security :: "prims \<Rightarrow> username_token option \<Rightarrow> credentials \<Rightarrow> bool" where
  "validate_ws_security pr tok cred =
     (if c_user cred = [] then True
      else case tok of
        None \<Rightarrow> False
      | Some t \<Rightarrow>
          (if trim_space (t_username t) \<noteq> c_user cred then False
           else if contains (trim_space (t_password_type t)) ''PasswordDigest'' then
             (let n = trim_space (t_nonce t);
                  raw = (case b64_decode n of Some bs \<Rightarrow> bs | None \<Rightarrow> bytes_of n)
              in trim_space (t_password t) = ws_digest pr raw (trim_space (t_created t)) (c_pass cred))
           else trim_space (t_password t) = c_pass cred))"

end
