(* ===== verification/Nabto_Sdk.thy ===== *)
theory Nabto_Sdk
  imports Nabto_Connect Onvif_Auth
begin

text \<open>
  The client over the C library of Nabto (\<^verbatim>\<open>pkg/nabto/client.go\<close>): pairing, key file, queries and messages as functions
  of what the library answers, and the life of the library's handles as a step relation in which \<^verbatim>\<open>Connect\<close>, the queries
  and \<^verbatim>\<open>Close\<close> run against each other. The library itself is not under \<^verbatim>\<open>src/\<close>: every outcome of its calls
  is possible.
\<close>

subsection \<open>Configuration\<close>

definition sdk_config :: "nabto_config \<Rightarrow> nabto_config" where
  "sdk_config c =
     c\<lparr>nb_camera_port := (if nb_camera_port c = 0 then 5592 else nb_camera_port c),
       nb_product_id := (if nb_product_id c = [] then ''pr-xxxxx'' else nb_product_id c),
       nb_device_id := (if nb_device_id c = [] then ''de-xxxxxxx'' else nb_device_id c),
       nb_sct := (if nb_sct c = [] then ''JDCIETbBRn0Y'' else nb_sct c),
       nb_pair_pwd := (if nb_pair_pwd c = [] then ''xxxx'' else nb_pair_pwd c)\<rparr>"

definition has_pair_pwd :: "nabto_config \<Rightarrow> bool" where
  "has_pair_pwd c \<longleftrightarrow> nb_pair_pwd c \<noteq> [] \<and> nb_pair_pwd c \<noteq> ''xxxx''"

definition connect_options :: "(string \<Rightarrow> string) \<Rightarrow> string" where
  "connect_options env =
     ''{\"ConnectTimeout\":20000'' @
     (if env ''NABTO_REMOTE'' = ''false'' \<or> env ''REMOTE'' = ''false'' then '',\"Remote\":false'' else []) @ ''}''"

subsection \<open>Pairing\<close>

text \<open>The user name: three random bytes in hexadecimal; without random bytes the fallback writes four into a slice of three (None: it panics).\<close>

definition dynamic_username :: "bool \<Rightarrow> string \<Rightarrow> bytes option \<Rightarrow> string option" where
  "dynamic_username beta custom rand =
     (if custom \<noteq> [] then Some custom
      else case rand of
             None \<Rightarrow> None
           | Some b \<Rightarrow> Some ((if beta then ''steinel-bridge-beta-'' else ''steinel-bridge-'') @ hex_of_bytes b))"

definition encode_username_cbor :: "string \<Rightarrow> bytes" where
  "encode_username_cbor u =
     (let n = length u in
      [0xA1, 0x68] @ bytes_of ''Username'' @
      (if n < 24 then [word_of_nat (0x60 + n)] else [0x78, word_of_nat n]) @ bytes_of u)"

text \<open>What the library answers in one attempt: no request object, an error (status 0), or a status.\<close>

datatype pair_answer = NoRequest | PairStatus nat

datatype pair_result = Paired string | NameFailed | AuthenticationFailed | RequestFailed | PairRefused nat

definition max_pair_attempts :: nat where "max_pair_attempts = 3"

fun pair_attempts :: "nat \<Rightarrow> nat \<Rightarrow> (string option \<times> pair_answer) list \<Rightarrow> pair_result \<times> bytes list" where
  "pair_attempts 0 last_status es = (PairRefused last_status, [])"
| "pair_attempts (Suc k) last_status [] = (PairRefused last_status, [])"
| "pair_attempts (Suc k) last_status ((name, a) # es) =
     (case name of
        None \<Rightarrow> (NameFailed, [])
      | Some u \<Rightarrow>
          (case a of
             NoRequest \<Rightarrow> (RequestFailed, [])
           | PairStatus st \<Rightarrow>
               if st = 201 \<or> st = 200 then (Paired u, [encode_username_cbor u])
               else if st \<noteq> 409 then (PairRefused st, [encode_username_cbor u])
               else (case pair_attempts k st es of (r, out) \<Rightarrow> (r, encode_username_cbor u # out))))"

definition pair_password :: "bool \<Rightarrow> (string option \<times> pair_answer) list \<Rightarrow> pair_result \<times> bytes list" where
  "pair_password authenticated es =
     (if \<not> authenticated then (AuthenticationFailed, []) else pair_attempts max_pair_attempts 0 es)"

subsection \<open>Connect and the key file\<close>

datatype sdk_error =
    ClientClosed
  | KeyGenerationFailed
  | NoConnection
  | ConnectFailed
  | PairingFailed pair_result

text \<open>
  One call without interference: the text of the key and whether it is new, the file behind it (None: it cannot be read) and the
  result. \<open>gen\<close> is the library's new key, \<open>conn\<close> whether there is a connection object and \<open>connected\<close> whether it connects;
  the pairing's answers are in \<open>pairing\<close>.
\<close>

record sdk_env =
  sd_gen :: "string option"
  sd_writable :: bool
  sd_conn :: bool
  sd_connected :: bool
  sd_auth :: bool
  sd_pairing :: "(string option \<times> pair_answer) list"

definition save_key :: "bool \<Rightarrow> string \<Rightarrow> string option \<Rightarrow> string option" where
  "save_key writable key file0 = (if writable then Some key else file0)"

definition sdk_connect :: "nabto_config \<Rightarrow> sdk_env \<Rightarrow> string option \<Rightarrow> (sdk_error + string) \<times> string option" where
  "sdk_connect cfg e file0 =
     (case (case file0 of
              Some key \<Rightarrow> Some (key, False, file0)
            | None \<Rightarrow> map_option (\<lambda>key. (key, True, save_key (sd_writable e) key file0)) (sd_gen e)) of
        None \<Rightarrow> (Inl KeyGenerationFailed, file0)
      | Some (key, is_new, file1) \<Rightarrow>
          if \<not> sd_conn e then (Inl NoConnection, file1)
          else if \<not> sd_connected e then (Inl ConnectFailed, file1)
          else if is_new \<and> has_pair_pwd cfg then
            (case fst (pair_password (sd_auth e) (sd_pairing e)) of
               Paired u \<Rightarrow> (Inr key, save_key (sd_writable e) key file1)
             | failed \<Rightarrow> (Inl (PairingFailed failed), file1))
          else (Inr key, file1))"

text \<open>The tracks: the answer's status (None: the request failed) and the key file, which an unauthorized key loses.\<close>

definition sdk_request_tracks :: "nabto_config \<Rightarrow> nat option \<Rightarrow> string option \<Rightarrow> nat option \<times> string option" where
  "sdk_request_tracks cfg answer file0 =
     (case answer of
        None \<Rightarrow> (None, file0)
      | Some st \<Rightarrow> (Some st, if st = 401 \<and> has_pair_pwd cfg then None else file0))"

text \<open>The signaling port: only status 205 with a payload counts.\<close>

definition sdk_signaling_port :: "(nat \<times> string) option \<Rightarrow> nat option" where
  "sdk_signaling_port answer =
     (case answer of
        None \<Rightarrow> None
      | Some (st, payload) \<Rightarrow> if st = 205 \<and> payload \<noteq> [] then signaling_port payload else None)"

subsection \<open>Messages\<close>

text \<open>
  The bytes of the stream that are still to come; the library's read-all fails when it cannot fill the buffer. A frame of a
  refused length has lost its four bytes of length.
\<close>

datatype msg_error = MsgEOF | BadFrameLength nat

definition read_all :: "nat \<Rightarrow> bytes \<Rightarrow> (bytes \<times> bytes) option" where
  "read_all n bs = (if n \<le> length bs then Some (take n bs, drop n bs) else None)"

definition sdk_read_msg :: "bytes \<Rightarrow> (msg_error + bytes) \<times> bytes" where
  "sdk_read_msg bs =
     (case read_all 4 bs of
        Some ([a, b, c, d], rest) \<Rightarrow>
          (let n = unat (of_le32 a b c d) in
           if n = 0 \<or> n > 2 ^ 20 then (Inl (BadFrameLength n), rest)
           else (case read_all n rest of
                   Some (payload, rest') \<Rightarrow> (Inr payload, rest')
                 | None \<Rightarrow> (Inl MsgEOF, [])))
      | _ \<Rightarrow> (Inl MsgEOF, []))"

definition sdk_write_msg :: "bytes \<Rightarrow> bytes" where
  "sdk_write_msg payload = le32 (word_of_nat (length payload)) @ payload"

subsection \<open>The life of the handles\<close>

text \<open>
  \<open>Preparing\<close> to \<open>Discarding\<close> and \<open>Pairing\<close> are stages of \<^verbatim>\<open>Connect\<close> (the flag says that a pairing will
  follow), \<open>Querying\<close> one of the three queries with the connection it has taken, \<open>Leaving\<close> the deferred call that signs off
  from the wait group. A registered goroutine is a member of \<open>sk_group\<close>.
\<close>

datatype sdk_worker =
    Fresh
  | Preparing bool
  | Created nat bool
  | Dialing nat bool
  | Dialed nat bool bool
  | Discarding nat
  | Pairing
  | Querying nat
  | Leaving
  | Finished

datatype sdk_closer =
    NotCalled
  | Stopping "nat option"
  | Draining "nat option"
  | FreeingConn "nat option"
  | ClearingCtx
  | FreeingCtx
  | CloseReturned

datatype sdk_fault = UseAfterFree | FreedTwice | NullHandle

text \<open>The client's fields, and behind them what the library has: the live connections, the context and the faults so far.\<close>

record sdk_sys =
  sk_closed :: bool
  sk_ctx :: bool
  sk_conn :: "nat option"
  sk_group :: "nat set"
  sk_workers :: "nat \<Rightarrow> sdk_worker"
  sk_closers :: "nat \<Rightarrow> sdk_closer"
  sk_live :: "nat set"
  sk_next :: nat
  sk_ctx_live :: bool
  sk_faults :: "sdk_fault set"

definition sdk_init :: sdk_sys where
  "sdk_init = \<lparr>sk_closed = False, sk_ctx = True, sk_conn = None, sk_group = {}, sk_workers = (\<lambda>_. Fresh),
     sk_closers = (\<lambda>_. NotCalled), sk_live = {}, sk_next = 0, sk_ctx_live = True, sk_faults = {}\<rparr>"

definition fault_if :: "bool \<Rightarrow> sdk_fault \<Rightarrow> sdk_sys \<Rightarrow> sdk_sys" where
  "fault_if b f s = (if b then s\<lparr>sk_faults := insert f (sk_faults s)\<rparr> else s)"

definition use_ctx :: "sdk_sys \<Rightarrow> sdk_sys" where
  "use_ctx s = fault_if (\<not> sk_ctx_live s) UseAfterFree s"

definition use_conn :: "nat option \<Rightarrow> sdk_sys \<Rightarrow> sdk_sys" where
  "use_conn c s =
     (case c of
        None \<Rightarrow> fault_if True NullHandle s
      | Some n \<Rightarrow> fault_if (n \<notin> sk_live s) UseAfterFree s)"

definition free_conn :: "nat \<Rightarrow> sdk_sys \<Rightarrow> sdk_sys" where
  "free_conn n s = (fault_if (n \<notin> sk_live s) FreedTwice s)\<lparr>sk_live := sk_live s - {n}\<rparr>"

definition free_ctx :: "sdk_sys \<Rightarrow> sdk_sys" where
  "free_ctx s = (fault_if (\<not> sk_ctx_live s) FreedTwice s)\<lparr>sk_ctx_live := False\<rparr>"

definition worker_to :: "nat \<Rightarrow> sdk_worker \<Rightarrow> sdk_sys \<Rightarrow> sdk_sys" where
  "worker_to i w s = s\<lparr>sk_workers := (sk_workers s)(i := w)\<rparr>"

definition closer_to :: "nat \<Rightarrow> sdk_closer \<Rightarrow> sdk_sys \<Rightarrow> sdk_sys" where
  "closer_to j c s = s\<lparr>sk_closers := (sk_closers s)(j := c)\<rparr>"

definition connecting :: "sdk_worker \<Rightarrow> bool" where
  "connecting w = (case w of Preparing b \<Rightarrow> True | Created n b \<Rightarrow> True | Dialing n b \<Rightarrow> True | Dialed n b k \<Rightarrow> True
     | Discarding n \<Rightarrow> True | Pairing \<Rightarrow> True | _ \<Rightarrow> False)"

text \<open>
  With the flag, queries start only when no \<^verbatim>\<open>Connect\<close> is running, as in the loop of the driver, which asks for the port
  after \<^verbatim>\<open>Connect\<close> has returned. \<^verbatim>\<open>Close\<close> can come at any time, also twice.
\<close>

inductive sdk_step :: "bool \<Rightarrow> sdk_sys \<Rightarrow> sdk_sys \<Rightarrow> bool" for orderly where
  connect_begin: "sk_workers s i = Fresh \<Longrightarrow> \<not> sk_closed s \<Longrightarrow> sk_ctx s \<Longrightarrow>
    sdk_step orderly s (worker_to i (Preparing b) (s\<lparr>sk_group := insert i (sk_group s)\<rparr>))"
| connect_refused: "sk_workers s i = Fresh \<Longrightarrow> sk_closed s \<or> \<not> sk_ctx s \<Longrightarrow>
    sdk_step orderly s (worker_to i Finished s)"
| connect_key_fails: "sk_workers s i = Preparing b \<Longrightarrow> sdk_step orderly s (worker_to i Leaving (use_ctx s))"
| connect_new: "sk_workers s i = Preparing b \<Longrightarrow>
    sdk_step orderly s (worker_to i (Created (sk_next s) b)
      ((use_ctx s)\<lparr>sk_live := insert (sk_next s) (sk_live s), sk_next := Suc (sk_next s)\<rparr>))"
| connect_publish: "sk_workers s i = Created n b \<Longrightarrow> \<not> sk_closed s \<Longrightarrow>
    sdk_step orderly s (worker_to i (Dialing n b) (s\<lparr>sk_conn := Some n\<rparr>))"
| connect_late: "sk_workers s i = Created n b \<Longrightarrow> sk_closed s \<Longrightarrow> sdk_step orderly s (worker_to i (Discarding n) s)"
| connect_dial: "sk_workers s i = Dialing n b \<Longrightarrow>
    sdk_step orderly s (worker_to i (Dialed n b ok) (use_conn (Some n) (use_ctx s)))"
| connect_aborted: "sk_workers s i = Dialed n b ok \<Longrightarrow> sk_closed s \<Longrightarrow> sdk_step orderly s (worker_to i Leaving s)"
| connect_fails: "sk_workers s i = Dialed n b False \<Longrightarrow> \<not> sk_closed s \<Longrightarrow>
    sdk_step orderly s (worker_to i (Discarding n) (s\<lparr>sk_conn := None\<rparr>))"
| connect_ok: "sk_workers s i = Dialed n b True \<Longrightarrow> \<not> sk_closed s \<Longrightarrow>
    sdk_step orderly s (worker_to i (if b then Pairing else Leaving) s)"
| connect_discard: "sk_workers s i = Discarding n \<Longrightarrow> sdk_step orderly s (worker_to i Leaving (free_conn n s))"
| pair_use: "sk_workers s i = Pairing \<Longrightarrow> sdk_step orderly s (use_conn (sk_conn s) (use_ctx s))"
| pair_end: "sk_workers s i = Pairing \<Longrightarrow> sdk_step orderly s (worker_to i Leaving s)"
| query_begin: "sk_workers s i = Fresh \<Longrightarrow> \<not> sk_closed s \<Longrightarrow> sk_ctx s \<Longrightarrow> sk_conn s = Some n \<Longrightarrow>
    orderly \<longrightarrow> (\<forall>j. \<not> connecting (sk_workers s j)) \<Longrightarrow>
    sdk_step orderly s (worker_to i (Querying n) (s\<lparr>sk_group := insert i (sk_group s)\<rparr>))"
| query_use: "sk_workers s i = Querying n \<Longrightarrow> sdk_step orderly s (use_conn (Some n) (use_ctx s))"
| query_end: "sk_workers s i = Querying n \<Longrightarrow> sdk_step orderly s (worker_to i Leaving s)"
| sign_off: "sk_workers s i = Leaving \<Longrightarrow>
    sdk_step orderly s (worker_to i Finished (s\<lparr>sk_group := sk_group s - {i}\<rparr>))"
| close_begin: "sk_closers s j = NotCalled \<Longrightarrow> \<not> sk_closed s \<Longrightarrow>
    sdk_step orderly s (closer_to j (Stopping (sk_conn s)) (s\<lparr>sk_closed := True, sk_conn := None\<rparr>))"
| close_again: "sk_closers s j = NotCalled \<Longrightarrow> sk_closed s \<Longrightarrow> sdk_step orderly s (closer_to j CloseReturned s)"
| close_stop: "sk_closers s j = Stopping c \<Longrightarrow> sdk_step orderly s (closer_to j (Draining c) (use_ctx s))"
| close_drained: "sk_closers s j = Draining c \<Longrightarrow> sk_group s = {} \<Longrightarrow>
    sdk_step orderly s (closer_to j (FreeingConn c) s)"
| close_free_conn: "sk_closers s j = FreeingConn c \<Longrightarrow>
    sdk_step orderly s (closer_to j ClearingCtx (case c of Some n \<Rightarrow> free_conn n s | None \<Rightarrow> s))"
| close_clear_ctx: "sk_closers s j = ClearingCtx \<Longrightarrow>
    sdk_step orderly s (closer_to j FreeingCtx (s\<lparr>sk_ctx := False\<rparr>))"
| close_free_ctx: "sk_closers s j = FreeingCtx \<Longrightarrow> sdk_step orderly s (closer_to j CloseReturned (free_ctx s))"

inductive sdk_reachable :: "bool \<Rightarrow> sdk_sys \<Rightarrow> bool" for orderly where
  sdk_start: "sdk_reachable orderly sdk_init"
| sdk_next: "sdk_reachable orderly s \<Longrightarrow> sdk_step orderly s t \<Longrightarrow> sdk_reachable orderly t"

end
