(* ===== verification/Nabto_Sdk_Proofs.thy ===== *)
theory Nabto_Sdk_Proofs
  imports Nabto_Sdk Nabto_Connect_Proofs
begin

text \<open>
  The handles of the C library are never used after they are freed and never freed twice, in any interleaving in which the
  queries wait for \<^verbatim>\<open>Connect\<close>; the key file recovers from a pairing that failed; both Nabto drivers read the same
  messages from the same bytes.
\<close>

subsection \<open>The handles\<close>

definition worker_handle :: "sdk_worker \<Rightarrow> nat option" where
  "worker_handle w = (case w of Created n b \<Rightarrow> Some n | Dialing n b \<Rightarrow> Some n | Dialed n b k \<Rightarrow> Some n
     | Discarding n \<Rightarrow> Some n | Querying n \<Rightarrow> Some n | _ \<Rightarrow> None)"

text \<open>The handle that a worker is going to free, whatever happens; and the one that it may free.\<close>

definition will_free :: "sdk_worker \<Rightarrow> nat option" where
  "will_free w = (case w of Created n b \<Rightarrow> Some n | Discarding n \<Rightarrow> Some n | _ \<Rightarrow> None)"

definition dials :: "sdk_worker \<Rightarrow> nat option" where
  "dials w = (case w of Created n b \<Rightarrow> Some n | Dialing n b \<Rightarrow> Some n | Dialed n b k \<Rightarrow> Some n
     | Discarding n \<Rightarrow> Some n | _ \<Rightarrow> None)"

definition running :: "sdk_worker \<Rightarrow> bool" where
  "running w \<longleftrightarrow> w \<noteq> Fresh \<and> w \<noteq> Finished"

lemmas worker_defs = worker_handle_def will_free_def dials_def running_def connecting_def

definition taken :: "sdk_closer \<Rightarrow> nat option" where
  "taken c = (case c of Stopping h \<Rightarrow> h | Draining h \<Rightarrow> h | FreeingConn h \<Rightarrow> h | _ \<Rightarrow> None)"

definition closing :: "sdk_closer \<Rightarrow> bool" where
  "closing c \<longleftrightarrow> c \<noteq> NotCalled \<and> c \<noteq> CloseReturned"

definition drained :: "sdk_closer \<Rightarrow> bool" where
  "drained c \<longleftrightarrow> (case c of FreeingConn h \<Rightarrow> True | ClearingCtx \<Rightarrow> True | FreeingCtx \<Rightarrow> True | _ \<Rightarrow> False)"

lemmas closer_defs = taken_def closing_def drained_def

definition group_inv :: "sdk_sys \<Rightarrow> bool" where
  "group_inv s \<longleftrightarrow> (\<forall>i. i \<in> sk_group s \<longleftrightarrow> running (sk_workers s i))"

definition owner_inv :: "sdk_sys \<Rightarrow> bool" where
  "owner_inv s \<longleftrightarrow>
     (\<forall>n \<in> sk_live s. n < sk_next s) \<and>
     (\<forall>i n. worker_handle (sk_workers s i) = Some n \<longrightarrow> n \<in> sk_live s) \<and>
     (\<forall>i j n. dials (sk_workers s i) = Some n \<longrightarrow> dials (sk_workers s j) = Some n \<longrightarrow> i = j) \<and>
     (\<forall>i j n. dials (sk_workers s i) = Some n \<longrightarrow> sk_workers s j \<noteq> Querying n)"

definition conn_inv :: "sdk_sys \<Rightarrow> bool" where
  "conn_inv s \<longleftrightarrow>
     (\<forall>n. sk_conn s = Some n \<longrightarrow> n \<in> sk_live s \<and> \<not> sk_closed s \<and> (\<forall>i. will_free (sk_workers s i) \<noteq> Some n)) \<and>
     (\<forall>j n. taken (sk_closers s j) = Some n \<longrightarrow> n \<in> sk_live s \<and> (\<forall>i. will_free (sk_workers s i) \<noteq> Some n))"

definition close_inv :: "sdk_sys \<Rightarrow> bool" where
  "close_inv s \<longleftrightarrow>
     (\<forall>j. sk_closers s j \<noteq> NotCalled \<longrightarrow> sk_closed s) \<and>
     (\<forall>i j. closing (sk_closers s i) \<longrightarrow> closing (sk_closers s j) \<longrightarrow> i = j) \<and>
     (\<forall>j. drained (sk_closers s j) \<longrightarrow> sk_group s = {}) \<and>
     (\<not> sk_ctx_live s \<longrightarrow> sk_closed s \<and> sk_group s = {} \<and> (\<forall>j. \<not> closing (sk_closers s j)))"

definition fault_inv :: "sdk_sys \<Rightarrow> bool" where
  "fault_inv s \<longleftrightarrow> sk_faults s \<subseteq> {NullHandle}"

definition sdk_inv :: "sdk_sys \<Rightarrow> bool" where
  "sdk_inv s \<longleftrightarrow> group_inv s \<and> owner_inv s \<and> conn_inv s \<and> close_inv s \<and> fault_inv s"

lemma use_ctx_fields [simp]:
  "sk_closed (use_ctx s) = sk_closed s"
  "sk_ctx (use_ctx s) = sk_ctx s"
  "sk_conn (use_ctx s) = sk_conn s"
  "sk_group (use_ctx s) = sk_group s"
  "sk_workers (use_ctx s) = sk_workers s"
  "sk_closers (use_ctx s) = sk_closers s"
  "sk_live (use_ctx s) = sk_live s"
  "sk_next (use_ctx s) = sk_next s"
  "sk_ctx_live (use_ctx s) = sk_ctx_live s"
  by (simp_all add: use_ctx_def fault_if_def)

lemma use_conn_fields [simp]:
  "sk_closed (use_conn c s) = sk_closed s"
  "sk_ctx (use_conn c s) = sk_ctx s"
  "sk_conn (use_conn c s) = sk_conn s"
  "sk_group (use_conn c s) = sk_group s"
  "sk_workers (use_conn c s) = sk_workers s"
  "sk_closers (use_conn c s) = sk_closers s"
  "sk_live (use_conn c s) = sk_live s"
  "sk_next (use_conn c s) = sk_next s"
  "sk_ctx_live (use_conn c s) = sk_ctx_live s"
  by (simp_all add: use_conn_def fault_if_def split: option.split)

lemma free_conn_fields [simp]:
  "sk_closed (free_conn n s) = sk_closed s"
  "sk_ctx (free_conn n s) = sk_ctx s"
  "sk_conn (free_conn n s) = sk_conn s"
  "sk_group (free_conn n s) = sk_group s"
  "sk_workers (free_conn n s) = sk_workers s"
  "sk_closers (free_conn n s) = sk_closers s"
  "sk_live (free_conn n s) = sk_live s - {n}"
  "sk_next (free_conn n s) = sk_next s"
  "sk_ctx_live (free_conn n s) = sk_ctx_live s"
  by (simp_all add: free_conn_def fault_if_def)

lemma free_ctx_fields [simp]:
  "sk_closed (free_ctx s) = sk_closed s"
  "sk_ctx (free_ctx s) = sk_ctx s"
  "sk_conn (free_ctx s) = sk_conn s"
  "sk_group (free_ctx s) = sk_group s"
  "sk_workers (free_ctx s) = sk_workers s"
  "sk_closers (free_ctx s) = sk_closers s"
  "sk_live (free_ctx s) = sk_live s"
  "sk_next (free_ctx s) = sk_next s"
  "sk_ctx_live (free_ctx s) = False"
  by (simp_all add: free_ctx_def fault_if_def)

lemma worker_to_fields [simp]:
  "sk_closed (worker_to i w s) = sk_closed s"
  "sk_ctx (worker_to i w s) = sk_ctx s"
  "sk_conn (worker_to i w s) = sk_conn s"
  "sk_group (worker_to i w s) = sk_group s"
  "sk_workers (worker_to i w s) = (sk_workers s)(i := w)"
  "sk_closers (worker_to i w s) = sk_closers s"
  "sk_live (worker_to i w s) = sk_live s"
  "sk_next (worker_to i w s) = sk_next s"
  "sk_ctx_live (worker_to i w s) = sk_ctx_live s"
  "sk_faults (worker_to i w s) = sk_faults s"
  by (simp_all add: worker_to_def)

lemma closer_to_fields [simp]:
  "sk_closed (closer_to i w s) = sk_closed s"
  "sk_ctx (closer_to i w s) = sk_ctx s"
  "sk_conn (closer_to i w s) = sk_conn s"
  "sk_group (closer_to i w s) = sk_group s"
  "sk_workers (closer_to i w s) = sk_workers s"
  "sk_closers (closer_to i w s) = (sk_closers s)(i := w)"
  "sk_live (closer_to i w s) = sk_live s"
  "sk_next (closer_to i w s) = sk_next s"
  "sk_ctx_live (closer_to i w s) = sk_ctx_live s"
  "sk_faults (closer_to i w s) = sk_faults s"
  by (simp_all add: closer_to_def)

lemma sdk_inv_init: "sdk_inv sdk_init"
  by (simp add: sdk_inv_def group_inv_def owner_inv_def conn_inv_def close_inv_def fault_inv_def sdk_init_def
      worker_defs closer_defs)

lemma group_step: "sdk_step ord s t \<Longrightarrow> group_inv s \<Longrightarrow> group_inv t"
  by (induction rule: sdk_step.induct) (auto simp: group_inv_def running_def split: option.split)


lemma closer_simps [simp]:
  "closing NotCalled = False" "drained NotCalled = False" "taken NotCalled = None"
  "closing (Stopping h) = True" "drained (Stopping h) = False" "taken (Stopping h) = h"
  "closing (Draining h) = True" "drained (Draining h) = False" "taken (Draining h) = h"
  "closing (FreeingConn h) = True" "drained (FreeingConn h) = True" "taken (FreeingConn h) = h"
  "closing ClearingCtx = True" "drained ClearingCtx = True" "taken ClearingCtx = None"
  "closing FreeingCtx = True" "drained FreeingCtx = True" "taken FreeingCtx = None"
  "closing CloseReturned = False" "drained CloseReturned = False" "taken CloseReturned = None"
  by (simp_all add: closer_defs)

lemma closing_taken: "taken c = Some n \<Longrightarrow> closing c"
  by (cases c) simp_all

lemma drained_closing: "drained c \<Longrightarrow> closing c"
  by (cases c) simp_all

lemma worker_simps [simp]:
  "running Fresh = False" "connecting Fresh = False" "worker_handle Fresh = None" "dials Fresh = None" "will_free Fresh = None"
  "running (Preparing b) = True" "connecting (Preparing b) = True" "worker_handle (Preparing b) = None" "dials (Preparing b) = None" "will_free (Preparing b) = None"
  "running (Created n b) = True" "connecting (Created n b) = True" "worker_handle (Created n b) = Some n" "dials (Created n b) = Some n" "will_free (Created n b) = Some n"
  "running (Dialing n b) = True" "connecting (Dialing n b) = True" "worker_handle (Dialing n b) = Some n" "dials (Dialing n b) = Some n" "will_free (Dialing n b) = None"
  "running (Dialed n b k) = True" "connecting (Dialed n b k) = True" "worker_handle (Dialed n b k) = Some n" "dials (Dialed n b k) = Some n" "will_free (Dialed n b k) = None"
  "running (Discarding n) = True" "connecting (Discarding n) = True" "worker_handle (Discarding n) = Some n" "dials (Discarding n) = Some n" "will_free (Discarding n) = Some n"
  "running Pairing = True" "connecting Pairing = True" "worker_handle Pairing = None" "dials Pairing = None" "will_free Pairing = None"
  "running (Querying n) = True" "connecting (Querying n) = False" "worker_handle (Querying n) = Some n" "dials (Querying n) = None" "will_free (Querying n) = None"
  "running Leaving = True" "connecting Leaving = False" "worker_handle Leaving = None" "dials Leaving = None" "will_free Leaving = None"
  "running Finished = False" "connecting Finished = False" "worker_handle Finished = None" "dials Finished = None" "will_free Finished = None"
  by (simp_all add: worker_defs)

lemma close_inv_worker:
  assumes "close_inv s" "sk_closers t = sk_closers s" "sk_closed t = sk_closed s" "sk_ctx_live t = sk_ctx_live s"
    and "sk_group t \<subseteq> sk_group s \<or> \<not> sk_closed s"
  shows "close_inv t"
proof -
  have "\<not> sk_closed s \<Longrightarrow> \<not> drained (sk_closers s j)" for j
    using assms(1) drained_closing unfolding close_inv_def closing_def by blast
  with assms show ?thesis unfolding close_inv_def by (metis subset_empty)
qed

lemma close_inv_closer:
  assumes "close_inv s" "sk_closers t = (sk_closers s)(j := c)" "sk_closed t" "sk_ctx_live t = sk_ctx_live s"
    and "sk_group t = sk_group s" "closing c \<Longrightarrow> closing (sk_closers s j) \<or> \<not> sk_closed s" "drained c \<Longrightarrow> sk_group s = {}"
  shows "close_inv t"
proof -
  have n: "\<not> sk_closed s \<Longrightarrow> \<not> closing (sk_closers s i)" for i
    using assms(1) unfolding close_inv_def closing_def by blast
  have a: "\<not> sk_ctx_live s \<Longrightarrow> sk_closed s \<and> sk_group s = {} \<and> (\<forall>j. \<not> closing (sk_closers s j))"
    and u: "\<And>i j. closing (sk_closers s i) \<Longrightarrow> closing (sk_closers s j) \<Longrightarrow> i = j"
    and d: "\<And>j. drained (sk_closers s j) \<Longrightarrow> sk_group s = {}"
    using assms(1) unfolding close_inv_def by blast+
  show ?thesis unfolding close_inv_def
  proof (intro conjI allI impI)
    fix i k assume "closing (sk_closers t i)" "closing (sk_closers t k)"
    then show "i = k" using assms(2,6) u n by (cases "i = j"; cases "k = j") auto
  next
    fix i assume "drained (sk_closers t i)"
    then show "sk_group t = {}" using assms(2,5,7) d by (cases "i = j") auto
  qed (use assms a n in auto)
qed

lemma closing_closed: "close_inv s \<Longrightarrow> closing (sk_closers s j) \<Longrightarrow> sk_closed s"
  unfolding close_inv_def closing_def by blast

lemma drained_group: "close_inv s \<Longrightarrow> drained (sk_closers s j) \<Longrightarrow> sk_group s = {}"
  unfolding close_inv_def by blast

lemma close_step:
  assumes "sdk_step ord s t" "group_inv s" "close_inv s"
  shows "close_inv t"
  using assms(1)
proof cases
  case (close_free_ctx j)
  then have d: "drained (sk_closers s j)" "closing (sk_closers s j)" by (simp_all add: closer_defs)
  moreover have "sk_closed s" using close_free_ctx closing_closed[OF assms(3), of j] by simp
  ultimately have "sk_group s = {}" "sk_closed s" "\<And>i. closing (sk_closers s i) \<Longrightarrow> i = j"
    using assms(3) unfolding close_inv_def by blast+
  with close_free_ctx assms(3) show ?thesis by (auto simp: close_inv_def closer_defs)
next
  case (close_begin j)
  show ?thesis
    by (rule close_inv_closer[where j = j and c = "Stopping (sk_conn s)", OF assms(3)]) (use close_begin in simp_all)
next
  case (close_again j)
  show ?thesis by (rule close_inv_closer[where j = j and c = CloseReturned, OF assms(3)]) (use close_again in simp_all)
next
  case (close_stop j c)
  moreover have "sk_closed s" using close_stop closing_closed[OF assms(3), of j] by simp
  ultimately show ?thesis by (intro close_inv_closer[where j = j and c = "Draining c", OF assms(3)]) simp_all
next
  case (close_drained j c)
  moreover have "sk_closed s" using close_drained closing_closed[OF assms(3), of j] by simp
  ultimately show ?thesis by (intro close_inv_closer[where j = j and c = "FreeingConn c", OF assms(3)]) simp_all
next
  case (close_free_conn j c)
  moreover have "sk_closed s" "sk_group s = {}"
    using close_free_conn closing_closed[OF assms(3), of j] drained_group[OF assms(3), of j] by simp_all
  ultimately show ?thesis
    by (intro close_inv_closer[where j = j and c = ClearingCtx, OF assms(3)]) (simp_all split: option.split)
next
  case (close_clear_ctx j)
  moreover have "sk_closed s" "sk_group s = {}"
    using close_clear_ctx closing_closed[OF assms(3), of j] drained_group[OF assms(3), of j] by simp_all
  ultimately show ?thesis by (intro close_inv_closer[where j = j and c = FreeingCtx, OF assms(3)]) simp_all
qed (rule close_inv_worker[OF assms(3)]; auto)+

text \<open>Whose handle is live, and who frees it.\<close>

lemma dials_handle: "dials w = Some n \<Longrightarrow> worker_handle w = Some n"
  by (cases w) simp_all

lemma will_free_dials: "will_free w = Some n \<Longrightarrow> dials w = Some n"
  by (cases w) simp_all

lemma dials_connecting: "\<not> connecting w \<Longrightarrow> dials w = None"
  by (cases w) simp_all

lemma handle_running: "worker_handle w = Some n \<Longrightarrow> running w"
  by (cases w) simp_all

lemma drained_no_handles:
  assumes "group_inv s" "close_inv s" "drained (sk_closers s j)"
  shows "worker_handle (sk_workers s i) = None"
proof -
  have "sk_group s = {}" using assms(2,3) unfolding close_inv_def by blast
  with assms(1) have "\<not> running (sk_workers s i)" unfolding group_inv_def by blast
  then show ?thesis using handle_running by (cases "worker_handle (sk_workers s i)") auto
qed

lemma owner_invD:
  assumes "owner_inv s"
  shows "n \<in> sk_live s \<Longrightarrow> n < sk_next s"
    and "worker_handle (sk_workers s i) = Some n \<Longrightarrow> n \<in> sk_live s"
    and "dials (sk_workers s i) = Some n \<Longrightarrow> dials (sk_workers s j) = Some n \<Longrightarrow> i = j"
    and "dials (sk_workers s i) = Some n \<Longrightarrow> sk_workers s j \<noteq> Querying n"
  using assms unfolding owner_inv_def by blast+

text \<open>A worker that goes on with at most the handle it had.\<close>

lemma owner_move:
  assumes "owner_inv s" "sk_workers t = (sk_workers s)(i := w)" "sk_live t = sk_live s" "sk_next t = sk_next s"
    and "dials w = None \<or> dials w = dials (sk_workers s i)"
    and "worker_handle w = None \<or> worker_handle w = worker_handle (sk_workers s i)"
    and "\<And>n. w = Querying n \<Longrightarrow> sk_workers s i = Querying n"
  shows "owner_inv t"
  unfolding owner_inv_def
proof (intro conjI allI impI ballI)
  fix n assume "n \<in> sk_live t"
  then show "n < sk_next t" using owner_invD(1)[OF assms(1)] assms(3,4) by simp
next
  fix j n assume "worker_handle (sk_workers t j) = Some n"
  then have "worker_handle (sk_workers s j) = Some n" using assms(2,6) by (cases "j = i") auto
  then show "n \<in> sk_live t" using owner_invD(2)[OF assms(1)] assms(3) by simp
next
  fix j k n assume "dials (sk_workers t j) = Some n" "dials (sk_workers t k) = Some n"
  then have "dials (sk_workers s j) = Some n" "dials (sk_workers s k) = Some n"
    using assms(2,5) by (cases "j = i"; cases "k = i"; auto)+
  then show "j = k" using owner_invD(3)[OF assms(1)] by blast
next
  fix j k n assume "dials (sk_workers t j) = Some n"
  then have "dials (sk_workers s j) = Some n" using assms(2,5) by (cases "j = i") auto
  then have "sk_workers s k \<noteq> Querying n" using owner_invD(4)[OF assms(1)] by blast
  then show "sk_workers t k \<noteq> Querying n" using assms(2,7) by (cases "k = i") auto
qed

lemma owner_same:
  "owner_inv s \<Longrightarrow> sk_workers t = sk_workers s \<Longrightarrow> sk_live t = sk_live s \<Longrightarrow> sk_next t = sk_next s \<Longrightarrow> owner_inv t"
  unfolding owner_inv_def by simp

lemma owner_step:
  assumes "sdk_step True s t" "group_inv s" "close_inv s" "owner_inv s" "conn_inv s"
  shows "owner_inv t"
  using assms(1)
proof cases
  case (connect_new i b)
  have h: "worker_handle (sk_workers s j) \<noteq> Some (sk_next s)" for j
    using assms(4) unfolding owner_inv_def by blast
  then have "dials (sk_workers s j) \<noteq> Some (sk_next s)" for j using dials_handle by blast
  moreover have "sk_workers s j \<noteq> Querying (sk_next s)" for j using h[of j] by auto
  ultimately show ?thesis using connect_new assms(4) by (simp add: owner_inv_def less_Suc_eq) metis
next
  case (connect_discard i n)
  have d: "dials (sk_workers s i) = Some n" using connect_discard by simp
  then have "worker_handle (sk_workers s j) \<noteq> Some n" if "j \<noteq> i" for j
    using owner_invD(3)[OF assms(4) d, of j] owner_invD(4)[OF assms(4) d, of j] that by (cases "sk_workers s j") auto
  with connect_discard assms(4) show ?thesis by (simp add: owner_inv_def) metis
next
  case (query_begin i n)
  have "dials (sk_workers s j) = None" for j using query_begin(6) dials_connecting by blast
  moreover have "n \<in> sk_live s" using query_begin(5) assms(5) unfolding conn_inv_def by blast
  ultimately show ?thesis using query_begin assms(4) by (simp add: owner_inv_def)
next
  case (close_free_conn j c)
  then have "worker_handle (sk_workers s i) = None" for i
    using drained_no_handles[OF assms(2,3), of j] by simp
  moreover have "dials (sk_workers s i) = None" for i
    using calculation[of i] dials_handle by (cases "dials (sk_workers s i)") auto
  ultimately show ?thesis using close_free_conn owner_invD(1)[OF assms(4)]
    by (auto simp: owner_inv_def split: option.split)
next
  case (connect_begin i b)
  show ?thesis by (rule owner_move[OF assms(4), where i = i and w = "sk_workers t i"]) (use connect_begin in auto)
next
  case (connect_refused i)
  show ?thesis by (rule owner_move[OF assms(4), where i = i and w = "sk_workers t i"]) (use connect_refused in auto)
next
  case (connect_key_fails i b)
  show ?thesis by (rule owner_move[OF assms(4), where i = i and w = "sk_workers t i"]) (use connect_key_fails in auto)
next
  case (connect_publish i n b)
  show ?thesis by (rule owner_move[OF assms(4), where i = i and w = "sk_workers t i"]) (use connect_publish in auto)
next
  case (connect_late i n b)
  show ?thesis by (rule owner_move[OF assms(4), where i = i and w = "sk_workers t i"]) (use connect_late in auto)
next
  case (connect_dial i n b ok)
  show ?thesis by (rule owner_move[OF assms(4), where i = i and w = "sk_workers t i"]) (use connect_dial in auto)
next
  case (connect_aborted i n b ok)
  show ?thesis by (rule owner_move[OF assms(4), where i = i and w = "sk_workers t i"]) (use connect_aborted in auto)
next
  case (connect_fails i n b)
  show ?thesis by (rule owner_move[OF assms(4), where i = i and w = "sk_workers t i"]) (use connect_fails in auto)
next
  case (connect_ok i n b)
  show ?thesis by (rule owner_move[OF assms(4), where i = i and w = "sk_workers t i"]) (use connect_ok in \<open>auto split: if_splits\<close>)
next
  case (pair_end i)
  show ?thesis by (rule owner_move[OF assms(4), where i = i and w = "sk_workers t i"]) (use pair_end in auto)
next
  case (query_end i n)
  show ?thesis by (rule owner_move[OF assms(4), where i = i and w = "sk_workers t i"]) (use query_end in auto)
next
  case (sign_off i)
  show ?thesis by (rule owner_move[OF assms(4), where i = i and w = "sk_workers t i"]) (use sign_off in auto)
qed (rule owner_same[OF assms(4)]; simp)+


text \<open>The published connection and the ones that \<^verbatim>\<open>Close\<close> has taken are live, and no worker frees them.\<close>

definition held :: "sdk_sys \<Rightarrow> nat \<Rightarrow> bool" where
  "held s n \<longleftrightarrow> sk_conn s = Some n \<or> (\<exists>j. taken (sk_closers s j) = Some n)"

lemma conn_inv_held:
  "conn_inv s \<longleftrightarrow> (\<forall>n. sk_conn s = Some n \<longrightarrow> \<not> sk_closed s) \<and>
     (\<forall>n. held s n \<longrightarrow> n \<in> sk_live s \<and> (\<forall>i. will_free (sk_workers s i) \<noteq> Some n))"
  unfolding conn_inv_def held_def by blast

lemma conn_move:
  assumes "conn_inv s" "sk_workers t = (sk_workers s)(i := w)" "sk_live s \<subseteq> sk_live t"
    and "\<And>n. held t n \<Longrightarrow> held s n" "sk_conn t = sk_conn s \<or> sk_conn t = None" "sk_closed t = sk_closed s \<or> sk_conn t = None"
    and "\<And>n. will_free w = Some n \<Longrightarrow> \<not> held t n"
  shows "conn_inv t"
  unfolding conn_inv_held
proof (intro conjI allI impI)
  fix n assume h: "held t n"
  then have l: "n \<in> sk_live s" "\<And>j. will_free (sk_workers s j) \<noteq> Some n"
    using assms(1,4) unfolding conn_inv_held by blast+
  then show "n \<in> sk_live t" using assms(3) by blast
  show "will_free (sk_workers t j) \<noteq> Some n" for j
    using l(2)[of j] assms(2,7) h by (cases "j = i") auto
qed (use assms(1,5,6) in \<open>auto simp: conn_inv_held\<close>)

lemma conn_closer:
  assumes "conn_inv s" "sk_workers t = sk_workers s" "sk_live t = sk_live s" "\<And>n. held t n \<Longrightarrow> held s n"
    and "sk_conn t = None \<or> sk_conn t = sk_conn s \<and> sk_closed t = sk_closed s"
  shows "conn_inv t"
  using assms unfolding conn_inv_held by (metis option.distinct(1))

lemma held_closer:
  assumes "sk_closers t = (sk_closers s)(j := c)" "sk_conn t = sk_conn s"
    and "taken c = None \<or> taken c = taken (sk_closers s j)" and "held t n"
  shows "held s n"
  using assms unfolding held_def by (metis fun_upd_apply option.distinct(1))

lemma conn_step:
  assumes "sdk_step True s t" "group_inv s" "close_inv s" "owner_inv s" "conn_inv s"
  shows "conn_inv t"
  using assms(1)
proof cases
  case (connect_new i b)
  have "sk_next s \<notin> sk_live s" using owner_invD(1)[OF assms(4)] by blast
  then have "\<not> held s (sk_next s)" using assms(5) unfolding conn_inv_held by blast
  moreover have "held t n \<longleftrightarrow> held s n" for n using connect_new by (simp add: held_def)
  ultimately show ?thesis
    by (intro conn_move[OF assms(5), where i = i and w = "sk_workers t i"]) (use connect_new in auto)
next
  case (connect_publish i n b)
  have d: "dials (sk_workers s i) = Some n" using connect_publish by simp
  have "n \<in> sk_live s" using owner_invD(2)[OF assms(4), of i] connect_publish by simp
  moreover have "will_free (sk_workers s j) \<noteq> Some n" if "j \<noteq> i" for j
    using owner_invD(3)[OF assms(4) d, of j] will_free_dials that by blast
  ultimately show ?thesis using connect_publish assms(5) by (simp add: conn_inv_def)
next
  case (connect_late i n b)
  have "will_free (sk_workers s i) = Some n" using connect_late by simp
  then have "\<not> held s n" using assms(5) unfolding conn_inv_held by blast
  moreover have "held t m \<longleftrightarrow> held s m" for m using connect_late by (simp add: held_def)
  ultimately show ?thesis
    by (intro conn_move[OF assms(5), where i = i and w = "sk_workers t i"]) (use connect_late in auto)
next
  case (connect_fails i n b)
  have "\<not> closing (sk_closers s j)" for j using closing_closed[OF assms(3)] connect_fails by blast
  then have "taken (sk_closers s j) = None" for j
    using closing_taken by (cases "taken (sk_closers s j)") auto
  then have "\<not> held t m" for m using connect_fails by (simp add: held_def)
  then show ?thesis
    by (intro conn_move[OF assms(5), where i = i and w = "sk_workers t i"]) (use connect_fails in auto)
next
  case (connect_discard i n)
  have "will_free (sk_workers s i) = Some n" using connect_discard by simp
  then have "\<not> held s n" using assms(5) unfolding conn_inv_held by blast
  with connect_discard assms(5) show ?thesis by (auto simp: conn_inv_held held_def)
next
  case (close_begin j)
  then have "held s n" if "held t n" for n using that by (auto simp: held_def split: if_splits)
  with close_begin show ?thesis by (intro conn_closer[OF assms(5)]) auto
next
  case (close_free_conn j c)
  then have cj: "closing (sk_closers s j)" "sk_conn s = None"
    using closing_closed[OF assms(3), of j] assms(5) by (simp, auto simp: conn_inv_held)
  have "taken (sk_closers s i) = None" if "i \<noteq> j" for i
    using assms(3) cj(1) that unfolding close_inv_def
    using closing_taken by (cases "taken (sk_closers s i)") auto
  with close_free_conn cj have "\<not> held t n" for n by (cases c) (auto simp: held_def)
  with close_free_conn cj(2) show ?thesis by (auto simp: conn_inv_held split: option.split)
next
  case (connect_begin i b)
  show ?thesis by (rule conn_move[OF assms(5), where i = i and w = "sk_workers t i"]) (use connect_begin in \<open>auto simp: held_def\<close>)
next
  case (connect_refused i)
  show ?thesis by (rule conn_move[OF assms(5), where i = i and w = "sk_workers t i"]) (use connect_refused in \<open>auto simp: held_def\<close>)
next
  case (connect_key_fails i b)
  show ?thesis by (rule conn_move[OF assms(5), where i = i and w = "sk_workers t i"]) (use connect_key_fails in \<open>auto simp: held_def\<close>)
next
  case (connect_dial i n b ok)
  show ?thesis by (rule conn_move[OF assms(5), where i = i and w = "sk_workers t i"]) (use connect_dial in \<open>auto simp: held_def\<close>)
next
  case (connect_aborted i n b ok)
  show ?thesis by (rule conn_move[OF assms(5), where i = i and w = "sk_workers t i"]) (use connect_aborted in \<open>auto simp: held_def\<close>)
next
  case (connect_ok i n b)
  show ?thesis by (rule conn_move[OF assms(5), where i = i and w = "sk_workers t i"]) (use connect_ok in \<open>auto simp: held_def split: if_splits\<close>)
next
  case (pair_end i)
  show ?thesis by (rule conn_move[OF assms(5), where i = i and w = "sk_workers t i"]) (use pair_end in \<open>auto simp: held_def\<close>)
next
  case (query_begin i n)
  show ?thesis by (rule conn_move[OF assms(5), where i = i and w = "sk_workers t i"]) (use query_begin in \<open>auto simp: held_def\<close>)
next
  case (query_end i n)
  show ?thesis by (rule conn_move[OF assms(5), where i = i and w = "sk_workers t i"]) (use query_end in \<open>auto simp: held_def\<close>)
next
  case (sign_off i)
  show ?thesis by (rule conn_move[OF assms(5), where i = i and w = "sk_workers t i"]) (use sign_off in \<open>auto simp: held_def\<close>)
next
  case (close_again j)
  have "held s n" if "held t n" for n
    by (rule held_closer[where j = j and c = "CloseReturned", OF _ _ _ that]) (use close_again in simp_all)
  then show ?thesis by (rule conn_closer[OF assms(5), rotated 2]) (use close_again in simp_all)
next
  case (close_stop j c)
  have "held s n" if "held t n" for n
    by (rule held_closer[where j = j and c = "Draining c", OF _ _ _ that]) (use close_stop in simp_all)
  then show ?thesis by (rule conn_closer[OF assms(5), rotated 2]) (use close_stop in simp_all)
next
  case (close_drained j c)
  have "held s n" if "held t n" for n
    by (rule held_closer[where j = j and c = "FreeingConn c", OF _ _ _ that]) (use close_drained in simp_all)
  then show ?thesis by (rule conn_closer[OF assms(5), rotated 2]) (use close_drained in simp_all)
next
  case (close_clear_ctx j)
  have "held s n" if "held t n" for n
    by (rule held_closer[where j = j and c = "FreeingCtx", OF _ _ _ that]) (use close_clear_ctx in simp_all)
  then show ?thesis by (rule conn_closer[OF assms(5), rotated 2]) (use close_clear_ctx in simp_all)
next
  case (close_free_ctx j)
  have "held s n" if "held t n" for n
    by (rule held_closer[where j = j and c = "CloseReturned", OF _ _ _ that]) (use close_free_ctx in simp_all)
  then show ?thesis by (rule conn_closer[OF assms(5), rotated 2]) (use close_free_ctx in simp_all)
qed (rule conn_closer[OF assms(5)]; simp add: held_def)+


lemma fault_step:
  assumes "sdk_step True s t" "group_inv s" "close_inv s" "owner_inv s" "conn_inv s" "fault_inv s"
  shows "fault_inv t"
proof -
  have ctx: "sk_ctx_live s" if "running (sk_workers s i) \<or> closing (sk_closers s j)" for i j
    using that assms(2,3) unfolding group_inv_def close_inv_def by blast
  have use: "fault_inv (use_ctx u)" if "fault_inv u" "sk_ctx_live u" for u
    using that by (simp add: fault_inv_def use_ctx_def fault_if_def)
  have conn: "fault_inv (use_conn c u)" if "fault_inv u" "\<And>n. c = Some n \<Longrightarrow> n \<in> sk_live u" for c u
    using that by (auto simp: fault_inv_def use_conn_def fault_if_def split: option.split)
  have free: "fault_inv (free_conn n u)" if "fault_inv u" "n \<in> sk_live u" for n u
    using that by (simp add: fault_inv_def free_conn_def fault_if_def)
  have live: "n \<in> sk_live s" if "worker_handle (sk_workers s i) = Some n" for i n
    using owner_invD(2)[OF assms(4)] that .
  have both: "fault_inv (use_conn (Some n) (use_ctx s))" if "sk_ctx_live s" "n \<in> sk_live s" for n
    using that assms(6) by (intro conn use) auto
  have to: "fault_inv (worker_to i w u) \<longleftrightarrow> fault_inv u" "fault_inv (closer_to j c u) \<longleftrightarrow> fault_inv u" for i w j c u
    by (simp_all add: fault_inv_def)
  from assms(1) show ?thesis
  proof cases
    case (connect_key_fails i b)
    with use assms(6) ctx[of i] show ?thesis by (simp add: to)
  next
    case (connect_new i b)
    with use[of s] assms(6) ctx[of i] show ?thesis by (simp add: to fault_inv_def)
  next
    case (connect_dial i n b ok)
    with both ctx[of i] live[of i] show ?thesis by (simp add: to)
  next
    case (connect_discard i n)
    with free assms(6) live[of i] show ?thesis by (simp add: to)
  next
    case (pair_use i)
    have "fault_inv (use_conn (sk_conn s) (use_ctx s))"
      using assms(5,6) ctx[of i] pair_use by (intro conn use) (auto simp: conn_inv_def)
    with pair_use show ?thesis by simp
  next
    case (query_use i n)
    with both ctx[of i] live[of i] show ?thesis by simp
  next
    case (close_stop j c)
    with use assms(6) ctx[of _ j] show ?thesis by (simp add: to)
  next
    case (close_free_conn j c)
    moreover have "n \<in> sk_live s" if "c = Some n" for n
      using close_free_conn assms(5) that unfolding conn_inv_def by (metis closer_simps(12))
    ultimately show ?thesis using free assms(6) by (auto simp: to split: option.split)
  next
    case (close_free_ctx j)
    with ctx[of _ j] assms(6) show ?thesis by (simp add: to free_ctx_def fault_if_def fault_inv_def)
  qed (use assms(6) in \<open>auto simp: fault_inv_def\<close>)
qed

lemma sdk_inv_step: "sdk_step True s t \<Longrightarrow> sdk_inv s \<Longrightarrow> sdk_inv t"
  unfolding sdk_inv_def using group_step close_step owner_step conn_step fault_step by blast

lemma sdk_reachable_inv: "sdk_reachable True s \<Longrightarrow> sdk_inv s"
  by (induction rule: sdk_reachable.induct) (use sdk_inv_init sdk_inv_step in blast)+


text \<open> C31. Whatever connects, queries and calls of \<^verbatim>\<open>Close\<close> run against each other, in any order and cut anywhere, no
  connection and no context of the C library is used after it was freed, and none is freed twice, as long as queries start only
  when no \<^verbatim>\<open>Connect\<close> is running; the only fault left is a null connection, and when a \<^verbatim>\<open>Close\<close> is past its wait,
  no goroutine uses the library any more. \<close>

theorem sdk_handles_safe:
  assumes "sdk_reachable True s"
  shows "UseAfterFree \<notin> sk_faults s \<and> FreedTwice \<notin> sk_faults s \<and>
    (\<forall>j. drained (sk_closers s j) \<longrightarrow> (\<forall>i. \<not> running (sk_workers s i)))"
proof -
  have "group_inv s" "close_inv s" "fault_inv s" using sdk_reachable_inv[OF assms] unfolding sdk_inv_def by blast+
  then show ?thesis unfolding group_inv_def close_inv_def fault_inv_def by blast
qed

text \<open>The runs that the witnesses share: a connection that is published, and one that is made.\<close>

definition published_sys :: "bool \<Rightarrow> sdk_sys" where
  "published_sys b =
     sdk_init\<lparr>sk_group := {0}, sk_workers := (\<lambda>i. if i = 0 then Dialing 0 b else Fresh), sk_live := {0}, sk_next := 1,
       sk_conn := Some 0\<rparr>"

definition connected_sys :: "bool \<Rightarrow> sdk_sys" where
  "connected_sys b =
     (published_sys b)\<lparr>sk_workers := (\<lambda>i. if i = 0 then (if b then Pairing else Leaving) else Fresh)\<rparr>"

lemma published_reachable: "sdk_reachable ord (published_sys b)"
proof -
  let ?s1 = "worker_to 0 (Preparing b) (sdk_init\<lparr>sk_group := insert 0 (sk_group sdk_init)\<rparr>)"
  have 1: "sdk_reachable ord ?s1" by (rule sdk_next[OF sdk_start connect_begin]) (simp_all add: sdk_init_def)
  let ?s2 = "worker_to 0 (Created (sk_next ?s1) b)
      ((use_ctx ?s1)\<lparr>sk_live := insert (sk_next ?s1) (sk_live ?s1), sk_next := Suc (sk_next ?s1)\<rparr>)"
  have 2: "sdk_reachable ord ?s2" by (rule sdk_next[OF 1 connect_new]) simp
  have "sdk_reachable ord (worker_to 0 (Dialing 0 b) (?s2\<lparr>sk_conn := Some 0\<rparr>))"
    by (rule sdk_next[OF 2 connect_publish]) (simp_all add: sdk_init_def)
  moreover have "worker_to 0 (Dialing 0 b) (?s2\<lparr>sk_conn := Some 0\<rparr>) = published_sys b"
    by (auto simp: published_sys_def worker_to_def use_ctx_def fault_if_def sdk_init_def)
  ultimately show ?thesis by simp
qed

lemma connected_reachable: "sdk_reachable ord (connected_sys b)"
proof -
  let ?s1 = "worker_to 0 (Dialed 0 b True) (use_conn (Some 0) (use_ctx (published_sys b)))"
  have 1: "sdk_reachable ord ?s1"
    by (rule sdk_next[OF published_reachable connect_dial]) (simp add: published_sys_def)
  have "sdk_reachable ord (worker_to 0 (if b then Pairing else Leaving) ?s1)"
    by (rule sdk_next[OF 1 connect_ok]) (simp_all add: published_sys_def sdk_init_def)
  moreover have "worker_to 0 (if b then Pairing else Leaving) ?s1 = connected_sys b"
    by (auto simp: connected_sys_def published_sys_def worker_to_def use_ctx_def use_conn_def fault_if_def sdk_init_def)
  ultimately show ?thesis by simp
qed

theorem sdk_handles_safe_witness:
  "\<exists>s. sdk_reachable True s \<and> sk_workers s 1 = Querying 0 \<and> sk_closers s 0 = Draining (Some 0) \<and>
     UseAfterFree \<notin> sk_faults s \<and> FreedTwice \<notin> sk_faults s"
proof -
  let ?s1 = "worker_to 1 (Querying 0) ((connected_sys False)\<lparr>sk_group := insert 1 (sk_group (connected_sys False))\<rparr>)"
  have 1: "sdk_reachable True ?s1"
    by (rule sdk_next[OF connected_reachable query_begin])
       (simp_all add: connected_sys_def published_sys_def sdk_init_def)
  let ?s2 = "closer_to 0 (Stopping (sk_conn ?s1)) (?s1\<lparr>sk_closed := True, sk_conn := None\<rparr>)"
  have 2: "sdk_reachable True ?s2"
    by (rule sdk_next[OF 1 close_begin]) (simp_all add: connected_sys_def published_sys_def sdk_init_def)
  let ?s3 = "closer_to 0 (Draining (sk_conn ?s1)) (use_ctx ?s2)"
  have 3: "sdk_reachable True ?s3" by (rule sdk_next[OF 2 close_stop]) simp
  have "sk_workers ?s3 1 = Querying 0" "sk_closers ?s3 0 = Draining (Some 0)"
    by (simp_all add: connected_sys_def published_sys_def)
  with 3 sdk_handles_safe[OF 3] show ?thesis by blast
qed

text \<open>
  Two limits of this. A pairing reads the connection without the lock after \<^verbatim>\<open>Close\<close> can have taken it, and gives the
  library a null connection. And the order of the driver's loop is needed: a query that takes the published connection
  of a \<^verbatim>\<open>Connect\<close> that fails goes on with a freed one.
\<close>

lemma pairing_null_handle: "\<exists>s. sdk_reachable True s \<and> NullHandle \<in> sk_faults s"
proof -
  let ?s0 = "connected_sys True"
  let ?s1 = "closer_to 0 (Stopping (sk_conn ?s0)) (?s0\<lparr>sk_closed := True, sk_conn := None\<rparr>)"
  have 1: "sdk_reachable True ?s1"
    by (rule sdk_next[OF connected_reachable close_begin]) (simp_all add: connected_sys_def published_sys_def sdk_init_def)
  let ?s2 = "use_conn (sk_conn ?s1) (use_ctx ?s1)"
  have "sdk_reachable True ?s2"
    by (rule sdk_next[OF 1 pair_use[where i = 0]]) (simp add: connected_sys_def)
  moreover have "NullHandle \<in> sk_faults ?s2" by (simp add: use_conn_def fault_if_def)
  ultimately show ?thesis by blast
qed

lemma early_query_uses_freed: "\<exists>s. sdk_reachable False s \<and> UseAfterFree \<in> sk_faults s"
proof -
  let ?s0 = "published_sys False"
  let ?s1 = "worker_to 1 (Querying 0) (?s0\<lparr>sk_group := insert 1 (sk_group ?s0)\<rparr>)"
  have 1: "sdk_reachable False ?s1"
    by (rule sdk_next[OF published_reachable query_begin]) (simp_all add: published_sys_def sdk_init_def)
  let ?s2 = "worker_to 0 (Dialed 0 False False) (use_conn (Some 0) (use_ctx ?s1))"
  have 2: "sdk_reachable False ?s2" by (rule sdk_next[OF 1 connect_dial[where b = False]]) (simp add: published_sys_def)
  let ?s3 = "worker_to 0 (Discarding 0) (?s2\<lparr>sk_conn := None\<rparr>)"
  have 3: "sdk_reachable False ?s3"
    by (rule sdk_next[OF 2 connect_fails[where b = False]]) (simp_all add: published_sys_def sdk_init_def)
  let ?s4 = "worker_to 0 Leaving (free_conn 0 ?s3)"
  have 4: "sdk_reachable False ?s4" by (rule sdk_next[OF 3 connect_discard]) simp
  let ?s5 = "use_conn (Some 0) (use_ctx ?s4)"
  have "sdk_reachable False ?s5"
    by (rule sdk_next[OF 4 query_use[where i = 1]]) (simp add: published_sys_def)
  moreover have "UseAfterFree \<in> sk_faults ?s5" by (simp add: use_conn_def fault_if_def)
  ultimately show ?thesis by blast
qed

subsection \<open>Pairing\<close>

text \<open>A reader of the CBOR that the pairing sends: a map with one entry, both texts with a length in the head or in one byte.\<close>

definition cbor_text :: "bytes \<Rightarrow> (string \<times> bytes) option" where
  "cbor_text bs =
     (case bs of
        [] \<Rightarrow> None
      | h # r \<Rightarrow>
          if drop_bit 5 h \<noteq> 3 then None
          else if h AND 31 < 24 then
            (let n = unat (h AND 31) in if n \<le> length r then Some (string_of (take n r), drop n r) else None)
          else if h AND 31 = 24 then
            (case r of
               [] \<Rightarrow> None
             | l # r' \<Rightarrow> if unat l \<le> length r' then Some (string_of (take (unat l) r'), drop (unat l) r') else None)
          else None)"

definition cbor_entry :: "bytes \<Rightarrow> (string \<times> string) option" where
  "cbor_entry bs =
     (case bs of
        [] \<Rightarrow> None
      | h # r \<Rightarrow>
          if h \<noteq> 0xA1 then None
          else case cbor_text r of
                 None \<Rightarrow> None
               | Some (k, r') \<Rightarrow> (case cbor_text r' of Some (v, []) \<Rightarrow> Some (k, v) | _ \<Rightarrow> None))"

lemma cbor_short:
  assumes "n < 24"
  shows "drop_bit 5 (word_of_nat (0x60 + n) :: byte) = 3" "unat ((word_of_nat (0x60 + n) :: byte) AND 31) = n"
    "(word_of_nat (0x60 + n) :: byte) AND 31 < 24"
proof -
  have "\<forall>n < 24. drop_bit 5 (word_of_nat (0x60 + n) :: byte) = 3 \<and> unat ((word_of_nat (0x60 + n) :: byte) AND 31) = n \<and>
      (word_of_nat (0x60 + n) :: byte) AND 31 < 24"
    by code_simp
  with assms show "drop_bit 5 (word_of_nat (0x60 + n) :: byte) = 3" "unat ((word_of_nat (0x60 + n) :: byte) AND 31) = n"
    "(word_of_nat (0x60 + n) :: byte) AND 31 < 24" by blast+
qed

lemma cbor_username:
  assumes "length u < 256"
  shows "cbor_entry (encode_username_cbor u) = Some (''Username'', u)"
proof -
  have k: "cbor_text (0x68 # bytes_of ''Username'' @ r) = Some (''Username'', r)" for r
  proof -
    have "drop_bit 5 (0x68 :: byte) = 3" "(0x68 :: byte) AND 31 = 8" by code_simp+
    moreover have "take 8 (bytes_of ''Username'' @ r) = bytes_of ''Username''" "drop 8 (bytes_of ''Username'' @ r) = r"
      by simp_all
    ultimately show ?thesis unfolding cbor_text_def Let_def by (simp del: take_append drop_append)
  qed
  show ?thesis
  proof (cases "length u < 24")
    case True
    then show ?thesis using cbor_short[OF True] k
      by (simp add: encode_username_cbor_def cbor_entry_def Let_def cbor_text_def)
  next
    case False
    have "unat (word_of_nat (length u) :: byte) = length u"
      using assms by (simp add: unat_of_nat take_bit_nat_eq_self)
    moreover have "drop_bit 5 (0x78 :: byte) = 3" "(0x78 :: byte) AND 31 = 24" by code_simp+
    ultimately show ?thesis using False k
      by (simp add: encode_username_cbor_def cbor_entry_def Let_def cbor_text_def)
  qed
qed


lemma hex_of_bytes_length: "length (hex_of_bytes bs) = 2 * length bs"
  by (induction bs) (simp_all add: hex_of_bytes_def)

text \<open>Every name that the client makes up is encoded as one that is read back, and names made up from different random bytes differ.\<close>

lemma generated_name_encoded:
  assumes "dynamic_username beta [] (Some rand) = Some u" "length rand = 3"
  shows "cbor_entry (encode_username_cbor u) = Some (''Username'', u)"
  using assms by (intro cbor_username) (auto simp: dynamic_username_def hex_of_bytes_length)

text \<open>A name of 256 characters or more is not: its length does not fit the byte.\<close>

lemma long_name_refused: "cbor_entry (encode_username_cbor (replicate 256 CHR ''a'')) = None"
  by code_simp

subsection \<open>The key file recovers\<close>

text \<open>
  The camera as far as pairing goes: the keys that it knows. It answers a request for tracks with 401 exactly for the others, and
  a pairing that it accepts adds the key. One turn of the driver: connect, and when that succeeds ask for the tracks.
\<close>

definition camera_turn ::
  "nabto_config \<Rightarrow> sdk_env \<Rightarrow> string option \<times> string set \<Rightarrow> string option \<times> string set" where
  "camera_turn cfg e st =
     (case st of (file0, known) \<Rightarrow>
        (case sdk_connect cfg e file0 of
           (Inl _, file1) \<Rightarrow> (file1, known)
         | (Inr key, file1) \<Rightarrow>
             let known' = (if file0 = None \<and> has_pair_pwd cfg then insert key known else known)
             in (snd (sdk_request_tracks cfg (Some (if key \<in> known' then 201 else 401)) file1), known')))"

definition pairing_works :: "sdk_env \<Rightarrow> bool" where
  "pairing_works e \<longleftrightarrow> sd_gen e \<noteq> None \<and> sd_writable e \<and> sd_conn e \<and> sd_connected e \<and> sd_auth e \<and>
     (\<exists>u. fst (pair_password True (sd_pairing e)) = Paired u)"

definition has_paired_key :: "string option \<times> string set \<Rightarrow> bool" where
  "has_paired_key st \<longleftrightarrow> (\<exists>key. fst st = Some key \<and> key \<in> snd st)"

lemma camera_turn_works:
  assumes "has_pair_pwd cfg" "pairing_works e"
  shows "has_paired_key (camera_turn cfg e (file0, known)) \<or>
    (\<exists>key. file0 = Some key \<and> key \<notin> known \<and> camera_turn cfg e (file0, known) = (None, known))"
  using assms
  by (cases file0) (auto simp: camera_turn_def sdk_connect_def pairing_works_def has_paired_key_def save_key_def
      sdk_request_tracks_def)

lemma camera_turn_keeps:
  assumes "key \<in> known"
  shows "camera_turn cfg e (Some key, known) = (Some key, known)"
proof -
  have "sdk_connect cfg e (Some key) \<in> {(Inl NoConnection, Some key), (Inl ConnectFailed, Some key), (Inr key, Some key)}"
    by (simp add: sdk_connect_def)
  with assms show ?thesis by (auto simp: camera_turn_def sdk_request_tracks_def)
qed




subsection \<open>The two drivers read the same messages\<close>

text \<open>
  A stream of messages: what is put for a message is got back, with what comes behind it left over. \<open>get_all\<close> reads a
  number of messages.
\<close>

fun get_all :: "(bytes \<Rightarrow> (bytes \<times> bytes) option) \<Rightarrow> nat \<Rightarrow> bytes \<Rightarrow> (bytes list \<times> bytes) option" where
  "get_all g 0 bs = Some ([], bs)"
| "get_all g (Suc n) bs =
     (case g bs of
        None \<Rightarrow> None
      | Some (m, rest) \<Rightarrow> map_option (\<lambda>(ms, r). (m # ms, r)) (get_all g n rest))"

locale message_stream =
  fixes put :: "bytes \<Rightarrow> bytes"
    and get :: "bytes \<Rightarrow> (bytes \<times> bytes) option"
    and fits :: "bytes \<Rightarrow> bool"
  assumes get_put: "fits m \<Longrightarrow> get (put m @ rest) = Some (m, rest)"
begin

lemma get_all_put: "list_all fits ms \<Longrightarrow> get_all get (length ms) (concat (map put ms) @ rest) = Some (ms, rest)"
  by (induction ms) (simp_all add: get_put)

end

text \<open>One message of each driver from the bytes that have come: of the C library's, and of the pure driver's buffer.\<close>

definition sdk_get :: "bytes \<Rightarrow> (bytes \<times> bytes) option" where
  "sdk_get bs = (case sdk_read_msg bs of (Inr m, rest) \<Rightarrow> Some (m, rest) | _ \<Rightarrow> None)"

definition pure_get :: "bytes \<Rightarrow> (bytes \<times> bytes) option" where
  "pure_get bs =
     (case take_msg ((new_stream 0 0)\<lparr>read_buf := bs\<rparr>) of
        Some (ReadMessage m, s) \<Rightarrow> Some (m, read_buf s) | _ \<Rightarrow> None)"

lemma le32_bytes:
  obtains a b c d where "le32 w = [a, b, c, d]" "of_le32 a b c d = w"
  using of_le32_le32 unfolding le32_def by blast

interpretation sdk_messages: message_stream sdk_write_msg sdk_get "\<lambda>m. m \<noteq> [] \<and> length m \<le> 2 ^ 20"
proof
  fix m rest :: bytes assume m: "m \<noteq> [] \<and> length m \<le> 2 ^ 20"
  obtain a b c d where w: "le32 (word_of_nat (length m)) = [a, b, c, d]" "of_le32 a b c d = word_of_nat (length m)"
    by (rule le32_bytes)
  have "unat (word_of_nat (length m) :: u32) = length m" using m by (intro unat_of_nat_small32) simp
  with m w show "sdk_get (sdk_write_msg m @ rest) = Some (m, rest)"
    by (simp add: sdk_get_def sdk_read_msg_def sdk_write_msg_def read_all_def Let_def)
qed

interpretation pure_messages: message_stream frame_msg pure_get "\<lambda>m. length m < 2 ^ 32"
proof
  fix m rest :: bytes assume m: "length m < 2 ^ 32"
  obtain a b c d where w: "le32 (word_of_nat (length m)) = [a, b, c, d]" "of_le32 a b c d = word_of_nat (length m)"
    by (rule le32_bytes)
  have "unat (word_of_nat (length m) :: u32) = length m" using m by (intro unat_of_nat_small32) simp
  with w show "pure_get (frame_msg m @ rest) = Some (m, rest)"
    by (simp add: pure_get_def take_msg_def frame_msg_def new_stream_def Let_def)
qed

text \<open> The two Nabto drivers understand each other's messages: from the same bytes, written by either of them for any sequence of
  messages of one byte to one MiB, with anything behind, both read exactly these messages and leave the same rest; from
  any bytes at all, what the one over the C library reads the pure one reads, too. \<close>

theorem drivers_read_alike:
  assumes "\<forall>m \<in> set ms. m \<noteq> [] \<and> length m \<le> 2 ^ 20"
  shows "get_all sdk_get (length ms) (concat (map frame_msg ms) @ rest) = Some (ms, rest) \<and>
    get_all pure_get (length ms) (concat (map sdk_write_msg ms) @ rest) = Some (ms, rest) \<and>
    (sdk_get bs \<noteq> None \<longrightarrow> pure_get bs = sdk_get bs)"
proof -
  have same: "frame_msg = sdk_write_msg" by (auto simp: frame_msg_def sdk_write_msg_def)
  have "list_all (\<lambda>m. length m < 2 ^ 32) ms" using assms by (force simp: list_all_iff)
  then have "get_all pure_get (length ms) (concat (map sdk_write_msg ms) @ rest) = Some (ms, rest)"
    using pure_messages.get_all_put same by simp
  moreover have "get_all sdk_get (length ms) (concat (map frame_msg ms) @ rest) = Some (ms, rest)"
    using sdk_messages.get_all_put assms same by (simp add: list_all_iff)
  moreover have "pure_get bs = sdk_get bs" if "sdk_get bs \<noteq> None"
    using that
    by (auto simp: sdk_get_def pure_get_def sdk_read_msg_def take_msg_def read_all_def new_stream_def Let_def
        split: list.splits option.splits if_splits)
  ultimately show ?thesis by blast
qed

theorem drivers_read_alike_witness:
  "get_all sdk_get 2 (concat (map frame_msg [[1], [2, 3]]) @ [9]) = Some ([[1], [2, 3]], [9])"
proof -
  have "\<forall>m \<in> set [[1], [2, 3 :: byte]]. m \<noteq> [] \<and> length m \<le> 2 ^ 20" by simp
  from drivers_read_alike[OF this, of "[9]" "[]"] show ?thesis by (simp add: numeral_2_eq_2 del: get_all.simps)
qed

text \<open>
  They part on messages that the one over the C library refuses: an empty one is an error there and a message here, and for a
  length that it calls invalid the pure one waits for bytes, up to four gigabytes of them.
\<close>

lemma drivers_part:
  "fst (sdk_read_msg [0, 0, 0, 0]) = Inl (BadFrameLength 0)" "pure_get [0, 0, 0, 0] = Some ([], [])"
  "fst (sdk_read_msg [0xFF, 0xFF, 0xFF, 0xFF, 1]) = Inl (BadFrameLength 4294967295)"
  "pure_get [0xFF, 0xFF, 0xFF, 0xFF, 1] = None"
proof -
  have "of_le32 0xFF 0xFF 0xFF 0xFF = 0xFFFFFFFF" "of_le32 0 0 0 0 = 0" by code_simp+
  then show "fst (sdk_read_msg [0, 0, 0, 0]) = Inl (BadFrameLength 0)" "pure_get [0, 0, 0, 0] = Some ([], [])"
    "fst (sdk_read_msg [0xFF, 0xFF, 0xFF, 0xFF, 1]) = Inl (BadFrameLength 4294967295)"
    "pure_get [0xFF, 0xFF, 0xFF, 0xFF, 1] = None"
    by (simp_all add: sdk_read_msg_def read_all_def pure_get_def take_msg_def new_stream_def Let_def)
qed

end
