(* ===== verification/Onvif_Auth_Proofs.thy ===== *)
theory Onvif_Auth_Proofs
  imports Onvif_Auth
begin

text \<open>
  A generated nonce is accepted during its lifetime and no other nonce ever is, unless it
  carries the keyed hash; a Digest response is accepted from a client that knows the password
  and only for a response computed from it; a WS-Security digest is accepted from a
  client that knows the password; base64 round-trips.
\<close>

subsection \<open>Hexadecimal round trips\<close>

lemma hex_value_char: "n < 16 \<Longrightarrow> hex_value (hex_char n) = Some n"
  by (auto simp: hex_value_def hex_char_def Let_def)

lemma hex_char_no_dash: "n < 16 \<Longrightarrow> hex_char n \<noteq> CHR ''-''"
  using hex_value_char[of n] by (auto simp: hex_value_def)

lemma hex_decode_bytes: "hex_decode (hex_of_bytes bs) = Some bs"
proof (induction bs)
  case (Cons b bs)
  have b: "unat b div 16 < 16" "unat b mod 16 < 16" using unsigned_less[where 'a = nat, of b] by auto
  have "word_of_nat (unat b div 16 * 16 + unat b mod 16) = b" unfolding div_mult_mod_eq by simp
  with Cons b show ?case by (simp add: hex_of_bytes_def hex_value_char)
qed (simp add: hex_of_bytes_def)

lemma hex_bytes_no_dash: "CHR ''-'' \<notin> set (hex_of_bytes bs)"
proof -
  have "hex_char (unat b div 16) \<noteq> CHR ''-''" "hex_char (unat b mod 16) \<noteq> CHR ''-''" for b :: byte
    using unsigned_less[where 'a = nat, of b] by (auto intro!: hex_char_no_dash)
  then show ?thesis by (auto simp: hex_of_bytes_def dest: sym)
qed

lemma hex_digits_append: "hex_digits acc (s @ t) =
    (case hex_digits acc s of None \<Rightarrow> None | Some n \<Rightarrow> hex_digits n t)"
  by (induction s arbitrary: acc) (auto split: option.split)

lemma hex_digits_of_nat: "hex_digits 0 (hex_of_nat n) = Some n"
proof (induction n rule: hex_of_nat.induct)
  case (1 n)
  then show ?case
    by (subst hex_of_nat.simps) (auto simp: hex_digits_append hex_value_char)
qed

lemma hex_of_nat_digits: "c \<in> set (hex_of_nat n) \<Longrightarrow> \<exists>k < 16. c = hex_char k"
proof (induction n rule: hex_of_nat.induct)
  case (1 n)
  from 1(2) show ?case
    by (subst (asm) hex_of_nat.simps) (use 1(1) in \<open>auto split: if_splits intro: exI[of _ "n mod 16"]\<close>)
qed

lemma hex_of_nat_nonempty: "hex_of_nat n \<noteq> []"
  by (subst hex_of_nat.simps) simp

lemma hex_char_no_plus: "n < 16 \<Longrightarrow> hex_char n \<noteq> CHR ''+''"
  using hex_value_char[of n] by (auto simp: hex_value_def)

lemma parse_hex64_of_int:
  assumes "0 \<le> i" "i < 2 ^ 63"
  shows "parse_hex64 (hex_of_int i) = Some i" "CHR ''-'' \<notin> set (hex_of_int i)"
proof -
  let ?s = "hex_of_nat (nat i)"
  obtain c r where s: "?s = c # r" using hex_of_nat_nonempty by (meson list.exhaust)
  obtain k where "k < 16" "c = hex_char k" using hex_of_nat_digits[of c "nat i"] s by auto
  then have "c \<noteq> CHR ''-''" "c \<noteq> CHR ''+''" using hex_char_no_dash hex_char_no_plus by auto
  then show "parse_hex64 (hex_of_int i) = Some i"
    using assms hex_digits_of_nat[of "nat i"] s
    by (auto simp: parse_hex64_def hex_of_int_def split: option.splits)
  show "CHR ''-'' \<notin> set (hex_of_int i)"
    using assms hex_of_nat_digits hex_char_no_dash by (fastforce simp: hex_of_int_def)
qed

subsection \<open>Nonces\<close>

lemma nonce_validate_parts:
  assumes "CHR ''-'' \<notin> set t" "CHR ''-'' \<notin> set sl" "CHR ''-'' \<notin> set sg"
  shows "split_on (CHR ''-'') (t @ ''-'' @ sl @ ''-'' @ sg) = [t, sl, sg]"
  using assms by (simp add: split_on_append split_on_no_occurrence)

text \<open>The hash functions have the lengths of MD5, SHA-1 and SHA-256.\<close>

definition prims_ok :: "prims \<Rightarrow> bool" where
  "prims_ok pr \<longleftrightarrow> (\<forall>k m. length (hmac_sha256 pr k m) = 32)"

lemma nonce_age:
  assumes "prims_ok pr" "length salt = 4"
    and "62135596800 * 1000000000 \<le> made" "made \<le> now" "now < 62135596800 * 1000000000 + 2 ^ 63"
  shows "nonce_validate pr m now (nonce_generate pr m made salt) =
    (if now - made div 1000000000 * 1000000000 \<le> nm_ttl m then AuthSuccess else AuthStale)"
proof -
  let ?u = "unix_secs made"
  have two: "(2 :: int) ^ 63 = 9223372036854775808" by simp
  have u: "0 \<le> ?u" "?u < 2 ^ 63 - 62135596800"
    using assms(3-5) unfolding unix_secs_def two by (linarith, linarith)
  have sig: "length (nonce_sig pr m ?u salt) = 8" using assms(1) by (simp add: nonce_sig_def prims_ok_def)
  have t: "unix_time ?u = made div 1000000000 * 1000000000"
    using u by (simp add: unix_time_def unix_secs_def)
  have "62135596800 \<le> made div 1000000000" "made div 1000000000 * 1000000000 \<le> made"
    using assms(3) by linarith+
  then have age: "0 \<le> now - made div 1000000000 * 1000000000"
    "now - made div 1000000000 * 1000000000 < 2 ^ 63"
    using assms(4,5) unfolding two by linarith+
  then have sat: "sat64 (now - made div 1000000000 * 1000000000) = now - made div 1000000000 * 1000000000"
    by (simp add: sat64_def)
  have "split_on (CHR ''-'') (nonce_generate pr m made salt) =
      [hex_of_int ?u, hex_of_bytes salt, hex_of_bytes (nonce_sig pr m ?u salt)]"
    unfolding nonce_generate_def
    using parse_hex64_of_int[of ?u] u hex_bytes_no_dash by (intro nonce_validate_parts) auto
  then show ?thesis
    using parse_hex64_of_int(1)[of ?u] u assms(2) sig age
    by (simp add: nonce_validate_def hex_decode_bytes t sat Let_def)
qed

text \<open>
  C15. A nonce is good for as long as it is meant to be: checked at any time after it was made
  (the clock not before 1970), it is accepted while its age, counted from the whole second it
  carries, is within the lifetime, and stale from then on.
\<close>

theorem nonce_lifetime:
  assumes "prims_ok pr" "length salt = 4"
    and "62135596800 * 1000000000 \<le> made" "made \<le> now" "now < 62135596800 * 1000000000 + 2 ^ 63"
  shows "nonce_validate pr m now (nonce_generate pr m made salt) =
    (if now - made div 1000000000 * 1000000000 \<le> nm_ttl m then AuthSuccess else AuthStale)"
  using assms by (rule nonce_age)

definition toy_prims :: prims where
  "toy_prims = \<lparr>md5 = (\<lambda>m. [word_of_nat (length m)]), sha1 = (\<lambda>m. rev m),
     hmac_sha256 = (\<lambda>k m. take 32 (rev m @ k @ replicate 32 0)), url_parse = (\<lambda>_. None)\<rparr>"

lemma toy_prims_ok: "prims_ok toy_prims"
proof -
  have "min a 32 + (min b (32 - a) + (32 - (a + b))) = (32 :: nat)" for a b by arith
  then show ?thesis by (simp add: prims_ok_def toy_prims_def)
qed

definition toy_manager :: nonce_manager where
  "toy_manager = \<lparr>nm_secret = [1, 2, 3, 4], nm_ttl = 300 * 1000000000\<rparr>"

theorem nonce_lifetime_witness:
  "nonce_validate toy_prims toy_manager (62135596800 * 1000000000 + 299999999999)
     (nonce_generate toy_prims toy_manager (62135596800 * 1000000000) [9, 9, 9, 9]) = AuthSuccess"
  using nonce_lifetime[OF toy_prims_ok, of "[9, 9, 9, 9]" "62135596800 * 1000000000"
      "62135596800 * 1000000000 + 299999999999" toy_manager]
  by (simp add: toy_manager_def)

subsection \<open>Writing and reading a Digest header\<close>

fun fmt_params :: "(string \<times> string) list \<Rightarrow> string" where
  "fmt_params [] = []"
| "fmt_params [(k, v)] = k @ ''='' @ [quote] @ v @ [quote]"
| "fmt_params ((k, v) # kvs) = k @ ''='' @ [quote] @ v @ [quote] @ '', '' @ fmt_params kvs"

definition kv_ok :: "string \<times> string \<Rightarrow> bool" where
  "kv_ok kv \<longleftrightarrow> fst kv \<noteq> [] \<and> list_all is_key_char (fst kv) \<and> quote \<notin> set (snd kv)"

lemma match_param_quoted:
  assumes "kv_ok (k, v)"
  shows "match_param (k @ ''='' @ [quote] @ v @ [quote] @ rest) = Some ((k, v, []), rest)"
proof -
  have k: "k \<noteq> []" "list_all is_key_char k" and v: "list_all (\<lambda>c. c \<noteq> quote) v"
    using assms by (auto simp: kv_ok_def list_all_iff)
  have eq: "\<not> is_key_char (CHR ''='')" "\<not> is_re_space (CHR ''='')" "\<not> is_re_space quote"
    by code_simp+
  have v': "takeWhile (\<lambda>c. c \<noteq> quote) (v @ quote # rest) = v"
    "dropWhile (\<lambda>c. c \<noteq> quote) (v @ quote # rest) = quote # rest"
    using v by (simp_all add: takeWhile_stop dropWhile_stop)
  show ?thesis
    using k eq v' by (simp add: match_param_def takeWhile_stop dropWhile_stop match_value_def)
qed

lemma find_params_separator: "find_params ('', '' @ s) = find_params s"
proof -
  have "match_param ('', '' @ s) = None" "match_param ('' '' @ s) = None"
    by (simp_all add: match_param_def is_key_char_def)
  then show ?thesis by (simp add: find_params.simps[of "CHR '','' # CHR '' '' # s"] find_params.simps[of "CHR '' '' # s"])
qed

lemma find_params_fmt:
  "list_all kv_ok kvs \<Longrightarrow> find_params (fmt_params kvs) = map (\<lambda>(k, v). (k, v, [])) kvs"
proof (induction kvs rule: fmt_params.induct)
  case 1
  show ?case by (subst find_params.simps) (simp add: match_param_def)
next
  case (2 k v)
  have "find_params [] = []" by (subst find_params.simps) (simp add: match_param_def)
  with 2 match_param_quoted[of k v "[]"] show ?case by (subst find_params.simps) simp
next
  case (3 k v x xs)
  have "find_params (fmt_params ((k, v) # x # xs)) =
      (k, v, []) # find_params ('', '' @ fmt_params (x # xs))"
    using match_param_quoted[of k v "'', '' @ fmt_params (x # xs)"] 3(2)
    by (subst find_params.simps) simp
  with 3 show ?case by (simp only: find_params_separator) simp
qed

lemma fmt_params_ends:
  assumes "list_all kv_ok kvs" "kvs \<noteq> []"
  shows "fmt_params kvs \<noteq> [] \<and> is_key_char (hd (fmt_params kvs)) \<and> last (fmt_params kvs) = quote"
  using assms
proof (induction kvs rule: fmt_params.induct)
  case (3 k v x xs)
  then show ?case by (cases k) (auto simp: kv_ok_def)
qed (auto simp: kv_ok_def list_all_iff)

lemma key_char_not_space: "is_key_char c \<Longrightarrow> \<not> is_space c"
  by (auto simp: is_key_char_def is_space_def Let_def)

lemma quote_not_space: "\<not> is_space quote"
  by code_simp

text \<open>Reading a header that was written with distinct lower-case keys gives its parameters back.\<close>

lemma parse_digest_fmt:
  assumes "list_all kv_ok kvs" "kvs \<noteq> []" "\<forall>kv \<in> set kvs. to_lower (fst kv) = fst kv"
  shows "parse_digest (''Digest '' @ fmt_params kvs) = Some (\<lambda>k. map_of (rev kvs) k)"
proof -
  let ?h = "''Digest '' @ fmt_params kvs"
  note ends = fmt_params_ends[OF assms(1,2)]
  have h: "trim_space ?h = ?h"
    unfolding trim_space_def
    by (rule trim_set_ends) (use ends in \<open>auto simp: is_space_def quote_not_space\<close>)
  have f: "trim_space (fmt_params kvs) = fmt_params kvs"
    unfolding trim_space_def
    by (rule trim_set_ends) (use ends key_char_not_space quote_not_space in auto)
  have "to_lower ''Digest '' = ''digest ''" by code_simp
  then have "has_prefix (to_lower ?h) ''digest ''"
    by (simp add: has_prefix_def to_lower_def)
  moreover have "drop 7 ?h = fmt_params kvs" by simp
  moreover have "fold (\<lambda>(k, q, u) m. m(to_lower k \<mapsto> if q = [] then u else q))
      (map (\<lambda>(k, v). (k, v, [])) kvs) m = m ++ map_of (rev kvs)" for m
    using assms(3)
    by (induction kvs arbitrary: m) (auto simp: map_add_def fun_eq_iff split: option.split)
  ultimately show ?thesis
    using h f assms(2) by (simp add: parse_digest_def Let_def find_params_fmt[OF assms(1)])
qed

subsection \<open>Digest authentication\<close>

definition ha1 :: "prims \<Rightarrow> credentials \<Rightarrow> string \<Rightarrow> string" where
  "ha1 pr cred realm = md5_hex pr (colons [c_user cred, realm, c_pass cred])"

definition ha2 :: "prims \<Rightarrow> string \<Rightarrow> string \<Rightarrow> string" where
  "ha2 pr meth uri = md5_hex pr (colons [meth, uri])"

lemma try_candidates_sound:
  "try_candidates pr meth h d us = (AuthSuccess, r) \<Longrightarrow> \<exists>u \<in> set us.
     d_response d = legacy_response pr h (d_nonce d) (ha2 pr meth u) \<or>
     (d_qop d = ''auth'' \<or> d_qop d = ''auth-int'') \<and>
     d_response d = qop_response pr h (d_nonce d) (d_nc d) (d_cnonce d) (d_qop d) (ha2 pr meth u)"
  by (induction us) (auto simp: Let_def ha2_def split: if_splits)

lemma try_candidates_hit:
  assumes "u \<in> set us" "d_qop d = ''auth''"
    and "d_response d = qop_response pr h (d_nonce d) (d_nc d) (d_cnonce d) ''auth'' (ha2 pr meth u)"
  shows "try_candidates pr meth h d us = (AuthSuccess, NoReason)"
  using assms by (induction us) (auto simp: Let_def ha2_def)

text \<open>
  C13. With a user name configured, a Digest header is accepted only if it names that user,
  carries a nonce that the server accepts now and a URI that targets the request, and its
  response is the hash, with or without a quality of protection, of the configured
  credentials, that nonce, the method and one of the request's URI forms.
\<close>

theorem digest_sound:
  assumes "validate_digest pr meth req host header cred realm (Some m) now = (AuthSuccess, r)"
    and "c_user cred \<noteq> []"
  shows "\<exists>ps u. parse_digest header = Some ps \<and> param ps ''username'' = c_user cred \<and>
    nonce_validate pr m now (param ps ''nonce'') = AuthSuccess \<and>
    is_uri_match pr (param ps ''uri'') req \<and>
    u \<in> set (uri_candidates pr (param ps ''uri'') req host) \<and>
    (to_lower (param ps ''response'') =
       legacy_response pr (ha1 pr cred realm) (param ps ''nonce'') (ha2 pr meth u) \<or>
     (to_lower (param ps ''qop'') = ''auth'' \<or> to_lower (param ps ''qop'') = ''auth-int'') \<and>
     to_lower (param ps ''response'') =
       qop_response pr (ha1 pr cred realm) (param ps ''nonce'') (param ps ''nc'') (param ps ''cnonce'')
         (to_lower (param ps ''qop'')) (ha2 pr meth u))"
proof -
  obtain ps where ps: "parse_digest header = Some ps"
    using assms by (auto simp: validate_digest_def split: option.splits)
  let ?r = "case ps ''realm'' of Some r \<Rightarrow> r | None \<Rightarrow> []"
  let ?d = "\<lparr>d_nonce = param ps ''nonce'', d_nc = param ps ''nc'', d_cnonce = param ps ''cnonce'',
     d_qop = to_lower (param ps ''qop''), d_response = to_lower (param ps ''response'')\<rparr>"
  let ?h = "md5_hex pr (colons [c_user cred, if ?r \<noteq> [] then trim_quotes ?r else realm, c_pass cred])"
  have ok: "param ps ''username'' = c_user cred" "?r \<noteq> [] \<longrightarrow> trim_quotes ?r = realm"
    "nonce_validate pr m now (param ps ''nonce'') = AuthSuccess"
    "is_uri_match pr (param ps ''uri'') req"
    and trial: "try_candidates pr meth ?h ?d (uri_candidates pr (param ps ''uri'') req host) = (AuthSuccess, r)"
    using assms(1) unfolding validate_digest_def if_not_P[OF assms(2)] ps
    by (simp_all add: Let_def del: not_None_eq split: if_splits)
  have "?h = ha1 pr cred realm" using ok(2) by (simp add: ha1_def)
  then show ?thesis using try_candidates_sound[OF trial] ps ok by auto
qed

text \<open>What a client with the credentials sends, answering a challenge with quality of protection.\<close>

definition client_params ::
  "prims \<Rightarrow> string \<Rightarrow> string \<Rightarrow> credentials \<Rightarrow> string \<Rightarrow> string \<Rightarrow> string \<Rightarrow> string \<Rightarrow> (string \<times> string) list" where
  "client_params pr meth uri cred realm nonce nc cnonce =
     [(''username'', c_user cred), (''realm'', realm), (''nonce'', nonce), (''uri'', uri),
      (''qop'', ''auth''), (''nc'', nc), (''cnonce'', cnonce),
      (''response'', qop_response pr (ha1 pr cred realm) nonce nc cnonce ''auth'' (ha2 pr meth uri))]"

lemma hex_bytes_lower: "to_lower (hex_of_bytes bs) = hex_of_bytes bs"
proof -
  have "lower_char (hex_char n) = hex_char n" if "n < 16" for n
    using that by (auto simp: lower_char_def hex_char_def Let_def)
  moreover have "unat b div 16 < 16" for b :: byte using unsigned_less[where 'a = nat, of b] by auto
  ultimately show ?thesis by (induction bs) (simp_all add: to_lower_def hex_of_bytes_def)
qed

lemma hex_bytes_digits: "c \<in> set (hex_of_bytes bs) \<Longrightarrow> \<exists>k < 16. c = hex_char k"
proof (induction bs)
  case (Cons b bs)
  have "unat b div 16 < 16" "unat b mod 16 < 16" using unsigned_less[where 'a = nat, of b] by auto
  moreover have "c = hex_char (unat b div 16) \<or> c = hex_char (unat b mod 16) \<or> c \<in> set (hex_of_bytes bs)"
    using Cons.prems by (simp add: hex_of_bytes_def)
  ultimately show ?case using Cons.IH by blast
qed (simp add: hex_of_bytes_def)

lemma hex_char_no_quote: "n < 16 \<Longrightarrow> hex_char n \<noteq> quote"
  using hex_value_char[of n] by (auto simp: hex_value_def)

lemma hex_bytes_no_quote: "quote \<notin> set (hex_of_bytes bs)"
  using hex_bytes_digits hex_char_no_quote by metis

lemma hex_nat_no_quote: "quote \<notin> set (hex_of_nat k)"
  using hex_of_nat_digits hex_char_no_quote by metis

lemma trim_quotes_none: "quote \<notin> set s \<Longrightarrow> trim_quotes s = s"
  unfolding trim_quotes_def by (rule trim_set_none) auto

lemma fold_add_uri_keeps: "u \<in> set us \<Longrightarrow> u \<in> set (fold add_uri vs us)"
  by (induction vs arbitrary: us) (auto simp: add_uri_def Let_def)

lemma uri_candidates_client: "trim_space uri = uri \<Longrightarrow> uri \<noteq> [] \<Longrightarrow> uri \<in> set (uri_candidates pr uri req host)"
proof -
  assume "trim_space uri = uri" "uri \<noteq> []"
  then have add: "add_uri uri [] = [uri]" by (simp add: add_uri_def)
  show ?thesis
    unfolding uri_candidates_def Let_def fold_Cons o_apply add by (rule fold_add_uri_keeps) simp
qed

text \<open>The characters a client may put between quotes, and a URI without outer blanks.\<close>

definition plain_text :: "string \<Rightarrow> bool" where
  "plain_text s \<longleftrightarrow> quote \<notin> set s"

lemma client_param:
  assumes "p = (\<lambda>k. map_of (rev (client_params pr meth uri cred realm nonce nc cnonce)) k)"
    and "plain_text (c_user cred)" "plain_text realm" "plain_text nonce" "plain_text uri"
      "plain_text nc" "plain_text cnonce"
  shows "param p ''username'' = c_user cred" "p ''realm'' = Some realm" "p ''algorithm'' = None"
    "param p ''nonce'' = nonce" "param p ''uri'' = uri" "param p ''qop'' = ''auth''"
    "param p ''nc'' = nc" "param p ''cnonce'' = cnonce"
    "param p ''response'' = qop_response pr (ha1 pr cred realm) nonce nc cnonce ''auth'' (ha2 pr meth uri)"
proof -
  have "quote \<notin> set (qop_response pr h n c cn q h')" for h n c cn q h'
    by (simp add: qop_response_def md5_hex_def hex_bytes_no_quote)
  moreover have "quote \<notin> set ''auth''" by simp
  ultimately show "param p ''username'' = c_user cred" "p ''realm'' = Some realm"
    "p ''algorithm'' = None" "param p ''nonce'' = nonce" "param p ''uri'' = uri"
    "param p ''qop'' = ''auth''" "param p ''nc'' = nc" "param p ''cnonce'' = cnonce"
    "param p ''response'' = qop_response pr (ha1 pr cred realm) nonce nc cnonce ''auth'' (ha2 pr meth uri)"
    using assms(2-) unfolding assms(1) client_params_def plain_text_def
    by (simp_all add: param_def trim_quotes_none)
qed

lemma client_header_parsed:
  assumes "plain_text (c_user cred)" "plain_text realm" "plain_text nonce" "plain_text uri"
      "plain_text nc" "plain_text cnonce"
  shows "parse_digest (''Digest '' @ fmt_params (client_params pr meth uri cred realm nonce nc cnonce)) =
    Some (\<lambda>k. map_of (rev (client_params pr meth uri cred realm nonce nc cnonce)) k)"
proof (rule parse_digest_fmt)
  let ?keys = "[''username'', ''realm'', ''nonce'', ''uri'', ''qop'', ''nc'', ''cnonce'', ''response'']"
  have keys: "list_all (\<lambda>k. k \<noteq> [] \<and> list_all is_key_char k \<and> to_lower k = k) ?keys" by code_simp
  have fst: "map fst (client_params pr meth uri cred realm nonce nc cnonce) = ?keys"
    by (simp add: client_params_def)
  have resp: "quote \<notin> set (qop_response pr h n c cn q h')" for h n c cn q h'
    by (simp add: qop_response_def md5_hex_def hex_bytes_no_quote)
  have "list_all (\<lambda>kv. quote \<notin> set (snd kv)) (client_params pr meth uri cred realm nonce nc cnonce)"
    using assms by (simp add: client_params_def plain_text_def resp)
  moreover have all: "list_all (\<lambda>kv. fst kv \<noteq> [] \<and> list_all is_key_char (fst kv) \<and> to_lower (fst kv) = fst kv)
      (client_params pr meth uri cred realm nonce nc cnonce)"
    using keys unfolding fst[symmetric] by (simp add: list.pred_map comp_def)
  ultimately show "list_all kv_ok (client_params pr meth uri cred realm nonce nc cnonce)"
    by (auto simp: list_all_iff kv_ok_def)
  show "\<forall>kv \<in> set (client_params pr meth uri cred realm nonce nc cnonce). to_lower (fst kv) = fst kv"
    using all by (simp add: list_all_iff)
qed (simp add: client_params_def)

lemma client_accepted:
  assumes "prims_ok pr" "length salt = 4"
    and "62135596800 * 1000000000 \<le> made" "made \<le> now"
    and "now - made div 1000000000 * 1000000000 \<le> nm_ttl m" "nm_ttl m < 2 ^ 62"
    and "now < 62135596800 * 1000000000 + 2 ^ 63"
    and "c_user cred \<noteq> []" "plain_text (c_user cred)" "plain_text realm" "realm \<noteq> []"
    and "uri \<noteq> []" "plain_text uri" "trim_space uri = uri" "plain_text nc" "plain_text cnonce"
  shows "validate_digest pr meth uri host
    (''Digest '' @ fmt_params (client_params pr meth uri cred realm (nonce_generate pr m made salt) nc cnonce))
    cred realm (Some m) now = (AuthSuccess, NoReason)"
proof -
  let ?n = "nonce_generate pr m made salt"
  let ?p = "\<lambda>k. map_of (rev (client_params pr meth uri cred realm ?n nc cnonce)) k"
  have n: "plain_text ?n"
    by (simp add: hex_nat_no_quote plain_text_def nonce_generate_def hex_bytes_no_quote hex_of_int_def)
  note parsed = client_header_parsed[OF assms(9,10) n assms(13,15,16), of pr meth]
  note p = client_param[OF refl assms(9,10) n assms(13,15,16), of pr meth]
  have valid: "nonce_validate pr m now ?n = AuthSuccess"
    using nonce_age[OF assms(1-4,7), of m] assms(5) by simp
  have low: "to_lower (qop_response pr h k c cn q h') = qop_response pr h k c cn q h'" for h k c cn q h'
    by (simp add: qop_response_def md5_hex_def hex_bytes_lower)
  have auth: "to_lower ''auth'' = ''auth''" by code_simp
  have realm: "trim_quotes realm = realm" using assms(10) by (simp add: plain_text_def trim_quotes_none)
  let ?d = "\<lparr>d_nonce = ?n, d_nc = nc, d_cnonce = cnonce, d_qop = ''auth'',
     d_response = qop_response pr (ha1 pr cred realm) ?n nc cnonce ''auth'' (ha2 pr meth uri)\<rparr>"
  have trial: "try_candidates pr meth (ha1 pr cred realm) ?d (uri_candidates pr uri uri host)
      = (AuthSuccess, NoReason)"
    by (rule try_candidates_hit[OF uri_candidates_client]) (use assms(12,14) in simp_all)
  show ?thesis
    unfolding validate_digest_def if_not_P[OF assms(8)] parsed
    using trial by (simp add: p low auth realm valid assms(11,12) is_uri_match_def ha1_def Let_def)
qed

text \<open>
  C14. A client that knows the credentials is let in: a header that answers a challenge of the
  server, for the path it requests, is accepted for as long as the nonce lives.
\<close>

theorem digest_client_accepted:
  assumes "prims_ok pr" "length salt = 4"
    and "62135596800 * 1000000000 \<le> made" "made \<le> now"
    and "now - made div 1000000000 * 1000000000 \<le> nm_ttl m" "nm_ttl m < 2 ^ 62"
    and "now < 62135596800 * 1000000000 + 2 ^ 63"
    and "c_user cred \<noteq> []" "plain_text (c_user cred)" "plain_text realm" "realm \<noteq> []"
    and "uri \<noteq> []" "plain_text uri" "trim_space uri = uri" "plain_text nc" "plain_text cnonce"
  shows "validate_digest pr meth uri host
    (''Digest '' @ fmt_params (client_params pr meth uri cred realm (nonce_generate pr m made salt) nc cnonce))
    cred realm (Some m) now = (AuthSuccess, NoReason)"
  using assms by (rule client_accepted)

theorem digest_client_accepted_witness:
  "validate_digest toy_prims ''POST'' ''/onvif/device_service'' ''cam:8000''
     (''Digest '' @ fmt_params (client_params toy_prims ''POST'' ''/onvif/device_service''
        \<lparr>c_user = ''admin'', c_pass = ''pw''\<rparr> ''bridge''
        (nonce_generate toy_prims toy_manager (62135596800 * 1000000000) [9, 9, 9, 9]) ''1'' ''c''))
     \<lparr>c_user = ''admin'', c_pass = ''pw''\<rparr> ''bridge'' (Some toy_manager)
     (62135596800 * 1000000000 + 5) = (AuthSuccess, NoReason)"
proof -
  have "trim_space ''/onvif/device_service'' = ''/onvif/device_service''" by code_simp
  then show ?thesis
    by (intro digest_client_accepted[OF toy_prims_ok]) (simp_all add: toy_manager_def plain_text_def)
qed

theorem digest_sound_witness:
  "\<exists>ps. parse_digest (''Digest '' @ fmt_params (client_params toy_prims ''POST'' ''/onvif/device_service''
        \<lparr>c_user = ''admin'', c_pass = ''pw''\<rparr> ''bridge''
        (nonce_generate toy_prims toy_manager (62135596800 * 1000000000) [9, 9, 9, 9]) ''1'' ''c'')) = Some ps \<and>
     param ps ''username'' = ''admin''"
proof -
  have "validate_digest toy_prims ''POST'' ''/onvif/device_service'' ''cam:8000''
     (''Digest '' @ fmt_params (client_params toy_prims ''POST'' ''/onvif/device_service''
        \<lparr>c_user = ''admin'', c_pass = ''pw''\<rparr> ''bridge''
        (nonce_generate toy_prims toy_manager (62135596800 * 1000000000) [9, 9, 9, 9]) ''1'' ''c''))
     \<lparr>c_user = ''admin'', c_pass = ''pw''\<rparr> ''bridge'' (Some toy_manager)
     (62135596800 * 1000000000 + 5) = (AuthSuccess, NoReason)"
  proof -
    have "trim_space ''/onvif/device_service'' = ''/onvif/device_service''" by code_simp
    then show ?thesis
      by (intro client_accepted[OF toy_prims_ok]) (simp_all add: toy_manager_def plain_text_def)
  qed
  from digest_sound[OF this] show ?thesis by auto
qed

subsection \<open>WS-Security\<close>

lemma b64_alphabet_value: "v < 64 \<Longrightarrow> b64_value (b64_alphabet ! v) = Some (word_of_nat v)"
proof -
  assume "v < 64"
  have "list_all (\<lambda>v. b64_value (b64_alphabet ! v) = Some (word_of_nat v)) [0..<64]" by code_simp
  then show ?thesis using \<open>v < 64\<close> by (simp add: list_all_iff del: upt_rec_numeral)
qed

lemma b64_index_less: "unat (take_bit 6 (v :: byte)) < 64"
  using take_bit_nat_less_exp[of 6 "unat v"] by (simp add: unsigned_take_bit_eq)

lemma b64_value_char: "b64_value (b64_char v) = Some (take_bit 6 v)"
  using b64_alphabet_value[OF b64_index_less, of v] by (simp add: b64_char_def)

lemma b64_char_in_alphabet: "b64_char v \<in> set b64_alphabet"
  using b64_value_char[of v] by (auto simp: b64_value_def split: if_splits)

lemma alphabet_plain: "c \<in> set b64_alphabet \<Longrightarrow> c \<noteq> CHR ''='' \<and> of_char c \<noteq> (10 :: nat) \<and> of_char c \<noteq> (13 :: nat) \<and> \<not> is_space c"
proof -
  have "list_all (\<lambda>c. c \<noteq> CHR ''='' \<and> of_char c \<noteq> (10 :: nat) \<and> of_char c \<noteq> (13 :: nat) \<and> \<not> is_space c) b64_alphabet"
    by code_simp
  then show "c \<in> set b64_alphabet \<Longrightarrow> ?thesis" by (simp add: list_all_iff)
qed

lemmas b64_char_plain = alphabet_plain[OF b64_char_in_alphabet]

lemma byte_eqI:
  fixes x y :: byte
  assumes "bit x 0 = bit y 0" "bit x 1 = bit y 1" "bit x 2 = bit y 2" "bit x 3 = bit y 3"
    "bit x 4 = bit y 4" "bit x 5 = bit y 5" "bit x 6 = bit y 6" "bit x 7 = bit y 7"
  shows "x = y"
proof (rule bit_word_eqI)
  fix n assume "n < LENGTH(8)"
  then have "n \<in> {0, 1, 2, 3, 4, 5, 6, 7}" by auto
  then show "bit x n = bit y n" using assms by auto
qed

lemma byte_high_bits: "8 \<le> n \<Longrightarrow> \<not> bit (x :: byte) n"
  using bit_imp_le_length[of x n] by auto

lemma b64_bytes:
  fixes a b c :: byte
  defines "v1 \<equiv> take_bit 6 (push_bit 4 (a AND 3) OR drop_bit 4 b)"
    and "v2 \<equiv> take_bit 6 (push_bit 2 (b AND 15) OR drop_bit 6 c)"
  shows "push_bit 2 (take_bit 6 (drop_bit 2 a)) OR drop_bit 4 v1 = a"
    and "push_bit 4 v1 OR drop_bit 2 v2 = b"
    and "push_bit 6 v2 OR take_bit 6 (c AND 63) = c"
  unfolding v1_def v2_def
  by (rule byte_eqI; simp add: bit_simps byte_high_bits bit_numeral_rec)+

lemma trim_set_idem: "trim_set p (trim_set p s) = trim_set p s"
proof (cases "trim_set p s = []")
  case False
  let ?d = "dropWhile p s" and ?t = "trim_set p s"
  have t: "?t = rev (dropWhile p (rev ?d))" by (simp add: trim_set_def)
  have "dropWhile p (rev ?d) \<noteq> []" using False t by (metis rev.simps(1))
  then have last: "\<not> p (last ?t)" using t hd_dropWhile by (metis last_rev)
  have d: "?d \<noteq> []" using False t by (metis dropWhile.simps(1) rev.simps(1))
  obtain ys where "?d = ?t @ ys"
    using takeWhile_dropWhile_id[of p "rev ?d"] t by (metis rev_append rev_rev_ident)
  then have "hd ?t = hd ?d" using False by (metis hd_append2)
  then show ?thesis using False last hd_dropWhile[OF d] by (intro trim_set_ends) simp_all
next
  case True
  have "trim_set p [] = []" by (simp add: trim_set_def)
  then show ?thesis unfolding True .
qed

lemma b64_groups_encode: "b64_groups (b64_encode bs) = Some bs"
proof (induction bs rule: b64_encode.induct)
  case (2 a)
  then show ?case using b64_bytes(1)[of a 0] b64_char_plain by (simp add: b64_value_char)
next
  case (3 a b)
  then show ?case using b64_bytes(1)[of a b] b64_bytes(2)[of a b 0] b64_char_plain
    by (simp add: b64_value_char)
next
  case (4 a b c bs)
  then show ?case using b64_bytes(1)[of a b] b64_bytes(2)[of a b c] b64_bytes(3)[where b = b and c = c] b64_char_plain by (simp add: b64_value_char)
qed simp

lemma b64_encode_chars: "c \<in> set (b64_encode bs) \<Longrightarrow> c = CHR ''='' \<or> c \<in> set b64_alphabet"
  by (induction bs rule: b64_encode.induct) (auto simp: b64_char_in_alphabet)

lemma b64_encode_plain: "c \<in> set (b64_encode bs) \<Longrightarrow>
    of_char c \<noteq> (10 :: nat) \<and> of_char c \<noteq> (13 :: nat) \<and> \<not> is_space c"
  using b64_encode_chars[of c bs] alphabet_plain[of c] by (auto simp: is_space_def)

lemma b64_decode_encode: "b64_decode (b64_encode bs) = Some bs"
proof -
  have "filter (\<lambda>c. of_char c \<noteq> (10 :: nat) \<and> of_char c \<noteq> (13 :: nat)) (b64_encode bs) = b64_encode bs"
    using b64_encode_plain by (simp add: filter_id_conv)
  then show ?thesis by (simp add: b64_decode_def b64_groups_encode)
qed

lemma trim_space_b64: "trim_space (b64_encode bs) = b64_encode bs"
  unfolding trim_space_def by (rule trim_set_none) (use b64_encode_plain in blast)

definition password_digest :: string where
  "password_digest = ''http://docs.oasis-open.org/wss/2004/01/oasis-200401-wss-username-token-profile-1.0#PasswordDigest''"

definition client_token :: "prims \<Rightarrow> credentials \<Rightarrow> bytes \<Rightarrow> string \<Rightarrow> username_token" where
  "client_token pr cred nonce created =
     \<lparr>t_username = c_user cred, t_password_type = password_digest,
      t_password = b64_encode (sha1 pr (nonce @ bytes_of created @ bytes_of (c_pass cred))),
      t_nonce = b64_encode nonce, t_created = created\<rparr>"

text \<open>
  A WS-Security token that a client computes from the credentials, a nonce and a creation
  time is accepted, whatever bytes the nonce has; a token with another user name or another
  digest is not, and neither is a request without a token.
\<close>

theorem ws_security_client:
  assumes "c_user cred \<noteq> []" "trim_space (c_user cred) = c_user cred" "trim_space created = created"
  shows "validate_ws_security pr (Some (client_token pr cred nonce created)) cred \<and>
    (\<forall>t. validate_ws_security pr (Some t) cred \<longrightarrow> trim_space (t_username t) = c_user cred) \<and>
    (\<forall>w. validate_ws_security pr (Some ((client_token pr cred nonce created)\<lparr>t_password := w\<rparr>)) cred \<longrightarrow>
       trim_space w = ws_digest pr nonce created (c_pass cred)) \<and>
    \<not> validate_ws_security pr None cred"
proof -
  have t: "contains (trim_space password_digest) ''PasswordDigest''" by code_simp
  show ?thesis
    using assms t
    by (auto simp: validate_ws_security_def client_token_def ws_digest_def trim_space_b64
        b64_decode_encode Let_def split: if_splits)
qed

theorem ws_security_client_witness:
  "validate_ws_security toy_prims
     (Some (client_token toy_prims \<lparr>c_user = ''admin'', c_pass = ''pw''\<rparr> [1, 2] ''2024''))
     \<lparr>c_user = ''admin'', c_pass = ''pw''\<rparr>"
proof -
  have "trim_space ''admin'' = ''admin''" "trim_space ''2024'' = ''2024''" by code_simp+
  then show ?thesis
    using ws_security_client[of "\<lparr>c_user = ''admin'', c_pass = ''pw''\<rparr>" "''2024''" toy_prims "[1, 2]"] by simp
qed

text \<open>
  A configured password that begins or ends with a blank can never be given in plain text
  in a WS-Security token: the token's password is trimmed, the configured one is not.
\<close>

theorem ws_plain_password_with_blanks:
  assumes "c_user cred \<noteq> []" "trim_space (c_pass cred) \<noteq> c_pass cred"
    and "\<not> contains (trim_space (t_password_type t)) ''PasswordDigest''"
  shows "\<not> validate_ws_security pr (Some t) cred"
proof -
  have "trim_space (trim_space s) = trim_space s" for s
    unfolding trim_space_def by (rule trim_set_idem)
  then have "trim_space (t_password t) \<noteq> c_pass cred" using assms(2) by metis
  then show ?thesis using assms(1,3) by (simp add: validate_ws_security_def)
qed

theorem ws_plain_password_with_blanks_witness:
  "\<not> validate_ws_security toy_prims
     (Some \<lparr>t_username = ''admin'', t_password_type = [], t_password = ''pw '', t_nonce = [], t_created = []\<rparr>)
     \<lparr>c_user = ''admin'', c_pass = ''pw ''\<rparr>"
proof -
  have "trim_space ''pw '' \<noteq> ''pw ''" "\<not> contains (trim_space []) ''PasswordDigest''" by code_simp+
  then show ?thesis by (intro ws_plain_password_with_blanks) simp_all
qed
end
