(* ===== verification/Mcu_Protocol.thy ===== *)
theory Mcu_Protocol
  imports Onvif_Auth_Proofs
begin

text \<open>
  The two languages of the camera's microcontroller: frames of 18 bytes and commands with a
  checksum, in base64 (\<^verbatim>\<open>pkg/mcu/mcu.go\<close>), and strings of letters between B and U
  (\<^verbatim>\<open>pkg/xiongmai/mcu.go\<close>).
\<close>

subsection \<open>Frames\<close>

record mcu_config =
  h_version :: string
  s_version :: string
  mode :: int
  lux_value :: int
  pir_on :: bool
  motion_detected :: bool
  photo_detection :: bool
  pir_sens :: int
  color_temperature :: int
  high_light :: int
  high_light_time :: int
  low_light :: int
  low_light_time :: int

text \<open>A short frame is an acknowledgement and no error.\<close>

datatype frame_result = FrameAck | FrameInvalid | FrameConfig mcu_config

definition slice :: "nat \<Rightarrow> nat \<Rightarrow> 'a list \<Rightarrow> 'a list" where
  "slice i j xs = take (j - i) (drop i xs)"

definition parse_hex_int :: "string \<Rightarrow> int" where
  "parse_hex_int s = (case parse_hex64 s of Some v \<Rightarrow> v | None \<Rightarrow> 0)"

definition parse_frame :: "string \<Rightarrow> frame_result" where
  "parse_frame raw =
     (let s = to_lower (trim_space raw) in
      if length s \<noteq> 36 \<or> \<not> has_prefix s ''5a0f0f'' then
        (if has_prefix s ''5a'' \<and> length s < 36 then FrameAck else FrameInvalid)
      else
        let b = slice 6 34 s; flags = parse_hex_int (slice 11 12 b) in
        FrameConfig \<lparr>h_version = slice 0 2 b, s_version = slice 2 4 b,
          mode = parse_hex_int (slice 4 6 b), lux_value = parse_hex_int (slice 6 10 b),
          pir_on = (slice 10 11 b = ''1''),
          motion_detected = (flags AND 1 \<noteq> 0), photo_detection = (flags AND 2 \<noteq> 0),
          pir_sens = parse_hex_int (slice 12 14 b), color_temperature = parse_hex_int (slice 14 16 b),
          high_light = parse_hex_int (slice 16 18 b), high_light_time = parse_hex_int (slice 18 22 b),
          low_light = parse_hex_int (slice 22 24 b), low_light_time = parse_hex_int (slice 24 28 b)\<rparr>)"

definition parse_base64_data :: "string \<Rightarrow> frame_result" where
  "parse_base64_data s =
     (case b64_decode s of None \<Rightarrow> FrameInvalid | Some bs \<Rightarrow> parse_frame (hex_of_bytes bs))"

subsection \<open>Commands\<close>

definition checksum :: "bytes \<Rightarrow> byte" where
  "checksum bs = fold (\<lambda>b s. s + b) bs 0"

text \<open>None is the error of \<^verbatim>\<open>hex.DecodeString\<close>.\<close>

definition build_command :: "string \<Rightarrow> string option" where
  "build_command payload =
     map_option (\<lambda>raw. b64_encode (raw @ [checksum raw])) (hex_decode payload)"

text \<open>\<^verbatim>\<open>%02X\<close> and \<^verbatim>\<open>%04X\<close>: padded with zeros behind the sign.\<close>

definition hex_padded :: "nat \<Rightarrow> int \<Rightarrow> string" where
  "hex_padded w i =
     (let ds = to_upper (hex_of_nat (nat \<bar>i\<bar>)); sign = (if i < 0 then ''-'' else [])
      in sign @ replicate (w - length sign - length ds) (CHR ''0'') @ ds)"

definition clamp :: "int \<Rightarrow> int \<Rightarrow> int \<Rightarrow> int" where
  "clamp lo hi v = (if v < lo then lo else if v > hi then hi else v)"

definition build_set_mode :: "int \<Rightarrow> string option" where
  "build_set_mode m = (if m < 0 \<or> m > 2 then None else build_command (''5A0201'' @ hex_padded 2 m))"

definition build_set_highlight :: "int \<Rightarrow> string option" where
  "build_set_highlight p = build_command (''5A0207'' @ hex_padded 2 (clamp 0 100 p))"

definition build_set_highlight_time :: "int \<Rightarrow> string option" where
  "build_set_highlight_time s = build_command (''5A0308'' @ hex_padded 4 (clamp 5 900 s))"

definition build_set_lowlight :: "int \<Rightarrow> string option" where
  "build_set_lowlight p = build_command (''5A020A'' @ hex_padded 2 (clamp 0 50 p))"

definition build_set_lowlight_time :: "int \<Rightarrow> string option" where
  "build_set_lowlight_time t = build_command (''5A030B'' @ hex_padded 4 t)"

definition build_set_pir_sensitivity :: "int \<Rightarrow> string option" where
  "build_set_pir_sensitivity p = build_command (''5A0206'' @ hex_padded 2 (clamp 0 100 p))"

definition build_set_lux_threshold :: "int \<Rightarrow> string option" where
  "build_set_lux_threshold l = build_command (''5A0304'' @ hex_padded 4 (clamp 2 10000 l))"

subsection \<open>The letters of the L 620\<close>

definition conversion :: "char \<Rightarrow> int" where
  "conversion c = (let n = of_char c :: int in
     if 97 \<le> n \<and> n \<le> 122 then n - 97 else if 65 \<le> n \<and> n \<le> 90 then n - 65 else 0)"

definition char_conversion :: "int \<Rightarrow> char" where
  "char_conversion v = char_of (nat (clamp 0 25 v + 97))"

definition lux_table :: "int list" where
  "lux_table = [2, 3, 5, 7, 10, 18, 30, 38, 50, 58, 70, 85, 100,
     125, 150, 175, 200, 250, 300, 400, 500, 750, 1000, 1300, 1600, 2000]"

definition map_lux_value :: "int \<Rightarrow> int" where
  "map_lux_value conv = lux_table ! nat (clamp 0 25 (25 - conv))"

datatype duration = AllNight | Hours int

record xm_config =
  distance :: int
  highlight_delay :: int
  twilight_lux :: int
  xm_mode :: int
  indicator :: int
  xm_lowlight :: int
  xm_highlight :: int
  lowlight_duration :: duration
  sensitivity_level :: int
  raw_string :: string

definition distance_of :: "int \<Rightarrow> int" where
  "distance_of v = (if v \<ge> 20 then 10 else if v \<ge> 15 then 6 else 3)"

definition lowlight_of :: "int \<Rightarrow> int" where
  "lowlight_of v =
     (if v = 0 then 0
      else let prog = (if v - 6 < 0 then 0 else v - 6); l = go_div (prog * 30) 19 + 10 in
        if l > 50 then 50 else l)"

definition highlight_of :: "int \<Rightarrow> int" where
  "highlight_of v = (if v \<le> 7 then 30 else if v * 4 > 100 then 100 else v * 4)"

definition parse_mcu_string :: "string \<Rightarrow> xm_config option" where
  "parse_mcu_string raw =
     (let s = trim_space raw in
      if \<not> has_prefix s ''B'' \<or> \<not> has_suffix s ''U'' \<or> length s < 11 then None
      else
        let v = (\<lambda>i. conversion (s ! i)) in
        Some \<lparr>distance = distance_of (v 1),
          highlight_delay = (if v 2 * 60 \<le> 0 then 60 else v 2 * 60),
          twilight_lux = map_lux_value (v 3), xm_mode = v 4, indicator = v 5,
          xm_lowlight = lowlight_of (v 6), xm_highlight = highlight_of (v 7),
          lowlight_duration = (if v 8 = 0 \<or> v 8 \<ge> 20 then AllNight else Hours (go_div (v 8) 2)),
          sensitivity_level = v 9, raw_string = s\<rparr>)"

text \<open>The loop for the nearest entry of the table: index, best index and difference so far.\<close>

fun nearest :: "int \<Rightarrow> int list \<Rightarrow> nat \<Rightarrow> nat \<Rightarrow> int \<Rightarrow> nat" where
  "nearest lux [] i best min_diff = best"
| "nearest lux (v # vs) i best min_diff =
     (if \<bar>v - lux\<bar> < min_diff then nearest lux vs (Suc i) i \<bar>v - lux\<bar>
      else nearest lux vs (Suc i) best min_diff)"

definition xm_command :: "char \<Rightarrow> int \<Rightarrow> string" where
  "xm_command k v = [CHR ''B'', k, char_conversion v, CHR ''U'']"

definition build_set_lux :: "int \<Rightarrow> string" where
  "build_set_lux lux = xm_command (CHR ''X'') (25 - int (nearest lux lux_table 0 0 999999))"

definition build_xm_lowlight :: "int \<Rightarrow> string" where
  "build_xm_lowlight p =
     (if p \<le> 0 then ''BLaU'' else xm_command (CHR ''L'') (clamp 0 19 (go_div (wrap64 ((p - 10) * 19)) 30) + 6))"

definition build_xm_lowlight_duration :: "int \<Rightarrow> string" where
  "build_xm_lowlight_duration d = xm_command (CHR ''S'') d"

definition build_xm_distance :: "int \<Rightarrow> string" where
  "build_xm_distance d = xm_command (CHR ''D'') (if d \<ge> 8 then 20 else if d \<ge> 5 then 15 else 10)"

definition build_xm_highlight :: "int \<Rightarrow> string" where
  "build_xm_highlight p = xm_command (CHR ''H'') (clamp 7 25 (go_div p 4))"

definition build_xm_highlight_delay :: "int \<Rightarrow> string" where
  "build_xm_highlight_delay s =
     xm_command (CHR ''T'') (if go_div s 60 < 1 then 1 else go_div s 60)"

definition build_xm_light_mode :: "bool \<Rightarrow> string" where
  "build_xm_light_mode on = (if on then ''BMdU'' else ''BMbU'')"

definition is_light_on :: "xm_config option \<Rightarrow> bool" where
  "is_light_on c = (case c of None \<Rightarrow> False | Some k \<Rightarrow> xm_mode k = 3)"

end
