(* ===== verification/Xiongmai_Packets.thy ===== *)
theory Xiongmai_Packets
  imports Mcu_Protocol
begin

text \<open>
  The packets of the L 620's control connection (\<^verbatim>\<open>pkg/xiongmai/types.go\<close>), their
  encryption and the password forms (\<^verbatim>\<open>pkg/xiongmai/crypto.go\<close>, the first part of
  \<^verbatim>\<open>pkg/xiongmai/client.go\<close>). The block cipher in CBC mode, MD5, RSA and the JSON
  codec are arguments.
\<close>

subsection \<open>The header\<close>

record header =
  hd_magic :: byte
  hd_channel :: byte
  hd_reserved :: "byte \<times> byte"
  hd_session :: u32
  hd_sequence :: u32
  hd_total :: byte
  hd_current :: byte
  hd_msg :: u16
  hd_length :: u32

definition header_magic :: byte where "header_magic = 0xFF"
definition header_length :: nat where "header_length = 20"

definition encode_header :: "header \<Rightarrow> bytes" where
  "encode_header h =
     [hd_magic h, hd_channel h, fst (hd_reserved h), snd (hd_reserved h)] @ le32 (hd_session h) @
     le32 (hd_sequence h) @ [hd_total h, hd_current h] @ le16 (hd_msg h) @ le32 (hd_length h)"

definition decode_header :: "bytes \<Rightarrow> header option" where
  "decode_header d =
     (if length d < header_length then None
      else if d ! 0 \<noteq> header_magic then None
      else Some \<lparr>hd_magic = d ! 0, hd_channel = d ! 1, hd_reserved = (d ! 2, d ! 3),
        hd_session = of_le32 (d ! 4) (d ! 5) (d ! 6) (d ! 7),
        hd_sequence = of_le32 (d ! 8) (d ! 9) (d ! 10) (d ! 11),
        hd_total = d ! 12, hd_current = d ! 13, hd_msg = of_le16 (d ! 14) (d ! 15),
        hd_length = of_le32 (d ! 16) (d ! 17) (d ! 18) (d ! 19)\<rparr>)"

text \<open>The message numbers.\<close>

definition msg_login_req :: u16 where "msg_login_req = 1000"
definition msg_login_resp :: u16 where "msg_login_resp = 1001"
definition msg_logout_req :: u16 where "msg_logout_req = 1002"
definition msg_logout_resp :: u16 where "msg_logout_resp = 1003"
definition msg_keep_alive_req :: u16 where "msg_keep_alive_req = 1006"
definition msg_config_set_req :: u16 where "msg_config_set_req = 1040"
definition msg_config_get_req :: u16 where "msg_config_get_req = 1042"
definition msg_talk_claim_req :: u16 where "msg_talk_claim_req = 1410"
definition msg_talk_claim_resp :: u16 where "msg_talk_claim_resp = 1411"
definition msg_monitor_claim_req :: u16 where "msg_monitor_claim_req = 1413"
definition msg_monitor_claim_resp :: u16 where "msg_monitor_claim_resp = 1414"
definition msg_talk_audio_data :: u16 where "msg_talk_audio_data = 1432"
definition msg_search_device_req :: u16 where "msg_search_device_req = 1530"
definition msg_search_device_resp :: u16 where "msg_search_device_resp = 1531"
definition msg_trans_send_data :: u16 where "msg_trans_send_data = 1572"
definition msg_trans_start_req :: u16 where "msg_trans_start_req = 1578"
definition msg_trans_start_resp :: u16 where "msg_trans_start_resp = 1579"
definition msg_trans_recv_data :: u16 where "msg_trans_recv_data = 1580"
definition msg_trans_serial_data :: u16 where "msg_trans_serial_data = 1582"

lemmas msg_defs = msg_login_req_def msg_login_resp_def msg_logout_req_def msg_logout_resp_def
  msg_keep_alive_req_def msg_config_set_req_def msg_config_get_req_def msg_talk_claim_req_def
  msg_talk_claim_resp_def msg_monitor_claim_req_def msg_monitor_claim_resp_def msg_talk_audio_data_def
  msg_search_device_req_def msg_search_device_resp_def msg_trans_send_data_def msg_trans_start_req_def
  msg_trans_start_resp_def msg_trans_recv_data_def msg_trans_serial_data_def

subsection \<open>What is in the payloads\<close>

record login_resp =
  lr_ret :: int
  lr_session :: string

record claim_resp =
  cl_ret :: int
  cl_public_key :: string
  cl_rsa :: bool
  cl_aes :: bool
  cl_aesv2 :: bool
  cl_not_encrypt :: "int list"

record video_format =
  vf_compression :: string
  vf_rest :: string

record encode_item =
  main_video :: video_format
  extra_video :: video_format
  item_rest :: string

text \<open>\<^verbatim>\<open>Simplify.Encode\<close> is a list of items or one item.\<close>

datatype encode_config = EncodeList "encode_item list" | EncodeSingle encode_item

datatype xm_request =
    MonitorClaim
  | LoginRequest (lq_encrypt: string) (lq_type: string) (lq_user: string) (lq_password: string) (lq_key: string)
  | GetConfig string u32
  | SetRtspServer u32
  | SetEncode u32 encode_config
  | StartTrans u32
  | KeepAliveRequest u32
  | LogoutRequest u32

text \<open>
  The arguments: MD5, AES-128 in CBC mode with a zero initialisation vector on whole blocks, RSA
  with the padding of PKCS 1 (the result in upper-case hexadecimal digits) and the JSON codec,
  one reader for each type of response.
\<close>

record xm_prims =
  xm_md5 :: "bytes \<Rightarrow> bytes"
  cbc_encrypt :: "bytes \<Rightarrow> bytes \<Rightarrow> bytes"
  cbc_decrypt :: "bytes \<Rightarrow> bytes \<Rightarrow> bytes"
  rsa_encrypt :: "string \<times> int \<Rightarrow> string \<Rightarrow> string option"
  marshal :: "xm_request \<Rightarrow> string"
  read_login :: "string \<Rightarrow> login_resp option"
  read_claim :: "string \<Rightarrow> claim_resp option"
  read_ret :: "string \<Rightarrow> int option"
  read_rtsp :: "string \<Rightarrow> (int \<times> bool) option"
  read_encode :: "string \<Rightarrow> (int \<times> encode_config option) option"

definition aes_ok :: "xm_prims \<Rightarrow> bool" where
  "aes_ok pr \<longleftrightarrow> (\<forall>key x. length key = 16 \<longrightarrow> length x mod 16 = 0 \<longrightarrow>
     cbc_decrypt pr key (cbc_encrypt pr key x) = x \<and> length (cbc_encrypt pr key x) = length x)"

subsection \<open>Encryption\<close>

definition block_size :: nat where "block_size = 16"

text \<open>AES keys have 16, 24 or 32 bytes; None is the error for others.\<close>

definition key_ok :: "bytes \<Rightarrow> bool" where
  "key_ok key \<longleftrightarrow> length key \<in> {16, 24, 32}"

definition pkcs_pad :: "bytes \<Rightarrow> bytes" where
  "pkcs_pad x = (let n = block_size - length x mod block_size in x @ replicate n (word_of_nat n))"

definition encrypt_aes :: "xm_prims \<Rightarrow> bytes \<Rightarrow> bytes \<Rightarrow> bytes option" where
  "encrypt_aes pr key x = (if key_ok key then Some (cbc_encrypt pr key (pkcs_pad x)) else None)"

definition strip_pad :: "bytes \<Rightarrow> bytes" where
  "strip_pad x =
     (if x = [] then x
      else let n = unat (last x) in
        if 0 < n \<and> n \<le> block_size
           \<and> list_all (\<lambda>b. unat b = n) (drop (length x - n) x)
        then take (length x - n) x else x)"

definition wire_pad :: "byte \<Rightarrow> bool" where
  "wire_pad b \<longleftrightarrow> b \<in> {0, 13, 10, 32}"

text \<open>\<^verbatim>\<open>TrimRight\<close> with NUL, CR, LF and blank.\<close>

definition trim_wire :: "bytes \<Rightarrow> bytes" where
  "trim_wire x = rev (dropWhile wire_pad (rev x))"

definition decrypt_aes :: "xm_prims \<Rightarrow> bytes \<Rightarrow> bytes \<Rightarrow> bytes option" where
  "decrypt_aes pr key x =
     (if x = [] \<or> length x mod block_size \<noteq> 0 \<or> \<not> key_ok key then None
      else Some (trim_wire (strip_pad (cbc_decrypt pr key x))))"

definition default_aes_key :: bytes where
  "default_aes_key = bytes_of ''dashoiahfarqdasr''"

text \<open>
  The public key: the digits of the modulus, and the exponent, 65537 when it is left out. A
  modulus of no hexadecimal digits (with an optional sign) and exponents outside 1 to the greatest
  32-bit number are errors.
\<close>

definition hex_number :: "string \<Rightarrow> bool" where
  "hex_number s = (let ds = (case s of c # r \<Rightarrow> if c = CHR ''-'' \<or> c = CHR ''+'' then r else s | [] \<Rightarrow> [])
     in ds \<noteq> [] \<and> list_all (\<lambda>c. hex_value c \<noteq> None) ds)"

definition parse_rsa_key :: "string \<Rightarrow> (string \<times> int) option" where
  "parse_rsa_key s =
     (let parts = split_on (CHR '','') (trim_space s) in
      if parts ! 0 = [] then None
      else
        let modulus = trim_space (parts ! 0);
            ex = (if length parts > 1 \<and> trim_space (parts ! 1) \<noteq> [] then trim_space (parts ! 1) else ''010001'')
        in if \<not> hex_number modulus then None
           else case parse_hex64 ex of
                  None \<Rightarrow> None
                | Some e \<Rightarrow> if e \<le> 0 \<or> e > 2147483647 then None else Some (modulus, e))"

definition key_charset :: string where
  "key_charset = ''0123456789ABCDEFGHIJKLMNOPQRSTUVWXYZabcdefghijklmnopqrstuvwxyz''"

definition communicate_key :: "bytes \<Rightarrow> string" where
  "communicate_key random = map (\<lambda>b. key_charset ! (unat b mod length key_charset)) random"

subsection \<open>Passwords\<close>

definition base62_char :: "nat \<Rightarrow> char" where
  "base62_char n = char_of (if n \<le> 9 then n + 48 else if n \<le> 35 then n + 55 else n + 61)"

definition hash_password :: "xm_prims \<Rightarrow> string \<Rightarrow> string" where
  "hash_password pr s =
     (if s = [] then []
      else let d = xm_md5 pr (bytes_of s) in
        map (\<lambda>i. base62_char ((unat (d ! (2 * i)) + unat (d ! (2 * i + 1))) mod 62)) [0..<8])"

definition hash_md5_hex :: "xm_prims \<Rightarrow> string \<Rightarrow> string" where
  "hash_md5_hex pr s = (if s = [] then [] else hex_of_bytes (xm_md5 pr (bytes_of s)))"

definition hash_double_md5_hex :: "xm_prims \<Rightarrow> string \<Rightarrow> string" where
  "hash_double_md5_hex pr s = (if s = [] then [] else hex_of_bytes (xm_md5 pr (bytes_of (hash_md5_hex pr s))))"

text \<open>
  \<^verbatim>\<open>MaskPassword\<close> counts runes: the bytes that do not continue a character of UTF-8
  text.
\<close>

definition mask_password :: "string \<Rightarrow> string" where
  "mask_password s =
     (if s = [] then ''<empty>''
      else replicate (length (filter (\<lambda>c. \<not> (128 \<le> (of_char c :: nat) \<and> of_char c < (192 :: nat))) s)) (CHR ''*''))"

record candidate =
  cd_user :: string
  cd_password :: string
  cd_encrypt :: string
  cd_login_type :: string

definition clean_user :: "string \<Rightarrow> string" where
  "clean_user u = (if trim_space u = [] then ''admin'' else trim_space u)"

definition password_candidates :: "xm_prims \<Rightarrow> string \<Rightarrow> string \<Rightarrow> candidate list" where
  "password_candidates pr user pass =
     (let u = clean_user user; p = trim_space pass in
      if p \<noteq> [] then
        [\<lparr>cd_user = u, cd_password = hash_password pr p, cd_encrypt = ''MD5'', cd_login_type = ''DVRIP-Mobile''\<rparr>,
         \<lparr>cd_user = u, cd_password = hash_password pr p, cd_encrypt = ''MD5'', cd_login_type = []\<rparr>,
         \<lparr>cd_user = u, cd_password = p, cd_encrypt = ''NONE'', cd_login_type = []\<rparr>]
      else [\<lparr>cd_user = u, cd_password = [], cd_encrypt = ''NONE'', cd_login_type = []\<rparr>])"

definition rsa_candidates :: "xm_prims \<Rightarrow> string \<Rightarrow> string list" where
  "rsa_candidates pr pass =
     (let p = trim_space pass in
      if p \<noteq> [] then [hash_password pr p, p, hash_md5_hex pr p, to_upper (hash_md5_hex pr p)] else [[]])"

end
