(* ===== verification/Xiongmai_Client.thy ===== *)
theory Xiongmai_Client
  imports Xiongmai_Packets
begin

text \<open>
  The control connection to the L 620 (\<^verbatim>\<open>pkg/xiongmai/client.go\<close>): requests and
  responses over one TCP stream into which the camera also pushes telemetry, the login in its
  variants, the serial bridge to the microcontroller. All operations run under the client's mutex,
  so each is a function from state to state. What the camera sends is a list of bytes with silences
  in between that are long enough for a read deadline to pass; it is not known in advance to
  answer anything.
\<close>

datatype wire = Data byte | Silence

datatype xm_error =
    Disconnected
  | WriteError
  | ReadError
  | BadHeader
  | TooLarge
  | EncryptError
  | UnexpectedMsg u16
  | BadResponse string
  | Rejected int
  | NoTelemetry
  | NoSession

record xm_client =
  xm_user :: string
  xm_password :: string
  effective_password :: string
  comm_key :: bytes
  data_encryption :: bool
  not_encrypt :: "u16 list option"
  conn_open :: bool
  conn_writable :: bool
  session_id :: u32
  xm_sequence :: u32
  logged_in :: bool
  serial_active :: bool
  last_config :: "xm_config option"
  telemetry_buf :: string
  reported :: "xm_config list"
  xm_closed :: bool
  close_chan_closed :: bool
  incoming :: "wire list"
  outgoing :: "bytes list"

definition new_xm_client :: "string \<Rightarrow> string \<Rightarrow> xm_client" where
  "new_xm_client user pass =
     \<lparr>xm_user = (if user = [] then ''admin'' else user), xm_password = pass, effective_password = pass,
      comm_key = [], data_encryption = False, not_encrypt = None, conn_open = False, conn_writable = True,
      session_id = 0, xm_sequence = 0, logged_in = False, serial_active = False, last_config = None,
      telemetry_buf = [], reported = [], xm_closed = False, close_chan_closed = False,
      incoming = [], outgoing = []\<rparr>"

subsection \<open>Which messages are encrypted\<close>

definition default_not_encrypt :: "u16 list" where
  "default_not_encrypt =
     [msg_login_req, msg_login_resp, msg_logout_req, msg_logout_resp, msg_monitor_claim_req,
      msg_monitor_claim_resp, msg_talk_audio_data, msg_talk_claim_req, msg_talk_claim_resp,
      msg_search_device_req, msg_search_device_resp, msg_trans_recv_data, msg_trans_serial_data]"

definition init_not_encrypt :: "int list \<Rightarrow> xm_client \<Rightarrow> xm_client" where
  "init_not_encrypt ids c =
     c\<lparr>not_encrypt := Some (default_not_encrypt @ map word_of_int (filter (\<lambda>i. 0 < i \<and> i \<le> 65535) ids))\<rparr>"

definition should_encrypt :: "u16 \<Rightarrow> xm_client \<Rightarrow> bool" where
  "should_encrypt mid c \<longleftrightarrow>
     data_encryption c \<and> length (comm_key c) = 16 \<and>
     mid \<notin> set (case not_encrypt c of None \<Rightarrow> default_not_encrypt | Some ids \<Rightarrow> ids)"

subsection \<open>Telemetry\<close>

definition pad_char :: "char \<Rightarrow> bool" where
  "pad_char c \<longleftrightarrow> of_char c \<in> {0, 10, 13, 32 :: nat}"

text \<open>What follows the last occurrence of a character, with it: \<^verbatim>\<open>LastIndex\<close>.\<close>

definition from_last :: "char \<Rightarrow> string \<Rightarrow> string option" where
  "from_last c s = (if c \<in> set s then Some (c # rev (takeWhile (\<lambda>x. x \<noteq> c) (rev s))) else None)"

definition telemetry_push :: "string \<Rightarrow> xm_client \<Rightarrow> xm_client" where
  "telemetry_push raw0 c =
     (let raw = trim_set pad_char raw0; full = telemetry_buf c @ raw in
      if raw = [] then c
      else if \<not> has_suffix full ''U'' then
        c\<lparr>telemetry_buf := (case from_last (CHR ''B'') full of Some s \<Rightarrow> s | None \<Rightarrow> [])\<rparr>
      else
        let c1 = c\<lparr>telemetry_buf := []\<rparr> in
        case from_last (CHR ''B'') full of
          None \<Rightarrow> c1
        | Some frame \<Rightarrow>
            (case parse_mcu_string frame of
               None \<Rightarrow> c1
             | Some cfg \<Rightarrow> c1\<lparr>last_config := Some cfg, reported := reported c1 @ [cfg]\<rparr>))"

subsection \<open>Packets\<close>

text \<open>\<^verbatim>\<open>io.ReadFull\<close>: all bytes, or an error that has eaten what was there.\<close>

fun read_full :: "nat \<Rightarrow> wire list \<Rightarrow> bytes option \<times> wire list" where
  "read_full 0 ws = (Some [], ws)"
| "read_full (Suc n) [] = (None, [])"
| "read_full (Suc n) (Silence # ws) = (None, ws)"
| "read_full (Suc n) (Data b # ws) =
     (case read_full n ws of (Some bs, r) \<Rightarrow> (Some (b # bs), r) | (None, r) \<Rightarrow> (None, r))"

definition read_packet :: "wire list \<Rightarrow> (xm_error + header \<times> bytes) \<times> wire list" where
  "read_packet ws =
     (case read_full header_length ws of
        (None, r) \<Rightarrow> (Inl ReadError, r)
      | (Some hb, r) \<Rightarrow>
          (case decode_header hb of
             None \<Rightarrow> (Inl BadHeader, r)
           | Some h \<Rightarrow>
               (if hd_length h > 65535 then (Inl TooLarge, r)
                else case read_full (unat (hd_length h)) r of
                       (None, r2) \<Rightarrow> (Inl ReadError, r2)
                     | (Some payload, r2) \<Rightarrow> (Inr (h, payload), r2))))"

lemma read_full_length: "read_full n ws = (Some bs, r) \<Longrightarrow> length ws = n + length r"
  by (induction n ws arbitrary: bs r rule: read_full.induct) (auto split: prod.splits option.splits)

lemma read_packet_length:
  assumes "read_packet ws = (Inr p, r)"
  shows "length r < length ws"
proof -
  obtain hb r1 where r: "read_full header_length ws = (Some hb, r1)"
    using assms by (auto simp: read_packet_def split: prod.splits option.splits)
  have "\<exists>(h :: header) payload. read_full (unat (hd_length h)) r1 = (Some payload, r)"
    using assms r by (auto simp: read_packet_def split: prod.splits option.splits if_splits)
  then obtain h :: header and payload where h: "read_full (unat (hd_length h)) r1 = (Some payload, r)" by blast
  from read_full_length[OF r] read_full_length[OF h] show ?thesis by (simp add: header_length_def)
qed

text \<open>
  The loop that waits for the response: pushed telemetry is handled in passing; any other packet is
  the response, whatever its message and sequence numbers are.
\<close>

lemma telemetry_push_incoming [simp]:
  "incoming (telemetry_push raw c) = incoming c" "outgoing (telemetry_push raw c) = outgoing c"
  by (simp_all add: telemetry_push_def Let_def split: option.splits)

function read_response :: "u16 \<Rightarrow> xm_client \<Rightarrow> (xm_error + bytes \<times> header) \<times> xm_client" where
  "read_response mid c =
     (case read_packet (incoming c) of
        (Inl e, r) \<Rightarrow> (Inl e, c\<lparr>incoming := r\<rparr>)
      | (Inr (h, payload), r) \<Rightarrow>
          (let c1 = c\<lparr>incoming := r\<rparr>; clean = trim_wire payload in
           if hd_msg h = msg_trans_serial_data then
             let c2 = telemetry_push (string_of clean) c1 in
             if mid = msg_trans_serial_data \<and> telemetry_buf c2 = [] then (Inr (clean, h), c2)
             else read_response mid c2
           else (Inr (clean, h), c1)))"
  by pat_completeness auto
termination
  by (relation "measure (\<lambda>(mid, c). length (incoming c))") (auto dest: read_packet_length[OF sym])

declare read_response.simps [simp del]

definition request_header :: "u16 \<Rightarrow> byte \<Rightarrow> byte \<Rightarrow> u32 \<Rightarrow> u32 \<Rightarrow> nat \<Rightarrow> header" where
  "request_header mid channel tot sess sequ n =
     \<lparr>hd_magic = header_magic, hd_channel = channel, hd_reserved = (0, 0), hd_session = sess,
      hd_sequence = sequ, hd_total = tot, hd_current = 0, hd_msg = mid, hd_length = word_of_nat n\<rparr>"

definition send_with_header ::
  "u16 \<Rightarrow> byte \<Rightarrow> byte \<Rightarrow> u32 \<Rightarrow> bytes \<Rightarrow> xm_client \<Rightarrow> (xm_error + bytes \<times> header) \<times> xm_client" where
  "send_with_header mid channel tot sess payload c =
     (if \<not> conn_open c then (Inl Disconnected, c)
      else
        let c1 = c\<lparr>xm_sequence := xm_sequence c + 1\<rparr>;
            body = payload @ (if channel = 1 then [0] else [0x0A, 0]);
            h = request_header mid channel tot sess (xm_sequence c1) (length body)
        in if \<not> conn_writable c then (Inl WriteError, c1)
           else read_response mid (c1\<lparr>outgoing := outgoing c1 @ [encode_header h @ body]\<rparr>))"

definition send_raw :: "xm_prims \<Rightarrow> u16 \<Rightarrow> string \<Rightarrow> xm_client \<Rightarrow> (xm_error + bytes \<times> header) \<times> xm_client" where
  "send_raw pr mid payload c =
     (let enc = should_encrypt mid c;
          channel = (if enc \<or> data_encryption c then 1 else 0);
          actual = (if enc then map_option (\<lambda>x. bytes_of (b64_encode x)) (encrypt_aes pr (comm_key c) (bytes_of payload))
                    else Some (bytes_of payload))
      in case actual of
           None \<Rightarrow> (Inl EncryptError, c)
         | Some body \<Rightarrow>
             (case send_with_header mid channel 0 (session_id c) body c of
                (Inl e, c1) \<Rightarrow> (Inl e, c1)
              | (Inr (clean, h), c1) \<Rightarrow>
                  (Inr (if data_encryption c1 \<and> length (comm_key c1) = 16 \<and> clean \<noteq> [] \<and> clean ! 0 \<noteq> 0x7B
                        then (case b64_decode (string_of clean) of
                                None \<Rightarrow> clean
                              | Some x \<Rightarrow>
                                  (if length x mod 16 = 0 \<and> x \<noteq> []
                                   then (case decrypt_aes pr (comm_key c1) x of None \<Rightarrow> clean | Some p \<Rightarrow> p)
                                   else clean))
                        else clean, h), c1)))"

text \<open>After a command: at most two packets, as long as no complete telemetry has come.\<close>

fun drain_telemetry :: "nat \<Rightarrow> xm_client \<Rightarrow> xm_client" where
  "drain_telemetry 0 c = c"
| "drain_telemetry (Suc n) c =
     (if \<not> conn_open c then c
      else case read_packet (incoming c) of
             (Inl e, r) \<Rightarrow> c\<lparr>incoming := r\<rparr>
           | (Inr (h, payload), r) \<Rightarrow>
               (let c1 = c\<lparr>incoming := r\<rparr> in
                if hd_msg h = msg_trans_serial_data then
                  let c2 = telemetry_push (string_of (trim_wire payload)) c1 in
                  if telemetry_buf c2 = [] \<and> last_config c2 \<noteq> None then c2 else drain_telemetry n c2
                else drain_telemetry n c1))"

subsection \<open>The serial bridge\<close>

definition start_serial :: "xm_prims \<Rightarrow> xm_client \<Rightarrow> xm_error option \<times> xm_client" where
  "start_serial pr c =
     (if serial_active c then (None, c)
      else case send_raw pr msg_trans_start_req (marshal pr (StartTrans (session_id c))) c of
             (Inl e, c1) \<Rightarrow> (Some e, c1)
           | (Inr _, c1) \<Rightarrow> (None, c1\<lparr>serial_active := True\<rparr>))"

definition send_mcu_command :: "xm_prims \<Rightarrow> string \<Rightarrow> xm_client \<Rightarrow> xm_error option \<times> xm_client" where
  "send_mcu_command pr cmd c =
     (case start_serial pr c of
        (Some e, c1) \<Rightarrow> (Some e, c1)
      | (None, c1) \<Rightarrow>
          (case send_raw pr msg_trans_send_data cmd c1 of
             (Inl e, c2) \<Rightarrow> (Some e, c2)
           | (Inr _, c2) \<Rightarrow> (None, drain_telemetry 2 c2)))"

definition query_mcu_config :: "xm_prims \<Rightarrow> xm_client \<Rightarrow> (xm_error + xm_config) \<times> xm_client" where
  "query_mcu_config pr c =
     (case send_mcu_command pr ''BFbU'' c of
        (Some e, c1) \<Rightarrow> (Inl e, c1)
      | (None, c1) \<Rightarrow> (case last_config c1 of Some k \<Rightarrow> (Inr k, c1) | None \<Rightarrow> (Inl NoTelemetry, c1)))"

definition set_light_state :: "xm_prims \<Rightarrow> bool \<Rightarrow> xm_client \<Rightarrow> xm_error option \<times> xm_client" where
  "set_light_state pr on c =
     (case send_mcu_command pr (build_xm_light_mode on) c of
        (Some e, c1) \<Rightarrow> (Some e, c1)
      | (None, c1) \<Rightarrow> (None, c1\<lparr>last_config := map_option (\<lambda>k. k\<lparr>xm_mode := (if on then 3 else 1)\<rparr>) (last_config c1)\<rparr>))"

definition query_light_state :: "xm_prims \<Rightarrow> xm_client \<Rightarrow> (xm_error + bool) \<times> xm_client" where
  "query_light_state pr c =
     (case query_mcu_config pr c of
        (Inr k, c1) \<Rightarrow> (Inr (is_light_on (Some k)), c1)
      | (Inl e, c1) \<Rightarrow>
          (case last_config c1 of Some k \<Rightarrow> (Inr (is_light_on (Some k)), c1) | None \<Rightarrow> (Inl e, c1)))"

definition send_keep_alive :: "xm_prims \<Rightarrow> xm_client \<Rightarrow> xm_error option \<times> xm_client" where
  "send_keep_alive pr c =
     (case send_raw pr msg_keep_alive_req (marshal pr (KeepAliveRequest (session_id c))) c of
        (Inl e, c1) \<Rightarrow> (Some e, c1) | (Inr _, c1) \<Rightarrow> (None, c1))"

subsection \<open>Login\<close>

text \<open>\<^verbatim>\<open>ParseUint(s, 16, 32)\<close> behind an optional \<^verbatim>\<open>0x\<close>.\<close>

definition parse_session :: "string \<Rightarrow> u32 option" where
  "parse_session s0 =
     (let s = trim_prefix s0 ''0x'' in
      if s = [] then None
      else case hex_digits 0 s of
             None \<Rightarrow> None | Some n \<Rightarrow> if n < 4294967296 then Some (word_of_nat n) else None)"

definition accepted :: "login_resp \<Rightarrow> bool" where
  "accepted lr \<longleftrightarrow> lr_ret lr = 100 \<or> lr_ret lr = 0"

definition query_claim :: "xm_prims \<Rightarrow> xm_client \<Rightarrow> (xm_error + claim_resp) \<times> xm_client" where
  "query_claim pr c =
     (case send_with_header msg_monitor_claim_req 1 0x63 0x1869F (bytes_of (marshal pr MonitorClaim)) c of
        (Inl e, c1) \<Rightarrow> (Inl e, c1)
      | (Inr (d, h), c1) \<Rightarrow>
          (let raw = trim_space (string_of d);
               text = (if has_prefix raw ''{'' then Some raw
                       else map_option string_of (Option.bind (b64_decode raw) (decrypt_aes pr default_aes_key)))
           in if hd_msg h \<noteq> msg_monitor_claim_resp then (Inl (UnexpectedMsg (hd_msg h)), c1)
              else case Option.bind text (read_claim pr) of
                     None \<Rightarrow> (Inl (BadResponse raw), c1)
                   | Some cl \<Rightarrow> (if cl_ret cl \<noteq> 100 \<and> cl_ret cl \<noteq> 0 then Inl (Rejected (cl_ret cl)) else Inr cl, c1)))"

text \<open>
  A response to an encrypted login: plain, or encrypted with the default key. An unreadable one counts as
  the empty response, whose code 0 means success if it names a session; without one it is an error.
\<close>

definition read_rsa_response :: "xm_prims \<Rightarrow> bytes \<Rightarrow> login_resp option" where
  "read_rsa_response pr d =
     (let s = trim_space (string_of d) in
      if has_prefix s ''{'' then read_login pr s
      else
        let empty = \<lparr>lr_ret = 0, lr_session = []\<rparr>;
            lr = (case Option.bind (b64_decode s) (decrypt_aes pr default_aes_key) of
                    None \<Rightarrow> empty
                  | Some p \<Rightarrow> (case read_login pr (string_of p) of Some r \<Rightarrow> r | None \<Rightarrow> empty))
        in if lr_ret lr = 0 \<and> lr_session lr = [] then None else Some lr)"

fun rsa_loop :: "xm_prims \<Rightarrow> string \<times> int \<Rightarrow> string \<Rightarrow> string \<Rightarrow> claim_resp \<Rightarrow> string list \<Rightarrow> xm_error option \<Rightarrow>
    xm_client \<Rightarrow> xm_error option \<times> xm_client" where
  "rsa_loop pr key user_hex comm_hex cl [] lastErr c = (lastErr, c)"
| "rsa_loop pr key user_hex comm_hex cl (cand # cands) lastErr c =
     (case rsa_encrypt pr key cand of
        None \<Rightarrow> (Some EncryptError, c)
      | Some pass_hex \<Rightarrow>
          (case encrypt_aes pr default_aes_key
                  (bytes_of (marshal pr (LoginRequest ''MD5'' ''DVRIP-FutureHome'' user_hex pass_hex comm_hex))) of
             None \<Rightarrow> (Some EncryptError, c)
           | Some x \<Rightarrow>
               (case send_with_header msg_login_req 1 0x63 0 (bytes_of (b64_encode x)) c of
                  (Inl e, c1) \<Rightarrow> (Some e, c1)
                | (Inr (d, h), c1) \<Rightarrow>
                    (case read_rsa_response pr d of
                       None \<Rightarrow> (Some (BadResponse (string_of d)), c1)
                     | Some lr \<Rightarrow>
                         (if accepted lr then
                            let c2 = c1\<lparr>session_id := (case parse_session (lr_session lr) of Some i \<Rightarrow> i | None \<Rightarrow> 0),
                                        effective_password := cand, logged_in := True\<rparr>;
                                c3 = (if cl_aes cl \<or> cl_aesv2 cl
                                      then init_not_encrypt (cl_not_encrypt cl) (c2\<lparr>data_encryption := True\<rparr>) else c2)
                            in (None, snd (start_serial pr c3))
                          else if lr_ret lr \<notin> {106, 124, 129} then (Some (Rejected (lr_ret lr)), c1)
                          else rsa_loop pr key user_hex comm_hex cl cands (Some (Rejected (lr_ret lr))) c1)))))"

definition login_rsa :: "xm_prims \<Rightarrow> bytes \<Rightarrow> claim_resp \<Rightarrow> xm_client \<Rightarrow> xm_error option \<times> xm_client" where
  "login_rsa pr random cl c =
     (case parse_rsa_key (cl_public_key cl) of
        None \<Rightarrow> (Some (BadResponse (cl_public_key cl)), c)
      | Some key \<Rightarrow>
          (let ck = communicate_key random; c1 = c\<lparr>comm_key := bytes_of ck\<rparr> in
           case (rsa_encrypt pr key (clean_user (xm_user c)), rsa_encrypt pr key ck) of
             (Some uh, Some ch) \<Rightarrow> rsa_loop pr key uh ch cl (rsa_candidates pr (xm_password c)) None c1
           | _ \<Rightarrow> (Some EncryptError, c1)))"

datatype legacy_result = LoggedIn | LoginFailed xm_error | Exhausted u32 "xm_error option"

fun legacy_loop :: "xm_prims \<Rightarrow> candidate list \<Rightarrow> u32 \<Rightarrow> xm_error option \<Rightarrow> xm_client \<Rightarrow> legacy_result \<times> xm_client" where
  "legacy_loop pr [] sid lastErr c = (Exhausted sid lastErr, c)"
| "legacy_loop pr (cd # cds) sid lastErr c =
     (case send_raw pr msg_login_req
             (marshal pr (LoginRequest (cd_encrypt cd) (cd_login_type cd) (cd_user cd) (cd_password cd) [])) c of
        (Inl e, c1) \<Rightarrow> (LoginFailed e, c1)
      | (Inr (d, h), c1) \<Rightarrow>
          (case read_login pr (string_of d) of
             None \<Rightarrow> (LoginFailed (BadResponse (string_of d)), c1)
           | Some lr \<Rightarrow>
               (let sid1 = (case parse_session (lr_session lr) of Some i \<Rightarrow> i | None \<Rightarrow> sid) in
                if accepted lr then
                  (LoggedIn, snd (start_serial pr
                     (c1\<lparr>session_id := sid1, effective_password := cd_password cd, logged_in := True\<rparr>)))
                else if lr_ret lr \<noteq> 124 \<and> lr_ret lr \<noteq> 129 then (LoginFailed (Rejected (lr_ret lr)), c1)
                else legacy_loop pr cds sid1 (Some (Rejected (lr_ret lr))) c1)))"

definition legacy_login :: "xm_prims \<Rightarrow> xm_client \<Rightarrow> xm_error option \<times> xm_client" where
  "legacy_login pr c =
     (case legacy_loop pr (password_candidates pr (xm_user c) (xm_password c)) 0 None c of
        (LoggedIn, c1) \<Rightarrow> (None, c1)
      | (LoginFailed e, c1) \<Rightarrow> (Some e, c1)
      | (Exhausted sid lastErr, c1) \<Rightarrow>
          (if sid \<noteq> 0 then
             (None, c1\<lparr>session_id := sid, effective_password := trim_space (xm_password c1), logged_in := False\<rparr>)
           else (lastErr, c1)))"

definition login :: "xm_prims \<Rightarrow> bytes \<Rightarrow> xm_client \<Rightarrow> xm_error option \<times> xm_client" where
  "login pr random c =
     (case query_claim pr c of
        (Inl _, c1) \<Rightarrow> legacy_login pr c1
      | (Inr cl, c1) \<Rightarrow>
          (if cl_rsa cl \<and> cl_public_key cl \<noteq> [] then
             (case login_rsa pr random cl c1 of
                (None, c2) \<Rightarrow> (None, c2)
              | (Some _, c2) \<Rightarrow> legacy_login pr c2)
           else legacy_login pr c1))"

text \<open>\<^verbatim>\<open>Connect\<close> on a fresh TCP connection, over which the given bytes will come.\<close>

definition connect :: "xm_prims \<Rightarrow> bytes \<Rightarrow> wire list \<Rightarrow> xm_client \<Rightarrow> xm_error option \<times> xm_client" where
  "connect pr random ws c =
     (case login pr random (c\<lparr>conn_open := True, conn_writable := True, incoming := ws, xm_closed := False\<rparr>) of
        (None, c1) \<Rightarrow> (None, c1)
      | (Some e, c1) \<Rightarrow> (Some e, c1\<lparr>conn_open := False\<rparr>))"

text \<open>
  \<^verbatim>\<open>Close\<close>. None is the panic of closing a closed channel: \<^verbatim>\<open>Connect\<close> takes back
  the flag that guards \<^verbatim>\<open>close\<close>, but makes no new channel.
\<close>

definition xm_close :: "xm_prims \<Rightarrow> xm_client \<Rightarrow> xm_client option" where
  "xm_close pr c =
     (if xm_closed c then Some c
      else if close_chan_closed c then None
      else
        let c0 = c\<lparr>xm_closed := True, close_chan_closed := True\<rparr> in
        Some (if \<not> conn_open c then c0
              else
                let c1 = (if logged_in c0
                          then (snd (send_raw pr msg_logout_req (marshal pr (LogoutRequest (session_id c0))) c0))\<lparr>logged_in := False\<rparr>
                          else c0)
                in c1\<lparr>conn_open := False, serial_active := False, telemetry_buf := []\<rparr>))"

subsection \<open>RTSP and video encoding\<close>

definition enable_rtsp :: "xm_prims \<Rightarrow> xm_client \<Rightarrow> xm_error option \<times> xm_client" where
  "enable_rtsp pr c =
     (let (resp, c1) = send_raw pr msg_config_get_req (marshal pr (GetConfig ''NetWork.RTSP'' (session_id c))) c;
          on = (case resp of
                  Inl _ \<Rightarrow> False
                | Inr (d, _) \<Rightarrow> (case read_rtsp pr (string_of d) of Some (ret, server) \<Rightarrow> ret = 100 \<and> server | None \<Rightarrow> False))
      in if on then (None, c1)
         else case send_raw pr msg_config_set_req (marshal pr (SetRtspServer (session_id c))) c1 of
                (Inl e, c2) \<Rightarrow> (Some e, c2)
              | (Inr (d, _), c2) \<Rightarrow>
                  (case read_ret pr (string_of d) of
                     Some ret \<Rightarrow> (if ret \<noteq> 100 then Some (Rejected ret) else None, c2)
                   | None \<Rightarrow> (None, c2)))"

definition is_h265 :: "string \<Rightarrow> bool" where
  "is_h265 s = (let u = to_upper (trim_space s) in contains u ''H.265'' \<or> contains u ''H265'' \<or> contains u ''HEVC'')"

definition first_item :: "encode_config \<Rightarrow> encode_item" where
  "first_item cfg = (case cfg of EncodeList is \<Rightarrow> hd is | EncodeSingle i \<Rightarrow> i)"

definition use_h264 :: "encode_item \<Rightarrow> encode_item" where
  "use_h264 i = i\<lparr>main_video := (main_video i)\<lparr>vf_compression := ''H.264''\<rparr>,
     extra_video := (if vf_compression (extra_video i) \<noteq> [] then (extra_video i)\<lparr>vf_compression := ''H.264''\<rparr>
                     else extra_video i)\<rparr>"

definition set_first :: "encode_item \<Rightarrow> encode_config \<Rightarrow> encode_config" where
  "set_first i cfg = (case cfg of EncodeList is \<Rightarrow> EncodeList (is[0 := i]) | EncodeSingle _ \<Rightarrow> EncodeSingle i)"

text \<open>
  The reader of \<^verbatim>\<open>Simplify.Encode\<close> gives None for an unreadable response, and no
  configuration if its value is neither a non-empty list of items nor an item.
\<close>

definition ensure_h264 :: "xm_prims \<Rightarrow> xm_client \<Rightarrow> xm_error option \<times> xm_client" where
  "ensure_h264 pr c =
     (case send_raw pr msg_config_get_req (marshal pr (GetConfig ''Simplify.Encode'' (session_id c))) c of
        (Inl e, c1) \<Rightarrow> (Some e, c1)
      | (Inr (d, _), c1) \<Rightarrow>
          (case read_encode pr (string_of d) of
             None \<Rightarrow> (Some (BadResponse (string_of d)), c1)
           | Some (ret, cfg) \<Rightarrow>
               (if ret \<noteq> 100 \<and> ret \<noteq> 0 then (Some (Rejected ret), c1)
                else case cfg of
                  None \<Rightarrow> (None, c1)
                | Some k \<Rightarrow>
                    (if is_h265 (vf_compression (main_video (first_item k))) then
                       (case send_raw pr msg_config_set_req
                               (marshal pr (SetEncode (session_id c) (set_first (use_h264 (first_item k)) k))) c1 of
                          (Inl e, c2) \<Rightarrow> (Some e, c2)
                        | (Inr _, c2) \<Rightarrow> (None, c2))
                     else (None, c1)))))"

subsection \<open>Discovery\<close>

text \<open>The members of \<^verbatim>\<open>NetWork.NetCommon\<close> that are strings, and the port.\<close>

record net_common =
  nc_sn :: "string option"
  nc_serial :: "string option"
  nc_host_ip :: "string option"
  nc_host_name :: "string option"
  nc_mac :: "string option"
  nc_tcp_port :: "int option"

record device =
  dv_serial :: string
  dv_ip :: string
  dv_port :: int
  dv_host_name :: string
  dv_mac :: string

definition text_or_empty :: "string option \<Rightarrow> string" where
  "text_or_empty s = (case s of Some t \<Rightarrow> t | None \<Rightarrow> [])"

definition device_of :: "net_common \<Rightarrow> device" where
  "device_of nc =
     \<lparr>dv_serial = (if text_or_empty (nc_sn nc) \<noteq> [] then text_or_empty (nc_sn nc) else text_or_empty (nc_serial nc)),
      dv_ip = text_or_empty (nc_host_ip nc),
      dv_port = (case nc_tcp_port nc of Some p \<Rightarrow> if p > 0 then p else 34567 | None \<Rightarrow> 34567),
      dv_host_name = text_or_empty (nc_host_name nc), dv_mac = text_or_empty (nc_mac nc)\<rparr>"

definition discovery_probe :: bytes where
  "discovery_probe = encode_header \<lparr>hd_magic = header_magic, hd_channel = 0, hd_reserved = (0, 0), hd_session = 0,
     hd_sequence = 0, hd_total = 0, hd_current = 0, hd_msg = msg_search_device_req, hd_length = 0\<rparr>"

text \<open>
  The answers within the time, as datagrams cut to 2048 bytes; the reader gives None for a payload
  that is no object, and an empty record for one without the member.
\<close>

fun discover_devices :: "(string \<Rightarrow> net_common option) \<Rightarrow> bytes list \<Rightarrow> string list \<Rightarrow> device list" where
  "discover_devices rd [] seen = []"
| "discover_devices rd (d # ds) seen =
     (let p = take 2048 d in
      case decode_header (take header_length p) of
        None \<Rightarrow> discover_devices rd ds seen
      | Some h \<Rightarrow>
          (if hd_msg h \<noteq> msg_search_device_resp then discover_devices rd ds seen
           else case rd (string_of (trim_wire (drop header_length p))) of
                  None \<Rightarrow> discover_devices rd ds seen
                | Some nc \<Rightarrow>
                    (let v = device_of nc in
                     if dv_ip v \<noteq> [] \<and> dv_ip v \<notin> set seen
                     then v # discover_devices rd ds (dv_ip v # seen)
                     else discover_devices rd ds seen)))"

subsection \<open>Talking\<close>

text \<open>
  \<^verbatim>\<open>TalkClient\<close> (\<^verbatim>\<open>pkg/xiongmai/talk.go\<close>): the camera's speaker. Responses to audio packets are
  not read.
\<close>

definition msg_talk_claim_v2_req :: u16 where "msg_talk_claim_v2_req = 1434"
definition msg_talk_control_req :: u16 where "msg_talk_control_req = 1430"

text \<open>The three requests are given with their payloads, as the JSON codec writes them.\<close>

record talk_payloads =
  tp_claim :: string
  tp_start :: string
  tp_stop :: string

definition start_talk :: "xm_prims \<Rightarrow> talk_payloads \<Rightarrow> bool \<Rightarrow> xm_client \<Rightarrow> xm_error option \<times> bool \<times> xm_client" where
  "start_talk pr tp active c =
     (if active then (None, True, c)
      else
        let (r1, c1) = send_raw pr msg_talk_claim_v2_req (tp_claim tp) c;
            (r2, c2) = (case r1 of Inr _ \<Rightarrow> (None, c1)
                        | Inl e \<Rightarrow> (case send_raw pr msg_talk_claim_req (tp_claim tp) c1 of
                                      (Inl _, c2) \<Rightarrow> (Some e, c2) | (Inr _, c2) \<Rightarrow> (None, c2)))
        in case r2 of
             Some e \<Rightarrow> (Some e, False, c2)
           | None \<Rightarrow> (None, True, snd (send_raw pr msg_talk_control_req (tp_start tp) c2)))"

definition send_audio :: "xm_prims \<Rightarrow> talk_payloads \<Rightarrow> bytes \<Rightarrow> bool \<Rightarrow> xm_client \<Rightarrow> xm_error option \<times> bool \<times> xm_client" where
  "send_audio pr tp audio active c =
     (if audio = [] then (None, active, c)
      else case start_talk pr tp active c of
             (Some e, a1, c1) \<Rightarrow> (Some e, a1, c1)
           | (None, a1, c1) \<Rightarrow>
               (let h = request_header msg_talk_audio_data (if data_encryption c1 then 1 else 0) 0 (session_id c1)
                          (xm_sequence c1 + 1) (length audio);
                    c2 = c1\<lparr>xm_sequence := xm_sequence c1 + 1\<rparr>
                in if \<not> conn_open c2 then (Some Disconnected, a1, c2)
                   else if \<not> conn_writable c2 then (Some WriteError, a1, c2)
                   else (None, a1, c2\<lparr>outgoing := outgoing c2 @ [encode_header h @ audio]\<rparr>)))"

definition stop_talk :: "xm_prims \<Rightarrow> talk_payloads \<Rightarrow> bool \<Rightarrow> xm_client \<Rightarrow> bool \<times> xm_client" where
  "stop_talk pr tp active c =
     (if \<not> active then (False, c) else (False, snd (send_raw pr msg_talk_control_req (tp_stop tp) c)))"

end
