(* ===== verification/Events_Bus.thy ===== *)
theory Events_Bus
  imports Recording_Cache
begin

text \<open>
  The event bus of \<^verbatim>\<open>pkg/events/events.go\<close> and the ONVIF pull points of
  \<^verbatim>\<open>pkg/onvif/events.go\<close> that hang on it. A listener is a name of type \<open>'l\<close>; a
  publication returns the calls it makes, in their order. A subscription's channel is the list
  of what it holds.
\<close>

record device_status =
  is_motion :: bool
  motion_last_at :: gtime
  lamp_mode :: int
  lux :: int
  pir_active :: bool
  pir_sensitivity :: int
  highlight :: int
  highlight_time :: int
  lowlight :: int
  lowlight_time :: int
  color_temp :: int
  firmware_ver :: string
  resolution :: string
  last_seen :: gtime

datatype event_type = EventMotion | EventLight | EventLux | EventDevice

datatype event_data = MotionData bool gtime | StatusData device_status | OtherData

record 'l bus =
  listeners :: "'l list"
  bus_status :: device_status

definition new_bus :: "gtime \<Rightarrow> 'l bus" where
  "new_bus now = \<lparr>listeners = [], bus_status = \<lparr>is_motion = False, motion_last_at = 0, lamp_mode = 0,
     lux = 0, pir_active = False, pir_sensitivity = 50, highlight = 100, highlight_time = 60,
     lowlight = 0, lowlight_time = 0, color_temp = 0, firmware_ver = [], resolution = ''1080p'',
     last_seen = now\<rparr>\<rparr>"

definition subscribe :: "'l \<Rightarrow> 'l bus \<Rightarrow> 'l bus" where
  "subscribe l b = b\<lparr>listeners := listeners b @ [l]\<rparr>"

definition publish ::
  "event_type \<Rightarrow> event_data \<Rightarrow> gtime \<Rightarrow> 'l bus \<Rightarrow> 'l bus \<times> ('l \<times> event_type \<times> event_data) list" where
  "publish evt dat now b =
     (let st = bus_status b;
          st1 = (case (evt, dat) of
                   (EventMotion, MotionData m t) \<Rightarrow>
                     (let s = st\<lparr>is_motion := m\<rparr> in if m then s\<lparr>motion_last_at := t\<rparr> else s)
                 | _ \<Rightarrow> st)
      in (b\<lparr>bus_status := st1\<lparr>last_seen := now\<rparr>\<rparr>, map (\<lambda>l. (l, evt, dat)) (listeners b)))"

definition set_motion :: "bool \<Rightarrow> gtime \<Rightarrow> 'l bus \<Rightarrow> 'l bus \<times> ('l \<times> event_type \<times> event_data) list" where
  "set_motion m now b = publish EventMotion (MotionData m now) now b"

definition update_status :: "device_status \<Rightarrow> gtime \<Rightarrow> 'l bus \<Rightarrow> 'l bus \<times> ('l \<times> event_type \<times> event_data) list" where
  "update_status st now b = publish EventDevice (StatusData st) now (b\<lparr>bus_status := st\<rparr>)"

text \<open>What \<^verbatim>\<open>SubscribeMotion\<close> and the event handler filter out of the calls.\<close>

definition motion_of :: "event_type \<Rightarrow> event_data \<Rightarrow> bool option" where
  "motion_of evt dat =
     (case (evt, dat) of (EventMotion, MotionData m t) \<Rightarrow> Some m | _ \<Rightarrow> None)"

subsection \<open>Pull points\<close>

record subscription =
  sub_created :: gtime
  sub_expires :: gtime
  last_motion :: bool
  event_chan :: "bool list"

type_synonym subscriptions = "string \<Rightarrow> subscription option"

definition chan_capacity :: nat where "chan_capacity = 10"

text \<open>
  The non-blocking send, and when the queue is full the oldest entry goes. The last send is a
  blocking one; None stands for a send that would block.
\<close>

definition chan_push :: "bool \<Rightarrow> bool list \<Rightarrow> bool list option" where
  "chan_push m q =
     (if length q < chan_capacity then Some (q @ [m])
      else let q' = (case q of [] \<Rightarrow> [] | _ # r \<Rightarrow> r)
           in if length q' < chan_capacity then Some (q' @ [m]) else None)"

definition broadcast_sub :: "bool \<Rightarrow> subscription \<Rightarrow> subscription" where
  "broadcast_sub m s =
     (case chan_push m (event_chan s) of Some q \<Rightarrow> s\<lparr>event_chan := q\<rparr> | None \<Rightarrow> s)"

definition broadcast_motion :: "bool \<Rightarrow> subscriptions \<Rightarrow> subscriptions" where
  "broadcast_motion m subs = (\<lambda>i. map_option (broadcast_sub m) (subs i))"

definition ten_minutes :: int where "ten_minutes = 10 * 60 * 1000000000"

definition create_pull_point :: "string \<Rightarrow> gtime \<Rightarrow> bool \<Rightarrow> subscriptions \<Rightarrow> subscriptions" where
  "create_pull_point new_id now motion subs =
     subs(new_id \<mapsto> \<lparr>sub_created = now, sub_expires = now + ten_minutes, last_motion = motion,
                   event_chan = []\<rparr>)"

text \<open>The first part of a pull: the subscription it uses, made up when there is none.\<close>

definition pull_target :: "string \<Rightarrow> gtime \<Rightarrow> subscriptions \<Rightarrow> string \<times> subscriptions" where
  "pull_target i now subs =
     (if subs i \<noteq> None then (i, subs)
      else if subs ''default'' \<noteq> None then (''default'', subs)
      else (''default'', subs(''default'' \<mapsto> \<lparr>sub_created = now, sub_expires = now + ten_minutes,
              last_motion = False, event_chan = []\<rparr>)))"

text \<open>
  The second part, three seconds at most: the oldest event of the channel or, after the timeout
  on an empty channel (\<open>arrived\<close> is an event that comes in time), the current status if
  it differs. The result is the motion value reported, if any.
\<close>

definition pull_wait :: "bool option \<Rightarrow> bool \<Rightarrow> subscription \<Rightarrow> bool option \<times> subscription" where
  "pull_wait arrived current s =
     (case (event_chan s, arrived) of
        (m # q, _) \<Rightarrow> (Some m, s\<lparr>event_chan := q, last_motion := m\<rparr>)
      | ([], Some m) \<Rightarrow> (Some m, s\<lparr>last_motion := m\<rparr>)
      | ([], None) \<Rightarrow>
          if current \<noteq> last_motion s then (Some current, s\<lparr>last_motion := current\<rparr>) else (None, s))"

definition pull_messages ::
  "string \<Rightarrow> gtime \<Rightarrow> bool option \<Rightarrow> bool \<Rightarrow> subscriptions \<Rightarrow> bool option \<times> subscriptions" where
  "pull_messages i now arrived current subs =
     (case pull_target i now subs of
        (k, subs1) \<Rightarrow>
          (case subs1 k of
             None \<Rightarrow> (None, subs1)
           | Some s \<Rightarrow> (case pull_wait arrived current s of (r, s') \<Rightarrow> (r, subs1(k \<mapsto> s')))))"

definition renew_sub :: "string \<Rightarrow> gtime \<Rightarrow> subscriptions \<Rightarrow> subscriptions" where
  "renew_sub i now subs =
     (case subs i of None \<Rightarrow> subs | Some s \<Rightarrow> subs(i \<mapsto> s\<lparr>sub_expires := now + ten_minutes\<rparr>))"

definition unsubscribe :: "string \<Rightarrow> subscriptions \<Rightarrow> subscriptions" where
  "unsubscribe i subs = subs(i := None)"

subsection \<open>Queues\<close>

text \<open>The last \<open>n\<close> elements of a list.\<close>

definition newest :: "nat \<Rightarrow> 'a list \<Rightarrow> 'a list" where
  "newest n xs = drop (length xs - n) xs"

lemma chan_push_newest:
  assumes "length q \<le> chan_capacity"
  shows "chan_push m q = Some (newest chan_capacity (q @ [m]))"
proof (cases "length q < chan_capacity")
  case True
  then show ?thesis by (simp add: chan_push_def newest_def)
next
  case False
  then have "length q = chan_capacity" using assms by simp
  then show ?thesis by (cases q) (simp_all add: chan_push_def newest_def chan_capacity_def)
qed

lemma newest_append_newest: "newest n (newest n xs @ ys) = newest n (xs @ ys)"
  by (cases "length xs \<le> n") (simp_all add: newest_def add.commute)

lemma length_newest [simp]: "length (newest n xs) = min n (length xs)"
  by (simp add: newest_def)

lemma newest_all [simp]: "length xs \<le> n \<Longrightarrow> newest n xs = xs"
  by (simp add: newest_def)

lemma broadcasts_queue:
  assumes "subs i = Some s" "length (event_chan s) \<le> chan_capacity"
  shows "fold broadcast_motion ms subs i = Some (s\<lparr>event_chan := newest chan_capacity (event_chan s @ ms)\<rparr>)"
  using assms
proof (induction ms arbitrary: subs s)
  case (Cons m ms)
  let ?s = "s\<lparr>event_chan := newest chan_capacity (event_chan s @ [m])\<rparr>"
  have "broadcast_motion m subs i = Some ?s"
    using Cons.prems by (simp add: broadcast_motion_def broadcast_sub_def chan_push_newest)
  then have "fold broadcast_motion ms (broadcast_motion m subs) i =
      Some (?s\<lparr>event_chan := newest chan_capacity (event_chan ?s @ ms)\<rparr>)"
    by (rule Cons.IH) simp
  then show ?case by (simp add: newest_append_newest)
qed simp

text \<open>Several pulls one after the other, with no event arriving while they wait.\<close>

fun pulls :: "nat \<Rightarrow> string \<Rightarrow> gtime \<Rightarrow> bool \<Rightarrow> subscriptions \<Rightarrow> bool option list" where
  "pulls 0 i now c subs = []"
| "pulls (Suc n) i now c subs =
     (case pull_messages i now None c subs of (r, subs') \<Rightarrow> r # pulls n i now c subs')"

lemma pulls_drain:
  "subs i = Some s \<Longrightarrow> pulls (length (event_chan s)) i now c subs = map Some (event_chan s)"
proof (induction "event_chan s" arbitrary: s subs)
  case (Cons m q)
  let ?s = "s\<lparr>event_chan := q, last_motion := m\<rparr>"
  have "pull_messages i now None c subs = (Some m, subs(i \<mapsto> ?s))"
    using Cons.prems Cons.hyps(2)[symmetric] by (simp add: pull_messages_def pull_target_def pull_wait_def)
  moreover have "pulls (length q) i now c (subs(i \<mapsto> ?s)) = map Some q"
    using Cons.hyps(1)[of ?s "subs(i \<mapsto> ?s)"] by simp
  ultimately show ?case by (simp flip: Cons.hyps(2))
qed simp

subsection \<open>Properties\<close>

text \<open>
  C16. Motion events reach a pull point in order and are never held up: however many are
  broadcast between two pulls, the queue holds the ten newest, oldest first, and as many pulls
  report them one by one, so that the last value reported is the last one broadcast.
\<close>

theorem pull_point_reports_newest:
  assumes "subs i = Some s" "event_chan s = []"
  shows "fold broadcast_motion ms subs i = Some (s\<lparr>event_chan := newest chan_capacity ms\<rparr>) \<and>
    pulls (min chan_capacity (length ms)) i now c (fold broadcast_motion ms subs) =
    map Some (newest chan_capacity ms)"
proof -
  let ?s = "s\<lparr>event_chan := newest chan_capacity ms\<rparr>"
  have q: "fold broadcast_motion ms subs i = Some ?s"
    using broadcasts_queue[of subs i s ms] assms by simp
  from pulls_drain[of _ i ?s now c] q show ?thesis by auto
qed

theorem pull_point_reports_newest_witness:
  "pulls (min chan_capacity (length [True, False])) ''a'' 5 False
      (fold broadcast_motion [True, False] (create_pull_point ''a'' 1 False Map.empty)) =
   map Some (newest chan_capacity [True, False])"
proof -
  let ?subs = "create_pull_point ''a'' 1 False Map.empty"
  have a: "?subs ''a'' = Some \<lparr>sub_created = 1, sub_expires = 1 + ten_minutes,
      last_motion = False, event_chan = []\<rparr>" by (simp add: create_pull_point_def)
  show ?thesis
    using pull_point_reports_newest[of ?subs "''a''" _ "[True, False]" 5 False] a by simp
qed

text \<open>
  Pull points never go away by themselves: whatever is broadcast, pulled and renewed, at
  whatever time, every pull point that was created and not unsubscribed is still there, so that
  their number exceeds the ten that the capabilities announce.
\<close>

datatype pull_op =
    Create string gtime bool
  | Broadcast bool
  | Pull string gtime "bool option" bool
  | RenewSub string gtime

fun pull_step :: "pull_op \<Rightarrow> subscriptions \<Rightarrow> subscriptions" where
  "pull_step (Create i now m) subs = create_pull_point i now m subs"
| "pull_step (Broadcast m) subs = broadcast_motion m subs"
| "pull_step (Pull i now a c) subs = snd (pull_messages i now a c subs)"
| "pull_step (RenewSub i now) subs = renew_sub i now subs"

lemma pull_step_keeps: "subs i \<noteq> None \<Longrightarrow> pull_step opn subs i \<noteq> None"
  by (cases opn) (auto simp: create_pull_point_def broadcast_motion_def pull_messages_def
      pull_target_def renew_sub_def split: option.splits prod.splits if_splits)

lemma pull_steps_keep: "subs i \<noteq> None \<Longrightarrow> fold pull_step ops subs i \<noteq> None"
  by (induction ops arbitrary: subs) (auto simp: pull_step_keeps simp del: not_None_eq)

lemma pull_created: "Create i now m \<in> set ops \<Longrightarrow> fold pull_step ops subs i \<noteq> None"
proof (induction ops arbitrary: subs)
  case (Cons opn ops)
  show ?case
  proof (cases "opn = Create i now m")
    case True
    then show ?thesis using pull_steps_keep[of "create_pull_point i now m subs" i ops]
      by (simp add: create_pull_point_def)
  next
    case False
    then show ?thesis using Cons by auto
  qed
qed simp

theorem pull_points_never_expire:
  "{i. \<exists>now m. Create i now m \<in> set ops} \<subseteq> dom (fold pull_step ops subs) \<and>
   (finite (dom (fold pull_step ops subs)) \<longrightarrow>
      card {i. \<exists>now m. Create i now m \<in> set ops} \<le> card (dom (fold pull_step ops subs)))"
proof -
  have "{i. \<exists>now m. Create i now m \<in> set ops} \<subseteq> dom (fold pull_step ops subs)"
    using pull_created by fast
  then show ?thesis by (simp add: card_mono)
qed

theorem pull_points_never_expire_witness:
  "{i. \<exists>now m. Create i now m \<in> set [Create ''a'' 1 True, Pull ''b'' (10 ^ 20) None False]} \<subseteq>
   dom (fold pull_step [Create ''a'' 1 True, Pull ''b'' (10 ^ 20) None False] Map.empty)"
  using pull_points_never_expire by blast

text \<open>
  Publishing a motion event is atomic for the status and calls every listener once, in the
  order of subscription; but a status that was read before it and written back after it, as
  the ONVIF media service does to change the resolution, undoes it: the listeners have been
  told of motion and the status says there is none.
\<close>

theorem status_write_back_loses_motion:
  fixes b :: "'l bus" and r :: string
  defines "stale \<equiv> (bus_status b)\<lparr>resolution := r\<rparr>"
  shows "is_motion (bus_status (fst (set_motion m t b))) = m \<and>
    map (\<lambda>(l, evt, dat). (l, motion_of evt dat)) (snd (set_motion m t b)) =
      map (\<lambda>l. (l, Some m)) (listeners b) \<and>
    is_motion (bus_status (fst (update_status stale t' (fst (set_motion m t b))))) = is_motion (bus_status b) \<and>
    (\<forall>(l, evt, dat) \<in> set (snd (update_status stale t' (fst (set_motion m t b)))). motion_of evt dat = None)"
  by (auto simp: stale_def set_motion_def update_status_def publish_def motion_of_def Let_def)

end
