(* ===== verification/Home_Control.thy ===== *)
theory Home_Control
  imports Xiongmai_Client Events_Bus Sdcard_Transfer
begin

text \<open>
  From Home Assistant to the lamp and back: the MQTT client (\<^verbatim>\<open>pkg/mqtt\<close>), the proxy in
  front of the drivers (\<^verbatim>\<open>pkg/app/bridge_manager.go\<close>), the drivers of the two cameras
  (\<^verbatim>\<open>pkg/driver\<close>, \<^verbatim>\<open>pkg/xiongmai/driver.go\<close>) and the dispatcher of what comes over
  the data channel (\<^verbatim>\<open>pkg/webrtc/mcu_dispatch.go\<close>). A message that is published is a pair of
  topic and payload.
\<close>

type_synonym publication = "string \<times> string"

subsection \<open>Topics\<close>

record mqtt_client =
  mq_device :: string
  mq_prefix :: string
  mq_node :: string
  mq_base :: string
  mq_subscribed :: "string list"

definition underscored :: "string \<Rightarrow> string" where
  "underscored s = map (\<lambda>c. if c = CHR ''-'' then CHR ''_'' else c) s"

definition base_prefix :: "string \<Rightarrow> string" where
  "base_prefix p = (let b = trim_suffix p ''/'' in if b = [] then ''steinel'' else b)"

definition new_mqtt :: "string \<Rightarrow> string \<Rightarrow> mqtt_client" where
  "new_mqtt prefix dev =
     (let clean = (if dev = [] then ''camera'' else underscored dev) in
      \<lparr>mq_device = dev, mq_prefix = prefix, mq_node = ''steinel_'' @ clean,
       mq_base = base_prefix prefix @ ''/'' @ (if dev \<noteq> [] then dev else clean), mq_subscribed = []\<rparr>)"

text \<open>
  \<^verbatim>\<open>OnConnect\<close> subscribes to the commands under the base topic it finds; the list holds the base
  topics of the subscriptions of the running session, which a reconnect starts anew.
\<close>

definition on_connect :: "mqtt_client \<Rightarrow> mqtt_client" where
  "on_connect m = m\<lparr>mq_subscribed := [mq_base m]\<rparr>"

definition update_device_info :: "string \<Rightarrow> mqtt_client \<Rightarrow> mqtt_client" where
  "update_device_info dev m =
     (if dev = [] \<or> mq_device m = dev then m
      else m\<lparr>mq_device := dev, mq_node := ''steinel_'' @ underscored dev,
             mq_base := base_prefix (mq_prefix m) @ ''/'' @ dev\<rparr>)"

text \<open>
  What the broker delivers for the two filters of a subscription, with a single level in place
  of the wildcard.
\<close>

definition delivers :: "string \<Rightarrow> string \<Rightarrow> bool" where
  "delivers base topic \<longleftrightarrow>
     topic = base @ ''/light/brightness/set'' \<or>
     (has_prefix topic (base @ ''/'') \<and> has_suffix topic ''/set'' \<and>
      length base + 5 \<le> length topic \<and>
      CHR ''/'' \<notin> set (take (length topic - length base - 5) (drop (length base + 1) topic)))"

definition gets_command :: "mqtt_client \<Rightarrow> string \<Rightarrow> bool" where
  "gets_command m topic \<longleftrightarrow> list_ex (\<lambda>b. delivers b topic) (mq_subscribed m)"

subsection \<open>Discovery\<close>

datatype entity_values = NumberRange int int | Choice "string list" | Switch | NoCommand

record entity =
  en_component :: string
  en_object :: string
  en_state :: string
  en_command :: string
  en_values :: entity_values

text \<open>The entities, with the state and command topics below the base topic.\<close>

definition entities :: "entity list" where
  "entities =
     [\<lparr>en_component = ''number'', en_object = ''highlight'', en_state = ''/highlight/state'',
       en_command = ''/highlight/set'', en_values = NumberRange 10 100\<rparr>,
      \<lparr>en_component = ''select'', en_object = ''mode'', en_state = ''/mode/state'',
       en_command = ''/mode/set'', en_values = Choice [''Sensor'', ''Dauerlicht'', ''Aus'']\<rparr>,
      \<lparr>en_component = ''binary_sensor'', en_object = ''pir_status'', en_state = ''/pir/state'',
       en_command = [], en_values = NoCommand\<rparr>,
      \<lparr>en_component = ''number'', en_object = ''pir_sensitivity'', en_state = ''/pir_sensitivity/state'',
       en_command = ''/pir_sensitivity/set'', en_values = NumberRange 0 100\<rparr>,
      \<lparr>en_component = ''number'', en_object = ''lux_threshold'', en_state = ''/lux_threshold/state'',
       en_command = ''/lux_threshold/set'', en_values = NumberRange 2 2000\<rparr>,
      \<lparr>en_component = ''number'', en_object = ''duration'', en_state = ''/duration/state'',
       en_command = ''/duration/set'', en_values = NumberRange 5 900\<rparr>,
      \<lparr>en_component = ''number'', en_object = ''lowlight'', en_state = ''/lowlight/state'',
       en_command = ''/lowlight/set'', en_values = NumberRange 0 50\<rparr>,
      \<lparr>en_component = ''siren'', en_object = ''siren'', en_state = ''/siren/state'',
       en_command = ''/siren/set'', en_values = Switch\<rparr>,
      \<lparr>en_component = ''select'', en_object = ''resolution'', en_state = ''/resolution/state'',
       en_command = ''/resolution/set'', en_values = Choice [''1080p'', ''720p'', ''360p'']\<rparr>,
      \<lparr>en_component = ''event'', en_object = ''recording'', en_state = ''/event/recording'',
       en_command = [], en_values = NoCommand\<rparr>,
      \<lparr>en_component = ''sensor'', en_object = ''recording_latest'', en_state = ''/recording/latest'',
       en_command = [], en_values = NoCommand\<rparr>]"

subsection \<open>Commands\<close>

datatype callback =
    SetLampMode string
  | SetHighlight int
  | SetHighlightTime int
  | SetLowlight int
  | SetLowlightTime int
  | SetPirSensitivity int
  | SetLuxThreshold int
  | SetSiren bool
  | SetResolution string

text \<open>
  \<^verbatim>\<open>handleCommand\<close>: the callbacks it calls and, on a live connection, the states it publishes.
  The reader gives the member \<^verbatim>\<open>state\<close> of a JSON payload, empty if there is none.
\<close>

definition says_on :: "string \<Rightarrow> bool" where
  "says_on s \<longleftrightarrow> equal_fold s ''ON'' \<or> s = ''1'' \<or> equal_fold s ''true''"

definition number_command :: "string \<Rightarrow> (int \<Rightarrow> callback) \<Rightarrow> callback list" where
  "number_command p f = (case parse_int64 p of Some v \<Rightarrow> [f v] | None \<Rightarrow> [])"

definition mode_command :: "string \<Rightarrow> callback list" where
  "mode_command p =
     (let l = to_lower p in
      if l \<in> {''sensor'', ''auto'', ''2''} then [SetLampMode ''auto'']
      else if l \<in> {''dauerlicht'', ''on'', ''1''} then [SetLampMode ''on'']
      else if l \<in> {''aus'', ''off'', ''0''} then [SetLampMode ''off''] else [])"

definition handle_command ::
  "(string \<Rightarrow> string option) \<Rightarrow> bool \<Rightarrow> string \<Rightarrow> string \<Rightarrow> string \<Rightarrow> callback list \<times> publication list" where
  "handle_command rd live base topic payload =
     (let p = trim_space payload; ends = has_suffix topic in
      if ends ''/highlight/set'' \<or> ends ''/light/brightness/set'' then (number_command p SetHighlight, [])
      else if ends ''/light/set'' then ([SetLampMode (if equal_fold p ''ON'' then ''on'' else ''off'')], [])
      else if ends ''/mode/set'' then (mode_command p, [])
      else if ends ''/pir_sensitivity/set'' then (number_command p SetPirSensitivity, [])
      else if ends ''/lux_threshold/set'' \<or> ends ''/lux/set'' then
        (number_command p SetLuxThreshold,
         (case parse_int64 p of
            Some v \<Rightarrow> (if live then [(base @ ''/lux_threshold/state'', dec_of_int v), (base @ ''/lux/state'', dec_of_int v)] else [])
          | None \<Rightarrow> []))
      else if ends ''/duration/set'' then (number_command p SetHighlightTime, [])
      else if ends ''/lowlight/set'' then (number_command p SetLowlight, [])
      else if ends ''/siren/set'' then
        (let on = (if has_prefix p ''{'' then (case rd p of Some s \<Rightarrow> says_on s | None \<Rightarrow> False) else says_on p) in
         ([SetSiren on], if live then [(base @ ''/siren/state'', if on then ''ON'' else ''OFF'')] else []))
      else if ends ''/resolution/set'' then ([SetResolution p], [])
      else ([], []))"

subsection \<open>States\<close>

definition on_off :: "bool \<Rightarrow> string" where
  "on_off b = (if b then ''ON'' else ''OFF'')"

definition publish_motion :: "string \<Rightarrow> bool \<Rightarrow> publication list" where
  "publish_motion base m = [(base @ ''/motion/state'', on_off m)]"

definition publish_status :: "string \<Rightarrow> device_status \<Rightarrow> publication list" where
  "publish_status base st =
     [(base @ ''/light/state'', on_off (lamp_mode st = 1 \<or> lamp_mode st = 2)),
      (base @ ''/mode/state'', if lamp_mode st = 1 then ''Dauerlicht'' else if lamp_mode st = 2 then ''Sensor'' else ''Aus'')] @
     (if highlight st > 0 then [(base @ ''/highlight/state'', dec_of_int (highlight st)),
                                (base @ ''/light/brightness/state'', dec_of_int (highlight st))] else []) @
     [(base @ ''/duration/state'', dec_of_int (highlight_time st)),
      (base @ ''/lowlight/state'', dec_of_int (lowlight st))] @
     (if lux st \<ge> 2 then [(base @ ''/lux_threshold/state'', dec_of_int (lux st)),
                          (base @ ''/lux/state'', dec_of_int (lux st))] else []) @
     [(base @ ''/pir_sensitivity/state'', dec_of_int (pir_sensitivity st)),
      (base @ ''/pir/state'', on_off (pir_active st))] @
     (if resolution st \<noteq> [] then [(base @ ''/resolution/state'', resolution st)] else [])"

text \<open>The topics of a new recording, and the event type that is published.\<close>

definition recording_event_type :: "string \<Rightarrow> string" where
  "recording_event_type t =
     (let l = to_lower t in if l \<in> {''manual'', ''alarm'', ''record'', ''plan''} then l else ''motion'')"

text \<open>The JSON codec writes the payload from type, item, and the URLs behind the bridge's address.\<close>

definition publish_recording ::
  "(string \<Rightarrow> recording_item \<Rightarrow> string \<Rightarrow> string option \<Rightarrow> string) \<Rightarrow> string \<Rightarrow> string \<Rightarrow> recording_item \<Rightarrow> publication list" where
  "publish_recording js base url it =
     (if item_id it = [] \<or> start_time it = 0 then []
      else let d = js (recording_event_type (event_type it)) it (url @ video_url it)
                     (if thumbnail_url it \<noteq> [] then Some (url @ thumbnail_url it) else None)
        in [(base @ ''/event/recording'', d), (base @ ''/recording/latest'', d)])"

text \<open>The listener on the event bus.\<close>

definition mqtt_listener :: "string \<Rightarrow> event_type \<Rightarrow> event_data \<Rightarrow> publication list" where
  "mqtt_listener base evt dat =
     (case (evt, dat) of
        (EventMotion, MotionData m t) \<Rightarrow> publish_motion base m
      | (EventDevice, StatusData st) \<Rightarrow> publish_status base st
      | _ \<Rightarrow> [])"

end
