(* ===== verification/Camera_Drivers.thy ===== *)
theory Camera_Drivers
  imports Home_Control
begin

text \<open>
  The drivers of the two cameras behind \<^verbatim>\<open>BridgeManager\<close>: what a callback does to the
  L 625 over its data channel (\<^verbatim>\<open>pkg/driver/l625.go\<close>, \<^verbatim>\<open>pkg/webrtc/mcu_dispatch.go\<close>) and
  to the L 620 over its control connection (\<^verbatim>\<open>pkg/driver/l620.go\<close>,
  \<^verbatim>\<open>pkg/xiongmai/driver.go\<close>), how reports of the cameras reach the status, and how
  the two supervisors space their attempts.
\<close>

subsection \<open>The L 625\<close>

datatype dc_command =
    SetVideoSetting string
  | TranCtl string
  | AlarmVoiceCtl bool

datatype link = NoBridge | NoChannel | ChannelOpen

datatype driver_error = CameraOffline | ChannelMissing | CommandError | XmError xm_error

definition dc_send :: "link \<Rightarrow> dc_command \<Rightarrow> driver_error + dc_command option" where
  "dc_send l cmd = (if l = ChannelOpen then Inr (Some cmd) else Inl ChannelMissing)"

definition mcu_send :: "link \<Rightarrow> string option \<Rightarrow> driver_error + dc_command option" where
  "mcu_send l b64 =
     (if l = NoBridge then Inl CameraOffline
      else case b64 of None \<Rightarrow> Inl CommandError | Some s \<Rightarrow> dc_send l (TranCtl s))"

definition cmd_get_light_info :: string where "cmd_get_light_info = ''5A010F6A''"
definition cmd_light_on :: string where "cmd_light_on = ''5A020101''"
definition cmd_light_off :: string where "cmd_light_off = ''5A020100''"
definition cmd_light_auto :: string where "cmd_light_auto = ''5A020102''"

definition bridge_lamp :: "string \<Rightarrow> string option" where
  "bridge_lamp md =
     (let l = to_lower md in
      if l = ''on'' \<or> l = ''1'' then build_command cmd_light_on
      else if l = ''off'' \<or> l = ''0'' then build_command cmd_light_off
      else if l = ''auto'' \<or> l = ''2'' then build_command cmd_light_auto else None)"

definition l625_apply :: "link \<Rightarrow> callback \<Rightarrow> driver_error + dc_command option" where
  "l625_apply l cb =
     (case cb of
        SetLampMode md \<Rightarrow> mcu_send l (bridge_lamp md)
      | SetHighlight v \<Rightarrow> mcu_send l (build_set_highlight v)
      | SetHighlightTime v \<Rightarrow> mcu_send l (build_set_highlight_time v)
      | SetLowlight v \<Rightarrow> mcu_send l (build_set_lowlight v)
      | SetLowlightTime v \<Rightarrow> mcu_send l (build_set_lowlight_time v)
      | SetPirSensitivity v \<Rightarrow> mcu_send l (build_set_pir_sensitivity v)
      | SetLuxThreshold v \<Rightarrow> mcu_send l (build_set_lux_threshold v)
      | SetSiren on \<Rightarrow> (if l = NoBridge then Inr None else dc_send l (AlarmVoiceCtl on))
      | SetResolution r \<Rightarrow> (if l = NoBridge then Inr None else dc_send l (SetVideoSetting r)))"

text \<open>\<^verbatim>\<open>BridgeManager\<close>: without a driver, resolution and siren are no errors.\<close>

definition manager_apply :: "(callback \<Rightarrow> driver_error + 'c option) option \<Rightarrow> callback \<Rightarrow> driver_error + 'c option" where
  "manager_apply d cb =
     (case d of
        Some f \<Rightarrow> f cb
      | None \<Rightarrow> (case cb of SetResolution _ \<Rightarrow> Inr None | SetSiren _ \<Rightarrow> Inr None | _ \<Rightarrow> Inl CameraOffline))"

text \<open>\<^verbatim>\<open>onMCUStatus\<close>: the new status, and whether motion is reported.\<close>

definition on_mcu_status :: "string \<Rightarrow> mcu_config \<Rightarrow> device_status \<Rightarrow> device_status" where
  "on_mcu_status res cfg st =
     st\<lparr>lamp_mode := mode cfg, lux := lux_value cfg, pir_active := pir_on cfg, pir_sensitivity := pir_sens cfg,
        highlight := high_light cfg, highlight_time := high_light_time cfg, lowlight := low_light cfg,
        lowlight_time := low_light_time cfg, color_temp := color_temperature cfg, resolution := res\<rparr>"

definition reports_motion :: "mcu_config \<Rightarrow> bool" where
  "reports_motion cfg \<longleftrightarrow> motion_detected cfg \<or> photo_detection cfg"

subsection \<open>What comes over the data channel\<close>

text \<open>
  A JSON message with the members the dispatcher looks at: \<^verbatim>\<open>resp\<close>, and of \<^verbatim>\<open>info\<close>, if
  it is an object, \<^verbatim>\<open>data\<close> and \<^verbatim>\<open>FW_version\<close> (empty when missing).
\<close>

record dc_json =
  dj_resp :: string
  dj_info :: "(string \<times> string) option"

datatype dc_effect =
    SdJson
  | SdChunk
  | McuReport mcu_config
  | McuIgnored
  | FirmwareReport string
  | MotionNotice
  | Ignored

definition sd_responses :: "string list" where
  "sd_responses = [''get_event_list'', ''get_event_video'', ''get_snapshot'']"

definition mentions_motion :: "string \<Rightarrow> bool" where
  "mentions_motion s =
     (let l = to_lower s in
      list_ex (contains l) [''alarm'', ''motion'', ''pir'', ''event'', ''doorbell''])"

definition dispatch_json :: "bool \<Rightarrow> dc_json \<Rightarrow> string \<Rightarrow> dc_effect" where
  "dispatch_json has_sd j text =
     (if has_sd \<and> dj_resp j \<in> set sd_responses then SdJson
      else case dj_info j of
        Some (b64, fw) \<Rightarrow>
          (if b64 \<noteq> [] then
             (case parse_base64_data b64 of FrameConfig cfg \<Rightarrow> McuReport cfg | _ \<Rightarrow> McuIgnored)
           else if dj_resp j = ''get_device_info'' then FirmwareReport fw
           else if mentions_motion text then MotionNotice else Ignored)
      | None \<Rightarrow>
          (if dj_resp j = ''get_device_info'' then Ignored
           else if mentions_motion text then MotionNotice else Ignored))"

definition dispatch_message :: "(string \<Rightarrow> dc_json option) \<Rightarrow> bool \<Rightarrow> string \<Rightarrow> dc_effect" where
  "dispatch_message rd has_sd text =
     (if text = [] then Ignored
      else case (if text ! 0 = CHR ''{'' then rd text else None) of
             Some j \<Rightarrow> dispatch_json has_sd j text
           | None \<Rightarrow> (if has_sd then SdChunk else Ignored))"

subsection \<open>Motion and its timer\<close>

text \<open>
  The motion flag with the timer that takes it back; every motion report restarts the timer, a
  notification only sets the flag.
\<close>

record motion_ctl =
  mc_motion :: bool
  mc_deadline :: "gtime option"

definition motion_timeout :: int where "motion_timeout = 10 * 1000000000"

definition fire_timer :: "gtime \<Rightarrow> motion_ctl \<Rightarrow> motion_ctl" where
  "fire_timer now m =
     (case mc_deadline m of
        Some d \<Rightarrow> if d \<le> now then \<lparr>mc_motion = False, mc_deadline = None\<rparr> else m
      | None \<Rightarrow> m)"

definition motion_step :: "gtime \<times> dc_effect \<Rightarrow> motion_ctl \<Rightarrow> motion_ctl" where
  "motion_step ev m0 =
     (let (now, e) = ev; m = fire_timer now m0 in
      case e of
        McuReport cfg \<Rightarrow>
          (if reports_motion cfg then \<lparr>mc_motion = True, mc_deadline = Some (now + motion_timeout)\<rparr> else m)
      | MotionNotice \<Rightarrow> m\<lparr>mc_motion := True\<rparr>
      | _ \<Rightarrow> m)"

definition motion_at :: "gtime \<Rightarrow> (gtime \<times> dc_effect) list \<Rightarrow> motion_ctl \<Rightarrow> motion_ctl" where
  "motion_at now evs m = fire_timer now (fold motion_step evs m)"

subsection \<open>The supervisor of the L 625\<close>

definition second :: int where "second = 1000000000"

definition calculate_backoff :: "int \<Rightarrow> int" where
  "calculate_backoff n =
     (if n \<le> 1 then 15 * second
      else if n \<ge> 5 then 240 * second
      else let d = 15 * second * 2 ^ nat (n - 1) in if d > 240 * second then 240 * second else d)"

text \<open>An attempt: it fails in one of its three stages, or a session runs for some time.\<close>

datatype attempt = InitFailed | ConnectFailed | PortFailed | StreamFailed | Session int

definition after_attempt :: "attempt \<Rightarrow> int \<Rightarrow> int \<times> int" where
  "after_attempt a failures =
     (case a of
        InitFailed \<Rightarrow> (failures, 5 * second)
      | Session len \<Rightarrow> (if len > 60 * second then 0 else failures + 1, 60 * second)
      | _ \<Rightarrow> (failures + 1, calculate_backoff (failures + 1)))"

fun attempt_waits :: "attempt list \<Rightarrow> int \<Rightarrow> int list" where
  "attempt_waits [] f = []"
| "attempt_waits (a # as) f = (case after_attempt a f of (f', w) \<Rightarrow> w # attempt_waits as f')"

subsection \<open>The L 620\<close>

definition apply_mcu_config :: "xm_config \<Rightarrow> device_status \<Rightarrow> device_status" where
  "apply_mcu_config k st =
     st\<lparr>lamp_mode := (if xm_mode k = 3 then 1 else if xm_mode k = 1 then 2 else 0),
        pir_active := (distance k > 0 \<and> xm_mode k \<noteq> 0),
        highlight := (if xm_highlight k > 0 then xm_highlight k else highlight st),
        highlight_time := (if highlight_delay k > 0 then highlight_delay k else highlight_time st),
        lux := (if twilight_lux k > 0 then twilight_lux k else lux st),
        pir_sensitivity := (if distance k \<ge> 10 then 100 else if distance k \<ge> 6 then 66
                            else if distance k > 0 then 33 else pir_sensitivity st),
        lowlight := xm_lowlight k,
        lowlight_time := (case lowlight_duration k of Hours h \<Rightarrow> h * 60 | AllNight \<Rightarrow> lowlight_time st)\<rparr>"

definition normal_resolution :: "string \<Rightarrow> string" where
  "normal_resolution r =
     (if equal_fold r ''360p'' then ''360p'' else if equal_fold r ''720p'' then ''720p'' else ''1080p'')"

definition stream_subtype :: "string \<Rightarrow> nat" where
  "stream_subtype r = (if equal_fold r ''360p'' then 1 else 0)"

text \<open>\<^verbatim>\<open>SetNightlightDuration\<close>: the number sent, and the new minutes if the text is a number.\<close>

definition nightlight_duration :: "string \<Rightarrow> int \<times> int option" where
  "nightlight_duration val =
     (let v = to_lower (trim_space val); hours = parse_int64 (trim_suffix v ''h'') in
      (if v = ''all_night'' \<or> v = ''ganze nacht'' then 20
       else if v = ''off'' \<or> v = ''aus'' then 0
       else if has_suffix v ''h'' then (case hours of Some h \<Rightarrow> wrap64 (h * 2) | None \<Rightarrow> 0)
       else 0,
       map_option (\<lambda>h. wrap64 (h * 60)) hours))"

definition distance_of_percent :: "int \<Rightarrow> int" where
  "distance_of_percent p = (if p \<ge> 67 then 10 else if p \<ge> 34 then 6 else 3)"

text \<open>A setter: the command, and if it succeeds the new status.\<close>

definition xm_set ::
  "xm_prims \<Rightarrow> string \<Rightarrow> (device_status \<Rightarrow> device_status) \<Rightarrow> xm_client \<times> device_status \<Rightarrow>
   xm_error option \<times> xm_client \<times> device_status" where
  "xm_set pr cmd upd s =
     (case send_mcu_command pr cmd (fst s) of
        (Some e, c) \<Rightarrow> (Some e, c, snd s)
      | (None, c) \<Rightarrow> (None, c, upd (snd s)))"

definition lamp_on_word :: "string \<Rightarrow> bool" where
  "lamp_on_word md = (let l = to_lower md in l = ''on'' \<or> l = ''1'' \<or> l = ''dauerlicht'')"

definition l620_apply ::
  "xm_prims \<Rightarrow> callback \<Rightarrow> xm_client \<times> device_status \<Rightarrow> xm_error option \<times> xm_client \<times> device_status" where
  "l620_apply pr cb s =
     (case cb of
        SetLampMode m \<Rightarrow>
          (case set_light_state pr (lamp_on_word m) (fst s) of
             (Some e, c) \<Rightarrow> (Some e, c, snd s)
           | (None, c) \<Rightarrow> (None, c, (snd s)\<lparr>lamp_mode := (if lamp_on_word m then 1 else 2)\<rparr>))
      | SetHighlight v \<Rightarrow> xm_set pr (build_xm_highlight v) (\<lambda>st. st\<lparr>highlight := v\<rparr>) s
      | SetHighlightTime v \<Rightarrow> xm_set pr (build_xm_highlight_delay v) (\<lambda>st. st\<lparr>highlight_time := v\<rparr>) s
      | SetLowlight v \<Rightarrow> xm_set pr (build_xm_lowlight v) (\<lambda>st. st\<lparr>lowlight := v\<rparr>) s
      | SetLowlightTime v \<Rightarrow>
          (let (n, minutes) = nightlight_duration (dec_of_int (go_div v 60) @ ''h'') in
           xm_set pr (build_xm_lowlight_duration n)
             (\<lambda>st. case minutes of Some t \<Rightarrow> st\<lparr>lowlight_time := t\<rparr> | None \<Rightarrow> st) s)
      | SetPirSensitivity p \<Rightarrow>
          (let d = distance_of_percent p in
           xm_set pr (build_xm_distance d)
             (\<lambda>st. st\<lparr>pir_sensitivity := (if d \<ge> 8 then 100 else if d \<ge> 5 then 66 else 33)\<rparr>) s)
      | SetLuxThreshold v \<Rightarrow> xm_set pr (build_set_lux v) (\<lambda>st. st\<lparr>lux := v\<rparr>) s
      | SetSiren _ \<Rightarrow> (None, s)
      | SetResolution r \<Rightarrow> (None, fst s, (snd s)\<lparr>resolution := normal_resolution r\<rparr>))"

definition sync_initial_state :: "xm_prims \<Rightarrow> string \<Rightarrow> xm_client \<times> device_status \<Rightarrow> xm_client \<times> device_status" where
  "sync_initial_state pr res s =
     (let st = (snd s)\<lparr>resolution := res, firmware_ver := ''Xiongmai-Sofia''\<rparr> in
      case query_mcu_config pr (fst s) of
        (Inr k, c) \<Rightarrow> (c, apply_mcu_config k st)
      | (Inl _, c) \<Rightarrow> (c, st))"

subsection \<open>The supervisor of the L 620\<close>

text \<open>
  Its turns: a reconnect while the client is not logged in (with the random bytes and
  what the camera will send, or without reaching the camera), a heartbeat while it is. \<open>lost\<close> counts the heartbeats
  that failed; None is a panic of the process.
\<close>

record xm_supervisor =
  sup_client :: xm_client
  sup_status :: device_status
  sup_backoff :: int
  lost :: nat

datatype sup_event = Reconnect bytes "wire list" | DialFailed | Heartbeat

definition next_backoff :: "int \<Rightarrow> int" where
  "next_backoff b = (if b < 60 * second then (if b * 2 > 60 * second then 60 * second else b * 2) else b)"

definition xm_sup_step :: "xm_prims \<Rightarrow> string \<Rightarrow> sup_event \<Rightarrow> xm_supervisor \<Rightarrow> xm_supervisor option" where
  "xm_sup_step pr res ev s =
     (case ev of
        Reconnect random ws \<Rightarrow>
          (if logged_in (sup_client s) then Some s
           else case connect pr random ws (sup_client s) of
                  (err, c) \<Rightarrow>
                    (if err = None \<and> logged_in c then
                       let c1 = snd (enable_rtsp pr c); c2 = snd (ensure_h264 pr c1);
                           (c3, st) = sync_initial_state pr res (c2, sup_status s)
                       in Some (s\<lparr>sup_client := c3, sup_status := st, sup_backoff := 5 * second\<rparr>)
                     else Some (s\<lparr>sup_client := c, sup_backoff := next_backoff (sup_backoff s)\<rparr>)))
      | DialFailed \<Rightarrow>
          Some (if logged_in (sup_client s) then s else s\<lparr>sup_backoff := next_backoff (sup_backoff s)\<rparr>)
      | Heartbeat \<Rightarrow>
          (if \<not> logged_in (sup_client s) then Some s
           else case send_keep_alive pr (sup_client s) of
                  (None, c) \<Rightarrow> Some (s\<lparr>sup_client := c\<rparr>)
                | (Some _, c) \<Rightarrow>
                    map_option (\<lambda>c1. s\<lparr>sup_client := c1, sup_backoff := 5 * second, lost := Suc (lost s)\<rparr>)
                      (xm_close pr c)))"

fun xm_sup_run :: "xm_prims \<Rightarrow> string \<Rightarrow> sup_event list \<Rightarrow> xm_supervisor \<Rightarrow> xm_supervisor option" where
  "xm_sup_run pr res [] s = Some s"
| "xm_sup_run pr res (e # es) s = Option.bind (xm_sup_step pr res e s) (xm_sup_run pr res es)"

end
