(* ===== verification/Rtsp_Server.thy ===== *)
theory Rtsp_Server
  imports Recording_Cache
begin

text \<open>
  The RTSP server (\<^verbatim>\<open>pkg/rtsp\<close>): the callbacks that gortsplib makes for the requests of a
  client, the talk channel with its one talker, the count of playing clients, and the
  connection wrapper that takes interleaved audio out of the byte stream of a client before gortsplib sees it.
\<close>

subsection \<open>State\<close>

text \<open>
  Connections and sessions are numbers; a session exists from \<^verbatim>\<open>SETUP\<close> on. The marks that
  \<^verbatim>\<open>SetUserData\<close> leaves on them are sets.
\<close>

record rtsp_server =
  rs_user :: string
  rs_path :: string
  rs_codec :: string
  rs_started :: bool
  rs_stream :: bool
  marked_conns :: "nat set"
  marked_sessions :: "nat set"
  playing :: "nat list"
  active_clients :: int
  talker :: "nat option"
  last_talk :: gtime

definition new_rtsp :: "string \<Rightarrow> string \<Rightarrow> string \<Rightarrow> rtsp_server" where
  "new_rtsp path codec user =
     \<lparr>rs_user = user,
      rs_path = (let p = trim_prefix path ''/'' in if p = [] then ''steinel'' else p),
      rs_codec = (if to_lower (trim_space codec) = ''pcmu'' then ''pcmu'' else ''aac''),
      rs_started = False, rs_stream = False, marked_conns = {}, marked_sessions = {}, playing = [],
      active_clients = 0, talker = None, last_talk = 0\<rparr>"

definition rtsp_start :: "bool \<Rightarrow> rtsp_server \<Rightarrow> rtsp_server" where
  "rtsp_start listens s = (if listens then s\<lparr>rs_started := True, rs_stream := True\<rparr> else s)"

definition rtsp_close :: "rtsp_server \<Rightarrow> rtsp_server" where
  "rtsp_close s = s\<lparr>rs_started := False, rs_stream := False\<rparr>"

definition active_count :: "rtsp_server \<Rightarrow> int" where
  "active_count s = (if active_clients s < 0 then 0 else active_clients s)"

subsection \<open>Paths and credentials\<close>

definition check_path :: "string \<Rightarrow> string \<Rightarrow> bool" where
  "check_path path_name p0 =
     (let p1 = trim_prefix p0 ''/'';
          p = takeWhile (\<lambda>c. c \<noteq> CHR ''?'') p1;
          clean = trim_prefix path_name ''/''
      in p = [] \<or> p = clean \<or> p = ''live'' \<or> p = ''steinel'' \<or> p = clean @ ''/main'' \<or> p = clean @ ''/sub'' \<or>
         p = ''live/main'' \<or> p = ''live/sub'' \<or> p = ''cam/realmonitor'')"

text \<open>
  A request as the callbacks see it: connection and session, the header \<^verbatim>\<open>Authorization\<close>
  (None if there is none), the path.
\<close>

record rtsp_request =
  rq_conn :: nat
  rq_session :: "nat option"
  rq_auth :: "string option"
  rq_path :: string

definition mark_conn :: "rtsp_request \<Rightarrow> rtsp_server \<Rightarrow> rtsp_server" where
  "mark_conn r s = s\<lparr>marked_conns := insert (rq_conn r) (marked_conns s)\<rparr>"

definition mark_session :: "nat option \<Rightarrow> rtsp_server \<Rightarrow> rtsp_server" where
  "mark_session so s = (case so of Some n \<Rightarrow> s\<lparr>marked_sessions := insert n (marked_sessions s)\<rparr> | None \<Rightarrow> s)"

text \<open>
  \<^verbatim>\<open>validateAuth\<close>; checking the header against user, password and nonce is the library's. The session is
  None where the callback passes none.
\<close>

definition validate_auth ::
  "(rtsp_request \<Rightarrow> bool) \<Rightarrow> rtsp_request \<Rightarrow> nat option \<Rightarrow> rtsp_server \<Rightarrow> bool \<times> rtsp_server" where
  "validate_auth valid r so s =
     (if rs_user s = [] then (True, s)
      else if rq_auth r = None \<and> (\<exists>n. so = Some n \<and> n \<in> marked_sessions s) then (True, mark_conn r s)
      else if rq_auth r = None \<and> rq_conn r \<in> marked_conns s then (True, mark_session so s)
      else if valid r then (True, mark_conn r (mark_session so s))
      else (False, s))"

datatype rtsp_status = Ok200 | Unauthorized | NotFound

text \<open>The responses, with what a successful one hands out: the stream, if the server runs.\<close>

definition on_describe :: "(rtsp_request \<Rightarrow> bool) \<Rightarrow> rtsp_request \<Rightarrow> rtsp_server \<Rightarrow> (rtsp_status \<times> bool) \<times> rtsp_server" where
  "on_describe valid r s =
     (case validate_auth valid r None s of
        (False, s1) \<Rightarrow> ((Unauthorized, False), s1)
      | (True, s1) \<Rightarrow>
          (if check_path (rs_path s1) (rq_path r) then ((Ok200, rs_stream s1), s1) else ((NotFound, False), s1)))"

definition on_setup :: "(rtsp_request \<Rightarrow> bool) \<Rightarrow> rtsp_request \<Rightarrow> rtsp_server \<Rightarrow> (rtsp_status \<times> bool) \<times> rtsp_server" where
  "on_setup valid r s =
     (case validate_auth valid r (rq_session r) s of
        (False, s1) \<Rightarrow> ((Unauthorized, False), s1)
      | (True, s1) \<Rightarrow>
          (if check_path (rs_path s1) (rq_path r) then ((Ok200, rs_stream s1), s1) else ((NotFound, False), s1)))"

text \<open>\<^verbatim>\<open>OnPlay\<close>; the flag says that the handler, which requests a key frame, is called.\<close>

definition on_play :: "(rtsp_request \<Rightarrow> bool) \<Rightarrow> rtsp_request \<Rightarrow> rtsp_server \<Rightarrow> (rtsp_status \<times> bool) \<times> rtsp_server" where
  "on_play valid r s =
     (case validate_auth valid r (rq_session r) s of
        (False, s1) \<Rightarrow> ((Unauthorized, False), s1)
      | (True, s1) \<Rightarrow>
          ((Ok200, True),
           case rq_session r of
             Some n \<Rightarrow> (if n \<in> set (playing s1) then s1
                        else s1\<lparr>playing := n # playing s1, active_clients := active_clients s1 + 1\<rparr>)
           | None \<Rightarrow> s1))"

definition on_record :: "(rtsp_request \<Rightarrow> bool) \<Rightarrow> rtsp_request \<Rightarrow> rtsp_server \<Rightarrow> rtsp_status \<times> rtsp_server" where
  "on_record valid r s =
     (case validate_auth valid r (rq_session r) s of
        (False, s1) \<Rightarrow> (Unauthorized, s1) | (True, s1) \<Rightarrow> (Ok200, s1))"

definition on_session_close :: "nat \<Rightarrow> rtsp_server \<Rightarrow> rtsp_server" where
  "on_session_close n s =
     (let s1 = (if talker s = Some n then s\<lparr>talker := None\<rparr> else s) in
      if n \<in> set (playing s1)
      then s1\<lparr>playing := remove1 n (playing s1),
              active_clients := (if active_clients s1 - 1 < 0 then 0 else active_clients s1 - 1)\<rparr>
      else s1)"

subsection \<open>The talk channel\<close>

definition talk_timeout :: int where "talk_timeout = 2 * 1000000000"

text \<open>
  \<^verbatim>\<open>handleBackchannelPacket\<close> for a packet of the back channel: whether it is forwarded to the
  camera. The session is None for packets from UDP and from interleaved frames.
\<close>

definition handle_backchannel :: "gtime \<Rightarrow> nat option \<Rightarrow> rtsp_server \<Rightarrow> bool \<times> rtsp_server" where
  "handle_backchannel now who s =
     (if talker s = None \<or> (talker s \<noteq> who \<and> now - last_talk s > talk_timeout)
      then (True, s\<lparr>talker := who, last_talk := now\<rparr>)
      else if talker s \<noteq> who then (False, s)
      else (True, s\<lparr>last_talk := now\<rparr>))"

text \<open>A datagram on the UDP port: shorter ones than a header, and those that are no RTP, are ignored.\<close>

definition udp_backchannel :: "(bytes \<Rightarrow> bool) \<Rightarrow> gtime \<Rightarrow> bytes \<Rightarrow> rtsp_server \<Rightarrow> bool \<times> rtsp_server" where
  "udp_backchannel rtp_ok now d s =
     (let d1 = take 2048 d in
      if length d1 < 12 \<or> \<not> rtp_ok d1 then (False, s) else handle_backchannel now None s)"

subsection \<open>Callbacks in sequence\<close>

datatype rtsp_event =
    Describe rtsp_request
  | Setup rtsp_request
  | Play rtsp_request
  | Record rtsp_request
  | SessionClose nat
  | Talk gtime "nat option"

text \<open>The state after an event, and whether the request was answered with OK or the packet forwarded.\<close>

definition rtsp_event_step :: "(rtsp_request \<Rightarrow> bool) \<Rightarrow> rtsp_event \<Rightarrow> rtsp_server \<Rightarrow> bool \<times> rtsp_server" where
  "rtsp_event_step valid e s =
     (case e of
        Describe r \<Rightarrow> (let (res, s1) = on_describe valid r s in (fst res = Ok200, s1))
      | Setup r \<Rightarrow> (let (res, s1) = on_setup valid r s in (fst res = Ok200, s1))
      | Play r \<Rightarrow> (let (res, s1) = on_play valid r s in (fst res = Ok200, s1))
      | Record r \<Rightarrow> (let (res, s1) = on_record valid r s in (res = Ok200, s1))
      | SessionClose n \<Rightarrow> (True, on_session_close n s)
      | Talk now who \<Rightarrow> handle_backchannel now who s)"

fun rtsp_run :: "(rtsp_request \<Rightarrow> bool) \<Rightarrow> rtsp_event list \<Rightarrow> rtsp_server \<Rightarrow> bool list \<times> rtsp_server" where
  "rtsp_run valid [] s = ([], s)"
| "rtsp_run valid (e # es) s =
     (case rtsp_event_step valid e s of (ok, s1) \<Rightarrow>
        case rtsp_run valid es s1 of (oks, s2) \<Rightarrow> (ok # oks, s2))"

subsection \<open>The connection wrapper\<close>

text \<open>
  What the client sends reaches the server in segments, one per read of the socket (of at most
  4096 bytes, the rest of a longer one is read next); at their end the connection is closed.
\<close>

definition dollar :: byte where "dollar = 0x24"

definition read_size :: nat where "read_size = 4096"

fun read_exactly :: "nat \<Rightarrow> bytes list \<Rightarrow> (bytes \<times> bytes list) option" where
  "read_exactly n [] = (if n = 0 then Some ([], []) else None)"
| "read_exactly n (s # segs) =
     (if n = 0 then Some ([], s # segs)
      else if n < length s then Some (take n s, drop n s # segs)
      else case read_exactly (n - length s) segs of None \<Rightarrow> None | Some (m, r) \<Rightarrow> Some (s @ m, r))"

definition fill_to :: "nat \<Rightarrow> bytes \<Rightarrow> bytes list \<Rightarrow> (bytes \<times> bytes list) option" where
  "fill_to n data segs =
     (if n \<le> length data then Some (data, segs)
      else case read_exactly (n - length data) segs of None \<Rightarrow> None | Some (m, r) \<Rightarrow> Some (data @ m, r))"

lemma read_exactly_bytes:
  "read_exactly n segs = Some (m, r) \<Longrightarrow> concat segs = m @ concat r \<and> length m = n \<and> length r \<le> length segs"
proof (induction segs arbitrary: n m r)
  case (Cons s segs)
  consider "n = 0" | "n \<noteq> 0" "n < length s" | "n \<noteq> 0" "\<not> n < length s" by blast
  then show ?case
  proof cases
    case 3
    then obtain m1 where "read_exactly (n - length s) segs = Some (m1, r)" "m = s @ m1"
      using Cons.prems by (auto split: option.splits)
    with Cons.IH[of "n - length s" m1 r] 3 show ?thesis by simp
  next
    case 2
    then have "m = take n s" "r = drop n s # segs" using Cons.prems by simp_all
    then show ?thesis using 2 by simp
  qed (use Cons.prems in simp)
qed (simp split: if_splits)

lemma fill_to_bytes:
  assumes "fill_to n data segs = Some (d, r)"
  shows "d @ concat r = data @ concat segs" "n \<le> length d" "length data \<le> length d" "length r \<le> length segs"
  using assms by (auto simp: fill_to_def dest: read_exactly_bytes split: if_splits option.splits)

text \<open>
  The loop over what one read gave: whether it got through without a read error, the bytes for
  gortsplib, the payloads taken as talk packets, and the segments left.
\<close>

definition frame_length :: "bytes \<Rightarrow> nat" where
  "frame_length d = unat (of_be16 (d ! 2) (d ! 3))"

function intercept :: "(bytes \<Rightarrow> bool) \<Rightarrow> bytes \<Rightarrow> bytes list \<Rightarrow> bool \<times> bytes \<times> bytes list \<times> bytes list" where
  "intercept rtp_ok data segs =
     (if data = [] then (True, [], [], segs)
      else if hd data = dollar then
        (case fill_to 4 data segs of
           None \<Rightarrow> (False, [], [], [])
         | Some (d1, segs1) \<Rightarrow>
             (case fill_to (4 + frame_length d1) d1 segs1 of
                None \<Rightarrow> (False, [], [], [])
              | Some (d2, segs2) \<Rightarrow>
                  (let n = frame_length d1; payload = take n (drop 4 d2);
                       (ok, out, talk, r) = intercept rtp_ok (drop (4 + n) d2) segs2
                   in if d1 ! 1 AND 1 = 0 \<and> rtp_ok payload then (ok, out, payload # talk, r)
                      else (ok, take 4 d1 @ payload @ out, talk, r))))
      else
        (let (ok, out, talk, r) = intercept rtp_ok (dropWhile (\<lambda>b. b \<noteq> dollar) data) segs
         in (ok, takeWhile (\<lambda>b. b \<noteq> dollar) data @ out, talk, r)))"
  by pat_completeness auto
termination
proof (relation "measure (\<lambda>(p, data, segs). length data + length (concat segs))", goal_cases)
  case (2 rtp_ok data segs p d1 segs1 q d2 segs2 n payload)
  then have f: "fill_to 4 data segs = Some (d1, segs1)" "fill_to (4 + frame_length d1) d1 segs1 = Some (d2, segs2)"
    by simp_all
  have "d2 @ concat segs2 = data @ concat segs" using fill_to_bytes(1)[OF f(1)] fill_to_bytes(1)[OF f(2)] by simp
  then have "length d2 + length (concat segs2) = length data + length (concat segs)" by (metis length_append)
  moreover have "4 \<le> length d2" using fill_to_bytes(2)[OF f(2)] by simp
  ultimately show ?case by simp
next
  case (3 rtp_ok data segs)
  then have "length (dropWhile (\<lambda>b. b \<noteq> dollar) data) < length data"
    by (cases data) (simp_all add: less_Suc_eq_le length_dropWhile_le)
  then show ?case by simp
qed simp

declare intercept.simps [simp del]

lemma intercept_cases:
  obtains "data = []"
  | "data \<noteq> []" "hd data \<noteq> dollar"
  | "data \<noteq> []" "hd data = dollar" "fill_to 4 data segs = None"
  | d1 segs1 where "data \<noteq> []" "hd data = dollar" "fill_to 4 data segs = Some (d1, segs1)"
      "fill_to (4 + frame_length d1) d1 segs1 = None"
  | d1 segs1 d2 segs2 where "data \<noteq> []" "hd data = dollar" "fill_to 4 data segs = Some (d1, segs1)"
      "fill_to (4 + frame_length d1) d1 segs1 = Some (d2, segs2)"
  by (metis (no_types, opaque_lifting) not_None_eq prod.collapse)

lemma intercept_frame:
  assumes "data \<noteq> []" "hd data = dollar" "fill_to 4 data segs = Some (d1, segs1)"
    "fill_to (4 + frame_length d1) d1 segs1 = Some (d2, segs2)"
    "intercept rtp_ok (drop (4 + frame_length d1) d2) segs2 = (ok, out, talk, r)"
  shows "intercept rtp_ok data segs =
    (let payload = take (frame_length d1) (drop 4 d2) in
     if d1 ! 1 AND 1 = 0 \<and> rtp_ok payload then (ok, out, payload # talk, r)
     else (ok, take 4 d1 @ payload @ out, talk, r))"
  by (subst intercept.simps) (simp add: assms Let_def)

lemma intercept_text:
  assumes "data \<noteq> []" "hd data \<noteq> dollar" "intercept rtp_ok (dropWhile (\<lambda>b. b \<noteq> dollar) data) segs = (ok, out, talk, r)"
  shows "intercept rtp_ok data segs = (ok, takeWhile (\<lambda>b. b \<noteq> dollar) data @ out, talk, r)"
  by (subst intercept.simps) (simp add: assms)

lemma intercept_rest:
  "intercept rtp_ok data segs = (ok, out, talk, r) \<Longrightarrow>
   length (concat r) \<le> length (concat segs) \<and> length r \<le> length segs"
proof (induction rtp_ok data segs arbitrary: ok out talk r rule: intercept.induct)
  case (1 rtp_ok data segs)
  note eq = 1(3)
  show ?case
  proof (cases rule: intercept_cases[where data = data and segs = segs])
    case 2
    obtain ok1 out1 talk1 r1 where i: "intercept rtp_ok (dropWhile (\<lambda>b. b \<noteq> dollar) data) segs = (ok1, out1, talk1, r1)"
      using prod_cases4 by blast
    have "r = r1" using eq intercept_text[OF 2 i] by simp
    then show ?thesis using 1(2)[OF 2 i] by simp
  next
    case (5 d1 segs1 d2 segs2)
    obtain ok1 out1 talk1 r1 where i: "intercept rtp_ok (drop (4 + frame_length d1) d2) segs2 = (ok1, out1, talk1, r1)"
      using prod_cases4 by blast
    have "r = r1" using eq intercept_frame[OF 5 i] by (simp add: Let_def split: if_splits)
    moreover have "d2 @ concat segs2 = data @ concat segs" "length data \<le> length d2" "length segs2 \<le> length segs"
      using fill_to_bytes[OF 5(3)] fill_to_bytes[OF 5(4)] by simp_all
    then have "length d2 + length (concat segs2) = length data + length (concat segs)" by (metis length_append)
    then have "length (concat segs2) \<le> length (concat segs)" using \<open>length data \<le> length d2\<close> by linarith
    ultimately show ?thesis
      using 1(1)[OF 5(1,2,3) refl 5(4) refl refl refl i] \<open>length segs2 \<le> length segs\<close> by simp
  next
    case 1
    then show ?thesis using eq by (subst (asm) intercept.simps) simp
  next
    case 3
    then show ?thesis using eq by (subst (asm) intercept.simps) simp
  next
    case (4 d1 segs1)
    then show ?thesis using eq by (subst (asm) intercept.simps) simp
  qed
qed

text \<open>
  \<^verbatim>\<open>Read\<close>: what the wrapper holds back, else what the socket gives until there is something for
  gortsplib. The bytes are None at the end of the connection or after an error inside a frame; with them
  come the talk packets that were met.
\<close>

function fetch :: "(bytes \<Rightarrow> bool) \<Rightarrow> bytes list \<Rightarrow> bool \<times> bytes \<times> bytes list \<times> bytes list" where
  "fetch rtp_ok [] = (False, [], [], [])"
| "fetch rtp_ok (s # segs) =
     (if s = [] then fetch rtp_ok segs
      else
        case intercept rtp_ok (take read_size s) (if length s \<le> read_size then segs else drop read_size s # segs) of
          (ok, out, talk, r) \<Rightarrow>
            (if \<not> ok \<or> out \<noteq> [] then (ok, out, talk, r)
             else case fetch rtp_ok r of (ok1, out1, talk1, r1) \<Rightarrow> (ok1, out1, talk @ talk1, r1)))"
  by pat_completeness auto
termination
  by (relation "measure (\<lambda>(p, segs). length (concat segs) + length segs)")
    (auto dest!: intercept_rest[OF sym] simp: read_size_def split: if_splits)

declare fetch.simps(2) [simp del]

definition conn_read ::
  "(bytes \<Rightarrow> bool) \<Rightarrow> nat \<Rightarrow> bytes \<times> bytes list \<Rightarrow> bytes option \<times> bytes list \<times> bytes \<times> bytes list" where
  "conn_read rtp_ok p st =
     (let (rbuf, segs) = st in
      if rbuf \<noteq> [] then (Some (take p rbuf), [], drop p rbuf, segs)
      else case fetch rtp_ok segs of
             (ok, out, talk, r) \<Rightarrow>
               (if ok then (Some (take p out), talk, drop p out, r) else (None, talk, out, r)))"

end
