(* ===== verification/Media_Session.thy ===== *)
theory Media_Session
  imports Rtsp_Server Sdcard_Transfer
begin

text \<open>
  A running session with the L 625 (\<^verbatim>\<open>pkg/webrtc\<close>: \<^verbatim>\<open>bridge.go\<close>,
  \<^verbatim>\<open>media.go\<close>, \<^verbatim>\<open>backchannel.go\<close>, \<^verbatim>\<open>signaling.go\<close>) and the sound of both cameras
  (\<^verbatim>\<open>pkg/audio\<close>): resampling, the frames of the transcoder, the packets of the back
  channel, the watchdogs that end a session, and the session description texts.
\<close>

subsection \<open>Resampling\<close>

type_synonym sample = "16 word"

text \<open>Go's \<^verbatim>\<open>int16(...)\<close> keeps the low bits of a quotient that truncates towards zero.\<close>

definition to_sample :: "int \<Rightarrow> sample" where
  "to_sample i = word_of_int i"

fun resample_16k :: "sample list \<Rightarrow> sample list" where
  "resample_16k [] = []"
| "resample_16k [a] = [a, a]"
| "resample_16k (a # b # s) = a # to_sample (go_div (sint a + sint b) 2) # resample_16k (b # s)"

definition quarter :: "sample \<Rightarrow> sample \<Rightarrow> int \<Rightarrow> sample" where
  "quarter a b k = to_sample (sint a + go_div ((sint b - sint a) * k) 4)"

fun resample_32k :: "sample list \<Rightarrow> sample list" where
  "resample_32k [] = []"
| "resample_32k [a] = [a, quarter a a 1, quarter a a 2, quarter a a 3]"
| "resample_32k (a # b # s) = [a, quarter a b 1, quarter a b 2, quarter a b 3] @ resample_32k (b # s)"

subsection \<open>The transcoder\<close>

definition frame_samples :: nat where "frame_samples = 1024"
definition frame_bytes :: nat where "frame_bytes = frame_samples * 2"
definition aac_rate :: int where "aac_rate = 16000"

text \<open>
  The buffer, the count of samples so far (an unsigned 64-bit integer) and the presentation times that were
  computed with the chunks they belong to; what the AAC encoder makes of a chunk is its own business,
  but it may fail.
\<close>

record transcoder =
  tc_open :: bool
  tc_buf :: bytes
  tc_count :: u64

definition new_transcoder :: transcoder where
  "new_transcoder = \<lparr>tc_open = True, tc_buf = [], tc_count = 0\<rparr>"

definition pts_of :: "u64 \<Rightarrow> int" where
  "pts_of n = go_div (wrap64 (sint n * 1000000000)) aac_rate"

text \<open>
  The loop over complete frames of the buffer: the frames with their times, whether the encoder failed, the bytes that
  were not consumed and the new count.
\<close>

function encode_frames :: "(bytes \<Rightarrow> bool) \<Rightarrow> bytes \<Rightarrow> u64 \<Rightarrow> (bytes \<times> int) list \<times> bool \<times> bytes \<times> u64" where
  "encode_frames enc_ok buf n =
     (if length buf < frame_bytes then ([], True, buf, n)
      else
        let chunk = take frame_bytes buf; n1 = n + word_of_nat frame_samples in
        if \<not> enc_ok chunk then ([], False, drop frame_bytes buf, n1)
        else case encode_frames enc_ok (drop frame_bytes buf) n1 of
               (fs, ok, rest, n2) \<Rightarrow> ((chunk, pts_of n) # fs, ok, rest, n2))"
  by pat_completeness auto
termination
  by (relation "measure (\<lambda>(e, buf, n). length buf)") (auto simp: frame_bytes_def frame_samples_def)

declare encode_frames.simps [simp del]

definition sample_bytes :: "sample list \<Rightarrow> bytes" where
  "sample_bytes s = concat (map le16 s)"

text \<open>
  \<^verbatim>\<open>ProcessPCMU\<close> and \<^verbatim>\<open>ProcessPCMA\<close>, with the decoder of the G.711 library: None is the error of a
  closed transcoder. After a failure of the encoder the buffer keeps everything, with the new data.
\<close>

definition process_pcm ::
  "(byte \<Rightarrow> sample) \<Rightarrow> (bytes \<Rightarrow> bool) \<Rightarrow> bytes \<Rightarrow> transcoder \<Rightarrow> ((bytes \<times> int) list \<times> bool) option \<times> transcoder" where
  "process_pcm dec enc_ok data t =
     (if data = [] then (Some ([], True), t)
      else if \<not> tc_open t then (None, t)
      else
        let buf = tc_buf t @ sample_bytes (resample_16k (map dec data)) in
        case encode_frames enc_ok buf (tc_count t) of
          (fs, ok, rest, n) \<Rightarrow>
            (Some (fs, ok), t\<lparr>tc_buf := (if ok then rest else buf), tc_count := n\<rparr>))"

definition transcoder_close :: "transcoder \<Rightarrow> transcoder" where
  "transcoder_close t = t\<lparr>tc_open := False\<rparr>"

subsection \<open>The back channel\<close>

record rtp_out =
  ro_seq :: u16
  ro_ts :: u32
  ro_payload :: bytes

record backchannel =
  bc_track :: bool
  bc_buf :: bytes
  bc_seq :: u16
  bc_ts :: u32

definition pcmu_frame :: nat where "pcmu_frame = 160"

text \<open>
  The loop, with the results that the next writes will have (True when there are no more): the packets that
  were written, and whether a write failed.
\<close>

function send_frames :: "bool list \<Rightarrow> backchannel \<Rightarrow> rtp_out list \<times> bool \<times> backchannel" where
  "send_frames ws b =
     (if length (bc_buf b) < pcmu_frame then ([], True, b)
      else
        let p = \<lparr>ro_seq = bc_seq b, ro_ts = bc_ts b, ro_payload = take pcmu_frame (bc_buf b)\<rparr>;
            b1 = b\<lparr>bc_buf := drop pcmu_frame (bc_buf b), bc_seq := bc_seq b + 1, bc_ts := bc_ts b + word_of_nat pcmu_frame\<rparr>
        in case ws of
             False # _ \<Rightarrow> ([], False, b1)
           | _ \<Rightarrow> (case send_frames (tl ws) b1 of (ps, ok, b2) \<Rightarrow> (p # ps, ok, b2)))"
  by pat_completeness auto
termination
  by (relation "measure (\<lambda>(ws, b). length (bc_buf b))") (auto simp: pcmu_frame_def)

declare send_frames.simps [simp del]

datatype talk_error = NoTrack | TrackWriteError

definition write_backchannel :: "bool list \<Rightarrow> bytes \<Rightarrow> backchannel \<Rightarrow> rtp_out list \<times> talk_error option \<times> backchannel" where
  "write_backchannel ws payload b =
     (if \<not> bc_track b then ([], Some NoTrack, b)
      else if payload = [] then ([], None, b)
      else case send_frames ws (b\<lparr>bc_buf := bc_buf b @ payload\<rparr>) of
             (ps, ok, b1) \<Rightarrow> (ps, if ok then None else Some TrackWriteError, b1))"

subsection \<open>What ends a session\<close>

text \<open>The manager of ICE states, with the deadline of its timer; True means that the session is cancelled.\<close>

datatype ice_state = IceNew | IceChecking | IceConnected | IceCompleted | IceDisconnected | IceFailed | IceClosed

record ice_manager =
  ice_deadline :: "gtime option"
  ice_cancelled :: bool

definition new_ice_manager :: ice_manager where
  "new_ice_manager = \<lparr>ice_deadline = None, ice_cancelled = False\<rparr>"

definition ice_grace :: int where "ice_grace = 20 * 1000000000"

definition ice_timer :: "gtime \<Rightarrow> ice_manager \<Rightarrow> ice_manager" where
  "ice_timer now m =
     (case ice_deadline m of
        Some d \<Rightarrow> if d \<le> now then \<lparr>ice_deadline = None, ice_cancelled = True\<rparr> else m
      | None \<Rightarrow> m)"

definition ice_change :: "gtime \<times> ice_state \<Rightarrow> ice_manager \<Rightarrow> ice_manager" where
  "ice_change ev m0 =
     (let (now, st) = ev; m = ice_timer now m0 in
      case st of
        IceConnected \<Rightarrow> m\<lparr>ice_deadline := None\<rparr>
      | IceCompleted \<Rightarrow> m\<lparr>ice_deadline := None\<rparr>
      | IceDisconnected \<Rightarrow> (if ice_deadline m = None then m\<lparr>ice_deadline := Some (now + ice_grace)\<rparr> else m)
      | IceFailed \<Rightarrow> \<lparr>ice_deadline = None, ice_cancelled = True\<rparr>
      | IceClosed \<Rightarrow> \<lparr>ice_deadline = None, ice_cancelled = True\<rparr>
      | _ \<Rightarrow> m)"

definition ice_run :: "gtime \<Rightarrow> (gtime \<times> ice_state) list \<Rightarrow> ice_manager" where
  "ice_run now evs = ice_timer now (fold ice_change evs new_ice_manager)"

text \<open>
  The watchdog of the video: after its grace period it looks once a second at the time of the last packet (0 before
  the first). The times of the packets are given; the result is the time at which the session is cancelled, if it
  is within the given number of looks.
\<close>

definition watchdog_grace :: int where "watchdog_grace = 15 * 1000000000"
definition silence_threshold :: int where "silence_threshold = 15 * 1000000000"

definition last_packet :: "gtime list \<Rightarrow> gtime \<Rightarrow> gtime" where
  "last_packet packets now = fold max (filter (\<lambda>p. p \<le> now) packets) 0"

definition watchdog_fires :: "gtime \<Rightarrow> gtime \<Rightarrow> bool" where
  "watchdog_fires now prev \<longleftrightarrow> prev = 0 \<or> now - prev > silence_threshold"

fun watchdog :: "nat \<Rightarrow> gtime \<Rightarrow> gtime list \<Rightarrow> gtime option" where
  "watchdog 0 now packets = None"
| "watchdog (Suc n) now packets =
     (if watchdog_fires now (last_packet packets now) then Some now
      else watchdog n (now + 1000000000) packets)"

definition run_watchdog :: "nat \<Rightarrow> gtime \<Rightarrow> gtime list \<Rightarrow> gtime option" where
  "run_watchdog looks started packets = watchdog looks (started + watchdog_grace + 1000000000) packets"

text \<open>The handler of an unresponsive SD card: whether the session is kept.\<close>

definition keeps_session :: "gtime \<Rightarrow> gtime \<Rightarrow> bool" where
  "keeps_session now prev \<longleftrightarrow> prev > 0 \<and> now - prev < 5 * 1000000000"

subsection \<open>Signaling\<close>

text \<open>\<^verbatim>\<open>Split\<close> at CR LF, and \<^verbatim>\<open>Join\<close> with it.\<close>

definition crlf :: string where "crlf = [CHR 0x0D, CHR 0x0A]"

function split_crlf :: "string \<Rightarrow> string list" where
  "split_crlf s =
     (case index_of s crlf of None \<Rightarrow> [s] | Some i \<Rightarrow> take i s # split_crlf (drop (i + 2) s))"
  by pat_completeness auto
termination
proof (relation "measure length", goal_cases)
  case (2 s i)
  then obtain t u where "s = t @ crlf @ u" "length t = i" using index_of_Some[of s crlf i] by auto
  then show ?case by (simp add: crlf_def)
qed simp

declare split_crlf.simps [simp del]

fun join_crlf :: "string list \<Rightarrow> string" where
  "join_crlf [] = []"
| "join_crlf [l] = l"
| "join_crlf (l # ls) = l @ crlf @ join_crlf ls"

definition loopback_candidate :: "string \<Rightarrow> bool" where
  "loopback_candidate l \<longleftrightarrow> has_prefix l ''a=candidate:'' \<and> contains l ''127.0.0.1''"

definition sanitize_sdp :: "string \<Rightarrow> string" where
  "sanitize_sdp s = join_crlf (filter (\<lambda>l. \<not> loopback_candidate l) (split_crlf s))"

text \<open>\<^verbatim>\<open>ReplaceAll\<close> of a text that is not empty.\<close>

function replace_all :: "string \<Rightarrow> string \<Rightarrow> string \<Rightarrow> string" where
  "replace_all old new s =
     (if old = [] then s
      else case index_of s old of
             None \<Rightarrow> s
           | Some i \<Rightarrow> take i s @ new @ replace_all old new (drop (i + length old) s))"
  by pat_completeness auto
termination
proof (relation "measure (\<lambda>(old, new, s). length s)", goal_cases)
  case (2 old new s i)
  then obtain t u where "s = t @ old @ u" "length t = i" using index_of_Some[of s old i] by auto
  then show ?case using 2(1) by simp
qed simp

declare replace_all.simps [simp del]

definition fix_answer_sdp :: "string \<Rightarrow> string" where
  "fix_answer_sdp s = replace_all ''a=setup:active'' ''a=setup:passive'' (sanitize_sdp s)"

text \<open>The ICE servers of the response to a TURN request.\<close>

record ice_server =
  is_urls :: "string list"
  is_user :: string
  is_credential :: string

record turn_server =
  ts_host :: string
  ts_port :: int
  ts_user :: string
  ts_password :: string

definition ice_servers :: "ice_server list \<Rightarrow> turn_server list \<Rightarrow> ice_server list" where
  "ice_servers ices turns =
     ices @ map (\<lambda>t. \<lparr>is_urls = [''turn:'' @ ts_host t @ '':'' @ dec_of_int (ts_port t)], is_user = ts_user t,
                        is_credential = ts_password t\<rparr>) turns"

text \<open>Messages end in a NUL, which the reader strips if it is there; the JSON codec works on the bytes before it.\<close>

definition marshal_signal :: "('m \<Rightarrow> bytes) \<Rightarrow> 'm \<Rightarrow> bytes" where
  "marshal_signal js msg = js msg @ [0]"

definition unmarshal_signal :: "(bytes \<Rightarrow> 'm option) \<Rightarrow> bytes \<Rightarrow> 'm option" where
  "unmarshal_signal rd raw = rd (if raw \<noteq> [] \<and> last raw = 0 then butlast raw else raw)"

definition type_offer :: int where "type_offer = 0"
definition type_answer :: int where "type_answer = 1"
definition type_ice_candidate :: int where "type_ice_candidate = 2"
definition type_turn_request :: int where "type_turn_request = 3"
definition type_turn_response :: int where "type_turn_response = 4"

record signal =
  sg_type :: int
  sg_data :: string
  sg_tracks :: "(string \<times> string) list"

text \<open>
  The peer connection at a message: whether it waits for an answer, whether it takes a remote description, and the
  local description it has after making an answer (None if that fails).
\<close>

record peer_env =
  pe_have_offer :: bool
  pe_takes :: "string \<Rightarrow> bool"
  pe_answer :: "string option"

datatype signal_action =
    RemoteAnswer string
  | RemoteOffer string
  | SendAnswer string "(string \<times> string \<times> string) list"
  | AddCandidate string string

definition on_signal ::
  "(string \<Rightarrow> string option) \<Rightarrow> (string \<Rightarrow> (string \<times> string) option) \<Rightarrow> peer_env \<Rightarrow> signal \<Rightarrow> signal_action list" where
  "on_signal read_sdp read_candidate e m =
     (if sg_type m = type_answer then
        (case read_sdp (sg_data m) of
           Some sdp \<Rightarrow> (if pe_have_offer e then [RemoteAnswer sdp] else [])
         | None \<Rightarrow> [])
      else if sg_type m = type_offer then
        (case read_sdp (sg_data m) of
           Some sdp \<Rightarrow>
             (if \<not> pe_takes e sdp then []
              else case pe_answer e of
                     Some ans \<Rightarrow> [RemoteOffer sdp, SendAnswer (fix_answer_sdp ans)
                                    (map (\<lambda>(mid, track). (mid, track, ''OK'')) (sg_tracks m))]
                   | None \<Rightarrow> [RemoteOffer sdp])
         | None \<Rightarrow> [])
      else if sg_type m = type_ice_candidate then
        (case read_candidate (sg_data m) of
           Some (cand, mid) \<Rightarrow> (if cand \<noteq> [] then [AddCandidate cand mid] else [])
         | None \<Rightarrow> [])
      else [])"

end
