(* ===== verification/Camera_Stream.thy ===== *)
theory Camera_Stream
  imports Media_Session
begin

text \<open>
  The L 620's stream and recordings (\<^verbatim>\<open>pkg/xiongmai/rtsp_ingest.go\<close>,
  \<^verbatim>\<open>pkg/xiongmai/sdcard.go\<close>): the addresses that are tried, an attempt at one of them with all
  its stages, the reconnect loop with its waits, the watchdog, where the sound goes, what the log shows of an address, and the
  recordings of the card. The RTSP client and the answers of the camera are the environment.
\<close>

subsection \<open>Candidate addresses\<close>

definition rtsp_port :: int where "rtsp_port = 554"

definition auth_prefix :: "string \<Rightarrow> string \<Rightarrow> string" where
  "auth_prefix user pwd =
     (if pwd \<noteq> [] then user @ '':'' @ pwd @ ''@''
      else if user \<noteq> [] \<and> user \<noteq> ''admin'' then user @ ''@'' else [])"

definition url_passwords :: "string \<Rightarrow> string list \<Rightarrow> string list" where
  "url_passwords pwd fallbacks =
     (let p0 = trim_space pwd;
          ps = p0 # filter (\<lambda>t. t \<noteq> [] \<and> t \<noteq> p0) (map trim_space fallbacks)
      in if [] \<in> set ps then ps else ps @ [[]])"

definition sdp_url :: "string \<Rightarrow> int \<Rightarrow> string \<Rightarrow> int \<Rightarrow> string \<Rightarrow> string" where
  "sdp_url ip port user subtype pwd =
     ''rtsp://'' @ ip @ '':'' @ dec_of_int port @ ''/user='' @ user @ ''_password='' @ pwd @ ''_channel=1_stream='' @
       dec_of_int subtype @ ''.sdp''"

definition urls_with :: "string \<Rightarrow> int \<Rightarrow> string \<Rightarrow> int \<Rightarrow> string \<Rightarrow> string list" where
  "urls_with ip port user subtype pwd =
     (let base = ''rtsp://'' @ auth_prefix user pwd @ ip @ '':'' @ dec_of_int port in
      [sdp_url ip port user subtype pwd,
       sdp_url ip port user subtype pwd @ ''?real_stream'',
       base @ ''/stream='' @ dec_of_int subtype,
       base @ ''/h264/ch1/main/av_stream'',
       base @ ''/live/ch'' @ dec_of_int subtype])"

definition candidate_urls :: "string \<Rightarrow> int \<Rightarrow> string \<Rightarrow> string \<Rightarrow> int \<Rightarrow> string list \<Rightarrow> string list" where
  "candidate_urls ip port user pwd subtype fallbacks =
     (let port = (if port \<le> 0 then rtsp_port else port);
          user = trim_space (if user = [] then ''admin'' else user)
      in concat (map (urls_with ip port user subtype) (url_passwords pwd fallbacks)))"

subsection \<open>What the log shows\<close>

definition pwd_key :: string where "pwd_key = ''_password=''"

text \<open>
  The regular expression \<^verbatim>\<open>_password=([^_]*)_\<close> replaced everywhere. Behind the first key there is another underscore
  or no further match.
\<close>

function mask_query :: "string \<Rightarrow> string" where
  "mask_query s =
     (case index_of s pwd_key of
        None \<Rightarrow> s
      | Some i \<Rightarrow>
          (case dropWhile (\<lambda>c. c \<noteq> CHR ''_'') (drop (i + length pwd_key) s) of
             [] \<Rightarrow> s
           | _ # r \<Rightarrow> take i s @ ''_password=***_'' @ mask_query r))"
  by pat_completeness auto
termination
proof (relation "measure length", goal_cases)
  case (2 s i c r)
  have "length (dropWhile (\<lambda>c. c \<noteq> CHR ''_'') (drop (i + length pwd_key) s)) \<le> length s"
    by (rule order.trans[OF length_dropWhile_le]) simp
  then show ?case using 2(2) by simp
qed simp

declare mask_query.simps [simp del]

text \<open>\<^verbatim>\<open>redact\<close> stands for parsing an address and writing it without the password of its authority.\<close>

definition sanitize_url :: "(string \<Rightarrow> string option) \<Rightarrow> string \<Rightarrow> string" where
  "sanitize_url redact u = (case redact u of None \<Rightarrow> ''[invalid-url]'' | Some v \<Rightarrow> mask_query v)"

subsection \<open>One attempt\<close>

datatype stream_format = H264 | H265 | G711 bool | AacFormat | OtherFormat

type_synonym media = "stream_format list"

definition is_g711 :: "stream_format \<Rightarrow> bool" where
  "is_g711 f = (case f of G711 _ \<Rightarrow> True | _ \<Rightarrow> False)"

text \<open>The first medium with H.264, or whether there was H.265.\<close>

definition video_of :: "media list \<Rightarrow> bool + nat" where
  "video_of ms =
     (case find (\<lambda>i. H264 \<in> set (ms ! i)) [0..<length ms] of
        Some i \<Rightarrow> Inr i
      | None \<Rightarrow> Inl (\<exists>m \<in> set ms. H265 \<in> set m))"

text \<open>The first medium with G.711 or AAC, and the format taken there.\<close>

fun audio_of :: "media list \<Rightarrow> stream_format option" where
  "audio_of [] = None"
| "audio_of (m # ms) =
     (case find is_g711 m of
        Some f \<Rightarrow> Some f
      | None \<Rightarrow> if AacFormat \<in> set m then Some AacFormat else audio_of ms)"

datatype ingest_error =
    DialFailed
  | DescribeFailed
  | OnlyH265
  | NoH264
  | VideoSetupFailed
  | PlayFailed
  | StreamLost

datatype describe_result = Described "media list" | NetworkError | OtherDescribeError

text \<open>
  How the stages of an attempt end: the connection, \<^verbatim>\<open>DESCRIBE\<close>, the two \<^verbatim>\<open>SETUP\<close>s, \<^verbatim>\<open>PLAY\<close>, and the
  stream (True for an end without an error, which gortsplib does not give).
\<close>

record attempt_env =
  at_dial :: bool
  at_describe :: describe_result
  at_video :: bool
  at_audio :: bool
  at_play :: bool
  at_clean_end :: bool

text \<open>The error of the attempt, and the audio format that packets are taken of if it came to streaming.\<close>

definition attempt :: "attempt_env \<Rightarrow> ingest_error option \<times> stream_format option" where
  "attempt e =
     (if \<not> at_dial e then (Some DialFailed, None)
      else case at_describe e of
             NetworkError \<Rightarrow> (Some DialFailed, None)
           | OtherDescribeError \<Rightarrow> (Some DescribeFailed, None)
           | Described ms \<Rightarrow>
               (case video_of ms of
                  Inl h265 \<Rightarrow> (Some (if h265 then OnlyH265 else NoH264), None)
                | Inr _ \<Rightarrow>
                    if \<not> at_video e then (Some VideoSetupFailed, None)
                    else if \<not> at_play e then (Some PlayFailed, None)
                    else (if at_clean_end e then None else Some StreamLost,
                          if at_audio e then audio_of ms else None)))"

text \<open>
  \<^verbatim>\<open>runSession\<close> over the candidates, each with its attempt (None if the address cannot be parsed); the flag says
  whether the ingest was closed by the end of an attempt. The result is its error and how many attempts were made.
\<close>

fun run_session :: "(attempt_env \<times> bool) option list \<Rightarrow> ingest_error option \<Rightarrow> ingest_error option \<times> nat" where
  "run_session [] last_err = (last_err, 0)"
| "run_session (None # cs) last_err = run_session cs last_err"
| "run_session (Some (e, closed) # cs) last_err =
     (case fst (attempt e) of
        None \<Rightarrow> (None, 1)
      | Some err \<Rightarrow>
          if closed then (None, 1)
          else if err = DialFailed then (Some err, 1)
          else case run_session cs (Some err) of (res, n) \<Rightarrow> (res, Suc n))"

subsection \<open>The reconnect loop\<close>

definition sec :: int where "sec = 1000000000"

text \<open>
  A turn with the result of \<^verbatim>\<open>runSession\<close> while the ingest is open: the time waited after it (None: none) and the next backoff.
\<close>

definition ingest_turn :: "ingest_error option \<Rightarrow> int \<Rightarrow> int option \<times> int" where
  "ingest_turn res backoff =
     (case res of
        Some err \<Rightarrow>
          (let b = (if err = DialFailed \<and> backoff < 5 * sec then 5 * sec else backoff)
           in (Some b, if b < 60 * sec then min (b * 2) (60 * sec) else b))
      | None \<Rightarrow> (None, sec))"

fun ingest_waits :: "ingest_error option list \<Rightarrow> int \<Rightarrow> int option list" where
  "ingest_waits [] b = []"
| "ingest_waits (r # rs) b = (case ingest_turn r b of (w, b1) \<Rightarrow> w # ingest_waits rs b1)"

text \<open>The watchdog of a stream: five seconds for the first packet, then a look every five seconds.\<close>

definition stream_silent :: "gtime \<Rightarrow> gtime \<Rightarrow> bool" where
  "stream_silent now prev \<longleftrightarrow> prev > 0 \<and> now - prev > 15 * sec"

fun stream_watchdog :: "nat \<Rightarrow> gtime \<Rightarrow> gtime list \<Rightarrow> gtime option" where
  "stream_watchdog 0 now packets = None"
| "stream_watchdog (Suc n) now packets =
     (if stream_silent now (last_packet packets now) then Some now
      else stream_watchdog n (now + 5 * sec) packets)"

definition run_stream_watchdog :: "nat \<Rightarrow> gtime \<Rightarrow> gtime list \<Rightarrow> gtime option" where
  "run_stream_watchdog looks played packets =
     (if last_packet packets (played + 5 * sec) = 0 then Some (played + 5 * sec)
      else stream_watchdog looks (played + 10 * sec) packets)"

subsection \<open>Sound\<close>

text \<open>
  Where a packet of sound goes, with the codec of the server: through the transcoder as \<open>\<mu>\<close>-law (True) or A-law, or as it is to
  the server, which gives it the payload type 0.
\<close>

datatype audio_route = Transcode bool | Forward

definition audio_route :: "string \<Rightarrow> stream_format \<Rightarrow> audio_route" where
  "audio_route codec f =
     (case f of
        G711 ulaw \<Rightarrow> if codec = ''aac'' then Transcode ulaw else Forward
      | _ \<Rightarrow> Forward)"

definition forwarded_type :: "nat" where "forwarded_type = 0"

subsection \<open>Recordings\<close>

record sofia_file =
  sf_begin :: string
  sf_end :: string
  sf_name :: string

datatype query_reply = QueryFails | BadReply | Found "sofia_file list"

definition unix_secs :: "gtime \<Rightarrow> int" where
  "unix_secs t = t div sec - 62135596800"

definition sofia_item :: "(string \<Rightarrow> gtime option) \<Rightarrow> gtime \<Rightarrow> gtime \<Rightarrow> sofia_file \<Rightarrow> recording_item" where
  "sofia_item parse start stop f =
     (let st = (case parse (sf_begin f) of Some t \<Rightarrow> t | None \<Rightarrow> start);
          et = (case parse (sf_end f) of Some t \<Rightarrow> t | None \<Rightarrow> stop);
          dur = go_div (et - st) sec;
          i = dec_of_int (unix_secs st)
      in \<lparr>item_id = i, start_time = st, end_time = et, duration_seconds = (if dur \<le> 0 then 30 else dur),
          event_type = ''motion'', file_size_bytes = 0, recording_item.file_name = sf_name f, thumbnail_url = [],
          video_url = video_url_of i\<rparr>)"

text \<open>The camera: whether there is a session with it, its clock and its answer to a query for a period.\<close>

record sofia_env =
  so_logged_in :: bool
  so_now :: gtime
  so_parse :: "string \<Rightarrow> gtime option"
  so_query :: "gtime \<Rightarrow> gtime \<Rightarrow> query_reply"

definition day :: gtime where "day = 24 * 3600 * sec"

definition xm_list :: "sofia_env \<Rightarrow> gtime \<Rightarrow> gtime \<Rightarrow> storage_error + list_response option" where
  "xm_list e start stop =
     (if \<not> so_logged_in e then Inl StorageBusy
      else
        let start = (if start = 0 then so_now e - day else start); stop = (if stop = 0 then so_now e else stop) in
        case so_query e start stop of
          QueryFails \<Rightarrow> Inl (OtherError ''OPFileQuery failed'')
        | BadReply \<Rightarrow> Inl (OtherError ''failed to parse OPFileQuery response'')
        | Found fs \<Rightarrow>
            (let rs = map (sofia_item (so_parse e) start stop) fs
             in Inr (Some \<lparr>resp_count = int (length rs), resp_total = int (length rs), resp_list = rs\<rparr>)))"

definition xm_get :: "sofia_env \<Rightarrow> string \<Rightarrow> storage_error + recording_item" where
  "xm_get e i =
     (case xm_list e 0 0 of
        Inl err \<Rightarrow> Inl err
      | Inr None \<Rightarrow> Inl StorageNotFound
      | Inr (Some resp) \<Rightarrow>
          (case find (\<lambda>r. item_id r = i) (resp_list resp) of Some r \<Rightarrow> Inr r | None \<Rightarrow> Inl StorageNotFound))"

text \<open>Thumbnails are refused, and a stream of a recording that exists ends at once without an error.\<close>

definition xm_upstream :: "sofia_env \<Rightarrow> upstream" where
  "xm_upstream e =
     \<lparr>up_list = (\<lambda>start stop page limit ev. xm_list e start stop),
      up_get = xm_get e,
      up_thumbnail = (\<lambda>i. ([], Some FeatureDisabled)),
      up_video = (\<lambda>i. ([], case xm_get e i of Inl err \<Rightarrow> Some err | Inr r \<Rightarrow> None))\<rparr>"

end
