(* ===== verification/Bridge_App.thy ===== *)
theory Bridge_App
  imports Camera_Drivers Camera_Stream Rtsp_Server Nabto_Sdk
begin

text \<open>
  The application around the components: what \<^verbatim>\<open>New\<close> of \<^verbatim>\<open>pkg/app/app.go\<close> wires together, the order of
  \<^verbatim>\<open>Run\<close> and its clean-up, the supervisor (\<^verbatim>\<open>pkg/supervisor\<close>), the forwarding of \<^verbatim>\<open>bridge_manager.go\<close>,
  the choice of the driver (\<^verbatim>\<open>pkg/driver/factory.go\<close>) and the life of the driver of the L 620 with the streams it opens
  (\<^verbatim>\<open>pkg/xiongmai/driver.go\<close>, \<^verbatim>\<open>pkg/driver/l620.go\<close>).
\<close>

subsection \<open>The driver of the L 620\<close>

text \<open>
  A stream reader (\<^verbatim>\<open>RTSPIngest\<close>) is a number; \<open>ld_ingest\<close> is the driver's own, \<open>ld_live\<close> those whose loop has been
  started and not been told to end. \<open>ld_loops\<close> are the supervisors started, \<open>ld_stop_closed\<close> says that the channel that ends
  them is closed.
\<close>

record l620_driver =
  ld_ip :: string
  ld_user :: string
  ld_password :: string
  ld_resolution :: string
  ld_client :: xm_client
  ld_status :: device_status
  ld_ingest :: nat
  ld_urls :: "string list"
  ld_live :: "nat set"
  ld_next :: nat
  ld_running :: bool
  ld_stop_closed :: bool
  ld_loops :: nat
  ld_talking :: bool

definition subtype_of :: "string \<Rightarrow> int" where
  "subtype_of res = int (stream_subtype res)"

definition new_l620 :: "string \<Rightarrow> string \<Rightarrow> string \<Rightarrow> string \<Rightarrow> device_status \<Rightarrow> l620_driver" where
  "new_l620 ip user pwd res st =
     (let u = (if user = [] then ''admin'' else user) in
      \<lparr>ld_ip = ip, ld_user = u, ld_password = pwd, ld_resolution = normal_resolution res,
       ld_client = new_xm_client u pwd, ld_status = st, ld_ingest = 0,
       ld_urls = candidate_urls ip rtsp_port u pwd (subtype_of res) [],
       ld_live = {}, ld_next = 1, ld_running = False, ld_stop_closed = False, ld_loops = 0, ld_talking = False\<rparr>)"

text \<open>The first attempt to connect, as in a turn of the supervisor.\<close>

definition first_connect ::
  "xm_prims \<Rightarrow> bytes \<Rightarrow> wire list \<Rightarrow> string \<Rightarrow> xm_client \<times> device_status \<Rightarrow> xm_client \<times> device_status" where
  "first_connect pr random ws res s =
     (case connect pr random ws (fst s) of
        (err, c) \<Rightarrow>
          if err = None \<and> logged_in c then
            (let c1 = snd (enable_rtsp pr c); c2 = snd (ensure_h264 pr c1) in sync_initial_state pr res (c2, snd s))
          else (c, snd s))"

definition stream_password :: "l620_driver \<Rightarrow> string" where
  "stream_password d =
     (if effective_password (ld_client d) = [] then ld_password d else effective_password (ld_client d))"

text \<open>
  \<^verbatim>\<open>Start\<close>: a new reader takes the place of the one made with the driver. The dial may fail (None), then there is no login.
\<close>

definition l620_start :: "xm_prims \<Rightarrow> (bytes \<times> wire list) option \<Rightarrow> l620_driver \<Rightarrow> l620_driver" where
  "l620_start pr dial d =
     (if ld_running d then d
      else let (c, st) = (case dial of
                            None \<Rightarrow> (ld_client d, ld_status d)
                          | Some (random, ws) \<Rightarrow> first_connect pr random ws (ld_resolution d) (ld_client d, ld_status d));
               d1 = d\<lparr>ld_client := c, ld_status := st, ld_loops := Suc (ld_loops d)\<rparr>
           in d1\<lparr>ld_ingest := ld_next d1,
                 ld_urls := candidate_urls (ld_ip d1) rtsp_port (ld_user d1) (stream_password d1)
                              (if ld_resolution d1 = ''360p'' then 1 else 0) [ld_password d1],
                 ld_live := insert (ld_next d1) (ld_live d1), ld_next := Suc (ld_next d1), ld_running := True\<rparr>)"

definition l620_set_resolution :: "string \<Rightarrow> l620_driver \<Rightarrow> l620_driver" where
  "l620_set_resolution res d =
     d\<lparr>ld_resolution := normal_resolution res,
       ld_status := (ld_status d)\<lparr>resolution := normal_resolution res\<rparr>,
       ld_ingest := ld_next d,
       ld_urls := candidate_urls (ld_ip d) rtsp_port (ld_user d) (stream_password d) (subtype_of res) [],
       ld_live := insert (ld_next d) (ld_live d - {ld_ingest d}), ld_next := Suc (ld_next d)\<rparr>"

text \<open>Sound for the loudspeaker; an error of the talk channel is dropped.\<close>

definition l620_audio :: "xm_prims \<Rightarrow> talk_payloads \<Rightarrow> bytes \<Rightarrow> l620_driver \<Rightarrow> l620_driver" where
  "l620_audio pr tp audio d =
     (case send_audio pr tp audio (ld_talking d) (ld_client d) of
        (err, talking, c) \<Rightarrow> d\<lparr>ld_talking := talking, ld_client := c\<rparr>)"

text \<open>\<^verbatim>\<open>Close\<close>; None is a panic: of closing the driver's channel again, or of the client's own \<^verbatim>\<open>Close\<close>.\<close>

definition l620_close :: "xm_prims \<Rightarrow> talk_payloads \<Rightarrow> l620_driver \<Rightarrow> l620_driver option" where
  "l620_close pr tp d =
     (if \<not> ld_running d then Some d
      else if ld_stop_closed d then None
      else case stop_talk pr tp (ld_talking d) (ld_client d) of
             (talking, c) \<Rightarrow>
               map_option
                 (\<lambda>c1. d\<lparr>ld_running := False, ld_stop_closed := True, ld_talking := talking,
                         ld_live := ld_live d - {ld_ingest d}, ld_client := c1\<rparr>)
                 (xm_close pr c))"

subsection \<open>The manager in front of the driver\<close>

definition manager_keyframe :: "(unit \<Rightarrow> 'a list) option \<Rightarrow> 'a list" where
  "manager_keyframe d = (case d of Some f \<Rightarrow> f () | None \<Rightarrow> [])"

definition manager_provider :: "'p option option \<Rightarrow> 'p option" where
  "manager_provider d = (case d of Some p \<Rightarrow> p | None \<Rightarrow> None)"

definition manager_audio :: "('pkt \<Rightarrow> driver_error option) option \<Rightarrow> 'pkt \<Rightarrow> driver_error option" where
  "manager_audio d pkt = (case d of Some f \<Rightarrow> f pkt | None \<Rightarrow> Some CameraOffline)"

subsection \<open>New\<close>

datatype driver_kind = L620 | L625

definition choose_driver :: "bool \<Rightarrow> driver_kind" where
  "choose_driver is_l620 = (if is_l620 then L620 else L625)"

text \<open>What the events of the bus do: the listener of the recordings, that of MQTT and that of ONVIF.\<close>

datatype app_listener = SyncOnMotion | MqttPublisher | OnvifEvents

datatype app_error = BadConfig config_error | RtspInitFailed

record app =
  ap_config :: config
  ap_l620 :: bool
  ap_model :: string
  ap_version :: string
  ap_bus :: "app_listener bus"
  ap_mqtt :: "mqtt_client option"
  ap_syncer :: syncer
  ap_driver :: driver_kind
  ap_reboot :: "string option"

text \<open>
  The reset of the pairing: the key file (None: there is none) is removed, with or without a QR code; the removal may fail.
\<close>

definition reset_key :: "config \<Rightarrow> bool \<Rightarrow> bool \<Rightarrow> string option \<Rightarrow> string option" where
  "reset_key cfg is_l620 removable key_file =
     (if cf_reset_pairing cfg \<and> \<not> is_l620 \<and> removable then None else key_file)"

text \<open>The provider of recordings that ONVIF and the syncer ask for: the cached one, or the driver's.\<close>

definition recording_source :: "config \<Rightarrow> 'p \<Rightarrow> upstream option \<Rightarrow> 'p source" where
  "recording_source cfg cached drv =
     (if cf_cache_recordings cfg > 0 then Caching cached
      else case drv of Some u \<Rightarrow> Direct u | None \<Rightarrow> NoProvider)"

text \<open>
  \<open>rtsp_ok\<close> is whether the RTSP server can be made. The listeners subscribe in the order of the calls: ONVIF in its constructor,
  the recordings in \<^verbatim>\<open>New\<close>, MQTT when it starts.
\<close>

definition new_app ::
  "(string \<Rightarrow> bool) \<Rightarrow> bool \<Rightarrow> bool \<Rightarrow> gtime \<Rightarrow> config \<Rightarrow> string \<Rightarrow> string option \<Rightarrow>
   (app_error + app) \<times> string option" where
  "new_app sofia_open rtsp_ok removable now cfg0 version0 key_file =
     (case validate_config cfg0 of
        Some e \<Rightarrow> (Inl (BadConfig e), key_file)
      | None \<Rightarrow>
          (case probe_model sofia_open cfg0 of
             (l620, model, cfg) \<Rightarrow>
               let key' = reset_key cfg l620 removable key_file in
               if \<not> rtsp_ok then (Inl RtspInitFailed, key')
               else
                 (Inr \<lparr>ap_config = cfg, ap_l620 = l620, ap_model = model,
                       ap_version = (if version0 = [] then cf_app_version cfg0 else version0),
                       ap_bus = subscribe SyncOnMotion (subscribe OnvifEvents (new_bus now)),
                       ap_mqtt = (if cf_mqtt_broker cfg \<noteq> []
                                  then Some (new_mqtt (cf_mqtt_topic cfg) (nb_device_id (cf_nabto cfg))) else None),
                       ap_syncer = set_stream_active (Some False) (new_syncer (wrap64 (cf_sync_interval cfg * second))),
                       ap_driver = choose_driver l620, ap_reboot = None\<rparr>, key')))"

text \<open>What the callbacks that \<^verbatim>\<open>New\<close> hands out do: a reboot is only noted, motion asks for the recordings.\<close>

definition on_reboot :: "app \<Rightarrow> app" where
  "on_reboot a = a\<lparr>ap_reboot := Some ''Reboot requested''\<rparr>"

definition streaming :: "rtsp_server \<Rightarrow> bool" where
  "streaming s \<longleftrightarrow> active_count s > 0"

definition on_bus_event :: "(app_listener \<times> event_type \<times> event_data) \<Rightarrow> syncer \<Rightarrow> syncer" where
  "on_bus_event call s =
     (case call of (l, evt, dat) \<Rightarrow>
        if l = SyncOnMotion \<and> motion_of evt dat = Some True then trigger_sync s else s)"

definition device_discovered :: "string \<Rightarrow> app \<Rightarrow> app" where
  "device_discovered dev a = a\<lparr>ap_mqtt := map_option (update_device_info dev) (ap_mqtt a)\<rparr>"

subsection \<open>Run\<close>

datatype app_action =
    StartRtsp
  | StartOnvif
  | StartMqtt
  | StartSyncer
  | StartSupervisor
  | AwaitContext
  | AwaitSupervisor
  | CloseDriver
  | CloseRtsp
  | CloseOnvif

definition shutdown_actions :: "app_action list" where
  "shutdown_actions = [CloseDriver, CloseRtsp, CloseOnvif]"

text \<open>An ONVIF server that does not start is only a warning. The result is whether the RTSP server has started.\<close>

definition app_run :: "bool \<Rightarrow> app \<Rightarrow> bool \<times> app_action list" where
  "app_run rtsp_starts a =
     (if \<not> rtsp_starts then (False, StartRtsp # shutdown_actions)
      else (True, [StartRtsp, StartOnvif] @ (if ap_mqtt a \<noteq> None then [StartMqtt] else []) @
                  [StartSyncer, StartSupervisor, AwaitContext, AwaitSupervisor] @ shutdown_actions))"

text \<open>The supervisor runs the driver; without one it is offline.\<close>

definition supervise :: "'d option \<Rightarrow> ('d \<Rightarrow> driver_error option) \<Rightarrow> driver_error option" where
  "supervise d run = (case d of None \<Rightarrow> Some CameraOffline | Some x \<Rightarrow> run x)"

text \<open>
  The L 620 in a run of the application: what comes to the driver is sound and requests for a resolution, from before
  the supervisor has called \<^verbatim>\<open>Start\<close> (ONVIF and MQTT are up by then), between, and behind the \<^verbatim>\<open>Close\<close> that \<^verbatim>\<open>Run\<close>
  of the driver has deferred; then comes the one of the clean-up.
\<close>

datatype l620_op = OpStart "(bytes \<times> wire list) option" | OpResolution string | OpAudio bytes | OpClose

fun l620_ops :: "xm_prims \<Rightarrow> talk_payloads \<Rightarrow> l620_op list \<Rightarrow> l620_driver \<Rightarrow> l620_driver option" where
  "l620_ops pr tp [] d = Some d"
| "l620_ops pr tp (OpStart dial # ops) d = l620_ops pr tp ops (l620_start pr dial d)"
| "l620_ops pr tp (OpResolution res # ops) d = l620_ops pr tp ops (l620_set_resolution res d)"
| "l620_ops pr tp (OpAudio audio # ops) d = l620_ops pr tp ops (l620_audio pr tp audio d)"
| "l620_ops pr tp (OpClose # ops) d = Option.bind (l620_close pr tp d) (l620_ops pr tp ops)"

end
