(* ===== verification/Xiongmai_Proofs.thy ===== *)
theory Xiongmai_Proofs
  imports Xiongmai_Client
begin

text \<open>
  The header codec, encryption and decryption, the reassembly of telemetry, requests and
  their responses, the ways a login can end and what happens when a connection is lost twice.
\<close>

subsection \<open>The header\<close>

lemma le32_of_le32: "le32 (of_le32 a b c d) = [a, b, c, d]"
proof -
  have "ucast (of_le32 a b c d) = a" "ucast (drop_bit 8 (of_le32 a b c d)) = b"
    "ucast (drop_bit 16 (of_le32 a b c d)) = c" "ucast (drop_bit 24 (of_le32 a b c d)) = d"
    by (rule bit_word_eqI, auto simp: of_le32_def of_be32_def bit_simps dest: bit_imp_le_length)+
  then show ?thesis by (simp add: le32_def)
qed

lemma le16_of_le16: "le16 (of_le16 a b) = [a, b]"
proof -
  have "ucast (of_le16 a b) = a" "ucast (drop_bit 8 (of_le16 a b)) = b"
    by (rule bit_word_eqI, auto simp: of_le16_def of_be16_def bit_simps dest: bit_imp_le_length)+
  then show ?thesis by (simp add: le16_def)
qed

lemma length_encode_header [simp]: "length (encode_header h) = header_length"
  by (simp add: encode_header_def header_length_def)

lemma decode_encode_header:
  "hd_magic h = header_magic \<Longrightarrow> decode_header (encode_header h @ rest) = Some h"
  by (simp add: decode_header_def encode_header_def header_length_def le32_def le16_def)

lemma twenty_bytes:
  assumes "length d = 20"
  obtains a0 a1 a2 a3 a4 a5 a6 a7 a8 a9 b0 b1 b2 b3 b4 b5 b6 b7 b8 b9
  where "d = [a0, a1, a2, a3, a4, a5, a6, a7, a8, a9, b0, b1, b2, b3, b4, b5, b6, b7, b8, b9]"
proof -
  have "d = map (\<lambda>i. d ! i) [0..<20]" using assms by (intro nth_equalityI) simp_all
  then show ?thesis using that by (simp add: upt_rec)
qed

lemma encode_decode_header:
  assumes "decode_header d = Some h"
  shows "d = encode_header h @ drop header_length d" "hd_magic h = header_magic"
proof -
  have len: "20 \<le> length d" using assms by (auto simp: decode_header_def header_length_def split: if_splits)
  then have t20: "length (take 20 d) = 20" by simp
  obtain a0 a1 a2 a3 a4 a5 a6 a7 a8 a9 b0 b1 b2 b3 b4 b5 b6 b7 b8 b9
    where t: "take 20 d = [a0, a1, a2, a3, a4, a5, a6, a7, a8, a9, b0, b1, b2, b3, b4, b5, b6, b7, b8, b9]"
    by (rule twenty_bytes[OF t20])
  have n: "d ! i = take 20 d ! i" if "i < 20" for i using that by simp
  have "encode_header h = take 20 d \<and> hd_magic h = header_magic"
    using assms unfolding decode_header_def
    by (simp only: n header_length_def t) (auto simp: encode_header_def le32_of_le32 le16_of_le16 split: if_splits)
  then show "d = encode_header h @ drop header_length d" "hd_magic h = header_magic"
    by (simp_all add: header_length_def)
qed

text \<open>
  The header codec is exact in both directions: the decoder accepts precisely the byte strings
  that begin with what the encoder writes for a header with the magic byte, and returns that header.
\<close>

theorem header_codec_exact:
  "decode_header d = Some h \<longleftrightarrow> hd_magic h = header_magic \<and> take header_length d = encode_header h"
proof
  assume d: "decode_header d = Some h"
  from encode_decode_header[OF d] show "hd_magic h = header_magic \<and> take header_length d = encode_header h"
    by (metis append_eq_conv_conj length_encode_header)
next
  assume "hd_magic h = header_magic \<and> take header_length d = encode_header h"
  then show "decode_header d = Some h" using decode_encode_header[of h "drop header_length d"] by (metis append_take_drop_id)
qed

subsection \<open>Encryption\<close>

lemma pkcs_pad_props:
  "length (pkcs_pad x) mod 16 = 0" "strip_pad (pkcs_pad x) = x" "pkcs_pad x \<noteq> []"
proof -
  define m where "m = 16 - length x mod 16"
  have n: "0 < m" "m \<le> 16" by (simp_all add: m_def less_imp_diff_less)
  have p: "pkcs_pad x = x @ replicate m (word_of_nat m)" by (simp add: pkcs_pad_def block_size_def Let_def m_def)
  have "(length x + m) mod 16 = 0" unfolding m_def by presburger
  then show "length (pkcs_pad x) mod 16 = 0" by (simp add: p)
  show "pkcs_pad x \<noteq> []" using n by (simp add: p)
  have u: "unat (word_of_nat m :: byte) = m" using n by (simp add: unat_of_nat take_bit_nat_eq_self)
  have l: "last (pkcs_pad x) = word_of_nat m" using n by (simp add: p)
  have "drop (length (pkcs_pad x) - m) (pkcs_pad x) = replicate m (word_of_nat m)" by (simp add: p)
  moreover have "take (length (pkcs_pad x) - m) (pkcs_pad x) = x" by (simp add: p)
  moreover have "list_all (\<lambda>b. unat b = m) (replicate m (word_of_nat m :: byte))" using u by (simp add: list_all_iff)
  ultimately show "strip_pad (pkcs_pad x) = x"
    using n \<open>pkcs_pad x \<noteq> []\<close> unfolding strip_pad_def l u Let_def block_size_def by simp
qed

text \<open>
  What one side encrypts the other decrypts, up to the NULs, line ends and blanks at the
  end of the text, which the receiver strips in any case: for a block cipher that inverts itself
  and a key of 16 bytes, whatever the length of the text.
\<close>

theorem aes_roundtrip:
  assumes "aes_ok pr" "length key = 16"
  shows "\<exists>y. encrypt_aes pr key x = Some y \<and> decrypt_aes pr key y = Some (trim_wire x)"
proof -
  let ?y = "cbc_encrypt pr key (pkcs_pad x)"
  have "cbc_decrypt pr key ?y = pkcs_pad x" "length ?y = length (pkcs_pad x)"
    using assms pkcs_pad_props(1)[of x] by (auto simp: aes_ok_def)
  then show ?thesis
    using assms(2) pkcs_pad_props[of x]
    by (auto simp: encrypt_aes_def decrypt_aes_def key_ok_def block_size_def)
qed

subsection \<open>Telemetry\<close>

lemma from_last_None: "from_last c s = None \<longleftrightarrow> c \<notin> set s"
  by (simp add: from_last_def)

lemma from_last_Some:
  assumes "from_last c s = Some t"
  shows "\<exists>p u. s = p @ t \<and> t = c # u \<and> c \<notin> set u"
proof -
  have c: "c \<in> set s" and t: "t = c # rev (takeWhile (\<lambda>x. x \<noteq> c) (rev s))"
    using assms by (auto simp: from_last_def split: if_splits)
  have "dropWhile (\<lambda>x. x \<noteq> c) (rev s) \<noteq> []" using c by (simp add: dropWhile_eq_Nil_conv)
  then obtain r where r: "dropWhile (\<lambda>x. x \<noteq> c) (rev s) = c # r"
    using hd_dropWhile[of "\<lambda>x. x \<noteq> c" "rev s"] by (cases "dropWhile (\<lambda>x. x \<noteq> c) (rev s)") auto
  have "rev s = takeWhile (\<lambda>x. x \<noteq> c) (rev s) @ c # r" using takeWhile_dropWhile_id r by metis
  then have "s = rev r @ t" unfolding t by (metis append.assoc append_Cons append_Nil rev.simps(2) rev_append rev_rev_ident)
  moreover have "c \<notin> set (rev (takeWhile (\<lambda>x. x \<noteq> c) (rev s)))" by (auto dest: set_takeWhileD)
  ultimately show ?thesis using t by blast
qed

lemma from_last_whole: "c \<notin> set u \<Longrightarrow> from_last c (c # u) = Some (c # u)"
proof -
  assume "c \<notin> set u"
  then have "takeWhile (\<lambda>x. x \<noteq> c) (rev (c # u)) = rev u" by (simp add: takeWhile_append)
  then show ?thesis by (simp add: from_last_def)
qed

text \<open>What the buffer holds between two packets: nothing, or the beginning of one frame.\<close>

definition frame_begun :: "string \<Rightarrow> bool" where
  "frame_begun s \<longleftrightarrow> s = [] \<or> (hd s = CHR ''B'' \<and> CHR ''B'' \<notin> set (tl s) \<and> last s \<noteq> CHR ''U'')"

lemma telemetry_push_frame_begun:
  assumes "frame_begun (telemetry_buf c)"
  shows "frame_begun (telemetry_buf (telemetry_push raw c))"
proof -
  let ?full = "telemetry_buf c @ trim_set pad_char raw"
  have "frame_begun t" if b: "from_last (CHR ''B'') ?full = Some t" and no_end: "\<not> has_suffix ?full ''U''" for t
  proof -
    obtain p u where t: "?full = p @ t" "t = CHR ''B'' # u" "CHR ''B'' \<notin> set u" using from_last_Some[OF b] by blast
    have "last t \<noteq> CHR ''U''"
    proof
      assume "last t = CHR ''U''"
      then have "t = butlast t @ ''U''" using t(2) by (metis append_butlast_last_id list.distinct(1))
      then have "?full = (p @ butlast t) @ ''U''" using t(1) by simp
      then show False using no_end has_suffix_iff by blast
    qed
    then show ?thesis using t by (simp add: frame_begun_def)
  qed
  then show ?thesis
    using assms by (auto simp: telemetry_push_def Let_def frame_begun_def[of "[]"] split: option.splits)
qed

lemma telemetry_push_chunk:
  assumes "p @ x @ r = CHR ''B'' # u @ ''U''" "CHR ''B'' \<notin> set u" "CHR ''U'' \<notin> set u"
    and "x \<noteq> []" "\<forall>k \<in> set x. \<not> pad_char k" "telemetry_buf c = p"
  shows "telemetry_push x c =
    (if r \<noteq> [] then c\<lparr>telemetry_buf := p @ x\<rparr>
     else case parse_mcu_string (CHR ''B'' # u @ ''U'') of
            None \<Rightarrow> c\<lparr>telemetry_buf := []\<rparr>
          | Some cfg \<Rightarrow> c\<lparr>telemetry_buf := [], last_config := Some cfg, reported := reported c @ [cfg]\<rparr>)"
proof -
  have trim: "trim_set pad_char x = x" using assms(5) by (rule trim_set_none)
  show ?thesis
  proof (cases "r = []")
    case True
    then have full: "p @ x = CHR ''B'' # u @ ''U''" using assms(1) by simp
    have "has_suffix (CHR ''B'' # u @ ''U'') ''U''" unfolding has_suffix_iff by (metis append_Cons)
    moreover have "from_last (CHR ''B'') (CHR ''B'' # u @ ''U'') = Some (CHR ''B'' # u @ ''U'')"
      using assms(2) by (intro from_last_whole) simp
    ultimately show ?thesis
      using True assms(4,6) full trim by (simp add: telemetry_push_def Let_def split: option.splits)
  next
    case False
    have "(p @ x) @ r = CHR ''B'' # u @ ''U''" "p @ x \<noteq> []" using assms(1,4) by simp_all
    then obtain w where w: "p @ x = CHR ''B'' # w" and pre: "w @ r = u @ ''U''"
      by (metis append_Cons list.exhaust list.inject)
    obtain r' where "r = r' @ ''U''" "w @ r' = u"
      using False pre by (metis append_butlast_last_id append_is_Nil_conv append_assoc append1_eq_conv last_appendR)
    then have wu: "set w \<subseteq> set u" by auto
    have "\<not> has_suffix (CHR ''B'' # w) ''U''"
    proof
      assume "has_suffix (CHR ''B'' # w) ''U''"
      then have "CHR ''U'' \<in> set (CHR ''B'' # w)" unfolding has_suffix_iff by (metis in_set_conv_decomp)
      then show False using wu assms(3) by auto
    qed
    moreover have "from_last (CHR ''B'') (CHR ''B'' # w) = Some (CHR ''B'' # w)"
      using wu assms(2) by (intro from_last_whole) auto
    ultimately show ?thesis using False assms(4,6) w trim by (simp add: telemetry_push_def Let_def)
  qed
qed

lemma telemetry_chunks:
  assumes "concat xs @ r = CHR ''B'' # u @ ''U''" "CHR ''B'' \<notin> set u" "CHR ''U'' \<notin> set u" "r \<noteq> []"
    and "\<forall>x \<in> set xs. x \<noteq> []" "\<forall>k \<in> set (concat xs). \<not> pad_char k" "telemetry_buf c = []"
  shows "fold telemetry_push xs c = c\<lparr>telemetry_buf := concat xs\<rparr>"
  using assms
proof (induction xs arbitrary: r rule: rev_induct)
  case (snoc x xs)
  have "fold telemetry_push xs c = c\<lparr>telemetry_buf := concat xs\<rparr>"
    using snoc.prems by (intro snoc.IH[of "x @ r"]) auto
  then show ?case
    using telemetry_push_chunk[of "concat xs" x r u "c\<lparr>telemetry_buf := concat xs\<rparr>"] snoc.prems by simp
qed simp

text \<open>
  C20. Telemetry survives its transport: a frame of the microcontroller that arrives in any
  number of pushed packets, cut anywhere, ends up as the last known configuration and is
  reported once, and nothing of it stays in the buffer.
\<close>

theorem telemetry_reassembled:
  assumes "concat xs = CHR ''B'' # u @ ''U''" "CHR ''B'' \<notin> set u" "CHR ''U'' \<notin> set u"
    and "\<forall>x \<in> set xs. x \<noteq> []" "\<forall>k \<in> set u. \<not> pad_char k" "telemetry_buf c = []"
    and "parse_mcu_string (CHR ''B'' # u @ ''U'') = Some cfg"
  shows "fold telemetry_push xs c = c\<lparr>last_config := Some cfg, reported := reported c @ [cfg]\<rparr>"
proof -
  have "xs \<noteq> []" using assms(1) by auto
  then obtain ys y where xs: "xs = ys @ [y]" by (metis rev_exhaust)
  have "set (concat xs) = set (CHR ''B'' # u @ ''U'')" using assms(1) by (simp only:)
  then have pads: "\<forall>k \<in> set (concat xs). \<not> pad_char k" using assms(5) by (auto simp: pad_char_def)
  have "fold telemetry_push ys c = c\<lparr>telemetry_buf := concat ys\<rparr>"
  proof (rule telemetry_chunks[where r = y])
    show "concat ys @ y = CHR ''B'' # u @ ''U''" using assms(1) xs by simp
    show "\<forall>k \<in> set (concat ys). \<not> pad_char k" using pads xs by simp
  qed (use assms xs in auto)
  moreover have "\<forall>k \<in> set y. \<not> pad_char k" using pads unfolding xs by simp
  then have "telemetry_push y (c\<lparr>telemetry_buf := concat ys\<rparr>) =
      c\<lparr>telemetry_buf := [], last_config := Some cfg, reported := reported c @ [cfg]\<rparr>"
    using telemetry_push_chunk[of "concat ys" y "[]" u "c\<lparr>telemetry_buf := concat ys\<rparr>"] assms(1-4,7) xs by simp
  moreover have "c\<lparr>telemetry_buf := []\<rparr> = c" using assms(6) by (cases c) simp
  ultimately show ?thesis unfolding xs by (metis comp_def fold.simps fold_append id_def)
qed

theorem telemetry_reassembled_witness:
  "last_config (fold telemetry_push [''Bu'', ''bzbz'', ''f'', ''zazaaU''] (new_xm_client [] [])) =
     parse_mcu_string ''BubzbzfzazaaU'' \<and>
   parse_mcu_string ''BubzbzfzazaaU'' \<noteq> None"
proof -
  have n: "parse_mcu_string ''BubzbzfzazaaU'' \<noteq> None" by code_simp
  then obtain cfg where p: "parse_mcu_string (CHR ''B'' # ''ubzbzfzazaa'' @ ''U'') = Some cfg" by auto
  have "\<forall>k \<in> set ''ubzbzfzazaa''. \<not> pad_char k" by code_simp
  from telemetry_reassembled[OF _ _ _ _ this _ p, of "[''Bu'', ''bzbz'', ''f'', ''zazaaU'']" "new_xm_client [] []"]
  show ?thesis using p n by (simp add: new_xm_client_def)
qed

subsection \<open>Requests and responses\<close>

definition on_wire :: "header \<Rightarrow> bytes \<Rightarrow> wire list" where
  "on_wire h body = map Data (encode_header h @ body)"

definition good_packet :: "header \<Rightarrow> bytes \<Rightarrow> bool" where
  "good_packet h body \<longleftrightarrow> hd_magic h = header_magic \<and> length body \<le> 65535 \<and> hd_length h = word_of_nat (length body)"

lemma read_full_data: "read_full (length bs) (map Data bs @ ws) = (Some bs, ws)"
  by (induction bs) simp_all

lemma read_packet_on_wire:
  assumes "good_packet h body"
  shows "read_packet (on_wire h body @ ws) = (Inr (h, body), ws)"
proof -
  have "read_full header_length (map Data (encode_header h) @ map Data body @ ws) = (Some (encode_header h), map Data body @ ws)"
    using read_full_data[of "encode_header h" "map Data body @ ws"] by simp
  moreover have "decode_header (encode_header h) = Some h"
    using assms decode_encode_header[of h "[]"] by (simp add: good_packet_def)
  moreover have "unat (hd_length h) = length body" "\<not> hd_length h > 65535"
    using assms unat_of_nat_small32[of "length body"] by (auto simp: good_packet_def word_less_nat_alt)
  ultimately show ?thesis by (simp add: read_packet_def on_wire_def read_full_data)
qed

lemma telemetry_push_update_incoming [simp]:
  "telemetry_push raw (c\<lparr>incoming := ws\<rparr>) = (telemetry_push raw c)\<lparr>incoming := ws\<rparr>"
  by (simp add: telemetry_push_def Let_def split: option.splits)

lemma response_behind_pushes:
  assumes "incoming c = concat (map (\<lambda>(h, b). on_wire h b) pushes) @ on_wire h body @ rest"
    and "\<forall>(k, b) \<in> set pushes. good_packet k b \<and> hd_msg k = msg_trans_serial_data"
    and "good_packet h body" "hd_msg h \<noteq> msg_trans_serial_data" "mid \<noteq> msg_trans_serial_data"
  shows "read_response mid c =
    (Inr (trim_wire body, h),
     (fold telemetry_push (map (\<lambda>(k, b). string_of (trim_wire b)) pushes) c)\<lparr>incoming := rest\<rparr>)"
  using assms(1,2)
proof (induction pushes arbitrary: c)
  case Nil
  then have "read_packet (incoming c) = (Inr (h, body), rest)" using read_packet_on_wire[OF assms(3)] by simp
  then show ?case using assms(4) by (subst read_response.simps) (simp add: Let_def)
next
  case (Cons p ps)
  obtain k b where p: "p = (k, b)" by fastforce
  let ?ws = "concat (map (\<lambda>(h, b). on_wire h b) ps) @ on_wire h body @ rest"
  have "read_packet (incoming c) = (Inr (k, b), ?ws)"
    using Cons.prems p read_packet_on_wire[of k b ?ws] by simp
  then have "read_response mid c = read_response mid ((telemetry_push (string_of (trim_wire b)) c)\<lparr>incoming := ?ws\<rparr>)"
    using Cons.prems(2) p assms(5) by (subst read_response.simps) (simp add: Let_def)
  also have "\<dots> = (Inr (trim_wire body, h), (fold telemetry_push (map (\<lambda>(k, b). string_of (trim_wire b)) ps)
      ((telemetry_push (string_of (trim_wire b)) c)\<lparr>incoming := ?ws\<rparr>))\<lparr>incoming := rest\<rparr>)"
    using Cons.prems(2) by (intro Cons.IH) auto
  also have "(fold telemetry_push xs (d\<lparr>incoming := ws\<rparr>))\<lparr>incoming := rest\<rparr> = (fold telemetry_push xs d)\<lparr>incoming := rest\<rparr>"
    for xs d ws by (induction xs arbitrary: d) simp_all
  finally show ?case by (simp add: p)
qed

text \<open>
  Pushed telemetry does not disturb a request: if the camera sends any number of telemetry
  packets before the response, the request gets the payload of the response, without its padding,
  the telemetry has been taken in order of arrival and what follows the response is left on the
  stream.
\<close>

theorem response_after_telemetry:
  assumes "incoming c = concat (map (\<lambda>(h, b). on_wire h b) pushes) @ on_wire h body @ rest"
    and "\<forall>(k, b) \<in> set pushes. good_packet k b \<and> hd_msg k = msg_trans_serial_data"
    and "good_packet h body" "hd_msg h \<noteq> msg_trans_serial_data" "mid \<noteq> msg_trans_serial_data"
  shows "read_response mid c =
    (Inr (trim_wire body, h),
     (fold telemetry_push (map (\<lambda>(k, b). string_of (trim_wire b)) pushes) c)\<lparr>incoming := rest\<rparr>)"
  using assms by (rule response_behind_pushes)

lemma send_raw_plain:
  assumes "conn_open c" "conn_writable c" "\<not> data_encryption c" "incoming c = on_wire h body @ rest"
    and "good_packet h body" "hd_msg h \<noteq> msg_trans_serial_data" "mid \<noteq> msg_trans_serial_data"
  shows "\<exists>p. send_raw pr mid payload c = (Inr (trim_wire body, h),
    c\<lparr>xm_sequence := xm_sequence c + 1, outgoing := outgoing c @ [p], incoming := rest\<rparr>)"
proof -
  have "read_response mid d = (Inr (trim_wire body, h), d\<lparr>incoming := rest\<rparr>)"
    if "incoming d = on_wire h body @ rest" for d
    using response_behind_pushes[of d "[]" h body rest mid] assms that by simp
  then show ?thesis
    using assms(1-4)
    by (simp add: send_raw_def send_with_header_def should_encrypt_def Let_def) (intro exI, rule refl)
qed

text \<open>
  A login that cannot succeed is not pressed: after answers that only say that the form of
  the password is not supported (124 or 129), the first other rejection, such as a wrong
  password, ends the attempt with that code, and no further login request is sent that could lock
  the account.
\<close>

theorem hopeless_login_stops:
  assumes "conn_open c" "conn_writable c" "\<not> data_encryption c"
    and "incoming c = concat (map (\<lambda>(h, b). on_wire h b) (soft @ [(h, b)])) @ rest"
    and "\<forall>(h, b) \<in> set (soft @ [(h, b)]). good_packet h b \<and> hd_msg h \<noteq> msg_trans_serial_data"
    and "\<forall>(h, b) \<in> set soft. \<exists>lr. read_login pr (string_of (trim_wire b)) = Some lr \<and> lr_ret lr \<in> {124, 129}"
    and "read_login pr (string_of (trim_wire b)) = Some lr" "lr_ret lr \<notin> {0, 100, 124, 129}"
    and "length soft < length cds"
  shows "\<exists>c1. legacy_loop pr cds sid lastErr c = (LoginFailed (Rejected (lr_ret lr)), c1) \<and>
    length (outgoing c1) = length (outgoing c) + length soft + 1 \<and> incoming c1 = rest"
  using assms
proof (induction soft arbitrary: cds c sid lastErr)
  case Nil
  then obtain cd cds' where cds: "cds = cd # cds'" by (cases cds) auto
  let ?m = "marshal pr (LoginRequest (cd_encrypt cd) (cd_login_type cd) (cd_user cd) (cd_password cd) [])"
  have "\<exists>p. send_raw pr msg_login_req ?m c = (Inr (trim_wire b, h),
    c\<lparr>xm_sequence := xm_sequence c + 1, outgoing := outgoing c @ [p], incoming := rest\<rparr>)"
    using Nil.prems by (intro send_raw_plain) (simp_all add: msg_defs)
  then show ?case using Nil.prems(7,8) cds by (auto simp: accepted_def Let_def)
next
  case (Cons x soft)
  obtain k d where x: "x = (k, d)" by fastforce
  obtain cd cds' where cds: "cds = cd # cds'" using Cons.prems(9) by (cases cds) auto
  obtain l where l: "read_login pr (string_of (trim_wire d)) = Some l" "lr_ret l \<in> {124, 129}"
    using Cons.prems(6) x by auto
  let ?m = "marshal pr (LoginRequest (cd_encrypt cd) (cd_login_type cd) (cd_user cd) (cd_password cd) [])"
  let ?ws = "concat (map (\<lambda>(h, b). on_wire h b) (soft @ [(h, b)])) @ rest"
  have "\<exists>p. send_raw pr msg_login_req ?m c = (Inr (trim_wire d, k),
    c\<lparr>xm_sequence := xm_sequence c + 1, outgoing := outgoing c @ [p], incoming := ?ws\<rparr>)"
    using Cons.prems x by (intro send_raw_plain) (simp_all add: msg_defs)
  then obtain p where p: "send_raw pr msg_login_req ?m c = (Inr (trim_wire d, k),
    c\<lparr>xm_sequence := xm_sequence c + 1, outgoing := outgoing c @ [p], incoming := ?ws\<rparr>)" by blast
  let ?c = "c\<lparr>xm_sequence := xm_sequence c + 1, outgoing := outgoing c @ [p], incoming := ?ws\<rparr>"
  let ?sid = "case parse_session (lr_session l) of Some i \<Rightarrow> i | None \<Rightarrow> sid"
  have "\<exists>c1. legacy_loop pr cds' ?sid (Some (Rejected (lr_ret l))) ?c = (LoginFailed (Rejected (lr_ret lr)), c1) \<and>
    length (outgoing c1) = length (outgoing ?c) + length soft + 1 \<and> incoming c1 = rest"
    using Cons.prems cds by (intro Cons.IH) auto
  moreover have "legacy_loop pr cds sid lastErr c = legacy_loop pr cds' ?sid (Some (Rejected (lr_ret l))) ?c"
    using p l cds by (auto simp: accepted_def Let_def)
  ultimately show ?case by auto
qed

subsection \<open>What operations leave alone\<close>

locale untouched_field =
  fixes f :: "xm_client \<Rightarrow> 'a"
  assumes keep [simp]: "f (c\<lparr>incoming := ws\<rparr>) = f c" "f (c\<lparr>outgoing := ps\<rparr>) = f c" "f (c\<lparr>xm_sequence := n\<rparr>) = f c"
    "f (c\<lparr>telemetry_buf := t\<rparr>) = f c" "f (c\<lparr>last_config := k\<rparr>) = f c" "f (c\<lparr>reported := rs\<rparr>) = f c"
    "f (c\<lparr>serial_active := b\<rparr>) = f c"
begin

lemma telemetry_push [simp]: "f (telemetry_push raw c) = f c"
  by (simp add: telemetry_push_def Let_def split: option.splits)

lemma read_response: "read_response mid c = (r, c1) \<Longrightarrow> f c1 = f c"
proof (induction mid c rule: read_response.induct)
  case (1 mid c)
  then show ?case
    by (subst (asm) (2) read_response.simps) (auto simp: Let_def split: prod.splits sum.splits if_splits)
qed

lemma send_with_header: "send_with_header mid ch tot sess p c = (r, c1) \<Longrightarrow> f c1 = f c"
  by (auto simp: send_with_header_def Let_def dest!: read_response split: if_splits)

lemma send_raw: "send_raw pr mid p c = (r, c1) \<Longrightarrow> f c1 = f c"
  by (auto simp: send_raw_def Let_def dest: send_with_header split: option.splits prod.splits sum.splits)

lemma snd_send_raw [simp]: "f (snd (send_raw pr mid p c)) = f c"
  by (metis prod.collapse send_raw)

lemma start_serial: "start_serial pr c = (r, c1) \<Longrightarrow> f c1 = f c"
  by (auto simp: start_serial_def dest: send_raw split: if_splits prod.splits sum.splits)

lemma snd_start_serial [simp]: "f (snd (start_serial pr c)) = f c"
  by (metis prod.collapse start_serial)

lemma drain_telemetry [simp]: "f (drain_telemetry n c) = f c"
  by (induction n arbitrary: c) (simp_all add: Let_def split: prod.splits sum.splits)

lemma send_mcu_command: "send_mcu_command pr cmd c = (r, c1) \<Longrightarrow> f c1 = f c"
  by (auto simp: send_mcu_command_def dest!: send_raw start_serial split: prod.splits sum.splits option.splits)

end

locale untouched_by_login = untouched_field +
  assumes keep_login [simp]: "f (c\<lparr>session_id := i\<rparr>) = f c" "f (c\<lparr>effective_password := pw\<rparr>) = f c"
    "f (c\<lparr>logged_in := b\<rparr>) = f c" "f (c\<lparr>comm_key := ck\<rparr>) = f c" "f (c\<lparr>data_encryption := b\<rparr>) = f c"
    "f (c\<lparr>not_encrypt := ne\<rparr>) = f c"
begin

lemma rsa_loop: "rsa_loop pr key uh ch cl cands lastErr c = (r, c1) \<Longrightarrow> f c1 = f c"
  by (induction cands arbitrary: lastErr c)
    (auto simp: Let_def init_not_encrypt_def dest!: send_with_header split: option.splits prod.splits sum.splits if_splits)

lemma legacy_loop: "legacy_loop pr cds sid lastErr c = (r, c1) \<Longrightarrow> f c1 = f c"
  by (induction cds arbitrary: sid lastErr c)
    (auto simp: Let_def dest!: send_raw split: option.splits prod.splits sum.splits if_splits)

lemma legacy_login: "legacy_login pr c = (r, c1) \<Longrightarrow> f c1 = f c"
  by (auto simp: legacy_login_def dest!: legacy_loop split: prod.splits legacy_result.splits if_splits)

lemma login: "login pr random c = (r, c1) \<Longrightarrow> f c1 = f c"
  by (auto simp: login_def query_claim_def login_rsa_def Let_def
      dest!: legacy_login rsa_loop send_with_header split: prod.splits sum.splits option.splits if_splits)

end

interpretation lifecycle: untouched_by_login "\<lambda>c. (conn_open c, xm_closed c, close_chan_closed c)"
  by unfold_locales simp_all

interpretation credentials: untouched_by_login "\<lambda>c. (xm_user c, xm_password c)"
  by unfold_locales simp_all

interpretation session: untouched_field
  "\<lambda>c. (session_id c, logged_in c, data_encryption c, comm_key c, not_encrypt c, effective_password c)"
  by unfold_locales simp_all

text \<open>
  Losing the connection twice takes the process down: after \<^verbatim>\<open>Close\<close>, every successful
  \<^verbatim>\<open>Connect\<close> makes the client closable again, and closing it then closes its closed channel.
\<close>

theorem second_close_panics:
  assumes "xm_close pr c = Some c1" "\<not> xm_closed c" "connect pr random ws c1 = (r, c2)"
  shows "xm_close pr c2 = None"
proof -
  have "close_chan_closed (snd (send_raw pr mid p d)) = close_chan_closed d" for mid p d
  proof -
    obtain q e where "send_raw pr mid p d = (q, e)" by fastforce
    with lifecycle.send_raw[OF this] show ?thesis by simp
  qed
  then have "close_chan_closed c1"
    using assms(1,2) by (auto simp: xm_close_def Let_def split: if_splits)
  then have "\<not> xm_closed c2 \<and> close_chan_closed c2"
    using assms(3) by (auto simp: connect_def dest!: lifecycle.login split: prod.splits option.splits)
  then show ?thesis by (simp add: xm_close_def)
qed

text \<open>
  Commands to the lamp leave the session alone: whatever the camera answers, or does not
  answer, sending a command changes neither the session number, the login state, the
  passwords nor the keys and the rules of encryption.
\<close>

theorem commands_keep_session:
  assumes "send_mcu_command pr cmd c = (r, c1)"
  shows "session_id c1 = session_id c \<and> logged_in c1 = logged_in c \<and> conn_open c1 = conn_open c \<and>
    comm_key c1 = comm_key c \<and> data_encryption c1 = data_encryption c \<and> not_encrypt c1 = not_encrypt c \<and>
    effective_password c1 = effective_password c \<and> xm_user c1 = xm_user c \<and> xm_password c1 = xm_password c"
  using session.send_mcu_command[OF assms] lifecycle.send_mcu_command[OF assms] credentials.send_mcu_command[OF assms]
  by simp

text \<open>
  A response that comes after its deadline is taken as the response to the next request,
  because responses are matched neither by their sequence number nor by their message number.
\<close>

theorem late_response_answers_next_request:
  assumes "conn_open c" "conn_writable c" "\<not> data_encryption c" "incoming c = Silence # on_wire h body @ rest"
    and "good_packet h body" "hd_msg h \<noteq> msg_trans_serial_data" "mid2 \<noteq> msg_trans_serial_data"
  shows "fst (send_raw pr mid1 p1 c) = Inl ReadError \<and>
    fst (send_raw pr mid2 p2 (snd (send_raw pr mid1 p1 c))) = Inr (trim_wire body, h)"
proof -
  have "read_response mid d = (Inl ReadError, d\<lparr>incoming := on_wire h body @ rest\<rparr>)"
    if "incoming d = Silence # on_wire h body @ rest" for mid d
  proof -
    have "read_full header_length (Silence # ws) = (None, ws)" for ws
      using read_full.simps(3)[of 19] by (simp add: header_length_def)
    then have "read_packet (incoming d) = (Inl ReadError, on_wire h body @ rest)"
      using that by (simp add: read_packet_def)
    then show ?thesis by (subst read_response.simps) simp
  qed
  then have "\<exists>p. send_raw pr mid1 p1 c = (Inl ReadError,
      c\<lparr>xm_sequence := xm_sequence c + 1, outgoing := outgoing c @ [p], incoming := on_wire h body @ rest\<rparr>)"
    using assms(1-4)
    by (simp add: send_raw_def send_with_header_def should_encrypt_def Let_def) (intro exI, rule refl)
  then obtain p where s: "send_raw pr mid1 p1 c = (Inl ReadError,
      c\<lparr>xm_sequence := xm_sequence c + 1, outgoing := outgoing c @ [p], incoming := on_wire h body @ rest\<rparr>)"
    by blast
  let ?c = "c\<lparr>xm_sequence := xm_sequence c + 1, outgoing := outgoing c @ [p], incoming := on_wire h body @ rest\<rparr>"
  have "\<exists>q. send_raw pr mid2 p2 ?c = (Inr (trim_wire body, h),
    ?c\<lparr>xm_sequence := xm_sequence ?c + 1, outgoing := outgoing ?c @ [q], incoming := rest\<rparr>)"
    using assms by (intro send_raw_plain) simp_all
  then show ?thesis using s by auto
qed

subsection \<open>Examples\<close>

text \<open>Arguments that suffice for examples: a cipher that changes nothing and a reader of codes.\<close>

definition toy_xm :: xm_prims where
  "toy_xm = \<lparr>xm_md5 = (\<lambda>x. replicate 16 (checksum x)), cbc_encrypt = (\<lambda>key x. x), cbc_decrypt = (\<lambda>key x. x),
     rsa_encrypt = (\<lambda>key s. Some s), marshal = (\<lambda>r. ''{}''),
     read_login = (\<lambda>s. if s = ''{124}'' then Some \<lparr>lr_ret = 124, lr_session = []\<rparr>
        else if s = ''{106}'' then Some \<lparr>lr_ret = 106, lr_session = []\<rparr> else None),
     read_claim = (\<lambda>s. None), read_ret = (\<lambda>s. None), read_rtsp = (\<lambda>s. None), read_encode = (\<lambda>s. None)\<rparr>"

definition reply_header :: "u16 \<Rightarrow> bytes \<Rightarrow> header" where
  "reply_header mid body = request_header mid 0 0 0 0 (length body)"

lemma good_reply: "length body \<le> 65535 \<Longrightarrow> good_packet (reply_header mid body) body"
  by (simp add: good_packet_def reply_header_def request_header_def)

lemma reply_msg [simp]: "hd_msg (reply_header mid body) = mid"
  by (simp add: reply_header_def request_header_def)

definition connected_client :: "wire list \<Rightarrow> xm_client" where
  "connected_client ws = (new_xm_client ''admin'' ''pw'')\<lparr>conn_open := True, incoming := ws\<rparr>"

theorem aes_roundtrip_witness:
  "\<exists>y. encrypt_aes toy_xm default_aes_key [1, 2] = Some y \<and> decrypt_aes toy_xm default_aes_key y = Some (trim_wire [1, 2])"
  by (rule aes_roundtrip) (simp_all add: aes_ok_def toy_xm_def default_aes_key_def)

theorem response_after_telemetry_witness:
  "fst (read_response msg_keep_alive_req (connected_client
     (on_wire (reply_header msg_trans_serial_data (bytes_of ''Bub'')) (bytes_of ''Bub'') @
      on_wire (reply_header 1007 [123, 125, 10, 0]) [123, 125, 10, 0]))) =
   Inr (trim_wire [123, 125, 10, 0], reply_header 1007 [123, 125, 10, 0])"
proof -
  let ?t = "bytes_of ''Bub''" and ?r = "[123, 125, 10, 0] :: bytes"
  have "1007 \<noteq> msg_trans_serial_data" "msg_keep_alive_req \<noteq> msg_trans_serial_data" by (simp_all add: msg_defs)
  then have "read_response msg_keep_alive_req (connected_client
     (on_wire (reply_header msg_trans_serial_data ?t) ?t @ on_wire (reply_header 1007 ?r) ?r)) =
    (Inr (trim_wire ?r, reply_header 1007 ?r), (fold telemetry_push
       (map (\<lambda>(k, b). string_of (trim_wire b)) [(reply_header msg_trans_serial_data ?t, ?t)])
       (connected_client (on_wire (reply_header msg_trans_serial_data ?t) ?t @ on_wire (reply_header 1007 ?r) ?r)))\<lparr>incoming := []\<rparr>)"
    by (intro response_after_telemetry) (simp_all add: connected_client_def good_reply)
  then show ?thesis by simp
qed

theorem hopeless_login_stops_witness:
  "\<exists>c1. legacy_loop toy_xm (password_candidates toy_xm ''admin'' ''pw'') 0 None (connected_client
      (on_wire (reply_header msg_login_resp (bytes_of ''{124}'')) (bytes_of ''{124}'') @
       on_wire (reply_header msg_login_resp (bytes_of ''{106}'')) (bytes_of ''{106}''))) =
     (LoginFailed (Rejected 106), c1) \<and> length (outgoing c1) = 2"
proof -
  obtain a b where ab: "a = bytes_of ''{124}''" "b = bytes_of ''{106}''" by blast
  let ?c = "connected_client (on_wire (reply_header msg_login_resp a) a @ on_wire (reply_header msg_login_resp b) b)"
  have m: "msg_login_resp \<noteq> msg_trans_serial_data" by (simp add: msg_defs)
  have r: "read_login toy_xm (string_of (trim_wire a)) = Some \<lparr>lr_ret = 124, lr_session = []\<rparr>"
    "read_login toy_xm (string_of (trim_wire b)) = Some \<lparr>lr_ret = 106, lr_session = []\<rparr>" unfolding ab by code_simp+
  have l: "length a \<le> 65535" "length b \<le> 65535" unfolding ab by simp_all
  obtain cds where cds: "cds = password_candidates toy_xm ''admin'' ''pw''" by blast
  have "trim_space ''pw'' \<noteq> []" by code_simp
  then have "1 < length cds" unfolding cds by (simp add: password_candidates_def Let_def)
  then have "\<exists>c1. legacy_loop toy_xm cds 0 None ?c =
      (LoginFailed (Rejected (lr_ret \<lparr>lr_ret = 106, lr_session = []\<rparr>)), c1) \<and>
    length (outgoing c1) = length (outgoing ?c) + length [(reply_header msg_login_resp a, a)] + 1 \<and> incoming c1 = []"
    using m r l by (intro hopeless_login_stops[where h = "reply_header msg_login_resp b" and b = b])
      (simp_all add: connected_client_def new_xm_client_def good_reply)
  then obtain c1 where c1: "legacy_loop toy_xm cds 0 None ?c = (LoginFailed (Rejected 106), c1)"
    "length (outgoing c1) = length (outgoing ?c) + 2" by fastforce
  have "outgoing ?c = []" by (simp add: connected_client_def new_xm_client_def)
  with c1(2) have "length (outgoing c1) = 2" by simp
  with c1(1) show ?thesis unfolding cds ab by (intro exI[of _ c1] conjI)
qed

theorem second_close_panics_witness:
  "xm_close toy_xm (snd (connect toy_xm [] [] ((new_xm_client [] [])\<lparr>xm_closed := True, close_chan_closed := True\<rparr>))) = None"
proof -
  let ?c = "new_xm_client [] []"
  have c: "xm_close toy_xm ?c = Some (?c\<lparr>xm_closed := True, close_chan_closed := True\<rparr>)" "\<not> xm_closed ?c"
    by (simp_all add: xm_close_def new_xm_client_def)
  obtain r c2 where "connect toy_xm [] [] (?c\<lparr>xm_closed := True, close_chan_closed := True\<rparr>) = (r, c2)" by fastforce
  with second_close_panics[OF c this] show ?thesis by simp
qed

theorem commands_keep_session_witness:
  "session_id (snd (send_mcu_command toy_xm ''BMdU'' (connected_client []))) = 0"
proof -
  obtain r c1 where "send_mcu_command toy_xm ''BMdU'' (connected_client []) = (r, c1)" by fastforce
  from commands_keep_session[OF this] this show ?thesis by (simp add: connected_client_def new_xm_client_def)
qed

theorem late_response_answers_next_request_witness:
  "fst (send_raw toy_xm msg_config_get_req [] (snd (send_raw toy_xm msg_keep_alive_req []
     (connected_client (Silence # on_wire (reply_header 1007 [65]) [65]))))) = Inr (trim_wire [65], reply_header 1007 [65])"
  using late_response_answers_next_request[of "connected_client (Silence # on_wire (reply_header 1007 [65]) [65])"
      "reply_header 1007 [65]" "[65]" "[]" msg_config_get_req toy_xm msg_keep_alive_req "[]" "[]"]
  by (simp add: connected_client_def new_xm_client_def good_reply msg_defs)

end
