(* ===== verification/Bridge_App_Proofs.thy ===== *)
theory Bridge_App_Proofs
  imports Bridge_App Nabto_Sdk_Proofs Xiongmai_Proofs
begin

text \<open>
  The driver of the L 620 has one stream while it runs and none behind its end, as long as nobody asks for a resolution too early
  or too late; motion leads to a look for new recordings; a reset of the pairing without a QR code shuts the bridge out.
\<close>

subsection \<open>One stream at a time\<close>

definition one_stream :: "l620_driver \<Rightarrow> bool" where
  "one_stream d \<longleftrightarrow> ld_running d \<and> ld_live d = {ld_ingest d} \<and> ld_ingest d < ld_next d \<and> ld_loops d = 1 \<and> \<not> ld_stop_closed d"

lemma start_one_stream: "one_stream (l620_start pr dial (new_l620 ip user pwd res st))"
  by (simp add: one_stream_def l620_start_def new_l620_def Let_def split: prod.split option.split)

lemma ops_one_stream:
  assumes "one_stream d" and "OpClose \<notin> set ops"
  shows "\<exists>d1. l620_ops pr tp ops d = Some d1 \<and> one_stream d1"
  using assms
proof (induction ops arbitrary: d)
  case (Cons op ops)
  have "\<exists>d2. l620_ops pr tp (op # ops) d = l620_ops pr tp ops d2 \<and> one_stream d2"
    using Cons.prems
    by (cases op) (auto simp: one_stream_def l620_start_def l620_set_resolution_def l620_audio_def split: prod.split)
  then obtain d2 where d2: "l620_ops pr tp (op # ops) d = l620_ops pr tp ops d2" "one_stream d2" by blast
  moreover have "OpClose \<notin> set ops" using Cons.prems by simp
  ultimately show ?case using Cons.IH by metis
qed simp

lemma close_again: "l620_close pr tp d = Some d1 \<Longrightarrow> l620_close pr tp d1 = Some d1"
  by (auto simp: l620_close_def split: if_splits prod.splits)

lemma closes_end_stream:
  assumes "one_stream d" and "l620_ops pr tp (replicate (Suc n) OpClose) d = Some d1"
  shows "ld_live d1 = {} \<and> \<not> ld_running d1"
proof -
  obtain d2 where d2: "l620_close pr tp d = Some d2" using assms(2) by (cases "l620_close pr tp d") auto
  have "l620_ops pr tp (replicate n OpClose) d2 = Some d2" for n
    using close_again[OF d2] by (induction n) auto
  then have "d1 = d2" using assms(2) d2 by simp
  with d2 assms(1) show ?thesis
    by (auto simp: l620_close_def one_stream_def split: if_splits prod.splits)
qed




text \<open>
  Outside of this the driver leaks: a resolution asked for before \<^verbatim>\<open>Start\<close>, when ONVIF and MQTT are already up, starts a
  reader that \<^verbatim>\<open>Start\<close> replaces without ending it; one asked for after \<^verbatim>\<open>Close\<close> starts one that nobody ends.
\<close>

lemma early_resolution_leaks:
  assumes "l620_ops pr tp [OpResolution r, OpStart dial, OpClose] (new_l620 ip user pwd res st) = Some d"
  shows "ld_live d = {1}"
  using assms
  by (auto simp: l620_start_def l620_set_resolution_def l620_close_def new_l620_def Let_def bind_eq_Some_conv
      split: prod.splits option.splits)

lemma late_resolution_leaks:
  assumes "l620_ops pr tp [OpStart dial, OpClose, OpResolution r] (new_l620 ip user pwd res st) = Some d"
  shows "ld_live d = {2} \<and> \<not> ld_running d"
  using assms
  by (auto simp: l620_start_def l620_set_resolution_def l620_close_def new_l620_def Let_def bind_eq_Some_conv
      split: prod.splits option.splits)

text \<open>A second life of the driver panics at its end: the channel that ends the supervisor is closed for the second time.\<close>

lemma second_life_panics:
  assumes "l620_ops pr tp [OpStart dial, OpClose] (new_l620 ip user pwd res st) = Some d"
  shows "l620_ops pr tp [OpStart dial', OpClose] d = None"
proof -
  have "ld_stop_closed d" "\<not> ld_running d"
    using assms by (auto simp: l620_start_def l620_close_def new_l620_def Let_def bind_eq_Some_conv
        split: prod.splits option.splits)
  then show ?thesis by (simp add: l620_start_def l620_close_def Let_def split: prod.split option.split)
qed

text \<open>
  After a change of the resolution the reader tries the effective password and the empty one only; the configured one, which the
  reader from \<^verbatim>\<open>Start\<close> tries too, is gone.
\<close>

lemma resolution_drops_password:
  assumes "trim_space pwd \<noteq> []" "trim_space pwd \<noteq> trim_space (stream_password d)" "ld_password d = pwd"
  shows "trim_space pwd \<in> set (url_passwords (stream_password d) [ld_password d])"
    and "trim_space pwd \<notin> set (url_passwords (stream_password d) [])"
  using assms by (auto simp: url_passwords_def Let_def)

subsection \<open>Motion and recordings\<close>

text \<open>What \<^verbatim>\<open>New\<close> has subscribed gets the motion, and the syncer is asked exactly when there is some, also while video is streamed.\<close>

lemma motion_fetches_recordings:
  assumes "fst (new_app sofia rtsp_ok removable now cfg version key_file) = Inr a"
    and "set_motion m t (ap_bus a) = (bus', cs)"
  shows "trigger_pending (fold on_bus_event cs s) \<longleftrightarrow> m \<or> trigger_pending s"
    and "m \<Longrightarrow> fst (on_trigger (set_stream_active f (fold on_bus_event cs s)))"
proof -
  have "listeners (ap_bus a) = [OnvifEvents, SyncOnMotion]"
    using assms(1) by (auto simp: new_app_def subscribe_def new_bus_def Let_def split: option.splits prod.splits if_splits)
  then have c: "cs = [(OnvifEvents, EventMotion, MotionData m t), (SyncOnMotion, EventMotion, MotionData m t)]"
    using assms(2) by (auto simp: set_motion_def publish_def Let_def)
  then show t: "trigger_pending (fold on_bus_event cs s) \<longleftrightarrow> m \<or> trigger_pending s"
    by (simp add: on_bus_event_def motion_of_def trigger_sync_def)
  show "m \<Longrightarrow> fst (on_trigger (set_stream_active f (fold on_bus_event cs s)))"
    using t by (simp add: on_trigger_def set_stream_active_def)
qed

subsection \<open>The clean-up\<close>

text \<open>However \<^verbatim>\<open>Run\<close> ends, the driver and both servers are closed once, in this order and at its end, and the driver only after the supervisor has come back.\<close>

lemma run_cleans_up:
  "\<exists>as. app_run rtsp_starts a = (rtsp_starts, as @ [CloseDriver, CloseRtsp, CloseOnvif]) \<and>
     {CloseDriver, CloseRtsp, CloseOnvif} \<inter> set as = {} \<and> (StartSupervisor \<in> set as \<longrightarrow> last as = AwaitSupervisor)"
  by (cases rtsp_starts) (auto simp: app_run_def shutdown_actions_def)

subsection \<open>A reset without a QR code\<close>

lemma unpaired_stays_out:
  assumes "\<not> has_pair_pwd cfg" "\<forall>e \<in> set es. \<forall>key. sd_gen e = Some key \<longrightarrow> key \<notin> known" "\<forall>key. file0 = Some key \<longrightarrow> key \<notin> known"
  shows "\<not> has_paired_key (fold (camera_turn cfg) es (file0, known))"
  using assms(2,3)
proof (induction es arbitrary: file0)
  case Nil
  then show ?case by (auto simp: has_paired_key_def)
next
  case (Cons e es)
  obtain file1 where f: "camera_turn cfg e (file0, known) = (file1, known)" "\<forall>key. file1 = Some key \<longrightarrow> key \<notin> known"
  proof (cases file0)
    case (Some key)
    then have "sdk_connect cfg e file0 \<in> {(Inl NoConnection, file0), (Inl ConnectFailed, file0), (Inr key, file0)}"
      by (simp add: sdk_connect_def)
    with Some assms(1) have "camera_turn cfg e (file0, known) = (file0, known)"
      by (auto simp: camera_turn_def sdk_request_tracks_def)
    with that Cons.prems(2) show ?thesis by blast
  next
    case None
    show ?thesis
    proof (cases "sd_gen e")
      case None
      with \<open>file0 = None\<close> have "camera_turn cfg e (file0, known) = (None, known)" by (simp add: camera_turn_def sdk_connect_def)
      with that show ?thesis by blast
    next
      case (Some key)
      let ?f = "save_key (sd_writable e) key None"
      have "sdk_connect cfg e None \<in> {(Inl NoConnection, ?f), (Inl ConnectFailed, ?f), (Inr key, ?f)}"
        using Some assms(1) by (simp add: sdk_connect_def)
      with \<open>file0 = None\<close> assms(1) have "camera_turn cfg e (file0, known) = (?f, known)"
        by (auto simp: camera_turn_def sdk_request_tracks_def)
      moreover have "\<forall>k. ?f = Some k \<longrightarrow> k \<notin> known" using Some Cons.prems(1) by (auto simp: save_key_def)
      ultimately show ?thesis using that by blast
    qed
  qed
  with Cons show ?case by simp
qed

text \<open> Asking for a reset of the pairing without a QR code shuts an L 625 out that was paired before: the key is removed at the
  start all the same, and in every sequence of turns of the driver over the C library, whatever new keys are generated that the camera
  does not know, it never again has a key that the camera knows; without the reset it would have kept the one it had. \<close>

theorem reset_without_qr_locks_out:
  assumes "cf_reset_pairing cfg" "\<not> has_pair_pwd (cf_nabto cfg)" "key \<in> known"
    and "\<forall>e \<in> set es. \<forall>k. sd_gen e = Some k \<longrightarrow> k \<notin> known"
    and "new_app sofia rtsp_ok True now cfg version (Some key) = (Inr a, file1)" "ap_driver a = L625"
  shows "\<not> has_paired_key (fold (camera_turn (sdk_config (cf_nabto cfg))) es (file1, known)) \<and>
    has_paired_key (fold (camera_turn (sdk_config (cf_nabto cfg))) es (Some key, known))"
proof
  have "file1 = None"
    using assms(1,5,6) by (auto simp: new_app_def reset_key_def choose_driver_def probe_model_def Let_def on_nabto_def
        split: option.splits prod.splits if_splits)
  moreover have "\<not> has_pair_pwd (sdk_config (cf_nabto cfg))" using assms(2) by (auto simp: has_pair_pwd_def sdk_config_def)
  ultimately show "\<not> has_paired_key (fold (camera_turn (sdk_config (cf_nabto cfg))) es (file1, known))"
    using unpaired_stays_out assms(4) by simp
  have "fold (camera_turn c) es (Some key, known) = (Some key, known)" for c
    using camera_turn_keeps[OF assms(3)] by (induction es) auto
  then show "has_paired_key (fold (camera_turn (sdk_config (cf_nabto cfg))) es (Some key, known))"
    using assms(3) by (simp add: has_paired_key_def)
qed


theorem reset_without_qr_locks_out_witness:
  "\<exists>cfg a e. new_app (\<lambda>_. False) True True 0 cfg [] (Some ''k'') = (Inr a, None) \<and>
     fst (camera_turn (sdk_config (cf_nabto cfg)) e (None, {''k''})) = Some ''n'' \<and>
     \<not> has_paired_key (fold (camera_turn (sdk_config (cf_nabto cfg))) [e, e] (None, {''k''}))"
proof -
  let ?c = "(default_config False)\<lparr>cf_reset_pairing := True, cf_nabto := (cf_nabto (default_config False))\<lparr>nb_camera_ip := ''h''\<rparr>\<rparr>"
  let ?e = "\<lparr>sd_gen = Some ''n'', sd_writable = True, sd_conn = True, sd_connected = True, sd_auth = True, sd_pairing = []\<rparr>"
  have q: "cf_reset_pairing ?c" "\<not> has_pair_pwd (cf_nabto ?c)" by (simp_all add: has_pair_pwd_def default_config_def)
  have v: "validate_config ?c = None" by (simp add: validate_config_def default_config_def)
  have p: "probe_model (\<lambda>_. False) ?c = (False, ''L 625 CAM SC'', ?c)"
    by (simp add: probe_model_def default_config_def trim_space_def trim_set_def to_lower_def)
  obtain a where a: "new_app (\<lambda>_. False) True True 0 ?c [] (Some ''k'') = (Inr a, None)" "ap_driver a = L625"
    using v p q(1) by (simp add: new_app_def reset_key_def choose_driver_def Let_def)
  have n: "\<not> has_paired_key (fold (camera_turn (sdk_config (cf_nabto ?c))) [?e, ?e] (None, {''k''}))"
    using reset_without_qr_locks_out[OF q, of "''k''" "{''k''}" "[?e, ?e]"] a by simp
  have "\<not> has_pair_pwd (sdk_config (cf_nabto ?c))" by (simp add: has_pair_pwd_def sdk_config_def default_config_def)
  then have "fst (camera_turn (sdk_config (cf_nabto ?c)) ?e (None, {''k''})) = Some ''n''"
    by (simp add: camera_turn_def sdk_connect_def save_key_def sdk_request_tracks_def)
  with a(1) n show ?thesis by blast
qed

text \<open>
  Without a QR code the C library's client writes placeholders into the configuration that it shares with the application, so that the
  name space of MQTT and of Home Assistant becomes that of a camera called de-xxxxxxx, the same for every such bridge.
\<close>

lemma placeholder_reaches_mqtt:
  assumes "nb_device_id cfg = []" "ap_mqtt a = Some m" "mq_device m \<noteq> ''de-xxxxxxx''"
  shows "map_option mq_base (ap_mqtt (device_discovered (nb_device_id (sdk_config cfg)) a)) =
    Some (base_prefix (mq_prefix m) @ ''/de-xxxxxxx'')"
  using assms by (simp add: sdk_config_def device_discovered_def update_device_info_def)

end
