(* ===== verification/Recording_Cache_Proofs.thy ===== *)
theory Recording_Cache_Proofs
  imports Recording_Cache
begin

text \<open>
  Correctness of the recording cache: what housekeeping keeps and throws away
  (\<open>prune_loop_eq\<close>), the index invariant \<open>cache_wf\<close> and its preservation by every
  operation, pagination, and what the paging arithmetic and failure markers do in the corners.
\<close>

named_theorems cache_simps \<open>the fields an operation of the cache leaves alone\<close>

subsection \<open>The directory\<close>

lemma lookup_dir_remove: "map_of (dir_remove n d) = (map_of d)(n := None)"
  by (simp add: dir_remove_def delete_conv')

lemma lookup_dir_write: "map_of (dir_write n f d) = (map_of d)(n \<mapsto> f)"
  by (simp add: dir_write_def update_conv')

definition files_of :: "string \<Rightarrow> string set" where
  "files_of i = {i @ ''.mp4'', i @ ''.jpg'', i @ ''.json'', i @ ''.failed'', i @ ''.mp4.tmp''}"

lemma lookup_remove_files:
  "map_of (remove_files i d) n = (if n \<in> files_of i then None else map_of d n)"
  by (simp add: remove_files_def files_of_def lookup_dir_remove)

subsection \<open>Housekeeping\<close>

lemma drop_id_fields [cache_simps]:
  "max_count (drop_id i c) = max_count c" "sorted_ids (drop_id i c) = sorted_ids c"
  "items (drop_id i c) = (items c)(i := None)" "failed_ids (drop_id i c) = failed_ids c - {i}"
  "disk (drop_id i c) = remove_files i (disk c)"
  by (simp_all add: drop_id_def)

lemma drop_id_sorted_ids: "drop_id i (c\<lparr>sorted_ids := xs\<rparr>) = (drop_id i c)\<lparr>sorted_ids := xs\<rparr>"
  by (simp add: drop_id_def)

lemma prune_loop_eq:
  "prune_loop c = (fold drop_id (rev (drop (max_count c) (sorted_ids c))) c)
     \<lparr>sorted_ids := take (max_count c) (sorted_ids c)\<rparr>"
proof (induction c rule: prune_loop.induct)
  case (1 c)
  show ?case
  proof (cases "length (sorted_ids c) > max_count c")
    case True
    let ?xs = "sorted_ids c" and ?m = "max_count c"
    have ne: "?xs \<noteq> []" using True by auto
    have le: "?m - length (butlast ?xs) = 0" using True by simp
    have "drop ?m (butlast ?xs @ [last ?xs]) = drop ?m (butlast ?xs) @ [last ?xs]"
      unfolding drop_append le by simp
    then have "drop ?m ?xs = drop ?m (butlast ?xs) @ [last ?xs]" using ne by simp
    moreover have "min ?m (length ?xs - 1) = ?m" using True by linarith
    then have "take ?m (butlast ?xs) = take ?m ?xs" by (simp add: butlast_conv_take)
    moreover have "fold drop_id ys (c\<lparr>sorted_ids := zs\<rparr>) = (fold drop_id ys c)\<lparr>sorted_ids := zs\<rparr>" for ys zs and c :: cache
      by (induction ys arbitrary: c) (simp_all add: drop_id_sorted_ids)
    ultimately show ?thesis using "1.IH"[OF True] True
      by (subst prune_loop.simps) (simp add: cache_simps drop_id_sorted_ids)
  next
    case False
    then show ?thesis by (subst prune_loop.simps) simp
  qed
qed

lemma drop_ids_fields [cache_simps]:
  "max_count (fold drop_id is c) = max_count c"
  "items (fold drop_id is c) j = (if j \<in> set is then None else items c j)"
  "failed_ids (fold drop_id is c) = failed_ids c - set is"
  "map_of (disk (fold drop_id is c)) n =
     (if \<exists>i \<in> set is. n \<in> files_of i then None else map_of (disk c) n)"
  by (induction "is" arbitrary: c) (auto simp: cache_simps lookup_remove_files)

lemma prune_fields [cache_simps]:
  assumes "0 < max_count c"
  shows "sorted_ids (prune c) = take (max_count c) (sorted_ids c)"
    "max_count (prune c) = max_count c"
    "items (prune c) j = (if j \<in> set (drop (max_count c) (sorted_ids c)) then None else items c j)"
    "failed_ids (prune c) = failed_ids c - set (drop (max_count c) (sorted_ids c))"
    "map_of (disk (prune c)) n =
       (if \<exists>i \<in> set (drop (max_count c) (sorted_ids c)). n \<in> files_of i then None else map_of (disk c) n)"
  using assms by (simp_all add: prune_def prune_loop_eq cache_simps)

subsection \<open>The index invariant\<close>

definition cache_wf :: "cache \<Rightarrow> bool" where
  "cache_wf c \<longleftrightarrow> 0 < max_count c \<and> distinct (sorted_ids c) \<and>
     set (sorted_ids c) = dom (items c) \<union> failed_ids c \<and>
     sorted (map (\<lambda>i. - id_time c i) (sorted_ids c)) \<and> length (sorted_ids c) \<le> max_count c"

lemma id_time_cong: "items c i = items c' i \<Longrightarrow> id_time c i = id_time c' i"
  by (simp add: id_time_def)

lemma id_time_fields [cache_simps]:
  "id_time (c\<lparr>sorted_ids := xs\<rparr>) i = id_time c i" "id_time (c\<lparr>failed_ids := f\<rparr>) i = id_time c i"
  "id_time (c\<lparr>disk := d\<rparr>) i = id_time c i" "id_time (c\<lparr>attempts := a\<rparr>) i = id_time c i"
  by (simp_all add: id_time_def)

lemma index_id_fields [cache_simps]:
  "set (sorted_ids (index_id i c)) = insert i (set (sorted_ids c))"
  "distinct (sorted_ids c) \<Longrightarrow> distinct (sorted_ids (index_id i c))"
  "items (index_id i c) = items c" "failed_ids (index_id i c) = failed_ids c"
  "max_count (index_id i c) = max_count c" "disk (index_id i c) = disk c"
  by (auto simp: index_id_def)

lemma sort_ids_fields [cache_simps]:
  "items (sort_ids c) = items c" "failed_ids (sort_ids c) = failed_ids c"
  "max_count (sort_ids c) = max_count c" "disk (sort_ids c) = disk c"
  "set (sorted_ids (sort_ids c)) = set (sorted_ids c)"
  "distinct (sorted_ids (sort_ids c)) = distinct (sorted_ids c)"
  by (simp_all add: sort_ids_def)

text \<open>Sorting and pruning restore the invariant from the index alone.\<close>

lemma prune_sort_wf:
  assumes "0 < max_count c" "distinct (sorted_ids c)" "set (sorted_ids c) = dom (items c) \<union> failed_ids c"
  shows "cache_wf (prune (sort_ids c))"
proof -
  let ?c = "sort_ids c"
  let ?m = "max_count c" and ?xs = "sorted_ids ?c"
  have xs: "distinct ?xs" "set ?xs = dom (items c) \<union> failed_ids c"
    using assms by (simp_all add: cache_simps)
  have m: "0 < max_count ?c" "max_count ?c = ?m" using assms(1) by (simp_all add: cache_simps)
  have parts: "set (take ?m ?xs) \<inter> set (drop ?m ?xs) = {}" "set (take ?m ?xs) \<union> set (drop ?m ?xs) = set ?xs"
    using xs(1) by (metis append_take_drop_id distinct_append, metis append_take_drop_id set_append)
  have "sorted (map (\<lambda>i. - id_time c i) ?xs)" by (simp add: sort_ids_def)
  then have "sorted (map (\<lambda>i. - id_time c i) (take ?m ?xs))"
    by (metis sorted_wrt_take take_map)
  moreover have "id_time (prune ?c) i = id_time c i" if "i \<in> set (take ?m ?xs)" for i
    using that parts prune_fields(3)[OF m(1), of i] m(2)
    by (intro id_time_cong) (auto simp: cache_simps)
  ultimately have "sorted (map (\<lambda>i. - id_time (prune ?c) i) (take ?m ?xs))"
    by (metis (mono_tags, lifting) map_eq_conv)
  moreover have "dom (items (prune ?c)) = dom (items c) - set (drop ?m ?xs)"
    using prune_fields(3)[OF m(1)] m(2) by (auto simp: cache_simps dom_def split: if_splits)
  moreover have "set (take ?m ?xs) = (dom (items c) \<union> failed_ids c) - set (drop ?m ?xs)"
    using parts xs(2) by blast
  ultimately show ?thesis
    using m xs(1) prune_fields(1,2,4)[OF m(1)] by (auto simp: cache_wf_def cache_simps)
qed

lemma cache_wf_disk [simp]: "cache_wf (c\<lparr>disk := d\<rparr>) = cache_wf c"
  and cache_wf_attempts [simp]: "cache_wf (c\<lparr>attempts := a\<rparr>) = cache_wf c"
  by (simp_all add: cache_wf_def cache_simps)

lemma cache_add_ok:
  assumes "cache_add it e c = (Inr it', c')" "0 < max_count c"
  shows "\<exists>d. c' = prune (sort_ids (index_id (item_id it)
      (c\<lparr>disk := d, items := (items c)(item_id it := Some it')\<rparr>)))"
  using assms by (auto simp: cache_add_def Let_def split: if_splits prod.splits sum.splits)

lemma cache_add_failed:
  assumes "cache_add it e c = (Inl err, c')"
  shows "\<exists>d. c' = c\<lparr>disk := d\<rparr>"
proof -
  have "c' = c \<or> (\<exists>d. c' = c\<lparr>disk := d\<rparr>)"
    using assms unfolding cache_add_def by (auto simp: Let_def split: if_splits prod.splits sum.splits)
  moreover have "c = c\<lparr>disk := disk c\<rparr>" by simp
  ultimately show ?thesis by blast
qed

lemma cache_add_wf [step_inv]:
  assumes "cache_wf c"
  shows "cache_wf (snd (cache_add it e c))"
proof (cases "cache_add it e c")
  case (Pair r c')
  show ?thesis
  proof (cases r)
    case (Inl err)
    with Pair cache_add_failed assms show ?thesis by fastforce
  next
    case (Inr it')
    from cache_add_ok[OF Pair[unfolded Inr]] assms obtain d where
      "c' = prune (sort_ids (index_id (item_id it)
        (c\<lparr>disk := d, items := (items c)(item_id it := Some it')\<rparr>)))"
      by (auto simp: cache_wf_def)
    moreover have "cache_wf (prune (sort_ids (index_id (item_id it)
        (c\<lparr>disk := d, items := (items c)(item_id it := Some it')\<rparr>))))"
      using assms by (intro prune_sort_wf) (auto simp: cache_wf_def cache_simps)
    ultimately show ?thesis using Pair by simp
  qed
qed

lemma mark_failed_wf [step_inv]: "cache_wf c \<Longrightarrow> cache_wf (mark_failed i marker c)"
proof -
  assume "cache_wf c"
  then have "cache_wf (prune (sort_ids (index_id i (c\<lparr>failed_ids := insert i (failed_ids c)\<rparr>))))"
    by (intro prune_sort_wf) (auto simp: cache_wf_def cache_simps)
  then show ?thesis by (simp add: mark_failed_def Let_def split: option.split)
qed

lemma record_failure_wf [step_inv]: "cache_wf c \<Longrightarrow> cache_wf (snd (record_failure i marker c))"
  by (simp add: record_failure_def Let_def mark_failed_wf)

lemma cache_delete_wf [step_inv]:
  assumes "cache_wf c"
  shows "cache_wf (snd (cache_delete i c))"
proof -
  let ?xs = "remove1 i (sorted_ids c)"
  have xs: "set ?xs = set (sorted_ids c) - {i}" "distinct ?xs"
    using assms by (simp_all add: cache_wf_def)
  have "id_time (drop_id i (c\<lparr>sorted_ids := ?xs\<rparr>)) j = id_time c j" if "j \<in> set ?xs" for j
    using that xs by (intro id_time_cong) (auto simp: cache_simps)
  moreover have "sorted (map (\<lambda>j. - id_time c j) ?xs)"
    using assms by (simp add: cache_wf_def sorted_map_remove1)
  ultimately have "sorted (map (\<lambda>j. - id_time (drop_id i (c\<lparr>sorted_ids := ?xs\<rparr>)) j) ?xs)"
    by (metis (mono_tags, lifting) map_eq_conv)
  then show ?thesis using assms xs
    by (auto simp: cache_delete_def cache_wf_def cache_simps length_remove1)
qed

lemma prune_wf [step_inv]: "cache_wf c \<Longrightarrow> cache_wf (prune c)"
  by (auto simp: prune_def prune_loop.simps cache_wf_def)

subsection \<open>Pages\<close>

lemma list_page_regular:
  assumes "0 < limit" "0 \<le> page" "page * limit < 2 ^ 63" "page * limit + limit < 2 ^ 63"
  shows "list_page ms page limit = Some
    (let r = take (nat limit) (drop (nat (page * limit)) ms)
     in \<lparr>resp_count = int (length r), resp_total = int (length ms), resp_list = r\<rparr>)"
proof -
  have pos: "0 \<le> page * limit" using assms by simp
  have w: "wrap64 (page * limit) = page * limit" "wrap64 (page * limit + limit) = page * limit + limit"
    by (rule wrap64_id; use pos assms in linarith)+
  show ?thesis
  proof (cases "page * limit \<ge> int (length ms)")
    case True
    then have "length ms \<le> nat (page * limit)" by linarith
    with True assms(1,2) show ?thesis by (simp add: list_page_def Let_def w)
  next
    case False
    let ?stop = "if page * limit + limit > int (length ms) then int (length ms) else page * limit + limit"
    have "take (nat (?stop - page * limit)) (drop (nat (page * limit)) ms)
        = take (nat limit) (drop (nat (page * limit)) ms)"
    proof (cases "page * limit + limit > int (length ms)")
      case True
      then have "length (drop (nat (page * limit)) ms) \<le> nat (int (length ms) - page * limit)"
        "length (drop (nat (page * limit)) ms) \<le> nat limit"
        using pos by (auto simp: nat_diff_distrib)
      with True show ?thesis by (simp only: if_True take_all)
    qed simp
    moreover have "page * limit \<le> ?stop" "?stop \<le> int (length ms)" using False assms(1) by auto
    ultimately show ?thesis using False assms(1,2) pos
      by (simp add: list_page_def Let_def w)
  qed
qed

lemma concat_slices:
  "0 < n \<Longrightarrow> concat (map (\<lambda>p. take n (drop (p * n) ms)) [0..<k]) = take (k * n) ms"
proof (induction k)
  case (Suc k)
  have "take (k * n) ms @ take n (drop (k * n) ms) = take (k * n + n) ms" by (simp add: take_add)
  with Suc show ?case by (simp add: add.commute)
qed simp

subsection \<open>Runs of the cache\<close>

datatype cache_op =
    Add recording_item add_env
  | Fail string "int option"
  | Mark string "int option"
  | Delete string
  | Prune

fun cache_step :: "cache_op \<Rightarrow> cache \<Rightarrow> cache" where
  "cache_step (Add it e) c = snd (cache_add it e c)"
| "cache_step (Fail i marker) c = snd (record_failure i marker c)"
| "cache_step (Mark i marker) c = mark_failed i marker c"
| "cache_step (Delete i) c = snd (cache_delete i c)"
| "cache_step Prune c = prune c"

lemma cache_step_wf [step_inv]: "cache_wf c \<Longrightarrow> cache_wf (cache_step op c)"
  by (cases op) (simp_all add: step_inv)

lemma cache_run_wf: "cache_wf c \<Longrightarrow> cache_wf (fold cache_step ops c)"
  by (induction ops arbitrary: c) (simp_all add: cache_step_wf)

lemma new_cache_wf: "0 < m \<Longrightarrow> cache_wf (new_cache m d)"
  by (simp add: cache_wf_def new_cache_def)

subsection \<open>Properties\<close>

text \<open>
  C4. Whatever is done to a fresh cache (downloads that succeed or fail at any point,
  failure marks, deletions, pruning), its index stays consistent: no id twice, exactly the
  cached and the failed ids, newest first, never more than the configured number.
\<close>

theorem cache_index_consistent:
  fixes ops :: "cache_op list" and d :: directory
  assumes "0 < m"
  defines "c \<equiv> fold cache_step ops (new_cache m d)"
  shows "distinct (sorted_ids c) \<and> set (sorted_ids c) = dom (items c) \<union> failed_ids c \<and>
    sorted_wrt (\<lambda>i j. id_time c i \<ge> id_time c j) (sorted_ids c) \<and>
    int (length (sorted_ids c)) \<le> m \<and> (\<forall>i. cache_has c i \<longleftrightarrow> i \<in> set (sorted_ids c))"
proof -
  have wf: "cache_wf c" unfolding c_def using assms(1) by (intro cache_run_wf new_cache_wf)
  have "max_count (cache_step op k) = max_count k" if "cache_wf k" for op k
    using that by (cases op)
      (auto simp: cache_add_def mark_failed_def record_failure_def cache_delete_def prune_def Let_def
        cache_wf_def cache_simps prune_loop_eq split: prod.splits sum.splits option.splits)
  then have "max_count (fold cache_step ops k) = max_count k" if "cache_wf k" for k
    using that by (induction ops arbitrary: k) (simp_all add: cache_step_wf)
  then have "max_count c = nat m" using new_cache_wf[OF assms(1)] by (simp add: c_def new_cache_def)
  moreover have "sorted_wrt (\<lambda>i j. id_time c i \<ge> id_time c j) (sorted_ids c)"
    using wf by (simp add: cache_wf_def sorted_wrt_map)
  ultimately show ?thesis using wf assms(1)
    by (auto simp: cache_wf_def cache_has_def nat_le_iff)
qed

theorem cache_index_consistent_witness:
  "distinct (sorted_ids (fold cache_step [Mark ''7'' None, Mark ''9'' (Some 1)] (new_cache 1 []))) \<and>
   int (length (sorted_ids (fold cache_step [Mark ''7'' None, Mark ''9'' (Some 1)] (new_cache 1 [])))) \<le> 1"
proof -
  have "(0 :: int) < 1" by simp
  from cache_index_consistent[OF this, of "[Mark ''7'' None, Mark ''9'' (Some 1)]" "[]"]
  show ?thesis by blast
qed

text \<open>
  C5. Housekeeping evicts from the old end: in a consistent cache nothing that is kept is
  older than something thrown out, the kept items are untouched, and of what is thrown out
  neither an index entry nor any of its five files is left.
\<close>

theorem prune_keeps_newest:
  assumes "0 < max_count c"
  defines "s \<equiv> sort_ids c" and "c' \<equiv> prune (sort_ids c)"
  defines "gone \<equiv> set (drop (max_count c) (sorted_ids s))"
  assumes "distinct (sorted_ids c)"
  shows "set (sorted_ids c') = set (sorted_ids c) - gone \<and> length (sorted_ids c') \<le> max_count c \<and>
    (\<forall>i \<in> set (sorted_ids c'). items c' i = items c i \<and> (\<forall>j \<in> gone. id_time c i \<ge> id_time c j)) \<and>
    (\<forall>j \<in> gone. \<not> cache_has c' j \<and> (\<forall>f \<in> files_of j. map_of (disk c') f = None))"
proof -
  let ?m = "max_count c" and ?xs = "sorted_ids s"
  have m: "0 < max_count s" "max_count s = ?m" using assms(1) by (simp_all add: s_def cache_simps)
  have xs: "distinct ?xs" "set ?xs = set (sorted_ids c)" using assms(5) by (simp_all add: s_def cache_simps)
  have "sorted (map (\<lambda>i. - id_time c i) (take ?m ?xs @ drop ?m ?xs))"
    by (simp add: s_def sort_ids_def)
  then have old: "\<forall>i \<in> set (take ?m ?xs). \<forall>j \<in> gone. id_time c i \<ge> id_time c j"
    unfolding gone_def map_append sorted_append by auto
  have parts: "set (take ?m ?xs) \<inter> gone = {}" "set (take ?m ?xs) \<union> gone = set ?xs"
    unfolding gone_def using xs(1)
    by (metis append_take_drop_id distinct_append, metis append_take_drop_id set_append)
  have c': "c' = prune s" by (simp add: c'_def s_def)
  show ?thesis
    using old parts xs m unfolding c' cache_has_def
    by (simp add: prune_fields[OF m(1)] m(2) gone_def[symmetric])
      (auto simp: s_def cache_simps)
qed

theorem prune_keeps_newest_witness:
  "sorted_ids (prune (sort_ids ((new_cache 1 [])\<lparr>sorted_ids := [''5'', ''8'']\<rparr>))) = [''8''] \<and>
   \<not> cache_has (prune (sort_ids ((new_cache 1 [])\<lparr>sorted_ids := [''5'', ''8'']\<rparr>))) ''5''"
proof -
  let ?c = "(new_cache 1 [])\<lparr>sorted_ids := [''5'', ''8'']\<rparr>"
  have s: "sorted_ids (sort_ids ?c) = [''8'', ''5'']"
    by (simp add: sort_ids_def id_time_def new_cache_def parse_int64_def digit_value_def
        unix_time_def wrap64_def)
  have "0 < max_count ?c" "distinct (sorted_ids ?c)" by (simp_all add: new_cache_def)
  from prune_keeps_newest[OF this] show ?thesis
    using s by (simp add: prune_fields cache_simps new_cache_def)
qed

text \<open>
  C6. Asking page after page with a fixed positive limit gives every matching recording
  exactly once and in order: the pages put together are the list of matches, as long as the
  products stay below $2^{63}$.
\<close>

theorem list_pages_complete:
  assumes "0 < n" and "int k * int n + int n < 2 ^ 63" and "length (matched c start stop) \<le> k * n"
  shows "\<exists>rs. map (\<lambda>p. cache_list c start stop (int p) (int n)) [0..<k] = map Some rs \<and>
    concat (map resp_list rs) = matched c start stop \<and>
    (\<forall>r \<in> set rs. resp_total r = int (length (matched c start stop)) \<and>
       resp_count r = int (length (resp_list r)) \<and> resp_count r \<le> int n)"
proof -
  let ?ms = "matched c start stop"
  define f where "f p = (let r = take n (drop (p * n) ?ms)
     in \<lparr>resp_count = int (length r), resp_total = int (length ?ms), resp_list = r\<rparr>)" for p
  have page: "cache_list c start stop (int p) (int n) = Some (f p)" if "p < k" for p
  proof -
    have "p * n + n \<le> k * n + n" using that by simp
    then have "int p * int n + int n < 2 ^ 63" using assms(2) by (metis of_nat_add of_nat_le_iff of_nat_mult order_le_less_trans)
    then show ?thesis using assms(1) list_page_regular[of "int n" "int p" ?ms]
      by (simp add: cache_list_def f_def nat_mult_distrib)
  qed
  have "map (\<lambda>p. cache_list c start stop (int p) (int n)) [0..<k] = map Some (map f [0..<k])"
    using page by simp
  moreover have "concat (map resp_list (map f [0..<k])) = ?ms"
    using concat_slices[of n ?ms k] assms(1,3) by (simp add: f_def Let_def o_def)
  moreover have "\<forall>r \<in> set (map f [0..<k]). resp_total r = int (length ?ms) \<and>
      resp_count r = int (length (resp_list r)) \<and> resp_count r \<le> int n"
    by (auto simp: f_def Let_def)
  ultimately show ?thesis by blast
qed

theorem list_pages_complete_witness:
  "\<exists>rs. map (\<lambda>p. cache_list (new_cache 5 []) 0 0 (int p) (int 2)) [0..<1] = map Some rs \<and>
     concat (map resp_list rs) = []"
proof -
  have "matched (new_cache 5 []) 0 0 = []" by (simp add: matched_def new_cache_def)
  with list_pages_complete[of 2 1 "new_cache 5 []" 0 0] obtain rs where
    "map (\<lambda>p. cache_list (new_cache 5 []) 0 0 (int p) (int 2)) [0..<1] = map Some rs"
    "concat (map resp_list rs) = []"
    by fastforce
  then show ?thesis by blast
qed

text \<open>
  The product \<^verbatim>\<open>page * limit\<close> is not checked: with page $2^{62}$ and limit 2, both
  accepted by the REST endpoint, it wraps to a negative offset and the slice expression
  panics, on every cache.
\<close>

theorem list_offset_overflow_panics: "cache_list c start stop (2 ^ 62) 2 = None"
proof -
  have "wrap64 (2 ^ 62 * 2) = - (2 ^ 63)" by (simp add: wrap64_def)
  moreover have "wrap64 (- (2 ^ 63) + 2) = - (2 ^ 63) + 2" by (simp add: wrap64_def)
  ultimately show ?thesis by (simp add: cache_list_def list_page_def Let_def)
qed

text \<open>
  Failure markers share the index with the recordings, and an unfiltered listing shows
  them: after marking an id that is kept, the list holds the zero recording, without id or
  times.
\<close>

theorem list_shows_failed_as_zero_item:
  assumes "cache_wf c" and "int (max_count c) < 2 ^ 63"
    and "items c i = None" and "i \<in> set (sorted_ids (mark_failed i marker c))"
  shows "\<exists>r. cache_list (mark_failed i marker c) 0 0 0 0 = Some r \<and> zero_item \<in> set (resp_list r)"
proof -
  let ?c = "mark_failed i marker c"
  let ?ms = "matched ?c 0 0"
  have f: "items ?c i = None" "max_count ?c = max_count c" using assms(1,3)
    by (auto simp: mark_failed_def Let_def cache_wf_def cache_simps split: option.split)
  have "length (sorted_ids ?c) \<le> max_count c"
    using mark_failed_wf[OF assms(1), of i marker] f(2) by (simp add: cache_wf_def)
  then have "length ?ms \<le> max_count c"
    using le_trans[OF length_filter_le] by (simp add: matched_def)
  then have w: "wrap64 (int (length ?ms)) = int (length ?ms)" "wrap64 0 = 0"
    using assms(2) by (simp_all add: wrap64_def signed_take_bit_int_eq_self)
  have z: "zero_item \<in> set ?ms"
    using assms(4) f(1) by (force simp: matched_def in_range_def item_or_zero_def image_iff)
  then have "?ms \<noteq> []" by auto
  then have "cache_list ?c 0 0 0 0 = Some \<lparr>resp_count = int (length ?ms), resp_total = int (length ?ms), resp_list = ?ms\<rparr>"
    using w by (simp add: cache_list_def list_page_def Let_def)
  with z show ?thesis by simp
qed

theorem list_shows_failed_as_zero_item_witness:
  "\<exists>r. cache_list (mark_failed ''7'' None (new_cache 5 [])) 0 0 0 0 = Some r \<and> zero_item \<in> set (resp_list r)"
proof (rule list_shows_failed_as_zero_item)
  show "cache_wf (new_cache 5 [])" by (rule new_cache_wf) simp
  show "''7'' \<in> set (sorted_ids (mark_failed ''7'' None (new_cache 5 [])))"
    by (simp add: mark_failed_def new_cache_def index_id_def sort_ids_def prune_def prune_loop.simps)
qed (simp_all add: new_cache_def)

subsection \<open>Restart\<close>


definition stale_marker_dir :: directory where
  "stale_marker_dir = [(''7.failed'', \<lparr>f_size = 9, f_kind = Plain\<rparr>),
     (''7.json'', \<lparr>f_size = 80, f_kind = Json (zero_item\<lparr>item_id := ''7''\<rparr>)\<rparr>),
     (''7.mp4'', \<lparr>f_size = 5, f_kind = Plain\<rparr>)]"

definition reopened :: cache where
  "reopened = open_cache \<lparr>l_extractor = None, l_json_ok = True, l_json_size = 80\<rparr> 5 stale_marker_dir"

text \<open>
  A marker and a metadata file of the same id, both on disk, put the id twice into the
  index when the cache is opened again: what the running cache never has, a restart can
  produce, and one deletion then leaves an index entry without anything behind it.
\<close>

theorem reload_duplicates_failed_id:
  "sorted_ids reopened = [''7'', ''7''] \<and>
   sorted_ids (snd (cache_delete ''7'' reopened)) = [''7''] \<and>
   \<not> cache_has (snd (cache_delete ''7'' reopened)) ''7''"
proof (intro conjI)
  show "sorted_ids reopened = [''7'', ''7'']" by code_simp
  show "sorted_ids (snd (cache_delete ''7'' reopened)) = [''7'']" by code_simp
  show "\<not> cache_has (snd (cache_delete ''7'' reopened)) ''7''" by code_simp
qed

end
