(* ===== verification/Recording_Sync_Proofs.thy ===== *)
theory Recording_Sync_Proofs
  imports Recording_Sync Recording_Cache_Proofs "HOL-Library.Multiset"
begin

text \<open>
  The provider and the syncer: a sync brings the camera's newest recordings into the cache
  and a second one has nothing to do, identifiers cannot leave the cache directory, a listing
  degrades to the cache, what is announced is playable, polls are throttled while video is
  streamed; and the cases in which the background sync does not do what it is there for.
\<close>

subsection \<open>Adding one recording\<close>

text \<open>The environment in which a download is complete and is stored.\<close>

definition download_ok :: "recording_item \<Rightarrow> add_env \<Rightarrow> bool" where
  "download_ok it e \<longleftrightarrow> open_ok e \<and> copy_ok e \<and> close_ok e \<and> rename_ok e \<and> copied e > 0 \<and>
     \<not> (file_size_bytes it > 0 \<and> copied e < file_size_bytes it)"

lemma store_video_ok: "download_ok it e \<Longrightarrow> fst (store_video it e d) = Inr ()"
  by (auto simp: store_video_def download_ok_def Let_def)

lemma cache_add_success:
  assumes "download_ok it e" "item_id it \<noteq> []" "0 < max_count c"
  shows "\<exists>saved d. cache_add it e c = (Inr saved, prune (sort_ids (index_id (item_id it)
      (c\<lparr>disk := d, items := (items c)(item_id it := Some saved)\<rparr>)))) \<and>
    item_id saved = item_id it \<and> start_time saved = start_time it"
proof -
  obtain d1 where d1: "store_video it e (disk c) = (Inr (), d1)"
    using store_video_ok[OF assms(1), of "disk c"] by (cases "store_video it e (disk c)") auto
  show ?thesis
    using assms(2,3) unfolding cache_add_def d1
    by (auto simp: Let_def split: prod.split)
qed

lemma cache_add_item:
  assumes "cache_add it e c = (Inr saved, c')" "0 < max_count c"
  shows "item_id saved = item_id it \<and> item_id it \<noteq> [] \<and> start_time saved = start_time it \<and>
    video_url saved = video_url_of (item_id it)"
  using assms by (auto simp: cache_add_def Let_def split: if_splits prod.splits sum.splits)

lemma take_keeps_newest:
  fixes key :: "'a \<Rightarrow> int"
  assumes "distinct xs" "sorted (map (\<lambda>i. - key i) xs)" "finite A" "card A \<le> m"
    and older: "\<And>a b. a \<in> A \<inter> set xs \<Longrightarrow> b \<in> set xs - A \<Longrightarrow> key b < key a"
  shows "A \<inter> set xs \<subseteq> set (take m xs)"
proof
  fix a assume a: "a \<in> A \<inter> set xs"
  show "a \<in> set (take m xs)"
  proof (rule ccontr)
    assume no: "a \<notin> set (take m xs)"
    have split: "xs = take m xs @ drop m xs" by simp
    then have ad: "a \<in> set (drop m xs)" using a no by (metis IntD2 Un_iff set_append)
    then have "m < length xs" by (cases "m < length xs") auto
    have "key b \<ge> key a" if "b \<in> set (take m xs)" for b
    proof -
      have "sorted (map (\<lambda>i. - key i) (take m xs) @ map (\<lambda>i. - key i) (drop m xs))"
        using assms(2) by (metis append_take_drop_id map_append)
      with that ad show ?thesis by (auto simp: sorted_append)
    qed
    then have "set (take m xs) \<subseteq> A" using older[OF a] set_take_subset[of m xs] by force
    then have sub: "insert a (set (take m xs)) \<subseteq> A" using a by simp
    have "card (insert a (set (take m xs))) = Suc m"
      using no assms(1) \<open>m < length xs\<close> by (simp add: distinct_card)
    then show False using card_mono[OF assms(3) sub] assms(4) by simp
  qed
qed

subsection \<open>A sync run\<close>

text \<open>
  The list of the camera: identifiers that differ and are not empty, start times that are
  known, no longer than the cache, and newer than whatever else the cache holds; the cache
  and the camera agree on the times of what both know.
\<close>

definition camera_newest :: "cache \<Rightarrow> recording_item list \<Rightarrow> bool" where
  "camera_newest c its \<longleftrightarrow>
     distinct (map item_id its) \<and> length its \<le> max_count c \<and>
     (\<forall>it \<in> set its. item_id it \<noteq> [] \<and> start_time it \<noteq> 0 \<and>
        (item_id it \<in> set (sorted_ids c) \<longrightarrow> id_time c (item_id it) = start_time it) \<and>
        (\<forall>i \<in> set (sorted_ids c) - item_id ` set its. id_time c i < start_time it))"

lemma cache_has_iff: "cache_wf c \<Longrightarrow> cache_has c i \<longleftrightarrow> i \<in> set (sorted_ids c)"
  by (auto simp: cache_has_def cache_wf_def)

lemma add_listed:
  assumes wf: "cache_wf c" and cam: "camera_newest c its" and it: "it \<in> set its"
    and add: "cache_add it e c = (Inr saved, c')" and "download_ok it e"
  shows "cache_wf c' \<and> camera_newest c' its \<and> max_count c' = max_count c \<and>
    set (sorted_ids c') \<inter> item_id ` set its =
      insert (item_id it) (set (sorted_ids c) \<inter> item_id ` set its)"
proof -
  let ?i = "item_id it" and ?A = "item_id ` set its" and ?m = "max_count c"
  have pos: "0 < ?m" using wf by (simp add: cache_wf_def)
  have ids: "distinct (map item_id its)" "length its \<le> ?m" "?i \<noteq> []" "start_time it \<noteq> 0"
    using cam it by (auto simp: camera_newest_def)
  obtain s d where s: "cache_add it e c = (Inr s, prune (sort_ids (index_id ?i
      (c\<lparr>disk := d, items := (items c)(?i := Some s)\<rparr>))))" "start_time s = start_time it"
    using cache_add_success[OF assms(5) ids(3) pos] by auto
  let ?k = "c\<lparr>disk := d, items := (items c)(?i := Some s)\<rparr>"
  let ?c = "sort_ids (index_id ?i ?k)"
  have c': "c' = prune ?c" using s(1) add by simp
  have mc: "max_count ?c = ?m" by (simp add: cache_simps)
  have set_c: "set (sorted_ids ?c) = insert ?i (set (sorted_ids c))" by (simp add: cache_simps)
  have time: "id_time ?c j = (if j = ?i then start_time it else id_time c j)" for j
    using s(2) ids(4) by (simp add: id_time_def cache_simps)
  have dist: "distinct (sorted_ids ?c)" using wf by (simp add: cache_simps cache_wf_def)
  have t: "id_time ?c (item_id x) = start_time x" if "x \<in> set its" "item_id x \<in> set (sorted_ids ?c)" for x
  proof (cases "item_id x = ?i")
    case True
    then have "x = it" using ids(1) it that(1) by (auto simp: distinct_map inj_on_def)
    then show ?thesis by (simp add: time)
  next
    case False
    then show ?thesis using that cam unfolding camera_newest_def set_c time by auto
  qed
  have older: "id_time ?c i < start_time x" if "x \<in> set its" "i \<in> set (sorted_ids ?c) - ?A" for x i
  proof -
    have "i \<noteq> ?i" using that it by auto
    then show ?thesis using that cam unfolding camera_newest_def set_c time by auto
  qed
  have sorted: "sorted (map (\<lambda>i. - id_time ?c i) (sorted_ids ?c))"
    by (simp add: sort_ids_def id_time_fields)
  have keep: "?A \<inter> set (sorted_ids ?c) \<subseteq> set (take ?m (sorted_ids ?c))"
  proof (rule take_keeps_newest[OF dist sorted])
    show "card ?A \<le> ?m" using ids(2) card_image_le[of "set its" item_id] card_length[of its] by simp
    show "id_time ?c b < id_time ?c a" if "a \<in> ?A \<inter> set (sorted_ids ?c)"
      "b \<in> set (sorted_ids ?c) - ?A" for a b
      using that t older by force
  qed simp
  have sc': "sorted_ids c' = take ?m (sorted_ids ?c)"
    unfolding c' using prune_fields(1)[of ?c] pos by (simp add: mc)
  have time': "id_time c' j = id_time ?c j" if "j \<in> set (sorted_ids c')" for j
  proof (rule id_time_cong)
    have "j \<notin> set (drop ?m (sorted_ids ?c))"
      using that dist set_take_disj_set_drop_if_distinct[of "sorted_ids ?c" ?m ?m] sc' by auto
    then show "items c' j = items ?c j" unfolding c' using prune_fields(3)[of ?c j] pos by (simp add: mc)
  qed
  have mc': "max_count c' = ?m" unfolding c' using prune_fields(2)[of ?c] pos by (simp add: mc)
  have sub: "set (sorted_ids c') \<subseteq> set (sorted_ids ?c)" using sc' by (simp add: set_take_subset)
  have wf': "cache_wf c'" using cache_add_wf[OF wf, of it e] add by simp
  moreover have "camera_newest c' its"
    unfolding camera_newest_def
    using ids mc' cam sub t older time' unfolding camera_newest_def by auto
  moreover have "set (sorted_ids c') \<inter> ?A = insert ?i (set (sorted_ids c) \<inter> ?A)"
  proof -
    have "set (sorted_ids c') \<inter> ?A = set (sorted_ids ?c) \<inter> ?A" using keep sub sc' by auto
    then show ?thesis using it set_c by auto
  qed
  ultimately show ?thesis using mc' by simp
qed

text \<open>Every download of the list runs to its end and the context stays alive.\<close>

definition all_good :: "(recording_item \<times> item_env) list \<Rightarrow> bool" where
  "all_good its \<longleftrightarrow> list_all (\<lambda>(it, e). download_ok it (download e) \<and>
     \<not> ctx_done e \<and> \<not> ctx_done_after e) its"

lemma sync_items_complete:
  assumes "cache_wf c" "camera_newest c L" "set (map fst its) \<subseteq> set L" "all_good its"
  shows "\<exists>ns fs c'. sync_items its c = Some (ns, fs, False, c') \<and> cache_wf c' \<and>
    camera_newest c' L \<and> max_count c' = max_count c \<and> set fs \<subseteq> item_id ` set L - set (sorted_ids c) \<and>
    set (sorted_ids c) \<inter> item_id ` set L \<subseteq> set (sorted_ids c') \<and>
    item_id ` set (map fst its) \<subseteq> set (sorted_ids c')"
  using assms
proof (induction its arbitrary: c)
  case (Cons x its)
  obtain it e where x: "x = (it, e)" by (cases x)
  have it: "it \<in> set L" and good: "download_ok it (download e)" "\<not> ctx_done e" "\<not> ctx_done_after e"
    and rest: "set (map fst its) \<subseteq> set L" "all_good its"
    using Cons.prems x by (auto simp: all_good_def)
  show ?case
  proof (cases "cache_has c (item_id it)")
    case True
    then have "item_id it \<in> set (sorted_ids c)" using Cons.prems(1) by (simp add: cache_has_iff)
    then have cached: "item_id it \<in> set (sorted_ids c) \<inter> item_id ` set L" using it by simp
    obtain ns fs c' where r: "sync_items its c = Some (ns, fs, False, c')" "cache_wf c'"
      "camera_newest c' L" "max_count c' = max_count c" "set fs \<subseteq> item_id ` set L - set (sorted_ids c)"
      "set (sorted_ids c) \<inter> item_id ` set L \<subseteq> set (sorted_ids c')"
      "item_id ` set (map fst its) \<subseteq> set (sorted_ids c')"
      using Cons.IH[OF Cons.prems(1,2) rest] by (elim exE conjE) (rule that)
    have eq: "sync_items (x # its) c = Some (ns, fs, False, c')" using r(1) by (simp add: x good True)
    have all:  "item_id ` set (map fst (x # its)) \<subseteq> set (sorted_ids c')"
      using r(6,7) cached by (auto simp: x)
    show ?thesis
      by (rule exI[of _ ns], rule exI[of _ fs], rule exI[of _ c'], intro conjI eq r(2-6) all)
  next
    case False
    have pos: "0 < max_count c" using Cons.prems(1) by (simp add: cache_wf_def)
    have "item_id it \<noteq> []" using Cons.prems(2) it by (auto simp: camera_newest_def)
    then obtain saved c1 where add: "cache_add it (download e) c = (Inr saved, c1)"
      using cache_add_success[OF good(1) _ pos] by blast
    note step = add_listed[OF Cons.prems(1,2) it add good(1)]
    have wf1: "cache_wf c1" and cam1: "camera_newest c1 L" using step by simp_all
    obtain ns fs c' where r: "sync_items its c1 = Some (ns, fs, False, c')" "cache_wf c'"
      "camera_newest c' L" "max_count c' = max_count c1"
      "set fs \<subseteq> item_id ` set L - set (sorted_ids c1)"
      "set (sorted_ids c1) \<inter> item_id ` set L \<subseteq> set (sorted_ids c')"
      "item_id ` set (map fst its) \<subseteq> set (sorted_ids c')"
      using Cons.IH[OF wf1 cam1 rest] by (elim exE conjE) (rule that)
    have new: "item_id it \<notin> set (sorted_ids c)" using False Cons.prems(1) by (simp add: cache_has_iff)
    have eq: "sync_items (x # its) c = Some (saved # ns, item_id it # fs, False, c')"
      by (simp add: x good False add r(1))
    have inter: "set (sorted_ids c1) \<inter> item_id ` set L =
        insert (item_id it) (set (sorted_ids c) \<inter> item_id ` set L)" using step by (elim conjE)
    have old: "set (sorted_ids c) \<inter> item_id ` set L \<subseteq> set (sorted_ids c')"
      using r(6) unfolding inter by (rule subset_trans[OF subset_insertI])
    have fetched: "set (item_id it # fs) \<subseteq> item_id ` set L - set (sorted_ids c)"
    proof -
      have "set (sorted_ids c) \<inter> item_id ` set L \<subseteq> set (sorted_ids c1)" using inter by (metis Int_lower1 insert_subset)
      then show ?thesis using r(5) new it by (auto simp del: id_apply)
    qed
    have all: "item_id ` set (map fst (x # its)) \<subseteq> set (sorted_ids c')"
      using r(6,7) unfolding inter by (simp add: x)
    have mc: "max_count c' = max_count c" using r(4) step by simp
    show ?thesis
      by (rule exI[of _ "saved # ns"], rule exI[of _ "item_id it # fs"], rule exI[of _ c'],
          intro conjI eq r(2,3) mc fetched old all)
  qed
qed simp

lemma sync_items_nothing:
  assumes "\<forall>x \<in> set its. cache_has c (item_id (fst x))" "list_all (\<lambda>(it, e). \<not> ctx_done e) its"
  shows "sync_items its c = Some ([], [], False, c)"
  using assms by (induction its) auto

lemma sync_items_wf [step_inv]:
  "sync_items its c = Some (ns, fs, b, c') \<Longrightarrow> cache_wf c \<Longrightarrow> cache_wf c' \<and> max_count c' = max_count c \<and>
    (\<forall>it \<in> set ns. item_id it \<noteq> [] \<and> video_url it = video_url_of (item_id it))"
proof (induction its arbitrary: c ns fs b c')
  case (Cons x its)
  obtain it e where x: "x = (it, e)" by (cases x)
  obtain r c1 where add: "cache_add it (download e) c = (r, c1)" by force
  have wf1: "cache_wf c1" using cache_add_wf[OF Cons.prems(2), of it "download e"] add by simp
  have pos: "0 < max_count c" using Cons.prems(2) by (simp add: cache_wf_def)
  have mc1: "max_count c1 = max_count c"
  proof (cases r)
    case (Inl err)
    then show ?thesis using cache_add_failed add by fastforce
  next
    case (Inr saved)
    then obtain d where "c1 = prune (sort_ids (index_id (item_id it)
        (c\<lparr>disk := d, items := (items c)(item_id it := Some saved)\<rparr>)))"
      using cache_add_ok add pos by blast
    then show ?thesis using pos by (simp add: cache_simps)
  qed
  have wf2: "cache_wf (snd (record_failure i k c1))" for i k by (rule record_failure_wf[OF wf1])
  have mc2: "max_count (snd (record_failure i k c1)) = max_count c" for i k
    using pos mc1
    by (simp add: record_failure_def Let_def mark_failed_def cache_simps split: option.split)
  show ?case
  proof (cases "ctx_done e \<or> cache_has c (item_id it)")
    case True
    then show ?thesis using Cons by (auto simp: x split: if_splits)
  next
    case False
    show ?thesis
    proof (cases r)
      case (Inl err)
      then show ?thesis
        using Cons.prems(1) False add Cons.IH[of "snd (record_failure (item_id it) (marker e) c1)"]
          wf2 mc2 by (auto simp: x split: if_splits option.splits)
    next
      case (Inr saved)
      have "item_id saved \<noteq> [] \<and> video_url saved = video_url_of (item_id saved)"
        using cache_add_item[of it "download e" c saved c1] add Inr pos by auto
      then show ?thesis
        using Cons.prems(1) False add Inr Cons.IH[of c1] wf1 mc1
        by (auto simp: x split: if_splits option.splits)
    qed
  qed
qed simp

definition with_envs :: "(nat \<Rightarrow> item_env) \<Rightarrow> recording_item list \<Rightarrow> (recording_item \<times> item_env) list" where
  "with_envs envs its = map (\<lambda>(k, it). (it, envs k)) (enumerate 0 its)"

lemma map_fst_with_envs [simp]: "map fst (with_envs envs its) = its"
  by (simp add: with_envs_def comp_def case_prod_unfold)

lemma list_all_with_envs:
  "list_all (\<lambda>(it, e). P it e) (with_envs envs its) \<longleftrightarrow> (\<forall>k < length its. P (its ! k) (envs k))"
  by (auto simp: with_envs_def list_all_length nth_enumerate_eq)

lemma sync_latest_list:
  assumes "p_cache p = Some c" "p_upstream p = Some u" "\<not> sync_running p" "0 < max_count c"
    and "up_list u 0 0 0 (int (max_count c)) [] = Inr (Some r)"
  shows "sync_latest envs p =
    (case sync_items (with_envs envs (resp_list r)) c of
       None \<Rightarrow> None
     | Some (ns, fs, b, c') \<Rightarrow>
         Some ((if b then Some ContextDone else None, ns, fs), p\<lparr>p_cache := Some c'\<rparr>))"
  using assms by (simp add: sync_latest_def with_envs_def)

subsection \<open>Properties of the provider\<close>


definition ex_item :: "string \<Rightarrow> int \<Rightarrow> recording_item" where
  "ex_item i t = zero_item\<lparr>item_id := i, start_time := t, file_size_bytes := 10\<rparr>"

definition ex_camera :: "recording_item list \<Rightarrow> upstream" where
  "ex_camera its = \<lparr>up_list = (\<lambda>_ _ _ _ _. Inr (Some \<lparr>resp_count = int (length its),
       resp_total = int (length its), resp_list = its\<rparr>)),
     up_get = (\<lambda>_. Inl StorageNotFound), up_thumbnail = (\<lambda>_. ([], Some FeatureDisabled)),
     up_video = (\<lambda>_. ([], None))\<rparr>"

definition ex_download :: add_env where
  "ex_download = \<lparr>open_ok = True, copied = 10, copy_ok = True, close_ok = True, rename_ok = True,
     extractor = None, json_ok = True, json_rename_ok = True, json_size = 80\<rparr>"

definition ex_env :: item_env where
  "ex_env = \<lparr>download = ex_download, marker = Some 9, ctx_done = False, ctx_done_after = False,
     unread = False\<rparr>"


subsection \<open>What the syncer relies on\<close>

text \<open>
  The contract of a provider that can sync: an invariant it keeps, and a promise about the
  recordings it reports as new.
\<close>

locale sync_source =
  fixes inv :: "'p \<Rightarrow> bool"
    and sync :: "'e \<Rightarrow> 'p \<Rightarrow> (sync_outcome \<times> 'p) option"
    and playable :: "recording_item \<Rightarrow> bool"
  assumes sync_inv: "inv p \<Longrightarrow> sync e p = Some (out, p') \<Longrightarrow> inv p'"
    and sync_new: "inv p \<Longrightarrow> sync e p = Some ((err, ns, fs), p') \<Longrightarrow> it \<in> set ns \<Longrightarrow> playable it"

text \<open>Several turns of \<^verbatim>\<open>syncOnce\<close>, with the recordings announced in all of them.\<close>

fun sync_runs ::
  "('e \<Rightarrow> 'p \<Rightarrow> (sync_outcome \<times> 'p) option) \<Rightarrow> 'e list \<Rightarrow> 'p source \<Rightarrow> syncer \<Rightarrow>
     ((syncer \<times> recording_item list) \<times> 'p source) option" where
  "sync_runs sync [] src s = Some ((s, []), src)"
| "sync_runs sync (e # es) src s =
     (case sync_once (sync e) src s of
        None \<Rightarrow> None
      | Some ((s1, as), src1) \<Rightarrow>
          (case sync_runs sync es src1 s1 of
             None \<Rightarrow> None
           | Some ((s2, bs), src2) \<Rightarrow> Some ((s2, as @ bs), src2)))"

definition seen :: "recording_item list \<Rightarrow> syncer \<Rightarrow> syncer \<Rightarrow> bool" where
  "seen anns s s' \<longleftrightarrow>
     (if anns = [] then last_seen_id s' = last_seen_id s \<and> last_seen_time s' = last_seen_time s
      else last_seen_id s' = item_id (last anns) \<and> last_seen_time s' = start_time (last anns))"

lemma sync_cached_seen:
  "sync_cached newly s = (s', anns) \<Longrightarrow> seen anns s s' \<and> set anns \<subseteq> set newly \<and>
     (\<forall>it \<in> set anns. item_id it \<noteq> [] \<and> start_time it \<noteq> 0)"
  by (auto simp: sync_cached_def note_latest_def seen_def split: list.splits if_splits)

context sync_source begin

lemma once:
  assumes "inv p" "sync_once (sync e) (Caching p) s = Some ((s', anns), src)"
  shows "\<exists>p'. src = Caching p' \<and> inv p' \<and> seen anns s s' \<and>
    (\<forall>it \<in> set anns. playable it \<and> item_id it \<noteq> [] \<and> start_time it \<noteq> 0)"
proof -
  obtain err newly fetched p' where r: "sync e p = Some ((err, newly, fetched), p')"
    "sync_cached newly s = (s', anns)" "src = Caching p'"
    using assms(2) by (auto simp: sync_once_def split: option.splits)
  show ?thesis using sync_cached_seen[OF r(2)] sync_inv[OF assms(1) r(1)] sync_new[OF assms(1) r(1)] r(3)
    by auto
qed

lemma runs:
  "inv p \<Longrightarrow> sync_runs sync es (Caching p) s = Some ((s', anns), src) \<Longrightarrow>
    seen anns s s' \<and> (\<forall>it \<in> set anns. playable it \<and> item_id it \<noteq> [] \<and> start_time it \<noteq> 0)"
proof (induction es arbitrary: p s s' anns src)
  case (Cons e es)
  obtain s1 as src1 bs where 1: "sync_once (sync e) (Caching p) s = Some ((s1, as), src1)"
    "sync_runs sync es src1 s1 = Some ((s', bs), src)" "anns = as @ bs"
    using Cons.prems(2) by (auto split: option.splits)
  obtain p' where p': "src1 = Caching p'" "inv p'" "seen as s s1"
    "\<forall>it \<in> set as. playable it \<and> item_id it \<noteq> [] \<and> start_time it \<noteq> 0"
    using once[OF Cons.prems(1) 1(1)] by blast
  then show ?case using Cons.IH[of p' s1 s' bs src] 1 by (auto simp: seen_def split: if_splits)
qed (simp add: seen_def)

end

definition provider_wf :: "provider \<Rightarrow> bool" where
  "provider_wf p \<longleftrightarrow> (\<forall>c. p_cache p = Some c \<longrightarrow> max_count c = 0 \<or> cache_wf c)"

lemma sync_latest_run:
  assumes "sync_latest envs p = Some ((err, ns, fs), p')"
  shows "ns = [] \<and> p' = p \<or> (\<exists>c its b c'. p_cache p = Some c \<and> max_count c \<noteq> 0 \<and>
    sync_items its c = Some (ns, fs, b, c') \<and> p' = p\<lparr>p_cache := Some c'\<rparr>)"
  using assms unfolding sync_latest_def
  by (auto split: option.splits sum.splits if_splits prod.splits)

interpretation cached: sync_source provider_wf sync_latest
  "\<lambda>it. video_url it = video_url_of (item_id it)"
proof
  fix p e out p'
  assume "provider_wf p" "sync_latest e p = Some (out, p')"
  then show "provider_wf p'"
    using sync_latest_run[of e p "fst out" "fst (snd out)" "snd (snd out)" p'] sync_items_wf
    by (fastforce simp: provider_wf_def)
next
  fix p e err ns fs p' it
  assume "provider_wf p" "sync_latest e p = Some ((err, ns, fs), p')" "it \<in> set ns"
  then show "video_url it = video_url_of (item_id it)"
    using sync_latest_run[of e p err ns fs p'] sync_items_wf by (fastforce simp: provider_wf_def)
qed

text \<open>
  C8. Whatever the camera and the disk do, every recording the syncer announces from a cache
  has an identifier and a start time and carries the local URL of its video, and the syncer
  remembers exactly the last one it announced.
\<close>

theorem announced_playable:
  assumes "provider_wf p"
    and "sync_runs sync_latest envs (Caching p) (new_syncer n) = Some ((s, anns), src)"
  shows "(\<forall>it \<in> set anns. item_id it \<noteq> [] \<and> start_time it \<noteq> 0 \<and>
      video_url it = video_url_of (item_id it)) \<and>
    last_seen_id s = (if anns = [] then [] else item_id (last anns)) \<and>
    last_seen_time s = (if anns = [] then 0 else start_time (last anns))"
  using cached.runs[OF assms] by (auto simp: seen_def new_syncer_def split: if_splits)

definition ex_provider :: provider where
  "ex_provider = new_provider (Some (new_cache 2 [])) (Some (ex_camera [ex_item ''9'' 900, ex_item ''8'' 800]))"

text \<open>The environment of a download that breaks off: the camera ends the stream with an error.\<close>

definition broken_env :: item_env where
  "broken_env = ex_env\<lparr>download := ex_download\<lparr>copy_ok := False, copied := 4\<rparr>\<rparr>"

definition first_sync :: "nat \<Rightarrow> item_env" where
  "first_sync k = (if k = 0 then ex_env else broken_env)"

text \<open>
  An older recording whose first download broke off is announced after a newer one, as
  the new recording, and the time the syncer remembers goes back.
\<close>

theorem announcement_goes_back:
  "map_option (\<lambda>((s, anns), _). (map item_id anns, map start_time anns, last_seen_time s))
     (sync_runs sync_latest [first_sync, \<lambda>_. ex_env] (Caching ex_provider) (new_syncer 60)) =
   Some ([''9'', ''8''], [900, 800], 800)"
  by code_simp

theorem announced_playable_witness:
  "\<exists>s anns src. sync_runs sync_latest [first_sync] (Caching ex_provider) (new_syncer 60) = Some ((s, anns), src) \<and>
     (\<forall>it \<in> set anns. video_url it = video_url_of (item_id it))"
proof -
  have "map_option (\<lambda>_. ()) (sync_runs sync_latest [first_sync] (Caching ex_provider) (new_syncer 60)) = Some ()"
    by code_simp
  then obtain s anns src where
    r: "sync_runs sync_latest [first_sync] (Caching ex_provider) (new_syncer 60) = Some ((s, anns), src)"
    by (metis (no_types, lifting) map_option_eq_Some prod.exhaust)
  have "provider_wf ex_provider"
    by (simp add: provider_wf_def ex_provider_def new_provider_def new_cache_wf)
  from announced_playable[OF this r] r show ?thesis by blast
qed

subsection \<open>Where the background sync falls short\<close>

text \<open>
  When the cache already holds what the camera lists, as after a restart, a sync
  announces nothing; the same camera without a cache has its newest recording announced.
\<close>

theorem warm_cache_not_announced:
  assumes "p_cache p = Some c" "p_upstream p = Some u" "\<not> sync_running p" "0 < max_count c"
    and "up_list u 0 0 0 (int (max_count c)) [] = Inr (Some r)"
    and "\<forall>it \<in> set (resp_list r). cache_has c (item_id it)"
    and "\<forall>k. \<not> ctx_done (envs k)"
    and "up_list u 0 0 0 5 [] = Inr (Some r')" "resp_list r' = it # others"
    and "item_id it \<noteq> []" "start_time it \<noteq> 0"
  shows "sync_once (sync_latest envs) (Caching p) (new_syncer n) = Some ((new_syncer n, []), Caching p) \<and>
    (\<exists>s. sync_once (sync_latest envs) (Direct u) (new_syncer n) = Some ((s, [it]), Direct u))"
proof -
  have "\<forall>x \<in> set (with_envs envs (resp_list r)). cache_has c (item_id (fst x))"
    using assms(6) map_fst_with_envs[of envs "resp_list r"] by (metis image_eqI set_map)
  then have "sync_items (with_envs envs (resp_list r)) c = Some ([], [], False, c)"
    using assms(7) by (intro sync_items_nothing) (simp_all add: list_all_with_envs)
  moreover have "p\<lparr>p_cache := Some c\<rparr> = p" using assms(1) by (cases p) simp
  ultimately have "sync_latest envs p = Some ((None, [], []), p)"
    using sync_latest_list[OF assms(1-5), of envs] by simp
  then show ?thesis
    using assms(8-11)
    by (simp add: sync_once_def sync_cached_def sync_query_def query_start_def note_latest_def new_syncer_def)
qed

theorem warm_cache_not_announced_witness:
  "sync_once (sync_latest (\<lambda>_. ex_env))
     (Caching (new_provider (Some (mark_failed ''9'' None (new_cache 2 []))) (Some (ex_camera [ex_item ''9'' 900]))))
     (new_syncer 60) =
   Some ((new_syncer 60, []),
     Caching (new_provider (Some (mark_failed ''9'' None (new_cache 2 []))) (Some (ex_camera [ex_item ''9'' 900]))))"
proof -
  let ?c = "mark_failed ''9'' None (new_cache 2 [])" and ?u = "ex_camera [ex_item ''9'' 900]"
  let ?r = "\<lparr>resp_count = 1, resp_total = 1, resp_list = [ex_item ''9'' 900]\<rparr>"
  let ?p = "new_provider (Some ?c) (Some ?u)"
  have p: "p_cache ?p = Some ?c" "p_upstream ?p = Some ?u" "\<not> sync_running ?p"
    by (simp_all add: new_provider_def)
  have c: "max_count ?c = 2" "cache_has ?c ''9''" by code_simp+
  have u: "up_list ?u a b k l t = Inr (Some ?r)" for a b k l t by (simp add: ex_camera_def)
  show ?thesis
    using warm_cache_not_announced[OF p _ u, of "\<lambda>_. ex_env" ?r "ex_item ''9'' 900" "[]" 60] c u
    by (simp add: ex_env_def ex_item_def)
qed

text \<open>A download that runs to its end and brings nothing.\<close>

definition empty_download :: "item_env \<Rightarrow> bool" where
  "empty_download e \<longleftrightarrow> open_ok (download e) \<and> copy_ok (download e) \<and> close_ok (download e) \<and>
     copied (download e) = 0 \<and> \<not> ctx_done e"

lemma cache_add_empty:
  assumes "empty_download e" "item_id it \<noteq> []" "0 < max_count c"
  shows "\<exists>d. cache_add it (download e) c = (Inl NoData, c\<lparr>disk := d\<rparr>)"
  using assms unfolding cache_add_def store_video_def empty_download_def Let_def by auto

lemma sync_empty_first:
  assumes "list_all (\<lambda>(it, e). item_id it \<noteq> [] \<and> empty_download e) its"
    and "distinct (map (item_id \<circ> fst) its)" "0 < max_count c"
    and "\<forall>x \<in> set its. \<not> cache_has c (item_id (fst x)) \<and> attempts c (item_id (fst x)) = 0"
  shows "\<exists>fs d. sync_items its c = Some ([], fs, False,
     c\<lparr>disk := d, attempts := (\<lambda>i. if i \<in> set (map (item_id \<circ> fst) its) then 1 else attempts c i)\<rparr>)"
  using assms
proof (induction its arbitrary: c)
  case Nil
  show ?case by (rule exI[of _ "[]"], rule exI[of _ "disk c"]) simp
next
  case (Cons x its)
  obtain it e where x: "x = (it, e)" by (cases x)
  let ?i = "item_id it"
  have it: "?i \<noteq> []" "empty_download e" "\<not> cache_has c ?i" "attempts c ?i = 0"
    and new: "?i \<notin> set (map (item_id \<circ> fst) its)" using Cons.prems x by auto
  obtain d1 where add: "cache_add it (download e) c = (Inl NoData, c\<lparr>disk := d1\<rparr>)"
    using cache_add_empty[OF it(2,1) Cons.prems(3)] by blast
  let ?c = "c\<lparr>disk := d1, attempts := (attempts c)(?i := 1)\<rparr>"
  have rec: "snd (record_failure ?i k (c\<lparr>disk := d1\<rparr>)) = ?c" for k
    using it(4) by (simp add: record_failure_def Let_def)
  have hyp: "\<forall>x \<in> set its. \<not> cache_has ?c (item_id (fst x)) \<and> attempts ?c (item_id (fst x)) = 0"
  proof
    fix y assume y: "y \<in> set its"
    then have "item_id (fst y) \<noteq> ?i" using new by force
    then show "\<not> cache_has ?c (item_id (fst y)) \<and> attempts ?c (item_id (fst y)) = 0"
      using y Cons.prems(4) by (simp add: cache_has_def)
  qed
  obtain fs d where r: "sync_items its ?c = Some ([], fs, False, ?c\<lparr>disk := d,
      attempts := (\<lambda>i. if i \<in> set (map (item_id \<circ> fst) its) then 1 else attempts ?c i)\<rparr>)"
    using Cons.IH[of ?c] Cons.prems hyp by (auto simp: x)
  have "(\<lambda>i. if i \<in> set (map (item_id \<circ> fst) its) then 1 else attempts ?c i) =
      (\<lambda>i. if i \<in> set (map (item_id \<circ> fst) (x # its)) then 1 else attempts c i)"
    by (auto simp: x fun_eq_iff)
  moreover have "sync_items (x # its) c = Some ([], ?i # fs, False, ?c\<lparr>disk := d,
      attempts := (\<lambda>i. if i \<in> set (map (item_id \<circ> fst) its) then 1 else attempts ?c i)\<rparr>)"
    using it r by (simp add: x add rec stops_early_def empty_download_def)
  ultimately show ?case by auto
qed

lemma mark_failed_room:
  assumes "length (sorted_ids c) < max_count c" "i \<notin> set (sorted_ids c)"
  shows "items (mark_failed i k c) = items c \<and> failed_ids (mark_failed i k c) = insert i (failed_ids c) \<and>
    max_count (mark_failed i k c) = max_count c \<and> attempts (mark_failed i k c) = attempts c \<and>
    mset (sorted_ids (mark_failed i k c)) = add_mset i (mset (sorted_ids c))"
proof -
  let ?c = "sort_ids (index_id i (c\<lparr>failed_ids := insert i (failed_ids c)\<rparr>))"
  have s: "mset (sorted_ids ?c) = add_mset i (mset (sorted_ids c))"
    using assms(2) by (simp add: sort_ids_def index_id_def mset_sort)
  have "length (sorted_ids ?c) = Suc (length (sorted_ids c))" using arg_cong[OF s, of size] by simp
  moreover have "max_count ?c = max_count c" by (simp add: cache_simps)
  ultimately have "length (sorted_ids ?c) \<le> max_count ?c" using assms(1) by simp
  then have "prune ?c = ?c" by (simp add: prune_def prune_loop.simps)
  moreover have "attempts ?c = attempts c" by (simp add: sort_ids_def index_id_def)
  ultimately show ?thesis using s by (simp add: mark_failed_def Let_def cache_simps split: option.split)
qed

lemma sync_empty_second:
  assumes "list_all (\<lambda>(it, e). item_id it \<noteq> [] \<and> empty_download e) its"
    and "distinct (map (item_id \<circ> fst) its)"
    and "set (sorted_ids c) = dom (items c) \<union> failed_ids c"
    and "\<forall>x \<in> set its. item_id (fst x) \<notin> set (sorted_ids c) \<and> attempts c (item_id (fst x)) = 1"
    and "length (sorted_ids c) + length its \<le> max_count c"
  shows "\<exists>fs c'. sync_items its c = Some ([], fs, False, c') \<and> items c' = items c \<and>
    failed_ids c' = failed_ids c \<union> set (map (item_id \<circ> fst) its) \<and> max_count c' = max_count c \<and>
    mset (sorted_ids c') = mset (sorted_ids c) + mset (map (item_id \<circ> fst) its)"
  using assms
proof (induction its arbitrary: c)
  case (Cons x its)
  obtain it e where x: "x = (it, e)" by (cases x)
  let ?i = "item_id it"
  have it: "?i \<noteq> []" "empty_download e" "?i \<notin> set (sorted_ids c)" "attempts c ?i = 1"
    and new: "?i \<notin> set (map (item_id \<circ> fst) its)" using Cons.prems x by auto
  have has: "\<not> cache_has c ?i" using it(3) Cons.prems(3) by (auto simp: cache_has_def)
  have room: "0 < max_count c" using Cons.prems(5) by simp
  obtain d1 where add: "cache_add it (download e) c = (Inl NoData, c\<lparr>disk := d1\<rparr>)"
    using cache_add_empty[OF it(2,1) room] by blast
  let ?k = "c\<lparr>disk := d1, attempts := (attempts c)(?i := 2)\<rparr>"
  let ?c = "mark_failed ?i (marker e) ?k"
  have "length (sorted_ids ?k) < max_count ?k" "?i \<notin> set (sorted_ids ?k)"
    using Cons.prems(5) it(3) by simp_all
  note m = mark_failed_room[OF this, of "marker e"]
  have rec: "snd (record_failure ?i (marker e) (c\<lparr>disk := d1\<rparr>)) = ?c"
    using it(4) by (simp add: record_failure_def Let_def numeral_2_eq_2)
  have ms: "mset (sorted_ids ?c) = add_mset ?i (mset (sorted_ids c))" using m by simp
  have set_c: "set (sorted_ids ?c) = insert ?i (set (sorted_ids c))"
    using arg_cong[OF ms, of set_mset] by simp
  have len: "length (sorted_ids ?c) = Suc (length (sorted_ids c))"
    using arg_cong[OF ms, of size] by simp
  have rest: "\<forall>x \<in> set its. item_id (fst x) \<notin> set (sorted_ids ?c) \<and> attempts ?c (item_id (fst x)) = 1"
  proof
    fix y assume y: "y \<in> set its"
    then have "item_id (fst y) \<noteq> ?i" using new by force
    then show "item_id (fst y) \<notin> set (sorted_ids ?c) \<and> attempts ?c (item_id (fst y)) = 1"
      using y Cons.prems(4) m set_c by simp
  qed
  have wf: "set (sorted_ids ?c) = dom (items ?c) \<union> failed_ids ?c"
    using Cons.prems(3) m set_c by simp
  have ok: "list_all (\<lambda>(it, e). item_id it \<noteq> [] \<and> empty_download e) its"
    and wf': "distinct (map (item_id \<circ> fst) its)" using Cons.prems(1,2) by (simp_all add: x comp_def)
  have room': "length (sorted_ids ?c) + length its \<le> max_count ?c" using Cons.prems(5) m len by simp
  obtain fs c' where r: "sync_items its ?c = Some ([], fs, False, c')" "items c' = items ?c"
      "failed_ids c' = failed_ids ?c \<union> set (map (item_id \<circ> fst) its)" "max_count c' = max_count ?c"
      "mset (sorted_ids c') = mset (sorted_ids ?c) + mset (map (item_id \<circ> fst) its)"
    using Cons.IH[OF ok wf' wf rest room'] by (elim exE conjE) (rule that)
  have "sync_items (x # its) c = Some ([], ?i # fs, False, c')"
    using it r(1) by (simp add: x has add rec stops_early_def empty_download_def)
  moreover have "items c' = items c" "max_count c' = max_count c" using r(2,4) m by simp_all
  moreover have "failed_ids c' = failed_ids c \<union> set (map (item_id \<circ> fst) (x # its))"
    using r(3) m by (simp add: x)
  moreover have "mset (sorted_ids c') = mset (sorted_ids c) + mset (map (item_id \<circ> fst) (x # its))"
    using r(5) ms by (simp add: x)
  ultimately show ?case by blast
qed simp

lemma list_all_zero_items:
  assumes "items c = Map.empty" "int (length (sorted_ids c)) < 2 ^ 63"
  shows "\<exists>r. cache_list c 0 0 0 0 = Some r \<and> resp_list r = replicate (length (sorted_ids c)) zero_item"
proof -
  have "matched c 0 0 = replicate (length (sorted_ids c)) zero_item"
    using assms(1) by (simp add: matched_def in_range_def item_or_zero_def[abs_def] map_replicate_const)
  then show ?thesis using assms(2) by (simp add: cache_list_def list_page_def Let_def)
qed

text \<open>
  A camera that lists recordings but streams none of their data, as the driver for the
  second camera family does, has all of them marked as failed by two syncs of a new cache:
  nothing is announced, no later sync downloads anything, and a listing of the cache shows as
  many zero-valued recordings.
\<close>

theorem empty_streams_become_failures:
  fixes d :: directory
  assumes "0 < m" "m < 2 ^ 63" "up_list u 0 0 0 m [] = Inr (Some r)" "int (length (resp_list r)) \<le> m"
    and "distinct (map item_id (resp_list r))" "\<forall>it \<in> set (resp_list r). item_id it \<noteq> []"
    and "\<forall>k. empty_download (envs k)"
  defines "p \<equiv> new_provider (Some (new_cache m d)) (Some u)"
  shows "\<exists>fs1 p1 fs2 p2 c l. sync_latest envs p = Some ((None, [], fs1), p1) \<and>
    sync_latest envs p1 = Some ((None, [], fs2), p2) \<and> p_cache p2 = Some c \<and> items c = Map.empty \<and>
    failed_ids c = item_id ` set (resp_list r) \<and>
    sync_latest envs p2 = Some ((None, [], []), p2) \<and>
    cache_list c 0 0 0 0 = Some l \<and> resp_list l = replicate (length (resp_list r)) zero_item"
proof -
  let ?c = "new_cache m d" and ?its = "with_envs envs (resp_list r)"
  have pos: "0 < max_count ?c" and mc: "int (max_count ?c) = m" using assms(1) by (simp_all add: new_cache_def)
  have fst: "map (item_id \<circ> fst) ?its = map item_id (resp_list r)"
    using map_fst_with_envs[of envs "resp_list r"] by (metis map_map)
  have ok: "list_all (\<lambda>(it, e). item_id it \<noteq> [] \<and> empty_download e) ?its"
    using assms(6,7) by (simp add: list_all_with_envs)
  have step: "sync_latest envs (new_provider (Some c) (Some u)) =
      Some ((None, [], fs), new_provider (Some c') (Some u))"
    if "max_count c = max_count ?c" "sync_items ?its c = Some ([], fs, False, c')" for c c' fs
    using sync_latest_list[of "new_provider (Some c) (Some u)" c u r envs] that pos mc assms(3)
    by (simp add: new_provider_def)
  obtain fs1 d1 c1 where 1: "sync_items ?its ?c = Some ([], fs1, False, c1)"
    "c1 = ?c\<lparr>disk := d1, attempts := (\<lambda>i. if i \<in> set (map (item_id \<circ> fst) ?its) then 1 else attempts ?c i)\<rparr>"
    using sync_empty_first[OF ok _ pos] assms(5) by (auto simp: fst new_cache_def cache_has_def)
  have c1: "sorted_ids c1 = []" "items c1 = Map.empty" "failed_ids c1 = {}" "max_count c1 = max_count ?c"
    by (simp_all add: 1(2) new_cache_def)
  have att: "\<forall>x \<in> set ?its. item_id (fst x) \<notin> set (sorted_ids c1) \<and> attempts c1 (item_id (fst x)) = 1"
    by (auto simp: 1(2) new_cache_def)
  have len: "length ?its = length (resp_list r)" by (simp add: with_envs_def)
  have 2: "\<exists>fs2 c2. sync_items ?its c1 = Some ([], fs2, False, c2) \<and> items c2 = items c1 \<and>
      failed_ids c2 = failed_ids c1 \<union> set (map (item_id \<circ> fst) ?its) \<and> max_count c2 = max_count c1 \<and>
      mset (sorted_ids c2) = mset (sorted_ids c1) + mset (map (item_id \<circ> fst) ?its)"
    by (rule sync_empty_second[OF ok _ _ att]) (use assms(4,5) c1 mc len fst in auto)
  then obtain fs2 c2 where 2: "sync_items ?its c1 = Some ([], fs2, False, c2)" "items c2 = Map.empty"
    "failed_ids c2 = item_id ` set (resp_list r)" "max_count c2 = max_count ?c"
    "mset (sorted_ids c2) = mset (map item_id (resp_list r))"
    using c1 unfolding fst by auto
  have "\<forall>x \<in> set ?its. cache_has c2 (item_id (fst x))"
    using 2(3) map_fst_with_envs[of envs "resp_list r"]
    by (metis cache_has_def image_eqI list.set_map)
  then have 3: "sync_items ?its c2 = Some ([], [], False, c2)"
    using assms(7) by (intro sync_items_nothing) (simp_all add: list_all_with_envs empty_download_def)
  have n: "length (sorted_ids c2) = length (resp_list r)" using 2(5) by (metis length_map mset_eq_length)
  then obtain l where l: "cache_list c2 0 0 0 0 = Some l"
      "resp_list l = replicate (length (resp_list r)) zero_item"
    using list_all_zero_items[OF 2(2)] assms(2,4) by auto
  show ?thesis
    unfolding p_def
    using step[OF refl 1(1)] step[OF c1(4) 2(1)] step[OF 2(4) 3] 2(2,3) l
    by (simp add: new_provider_def)
qed

theorem empty_streams_become_failures_witness:
  "\<exists>fs1 p1 fs2 p2 c. sync_latest (\<lambda>_. ex_env\<lparr>download := ex_download\<lparr>copied := 0\<rparr>\<rparr>) ex_provider = Some ((None, [], fs1), p1) \<and>
    sync_latest (\<lambda>_. ex_env\<lparr>download := ex_download\<lparr>copied := 0\<rparr>\<rparr>) p1 = Some ((None, [], fs2), p2) \<and>
    p_cache p2 = Some c \<and> failed_ids c = {''9'', ''8''}"
proof -
  let ?its = "[ex_item ''9'' 900, ex_item ''8'' 800]"
  have u: "up_list (ex_camera ?its) 0 0 0 2 [] =
      Inr (Some \<lparr>resp_count = 2, resp_total = 2, resp_list = ?its\<rparr>)" by (simp add: ex_camera_def)
  have e: "empty_download (ex_env\<lparr>download := ex_download\<lparr>copied := 0\<rparr>\<rparr>)"
    by (simp add: empty_download_def ex_env_def ex_download_def)
  show ?thesis
    using empty_streams_become_failures[OF _ _ u, of "\<lambda>_. ex_env\<lparr>download := ex_download\<lparr>copied := 0\<rparr>\<rparr>" "[]"] e
    by (auto simp: ex_provider_def ex_item_def)
qed

text \<open>
  A download whose video cannot be written while the camera still sends hangs the sync:
  the writer of the pipe waits for a reader that is gone, \<^verbatim>\<open>SyncLatest\<close> never
  returns and keeps its lock, and so does the syncer's loop.
\<close>

theorem full_disk_hangs_sync:
  assumes "p_cache p = Some c" "p_upstream p = Some u" "\<not> sync_running p" "0 < max_count c"
    and "up_list u 0 0 0 (int (max_count c)) [] = Inr (Some r)" "resp_list r = it # others"
    and "item_id it \<noteq> []" "\<not> cache_has c (item_id it)" "\<not> ctx_done (envs 0)"
    and "\<not> (open_ok (download (envs 0)) \<and> copy_ok (download (envs 0)))" "unread (envs 0)"
  shows "sync_latest envs p = None \<and> sync_once (sync_latest envs) (Caching p) s = None"
proof -
  have "\<exists>err d. cache_add it (download (envs 0)) c = (Inl err, d) \<and> stops_early err"
    using assms(4,7,10) by (auto simp: cache_add_def store_video_def Let_def stops_early_def)
  then have "sync_items (with_envs envs (resp_list r)) c = None"
    using assms(6,8,9,11) by (auto simp: with_envs_def)
  then have "sync_latest envs p = None" using sync_latest_list[OF assms(1-5), of envs] by simp
  then show ?thesis by (simp add: sync_once_def)
qed

theorem full_disk_hangs_sync_witness:
  "sync_latest (\<lambda>_. broken_env\<lparr>unread := True\<rparr>) ex_provider = None"
proof -
  let ?its = "[ex_item ''9'' 900, ex_item ''8'' 800]"
  have p: "p_cache ex_provider = Some (new_cache 2 [])" "p_upstream ex_provider = Some (ex_camera ?its)"
    "\<not> sync_running ex_provider" by (simp_all add: ex_provider_def new_provider_def)
  have u: "up_list (ex_camera ?its) 0 0 0 (int (max_count (new_cache 2 []))) [] =
      Inr (Some \<lparr>resp_count = 2, resp_total = 2, resp_list = ?its\<rparr>)" by (simp add: ex_camera_def)
  show ?thesis
    using full_disk_hangs_sync[OF p _ u, of "ex_item ''9'' 900" "[ex_item ''8'' 800]" "\<lambda>_. broken_env\<lparr>unread := True\<rparr>"]
    by (simp add: new_cache_def cache_has_def broken_env_def ex_env_def ex_download_def ex_item_def)
qed

subsection \<open>Queries and streams\<close>

lemma cache_list_regular:
  assumes "0 < limit" "0 \<le> page" "page * limit + limit < 2 ^ 63"
  shows "\<exists>r. cache_list c start stop page limit = Some r"
proof -
  have "page * limit < 2 ^ 63" using assms by linarith
  from list_page_regular[OF assms(1,2) this assms(3), of "matched c start stop"]
  show ?thesis by (simp add: cache_list_def)
qed

lemma item_id_enrich [simp]: "item_id (enrich c it) = item_id it"
  by (simp add: enrich_def split: option.split)



definition served :: "provider \<Rightarrow> string \<Rightarrow> string \<Rightarrow> bool" where
  "served p i path \<longleftrightarrow> (\<exists>c f. p_cache p = Some c \<and> items c i \<noteq> None \<and> \<not> bad_id i \<and>
     path \<in> {i @ ''.mp4'', i @ ''.jpg''} \<and> map_of (disk c) path = Some f \<and> f_size f > 0)"

lemma served_get_video: "p_cache p = Some c \<Longrightarrow> get_video c i = Some path \<Longrightarrow> served p i path"
  by (auto simp: served_def get_video_def bad_id_def split: if_splits option.splits)

lemma served_get_thumbnail: "p_cache p = Some c \<Longrightarrow> get_thumbnail c i = Some path \<Longrightarrow> served p i path"
  by (auto simp: served_def get_thumbnail_def bad_id_def split: if_splits option.splits)

lemma served_video: "stream_video p i st op sta = CachedFile path info \<Longrightarrow> served p i path"
  by (auto simp: stream_video_def Let_def split: if_splits option.splits dest: served_get_video)

lemma served_thumbnail: "stream_thumbnail p i op = CachedFile path info \<Longrightarrow> served p i path"
  by (auto simp: stream_thumbnail_def Let_def split: if_splits option.splits dest: served_get_thumbnail)

lemma served_path: "get_cached_video_path p i = Some path \<Longrightarrow> served p i path"
  by (auto simp: get_cached_video_path_def split: if_splits option.splits dest: served_get_video)



subsection \<open>Polling\<close>

definition periodic :: "gtime option list \<Rightarrow> gtime list" where
  "periodic ps = List.map_filter id ps"

lemma periodic_simps [simp]:
  "periodic [] = []" "periodic (Some t # ps) = t # periodic ps" "periodic (None # ps) = periodic ps"
  by (simp_all add: periodic_def map_filter_simps)

lemma syncer_events_spaced:
  assumes "stream_active s = Some True" "last_periodic_poll s \<noteq> 0"
    and "\<forall>e \<in> set es. (\<forall>f. e \<noteq> StreamState f) \<and> e \<noteq> Tick 0"
  shows "successively (\<lambda>a b. b - a \<ge> five_minutes)
    (last_periodic_poll s # periodic (fst (syncer_events es s)))"
  using assms
proof (induction es s rule: syncer_events.induct)
  case (2 now es s)
  show ?case
  proof (cases "now - last_periodic_poll s < five_minutes")
    case True
    then have "on_tick now s = (False, s)" using 2 by (simp add: on_tick_def)
    then show ?thesis using 2 by (auto split: prod.splits)
  next
    case False
    then have t: "on_tick now s = (True, s\<lparr>last_periodic_poll := now\<rparr>)" using 2 by (simp add: on_tick_def)
    have "successively (\<lambda>a b. b - a \<ge> five_minutes)
        (now # periodic (fst (syncer_events es (s\<lparr>last_periodic_poll := now\<rparr>))))"
      using 2 t by force
    then show ?thesis using t False
      by (cases "syncer_events es (s\<lparr>last_periodic_poll := now\<rparr>)") simp
  qed
qed (auto simp: trigger_sync_def on_trigger_def split: prod.splits if_splits)

text \<open>
  While video is being streamed, the periodic polls keep at least five minutes between
  them, at whatever times the ticks come.
\<close>

theorem polls_throttled_while_streaming:
  assumes "stream_active s = Some True"
    and "\<forall>e \<in> set es. (\<forall>f. e \<noteq> StreamState f) \<and> e \<noteq> Tick 0"
  shows "successively (\<lambda>a b. b - a \<ge> five_minutes) (periodic (fst (syncer_events es s)))"
  using assms
proof (induction es s rule: syncer_events.induct)
  case (2 now es s)
  show ?case
  proof (cases "fst (on_tick now s)")
    case True
    then have t: "on_tick now s = (True, s\<lparr>last_periodic_poll := now\<rparr>)" by (auto simp: on_tick_def split: if_splits)
    show ?thesis
      using syncer_events_spaced[of "s\<lparr>last_periodic_poll := now\<rparr>" es] 2 t by (auto split: prod.split)
  next
    case False
    then have "on_tick now s = (False, s)" by (auto simp: on_tick_def split: if_splits)
    then show ?thesis using 2 by (auto split: prod.splits)
  qed
qed (auto simp: trigger_sync_def on_trigger_def split: prod.splits if_splits)

theorem polls_throttled_while_streaming_witness:
  "successively (\<lambda>a b. b - a \<ge> five_minutes) (periodic (fst (syncer_events
     [Tick 1, Tick 100, MotionSeen, TriggerRead, Tick 400000000000]
     (set_stream_active (Some True) (new_syncer 60)))))"
  by (rule polls_throttled_while_streaming) (simp_all add: set_stream_active_def)
end
