(* ===== verification/Onvif_Server.thy ===== *)
theory Onvif_Server
  imports Onvif_Auth Events_Bus
begin

text \<open>
  The HTTP server of \<^verbatim>\<open>pkg/onvif\<close>: authentication of SOAP requests and their
  dispatch (\<^verbatim>\<open>server.go\<close>), the actions of the device, media, event, device I/O, search,
  replay and recording services as far as they do something, and the REST interface of
  \<^verbatim>\<open>api.go\<close>. A SOAP response is the name of its element; what a handler makes the
  camera do is its list of effects.
\<close>

subsection \<open>Requests\<close>

record http_request =
  rq_method :: string
  rq_path :: string
  rq_host :: string
  rq_auth :: string
  rq_action :: string
  rq_sub :: string
  rq_body :: string

text \<open>\<^verbatim>\<open>Request.BasicAuth\<close>.\<close>

definition cut_colon :: "string \<Rightarrow> (string \<times> string) option" where
  "cut_colon s =
     (if CHR '':'' \<in> set s
      then Some (takeWhile (\<lambda>c. c \<noteq> CHR '':'') s, tl (dropWhile (\<lambda>c. c \<noteq> CHR '':'') s)) else None)"

definition basic_auth :: "string \<Rightarrow> (string \<times> string) option" where
  "basic_auth header =
     (if length header < 6 \<or> \<not> equal_fold (take 6 header) ''Basic '' then None
      else case b64_decode (drop 6 header) of
        None \<Rightarrow> None
      | Some bs \<Rightarrow> cut_colon (string_of bs))"

subsection \<open>Authentication of SOAP requests\<close>

definition mentions :: "string \<Rightarrow> string \<Rightarrow> string \<Rightarrow> bool" where
  "mentions action body kw \<longleftrightarrow> contains action kw \<or> contains body kw"

definition pre_auth_actions :: "string list" where
  "pre_auth_actions =
     [''GetSystemDateAndTime'', ''GetCapabilities'', ''GetServices'', ''GetServiceCapabilities'',
      ''GetEndpointReference'', ''GetScopes'', ''GetDiscoveryMode'', ''GetWsdlUrl'']"

definition is_pre_auth :: "string \<Rightarrow> string \<Rightarrow> bool" where
  "is_pre_auth action body \<longleftrightarrow> list_ex (mentions action body) pre_auth_actions"

definition onvif_realm :: string where "onvif_realm = ''Steinel ONVIF Bridge''"

record server =
  sv_cred :: credentials
  sv_nonces :: nonce_manager

text \<open>
  \<open>xml\<close> is the XML decoder's answer for the WS-Security token of a body. The result is
  None when the request may go on; otherwise the challenge: its nonce and the stale flag.
\<close>

definition wants_digest :: "http_request \<Rightarrow> bool" where
  "wants_digest rq \<longleftrightarrow> has_prefix (to_lower (trim_space (rq_auth rq))) ''digest ''"

definition digest_status :: "prims \<Rightarrow> server \<Rightarrow> http_request \<Rightarrow> gtime \<Rightarrow> auth_status" where
  "digest_status pr sv rq now =
     (if wants_digest rq
      then fst (validate_digest pr (rq_method rq) (rq_path rq) (rq_host rq) (rq_auth rq) (sv_cred sv)
                  onvif_realm (Some (sv_nonces sv)) now)
      else AuthFailed)"

definition basic_ok :: "server \<Rightarrow> http_request \<Rightarrow> bool" where
  "basic_ok sv rq \<longleftrightarrow> basic_auth (rq_auth rq) = Some (c_user (sv_cred sv), c_pass (sv_cred sv))"

definition authenticate_soap ::
  "prims \<Rightarrow> (string \<Rightarrow> username_token option) \<Rightarrow> server \<Rightarrow> http_request \<Rightarrow> gtime \<Rightarrow> bytes \<Rightarrow>
     (string \<times> bool) option" where
  "authenticate_soap pr xml sv rq now salt =
     (if c_user (sv_cred sv) = [] then None
      else if is_pre_auth (rq_action rq) (rq_body rq) then None
      else if digest_status pr sv rq now = AuthSuccess then None
      else if basic_ok sv rq then None
      else if validate_ws_security pr (xml (rq_body rq)) (sv_cred sv) then None
      else Some (nonce_generate pr (sv_nonces sv) now salt, digest_status pr sv rq now = AuthStale))"

subsection \<open>The services\<close>

datatype effect =
    Reboot
  | SetLamp string
  | SetSiren bool
  | ChangeResolution string
  | QueryRecordings

type_synonym soap_result = "string option \<times> effect list"

definition find_action :: "string list \<Rightarrow> string \<Rightarrow> string \<Rightarrow> string option" where
  "find_action actions action body = find (mentions action body) actions"

definition device_actions :: "string list" where
  "device_actions =
     [''GetDeviceInformation'', ''GetCapabilities'', ''GetServices'', ''GetServiceCapabilities'',
      ''GetEndpointReference'', ''GetWsdlUrl'', ''GetNetworkDefaultGateway'', ''GetSystemDateAndTime'',
      ''GetNetworkInterfaces'', ''GetUsers'', ''GetScopes'', ''GetNetworkProtocols'', ''GetHostname'',
      ''GetDNS'', ''GetNTP'', ''GetDiscoveryMode'', ''SystemReboot'']"

definition device_handle :: "string \<Rightarrow> string \<Rightarrow> soap_result" where
  "device_handle action body =
     (case find_action device_actions action body of
        None \<Rightarrow> (None, [])
      | Some a \<Rightarrow> (Some (a @ ''Response''), if a = ''SystemReboot'' then [Reboot] else []))"

text \<open>The body of a \<^verbatim>\<open>SetVideoEncoderConfiguration\<close> request.\<close>

definition encoder_resolution :: "string \<Rightarrow> string" where
  "encoder_resolution body =
     (if contains body ''<Width>1280</Width>'' \<or> contains body ''<Width>720</Width>'' then ''720p''
      else if contains body ''<Width>640</Width>'' \<or> contains body ''<Width>360</Width>'' then ''360p''
      else ''1080p'')"

definition media_actions :: "string list" where
  "media_actions =
     [''GetProfiles'', ''GetProfile'', ''GetStreamUri'',
      ''GetVideoSourceConfigurations'', ''GetVideoSourceConfiguration'',
      ''GetAudioSourceConfigurations'', ''GetAudioSourceConfiguration'',
      ''GetAudioOutputConfigurations'', ''GetAudioOutputConfiguration'',
      ''GetVideoEncoderConfigurationOptions'', ''SetVideoEncoderConfiguration'', ''GetAudioSources'',
      ''GetAudioOutputs'', ''GetAudioEncoderConfigurationOptions'', ''GetVideoSources'']"

text \<open>The singular names are answered with the plural responses.\<close>

definition media_response :: "string \<Rightarrow> string" where
  "media_response a =
     (if a = ''GetVideoSourceConfiguration'' \<or> a = ''GetAudioSourceConfiguration'' \<or>
         a = ''GetAudioOutputConfiguration'' \<or> a = ''GetProfile'' then a @ ''sResponse'' else a @ ''Response'')"

definition media_handle :: "string \<Rightarrow> string \<Rightarrow> soap_result" where
  "media_handle action body =
     (case find_action media_actions action body of
        None \<Rightarrow> (Some ''UnknownActionResponse'', [])
      | Some a \<Rightarrow>
          (Some (media_response a),
           if a = ''SetVideoEncoderConfiguration'' then [ChangeResolution (encoder_resolution body)] else []))"

definition relay_effect :: "string \<Rightarrow> effect" where
  "relay_effect body =
     (if contains body ''active'' \<or> contains body ''closed'' then SetLamp ''on'' else SetLamp ''off'')"

definition auxiliary_effects :: "string \<Rightarrow> effect list" where
  "auxiliary_effects body =
     (if contains body ''Light:On'' \<or> contains body ''light:on'' then [SetLamp ''on'']
      else if contains body ''Light:Off'' \<or> contains body ''light:off'' then [SetLamp ''off'']
      else if contains body ''Light:Auto'' \<or> contains body ''light:auto'' then [SetLamp ''auto'']
      else if contains body ''Siren:On'' \<or> contains body ''siren:on'' then [SetSiren True]
      else if contains body ''Siren:Off'' \<or> contains body ''siren:off'' then [SetSiren False]
      else [])"

definition device_io_handle :: "string \<Rightarrow> string \<Rightarrow> soap_result" where
  "device_io_handle action body =
     (case find_action [''GetRelayOutputs'', ''SetRelayOutputState'', ''SendAuxiliaryCommand''] action body of
        None \<Rightarrow> (None, [])
      | Some a \<Rightarrow>
          (Some (a @ ''Response''),
           if a = ''SetRelayOutputState'' then [relay_effect body]
           else if a = ''SendAuxiliaryCommand'' then auxiliary_effects body else []))"

definition search_handle :: "string \<Rightarrow> string \<Rightarrow> soap_result" where
  "search_handle action body =
     (case find_action [''GetRecordingSummary'', ''FindRecordings'', ''GetRecordingSearchResults'',
             ''FindEvents'', ''GetEventSearchResults'', ''GetRecordingInformation''] action body of
        None \<Rightarrow> (None, [])
      | Some a \<Rightarrow>
          (Some (a @ ''Response''),
           if a = ''GetRecordingSummary'' \<or> a = ''GetRecordingSearchResults'' then [QueryRecordings] else []))"

definition replay_handle :: "string \<Rightarrow> string \<Rightarrow> soap_result" where
  "replay_handle action body =
     (case find_action [''GetReplayUri'', ''GetReplayConfiguration'', ''SetReplayConfiguration''] action body of
        None \<Rightarrow> (None, []) | Some a \<Rightarrow> (Some (a @ ''Response''), []))"

definition recording_handle :: "string \<Rightarrow> string \<Rightarrow> soap_result" where
  "recording_handle action body =
     (case find_action [''GetRecordings'', ''GetRecordingConfiguration''] action body of
        None \<Rightarrow> (None, []) | Some a \<Rightarrow> (Some (a @ ''Response''), []))"

text \<open>
  The event service changes the subscriptions. \<open>new_id\<close> is the identifier it makes up,
  \<open>arrived\<close> an event that comes while a pull waits, \<open>motion\<close> the status of the bus.
  Its only effect is on the pull points, so it is listed apart.
\<close>

definition event_actions :: "string list" where
  "event_actions =
     [''GetServiceCapabilities'', ''GetEventProperties'', ''CreatePullPointSubscription'',
      ''PullMessages'', ''Renew'', ''Unsubscribe'', ''SetSynchronizationPoint'', ''Subscribe'']"

record event_env =
  new_id :: string
  arrived :: "bool option"
  motion :: bool

definition event_handle ::
  "event_env \<Rightarrow> gtime \<Rightarrow> string \<Rightarrow> string \<Rightarrow> string \<Rightarrow> subscriptions \<Rightarrow> soap_result \<times> subscriptions" where
  "event_handle ev now action body sub subs =
     (case find_action event_actions action body of
        None \<Rightarrow> ((None, []), subs)
      | Some a \<Rightarrow>
          ((Some ((if a = ''Subscribe'' then ''CreatePullPointSubscription'' else a) @ ''Response''), []),
           if a = ''CreatePullPointSubscription'' \<or> a = ''Subscribe''
             then create_pull_point (new_id ev) now (motion ev) subs
           else if a = ''PullMessages'' then snd (pull_messages sub now (arrived ev) (motion ev) subs)
           else if a = ''Renew'' then renew_sub sub now subs
           else if a = ''Unsubscribe'' then unsubscribe sub subs
           else if a = ''SetSynchronizationPoint'' then broadcast_motion (motion ev) subs
           else subs))"

subsection \<open>Dispatch\<close>

datatype service = DeviceSvc | MediaSvc | EventSvc | DeviceIOSvc | SearchSvc | ReplaySvc | RecordingSvc

definition service_of :: "string \<Rightarrow> string \<Rightarrow> service" where
  "service_of path body =
     (if has_suffix path ''device_service'' then DeviceSvc
      else if has_suffix path ''media_service'' then MediaSvc
      else if has_suffix path ''event_service'' then EventSvc
      else if has_suffix path ''deviceio_service'' then DeviceIOSvc
      else if has_suffix path ''search_service'' then SearchSvc
      else if has_suffix path ''replay_service'' then ReplaySvc
      else if has_suffix path ''recording_service'' then RecordingSvc
      else if contains body ''GetDeviceInformation'' \<or> contains body ''GetCapabilities'' \<or>
              contains body ''GetServices'' then DeviceSvc
      else if contains body ''GetProfiles'' \<or> contains body ''GetStreamUri'' then MediaSvc
      else if contains body ''PullMessages'' \<or> contains body ''CreatePullPointSubscription'' then EventSvc
      else if contains body ''FindRecordings'' \<or> contains body ''GetRecordingSummary'' \<or>
              contains body ''GetRecordingSearchResults'' then SearchSvc
      else if contains body ''GetReplayUri'' \<or> contains body ''GetReplayConfiguration'' then ReplaySvc
      else if contains body ''GetRecordings'' \<or> contains body ''GetRecordingConfiguration'' then RecordingSvc
      else DeviceSvc)"

datatype soap_outcome = BadRequest | Challenge string bool | Fault | Reply string

definition serve ::
  "event_env \<Rightarrow> gtime \<Rightarrow> http_request \<Rightarrow> subscriptions \<Rightarrow> soap_result \<times> subscriptions" where
  "serve ev now rq subs =
     (let a = rq_action rq; b = rq_body rq in
      case service_of (rq_path rq) b of
        DeviceSvc \<Rightarrow> (device_handle a b, subs)
      | MediaSvc \<Rightarrow> (media_handle a b, subs)
      | EventSvc \<Rightarrow> event_handle ev now a b (rq_sub rq) subs
      | DeviceIOSvc \<Rightarrow> (device_io_handle a b, subs)
      | SearchSvc \<Rightarrow> (search_handle a b, subs)
      | ReplaySvc \<Rightarrow> (replay_handle a b, subs)
      | RecordingSvc \<Rightarrow> (recording_handle a b, subs))"

definition handle_soap ::
  "prims \<Rightarrow> (string \<Rightarrow> username_token option) \<Rightarrow> event_env \<Rightarrow> server \<Rightarrow> bool \<Rightarrow> http_request \<Rightarrow> gtime \<Rightarrow> bytes \<Rightarrow>
     subscriptions \<Rightarrow> soap_outcome \<times> effect list \<times> subscriptions" where
  "handle_soap pr xml ev sv body_read rq now salt subs =
     (if \<not> body_read then (BadRequest, [], subs)
      else case authenticate_soap pr xml sv rq now salt of
        Some (nonce, stale) \<Rightarrow> (Challenge nonce stale, [], subs)
      | None \<Rightarrow>
          (case serve ev now rq subs of
             ((None, effs), subs') \<Rightarrow> (Fault, effs, subs')
           | ((Some r, effs), subs') \<Rightarrow> (Reply r, effs, subs')))"

end
