(* ===== verification/Onvif_Server_Proofs.thy ===== *)
theory Onvif_Server_Proofs
  imports Onvif_Server Onvif_Auth_Proofs
begin

text \<open>
  Who can make the camera do what over SOAP: a reboot takes credentials, a challenge can be
  answered by whoever has them; but the test for requests that need no authentication is a
  substring test that other services do not share, and two actions misread their arguments.
\<close>

lemma find_action_first:
  assumes "find_action (xs @ a # ys) action body = Some a" "a \<notin> set xs"
  shows "mentions action body a \<and> (\<forall>x \<in> set xs. \<not> mentions action body x)"
  using assms
proof (induction xs)
  case Nil
  have "mentions action body a"
    using Nil(1) unfolding find_action_def by (metis (no_types, lifting) find_Some_iff)
  then show ?case by simp
qed (auto simp: find_action_def split: if_splits)

lemma contains_trans: "contains s t \<Longrightarrow> contains t p \<Longrightarrow> contains s p"
  by (auto simp: contains_iff) (metis append.assoc)

lemma device_reboot:
  assumes "Reboot \<in> set (snd (device_handle action body))"
  shows "\<not> is_pre_auth action body"
proof -
  have a: "find_action device_actions action body = Some ''SystemReboot''"
    using assms by (auto simp: device_handle_def split: option.splits if_splits)
  have split: "device_actions = butlast device_actions @ ''SystemReboot'' # []"
    by (simp add: device_actions_def)
  have "\<forall>x \<in> set (butlast device_actions). \<not> mentions action body x"
    using find_action_first[of "butlast device_actions" "''SystemReboot''" "[]"] a split
    by (simp add: device_actions_def)
  moreover have "set pre_auth_actions \<subseteq> set (butlast device_actions)"
    by (simp add: pre_auth_actions_def device_actions_def)
  ultimately show ?thesis by (auto simp: is_pre_auth_def list_ex_iff)
qed

lemma serve_reboot:
  assumes "Reboot \<in> set (snd (fst (serve ev now rq subs)))"
  shows "\<not> is_pre_auth (rq_action rq) (rq_body rq)"
proof -
  have "Reboot \<in> set (snd (device_handle (rq_action rq) (rq_body rq)))"
    using assms
    by (auto simp: serve_def Let_def media_handle_def event_handle_def device_io_handle_def
        auxiliary_effects_def relay_effect_def search_handle_def replay_handle_def recording_handle_def
        split: service.splits option.splits if_splits)
  then show ?thesis by (rule device_reboot)
qed

text \<open>
  C12. Rebooting takes credentials: with a user configured, no request reboots the camera unless
  its Digest response, its Basic credentials or its WS-Security token is accepted.
\<close>

theorem reboot_needs_credentials:
  assumes "handle_soap pr xml ev sv rd rq now salt subs = (r, effs, subs')" "Reboot \<in> set effs"
    and "c_user (sv_cred sv) \<noteq> []"
  shows "digest_status pr sv rq now = AuthSuccess \<or> basic_ok sv rq \<or>
    validate_ws_security pr (xml (rq_body rq)) (sv_cred sv)"
proof -
  have s: "Reboot \<in> set (snd (fst (serve ev now rq subs)))" and a: "authenticate_soap pr xml sv rq now salt = None"
    using assms(1,2) by (auto simp: handle_soap_def split: if_splits option.splits prod.splits)
  from serve_reboot[OF s] a assms(3) show ?thesis by (auto simp: authenticate_soap_def split: if_splits)
qed

definition toy_server :: server where
  "toy_server = \<lparr>sv_cred = \<lparr>c_user = ''admin'', c_pass = ''pw''\<rparr>, sv_nonces = toy_manager\<rparr>"

definition toy_request :: "string \<Rightarrow> string \<Rightarrow> http_request" where
  "toy_request svc body = \<lparr>rq_method = ''POST'', rq_path = ''/onvif/'' @ svc, rq_host = ''cam:8000'',
     rq_auth = [], rq_action = [], rq_sub = [], rq_body = body\<rparr>"

definition toy_events :: event_env where
  "toy_events = \<lparr>new_id = ''s1'', arrived = None, motion = False\<rparr>"

theorem reboot_needs_credentials_witness:
  "basic_ok toy_server ((toy_request ''device_service'' ''<SystemReboot/>'')\<lparr>rq_auth := ''Basic YWRtaW46cHc=''\<rparr>)"
proof -
  let ?rq = "(toy_request ''device_service'' ''<SystemReboot/>'')\<lparr>rq_auth := ''Basic YWRtaW46cHc=''\<rparr>"
  let ?out = "handle_soap toy_prims (\<lambda>_. None) toy_events toy_server True ?rq 0 [] Map.empty"
  have eff: "fst (snd ?out) = [Reboot]" by code_simp
  have no: "digest_status toy_prims toy_server ?rq 0 \<noteq> AuthSuccess"
    "\<not> validate_ws_security toy_prims None (sv_cred toy_server)"
    "c_user (sv_cred toy_server) \<noteq> []" by code_simp+
  obtain r subs where "?out = (r, [Reboot], subs)" using eff by (metis prod.collapse)
  from reboot_needs_credentials[OF this _ no(3)] no show ?thesis by auto
qed

subsection \<open>The authentication exemption\<close>

lemma mentions_body: "contains body kw \<Longrightarrow> mentions action body kw"
  by (simp add: mentions_def)

lemma pre_auth_body: "kw \<in> set pre_auth_actions \<Longrightarrow> contains body kw \<Longrightarrow> is_pre_auth action body"
  by (auto simp: is_pre_auth_def list_ex_iff mentions_def)

text \<open>
  The exemption lets anyone sound the siren: whatever credentials are configured and
  whatever the request carries, a body for the device I/O service that mentions, anywhere, one
  of the operations that need no authentication is carried out as the auxiliary command it is.
\<close>

theorem exemption_sounds_siren:
  assumes "rq_path rq = ''/onvif/deviceio_service''" "rq_action rq = []"
    and "kw \<in> set pre_auth_actions" "contains (rq_body rq) kw"
    and "contains (rq_body rq) ''SendAuxiliaryCommand''" "contains (rq_body rq) ''Siren:On''"
    and "\<not> contains (rq_body rq) ''GetRelayOutputs''" "\<not> contains (rq_body rq) ''SetRelayOutputState''"
    and "\<not> contains (rq_body rq) ''ight:''"
  shows "handle_soap pr xml ev sv True rq now salt subs =
    (Reply ''SendAuxiliaryCommandResponse'', [SetSiren True], subs)"
proof -
  let ?b = "rq_body rq"
  have "authenticate_soap pr xml sv rq now salt = None"
    using pre_auth_body[OF assms(3,4)] by (simp add: authenticate_soap_def)
  moreover have svc: "service_of (rq_path rq) ?b = DeviceIOSvc"
    by (simp add: service_of_def assms(1) has_suffix_def)
  moreover have light: "\<not> contains ?b l" if "contains l ''ight:''" for l
    using that assms(9) contains_trans by blast
  have "\<not> contains ?b ''Light:On''" "\<not> contains ?b ''light:on''" "\<not> contains ?b ''Light:Off''"
    "\<not> contains ?b ''light:off''" "\<not> contains ?b ''Light:Auto''" "\<not> contains ?b ''light:auto''"
    by (rule light, code_simp)+
  then have "auxiliary_effects ?b = [SetSiren True]" using assms(6) by (simp add: auxiliary_effects_def)
  moreover have "mentions [] ?b k \<longleftrightarrow> contains ?b k" if "k \<noteq> []" for k
    using that by (auto simp: mentions_def contains_def)
  then have "device_io_handle [] ?b = (Some ''SendAuxiliaryCommandResponse'', auxiliary_effects ?b)"
    using assms(5,7,8) by (simp add: device_io_handle_def find_action_def)
  ultimately show ?thesis using assms(2) by (simp add: handle_soap_def serve_def Let_def)
qed

theorem exemption_sounds_siren_witness:
  "fst (snd (handle_soap toy_prims (\<lambda>_. None) toy_events toy_server True
     (toy_request ''deviceio_service'' ''<!--GetScopes--><SendAuxiliaryCommand>tt:Siren:On'') 0 [] Map.empty)) =
   [SetSiren True]"
proof -
  let ?rq = "toy_request ''deviceio_service'' ''<!--GetScopes--><SendAuxiliaryCommand>tt:Siren:On''"
  have c: "contains (rq_body ?rq) ''GetScopes''" "contains (rq_body ?rq) ''SendAuxiliaryCommand''"
    "contains (rq_body ?rq) ''Siren:On''" "\<not> contains (rq_body ?rq) ''GetRelayOutputs''"
    "\<not> contains (rq_body ?rq) ''SetRelayOutputState''" "\<not> contains (rq_body ?rq) ''ight:''"
    by code_simp+
  have p: "rq_path ?rq = ''/onvif/deviceio_service''" "rq_action ?rq = []" by (simp_all add: toy_request_def)
  have k: "''GetScopes'' \<in> set pre_auth_actions" by (simp add: pre_auth_actions_def)
  from exemption_sounds_siren[OF p k c] show ?thesis by simp
qed

text \<open>
  Releasing the relay switches the lamp on: the logical state \<^verbatim>\<open>inactive\<close> is
  recognised as \<^verbatim>\<open>active\<close>, so a \<^verbatim>\<open>SetRelayOutputState\<close> request turns the lamp
  on for either of the two states that there are.
\<close>

theorem relay_inactive_turns_lamp_on:
  assumes "mentions action body ''SetRelayOutputState''" "\<not> mentions action body ''GetRelayOutputs''"
    and "contains body ''active'' \<or> contains body ''inactive''"
  shows "device_io_handle action body = (Some ''SetRelayOutputStateResponse'', [SetLamp ''on''])"
proof -
  have "contains ''inactive'' ''active''" by code_simp
  then have "contains body ''active''" using assms(3) contains_trans by blast
  then show ?thesis using assms(1,2) by (simp add: device_io_handle_def find_action_def relay_effect_def)
qed

theorem relay_inactive_turns_lamp_on_witness:
  "device_io_handle [] ''<SetRelayOutputState><LogicalState>inactive'' =
   (Some ''SetRelayOutputStateResponse'', [SetLamp ''on''])"
proof -
  have "mentions [] ''<SetRelayOutputState><LogicalState>inactive'' ''SetRelayOutputState''"
    "\<not> mentions [] ''<SetRelayOutputState><LogicalState>inactive'' ''GetRelayOutputs''"
    "contains ''<SetRelayOutputState><LogicalState>inactive'' ''inactive''" by code_simp+
  then show ?thesis using relay_inactive_turns_lamp_on by blast
qed

text \<open>
  The requested resolution is only seen in elements without a namespace prefix: a request
  that writes all of them with one is applied as 1080p whatever it asks for.
\<close>

theorem prefixed_width_ignored:
  assumes "find_action media_actions action body = Some ''SetVideoEncoderConfiguration''"
    and "\<not> contains body ''<Width>''"
  shows "media_handle action body = (Some ''SetVideoEncoderConfigurationResponse'', [ChangeResolution ''1080p''])"
proof -
  have w: "\<not> contains body l" if "contains l ''<Width>''" for l
    using that assms(2) contains_trans by blast
  have "\<not> contains body ''<Width>1280</Width>''" "\<not> contains body ''<Width>720</Width>''"
    "\<not> contains body ''<Width>640</Width>''" "\<not> contains body ''<Width>360</Width>''"
    by (rule w, code_simp)+
  then show ?thesis
    using assms(1) by (simp add: media_handle_def media_response_def encoder_resolution_def)
qed

theorem prefixed_width_ignored_witness:
  "media_handle [] ''<trt:SetVideoEncoderConfiguration><tt:Width>640</tt:Width>'' =
   (Some ''SetVideoEncoderConfigurationResponse'', [ChangeResolution ''1080p''])"
proof -
  let ?b = "''<trt:SetVideoEncoderConfiguration><tt:Width>640</tt:Width>''"
  have "find_action media_actions [] ?b = Some ''SetVideoEncoderConfiguration''"
    "\<not> contains ?b ''<Width>''" by code_simp+
  then show ?thesis by (rule prefixed_width_ignored)
qed

text \<open>
  A rejected client that has the password gets in with its next request: the challenge
  carries a nonce whose Digest answer, for the path it asks for, is accepted until the nonce
  is older than its lifetime; and the stale flag is set exactly when only the age of the old
  nonce was at fault.
\<close>

theorem challenge_can_be_answered:
  assumes "handle_soap pr xml ev sv True rq made salt subs = (Challenge nonce stale, effs, subs')"
    and "prims_ok pr" "length salt = 4" "62135596800 * 1000000000 \<le> made" "made \<le> now"
    and "now - made div 1000000000 * 1000000000 \<le> nm_ttl (sv_nonces sv)" "nm_ttl (sv_nonces sv) < 2 ^ 62"
    and "now < 62135596800 * 1000000000 + 2 ^ 63" "plain_text (c_user (sv_cred sv))"
    and "rq_path rq \<noteq> []" "plain_text (rq_path rq)" "trim_space (rq_path rq) = rq_path rq"
    and "plain_text nc" "plain_text cnonce"
  defines "answer \<equiv> rq\<lparr>rq_auth := ''Digest '' @ fmt_params
      (client_params pr (rq_method rq) (rq_path rq) (sv_cred sv) onvif_realm nonce nc cnonce)\<rparr>"
  shows "effs = [] \<and> subs' = subs \<and> (stale \<longleftrightarrow> digest_status pr sv rq made = AuthStale) \<and>
    (\<forall>salt'. authenticate_soap pr xml sv answer now salt' = None)"
proof -
  have auth: "authenticate_soap pr xml sv rq made salt = Some (nonce, stale)" "effs = []" "subs' = subs"
    using assms(1) by (auto simp: handle_soap_def split: option.splits prod.splits)
  then have n: "nonce = nonce_generate pr (sv_nonces sv) made salt"
    and st: "stale \<longleftrightarrow> digest_status pr sv rq made = AuthStale" and user: "c_user (sv_cred sv) \<noteq> []"
    by (auto simp: authenticate_soap_def split: if_splits)
  have realm: "plain_text onvif_realm" "onvif_realm \<noteq> []"
    by (simp_all add: plain_text_def onvif_realm_def)
  let ?h = "''Digest '' @ fmt_params
      (client_params pr (rq_method rq) (rq_path rq) (sv_cred sv) onvif_realm nonce nc cnonce)"
  have ok: "validate_digest pr (rq_method rq) (rq_path rq) (rq_host rq) ?h (sv_cred sv) onvif_realm
      (Some (sv_nonces sv)) now = (AuthSuccess, NoReason)"
    unfolding n
    by (rule client_accepted) (use assms(2-14) user realm in simp_all)
  have "parse_digest ?h \<noteq> None"
    using ok user by (auto simp: validate_digest_def split: option.splits)
  then have "wants_digest answer" by (auto simp: wants_digest_def answer_def parse_digest_def Let_def split: if_splits)
  then have "digest_status pr sv answer now = AuthSuccess"
    using ok by (simp add: digest_status_def answer_def)
  then show ?thesis using auth(2,3) st by (simp add: authenticate_soap_def)
qed

theorem challenge_can_be_answered_witness:
  "\<exists>nonce stale effs subs'. handle_soap toy_prims (\<lambda>_. None) toy_events toy_server True
     (toy_request ''device_service'' ''<GetUsers/>'') (62135596800 * 1000000000) [9, 9, 9, 9] Map.empty =
     (Challenge nonce stale, effs, subs') \<and> effs = []"
proof -
  let ?rq = "toy_request ''device_service'' ''<GetUsers/>''"
  let ?out = "handle_soap toy_prims (\<lambda>_. None) toy_events toy_server True ?rq (62135596800 * 1000000000) [9, 9, 9, 9] Map.empty"
  have "case fst ?out of Challenge n s \<Rightarrow> True | _ \<Rightarrow> False" by code_simp
  then obtain nonce stale effs subs' where o: "?out = (Challenge nonce stale, effs, subs')"
    by (cases ?out) (auto split: soap_outcome.splits)
  have "trim_space (rq_path ?rq) = rq_path ?rq" by code_simp
  then have "effs = []"
    using challenge_can_be_answered[OF o toy_prims_ok, of "62135596800 * 1000000000" "[]" "[]"]
    by (simp add: toy_server_def toy_manager_def toy_request_def plain_text_def)
  with o show ?thesis by blast
qed
end
