(* ===== verification/Rest_Api.thy ===== *)
theory Rest_Api
  imports Onvif_Server Recording_Sync_Proofs
begin

text \<open>
  The REST interface of \<^verbatim>\<open>pkg/onvif/api.go\<close> on top of the cached recording
  provider: basic authentication, the light, the list of recordings and single recordings with
  their thumbnail and video. A response is its status and what its body is; None is a
  panic of the handler, which the HTTP library turns into a dropped connection.
\<close>

datatype body =
    NoBody
  | Message string
  | Items "recording_item list"
  | Item recording_item
  | PictureFile string
  | Picture bytes
  | VideoFile string
  | VideoStream bytes

record response =
  status :: nat
  content :: body

definition respond :: "nat \<Rightarrow> body \<Rightarrow> response" where
  "respond s b = \<lparr>status = s, content = b\<rparr>"

definition with_basic_auth :: "server \<Rightarrow> string \<Rightarrow> response option \<Rightarrow> response option" where
  "with_basic_auth sv header next =
     (if c_user (sv_cred sv) \<noteq> [] \<and>
         basic_auth header \<noteq> Some (c_user (sv_cred sv), c_pass (sv_cred sv))
      then Some (respond 401 (Message ''Unauthorized'')) else next)"

text \<open>The light: the mode, \<^verbatim>\<open>auto\<close> by default, and the outcome of the camera's setter.\<close>

definition api_light :: "string \<Rightarrow> (string \<Rightarrow> string option) option \<Rightarrow> effect list \<times> response" where
  "api_light mode lamp =
     (let m = (if mode = [] then ''auto'' else mode) in
      case lamp of
        None \<Rightarrow> ([], respond 200 (Message ''ok''))
      | Some f \<Rightarrow> ([SetLamp m], (case f m of Some err \<Rightarrow> respond 500 (Message err)
                                   | None \<Rightarrow> respond 200 (Message ''ok''))))"

subsection \<open>The list of recordings\<close>

text \<open>\<^verbatim>\<open>strconv.Atoi\<close> with its error ignored: 0 for bad syntax, the limit out of range.\<close>

definition atoi :: "string \<Rightarrow> int" where
  "atoi s =
     (let (neg, ds) = (case s of c # r \<Rightarrow> if c = CHR ''-'' then (True, r)
                         else if c = CHR ''+'' then (False, r) else (False, s)
                       | [] \<Rightarrow> (False, []))
      in if ds = [] then 0
         else case digits_value 0 ds of
           None \<Rightarrow> 0
         | Some n \<Rightarrow> (let v = (if neg then - n else n) in
                      if v < - (2 ^ 63) then - (2 ^ 63) else if v \<ge> 2 ^ 63 then 2 ^ 63 - 1 else v))"

text \<open>
  A time is a number of seconds or, if it is none, in the RFC 3339 format, for which \<open>rfc\<close>
  is the library's parser; anything else is no bound.
\<close>

definition query_time :: "(string \<Rightarrow> gtime option) \<Rightarrow> string \<Rightarrow> gtime" where
  "query_time rfc s =
     (if s = [] then 0
      else case parse_int64 s of
        Some ts \<Rightarrow> unix_time ts
      | None \<Rightarrow> (case rfc s of Some t \<Rightarrow> t | None \<Rightarrow> 0))"

record list_query =
  q_start :: string
  q_end :: string
  q_page :: string
  q_limit :: string
  q_type :: string

text \<open>\<open>None\<close> as provider: not configured; \<open>Some None\<close>: the camera is offline.\<close>

definition api_events :: "(string \<Rightarrow> gtime option) \<Rightarrow> provider option option \<Rightarrow> list_query \<Rightarrow> response option" where
  "api_events rfc prov q =
     (case prov of
        None \<Rightarrow> Some (respond 501 (Message ''sdcard recording feature not configured''))
      | Some None \<Rightarrow> Some (respond 503 (Message ''camera offline''))
      | Some (Some p) \<Rightarrow>
          (case list_recordings p (query_time rfc (q_start q)) (query_time rfc (q_end q))
                  (atoi (q_page q)) (atoi (q_limit q)) (q_type q) of
             None \<Rightarrow> None
           | Some (Inl e) \<Rightarrow>
               Some (if e = StorageBusy then respond 429 (Message ''sdcard busy'')
                     else respond 500 (Message ''error''))
           | Some (Inr r) \<Rightarrow> Some (respond 200 (Items (resp_list r)))))"

subsection \<open>A single recording\<close>

definition picture_error :: "storage_error \<Rightarrow> response" where
  "picture_error e =
     (if e = StorageBusy then respond 429 (Message ''SD card busy'')
      else if e = FeatureDisabled then respond 501 (Message ''Thumbnail not supported on this model'')
      else respond 500 (Message ''Failed to load snapshot''))"

definition picture_response :: "delivery \<Rightarrow> response" where
  "picture_response d =
     (case d of
        CachedFile path _ \<Rightarrow> respond 200 (PictureFile path)
      | FromCamera (bs, None) \<Rightarrow>
          (if bs = [] then respond 404 (Message ''Snapshot is empty'') else respond 200 (Picture bs))
      | FromCamera (bs, Some e) \<Rightarrow> picture_error e
      | Refused e \<Rightarrow> picture_error e)"

text \<open>
  A video that is not a cached file is streamed. Bytes that were written make the status 200;
  after an error other than "busy" nothing more is written, and a handler that returns without
  having written anything is answered with 200 and an empty body by the library.
\<close>

definition video_response :: "delivery \<Rightarrow> response" where
  "video_response d =
     (case d of
        CachedFile path _ \<Rightarrow> respond 200 (VideoFile path)
      | FromCamera (bs, e) \<Rightarrow>
          (if bs = [] \<and> e = Some StorageBusy then respond 429 (Message ''SD card busy'')
           else respond 200 (VideoStream bs))
      | Refused e \<Rightarrow>
          (if e = StorageBusy then respond 429 (Message ''SD card busy'') else respond 200 NoBody))"

definition item_parts :: "string \<Rightarrow> string list" where
  "item_parts path =
     split_on (CHR ''/'') (trim_set (\<lambda>c. c = CHR ''/'') (trim_prefix path ''/api/sdcard/events/''))"

definition api_item :: "provider option option \<Rightarrow> string \<Rightarrow> bool \<Rightarrow> bool \<Rightarrow> response" where
  "api_item prov path can_open can_stat =
     (case prov of
        None \<Rightarrow> respond 501 (Message ''sdcard recording feature not configured'')
      | Some None \<Rightarrow> respond 503 (Message ''camera offline'')
      | Some (Some p) \<Rightarrow>
          (case item_parts path of
             [] \<Rightarrow> respond 400 (Message ''Invalid path format'')
           | i # rest \<Rightarrow>
               if i = [] then respond 400 (Message ''Invalid path format'')
               else if bad_id i then respond 400 (Message ''Invalid recording ID'')
               else case rest of
                 [] \<Rightarrow>
                   (case get_recording p i of
                      Inl e \<Rightarrow> if e = StorageNotFound then respond 404 (Message ''404 page not found'')
                               else respond 500 (Message ''error'')
                    | Inr it \<Rightarrow> respond 200 (Item it))
               | act # _ \<Rightarrow>
                   if act \<in> {''snapshot.jpg'', ''thumbnail.jpg'', ''snapshot''}
                     then picture_response (stream_thumbnail p i can_open)
                   else if act \<in> {''video.mp4'', ''download.mp4'', ''video'', ''stream.mp4''}
                     then (case get_cached_video_path p i of
                             Some f \<Rightarrow> if contains f ''..'' then respond 400 (Message ''Invalid file path'')
                                       else respond 200 (VideoFile f)
                           | None \<Rightarrow> video_response (stream_video p i True can_open can_stat))
                   else respond 404 (Message ''404 page not found'')))"

subsection \<open>Properties\<close>

lemma item_parts_no_slash: "i \<in> set (item_parts path) \<Longrightarrow> CHR ''/'' \<notin> set i"
  by (simp add: item_parts_def split_on_no_sep)

definition a_file :: "string \<Rightarrow> response \<Rightarrow> bool" where
  "a_file f r \<longleftrightarrow> content r = VideoFile f \<or> content r = PictureFile f"

lemma picture_file: "a_file f (picture_response d) \<Longrightarrow> \<exists>info. d = CachedFile f info"
  by (auto simp: a_file_def picture_response_def picture_error_def respond_def
      split: delivery.splits option.splits prod.splits if_splits)

lemma video_file: "a_file f (video_response d) \<Longrightarrow> \<exists>info. d = CachedFile f info"
  by (auto simp: a_file_def video_response_def respond_def split: delivery.splits prod.splits if_splits)

lemma message_no_file [simp]: "\<not> a_file f (respond s (Message m))" "\<not> a_file f (respond s (Item it))"
    "a_file f (respond s (VideoFile g)) \<longleftrightarrow> f = g"
  by (auto simp: a_file_def respond_def)

lemma api_item_file:
  assumes "a_file f (api_item (Some (Some p)) path op st)"
  shows "\<exists>i rest. item_parts path = i # rest \<and> \<not> bad_id i \<and> served p i f"
proof -
  obtain i rest where i: "item_parts path = i # rest" "i \<noteq> []" "\<not> bad_id i"
    using assms by (auto simp: api_item_def split: list.splits if_splits)
  then obtain act more where r: "rest = act # more"
    using assms by (cases rest) (auto simp: api_item_def split: sum.splits if_splits)
  consider "a_file f (picture_response (stream_thumbnail p i op))"
    | "get_cached_video_path p i = Some f"
    | "a_file f (video_response (stream_video p i True op st))"
    using assms i r by (auto simp: api_item_def split: if_splits option.splits)
  then have "served p i f"
    by cases (auto dest!: picture_file video_file simp: served_video served_thumbnail served_path)
  with i show ?thesis by blast
qed

text \<open>
  C17. Whatever path is requested, a file that is served is the video or the thumbnail of a
  recording in the cache's index, under the very identifier in the path.
\<close>

theorem rest_serves_indexed_files:
  assumes "a_file f (api_item (Some (Some p)) path op st)"
  shows "\<exists>i rest c. item_parts path = i # rest \<and> CHR ''/'' \<notin> set f \<and> \<not> contains i ''..'' \<and>
    p_cache p = Some c \<and> items c i \<noteq> None \<and> f \<in> {i @ ''.mp4'', i @ ''.jpg''}"
proof -
  obtain i rest where i: "item_parts path = i # rest" "\<not> bad_id i" "served p i f"
    using api_item_file[OF assms] by blast
  then have "CHR ''/'' \<notin> set i" using item_parts_no_slash[of i path] by simp
  with i show ?thesis by (auto simp: served_def bad_id_def)
qed

definition ex_path :: string where
  "ex_path = ''/api/sdcard/events/9/video.mp4''"

definition cached_nine :: provider where
  "cached_nine = new_provider (Some ((new_cache 2 [(''9.mp4'', \<lparr>f_size = 10, f_kind = Plain\<rparr>)])
     \<lparr>items := [''9'' \<mapsto> zero_item], sorted_ids := [''9'']\<rparr>)) None"

theorem rest_serves_indexed_files_witness:
  "content (api_item (Some (Some cached_nine)) ex_path True True) = VideoFile ''9.mp4'' \<and>
   CHR ''/'' \<notin> set ''9.mp4''"
proof -
  have r: "content (api_item (Some (Some cached_nine)) ex_path True True) = VideoFile ''9.mp4''" by code_simp
  then have "a_file ''9.mp4'' (api_item (Some (Some cached_nine)) ex_path True True)" by (simp add: a_file_def)
  from rest_serves_indexed_files[OF this] r show ?thesis by blast
qed

text \<open>
  A page number from the URL can take the list handler down: with a cache that answers the
  query, page 2^62 with limit 2 makes it panic instead of giving an empty list.
\<close>

theorem rest_page_overflow_panics:
  assumes "p_cache p = Some c" "p_upstream p = None" "0 < cache_count c"
    and "q_page q = ''4611686018427387904''" "q_limit q = ''2''"
  shows "api_events rfc (Some (Some p)) q = None"
proof -
  have n: "atoi ''4611686018427387904'' = 2 ^ 62" "atoi ''2'' = 2" by code_simp+
  have w: "wrap64 (2 ^ 62 * 2) = - (2 ^ 63)" "wrap64 (- (2 ^ 63) + 2) = - (2 ^ 63) + 2"
    by (simp_all add: wrap64_def)
  then have "cache_list c a b (2 ^ 62) 2 = None" for a b by (simp add: cache_list_def list_page_def Let_def)
  then show ?thesis using assms n by (simp add: api_events_def list_recordings_def Let_def)
qed

theorem rest_page_overflow_panics_witness:
  "api_events (\<lambda>_. None) (Some (Some cached_nine))
     \<lparr>q_start = [], q_end = [], q_page = ''4611686018427387904'', q_limit = ''2'', q_type = []\<rparr> = None"
proof (rule rest_page_overflow_panics)
  show "p_cache cached_nine = Some (the (p_cache cached_nine))"
    by (simp add: cached_nine_def new_provider_def)
  show "0 < cache_count (the (p_cache cached_nine))" by code_simp
qed (simp_all add: cached_nine_def new_provider_def)

text \<open>
  A video that exists nowhere is answered with status 200 and an empty body: with the camera
  offline and the recording not in the cache, the stream's error is only logged.
\<close>

theorem missing_video_is_empty_ok:
  assumes "p_upstream p = None" "get_cached_video_path p i = None"
    and "\<And>c. p_cache p = Some c \<Longrightarrow> get_video c i = None" "item_parts path = [i, ''video.mp4'']" "i \<noteq> []" "\<not> bad_id i"
  shows "api_item (Some (Some p)) path op st = respond 200 NoBody"
  using assms by (simp add: api_item_def stream_video_def video_response_def Let_def split: option.split)

theorem missing_video_is_empty_ok_witness:
  "api_item (Some (Some cached_nine)) ''/api/sdcard/events/7/video.mp4'' True True = respond 200 NoBody"
proof -
  have "get_cached_video_path cached_nine ''7'' = None" "\<not> bad_id ''7''"
    "item_parts ''/api/sdcard/events/7/video.mp4'' = [''7'', ''video.mp4'']" by code_simp+
  then show ?thesis
    by (intro missing_video_is_empty_ok)
      (auto simp: cached_nine_def new_provider_def get_cached_video_path_def)
qed

end
