(* ===== verification/Mcu_Protocol_Proofs.thy ===== *)
theory Mcu_Protocol_Proofs
  imports Mcu_Protocol
begin

text \<open>
  The textual parser of microcontroller frames against a reader of the bytes, the frames that
  the command builders make, and what a setting of the L 620 reads back as.
\<close>

subsection \<open>Hexadecimal text\<close>

lemma hex_of_bytes_Nil [simp]: "hex_of_bytes [] = []"
  by (simp add: hex_of_bytes_def)

lemma hex_of_bytes_Cons:
  "hex_of_bytes (b # bs) = hex_char (unat b div 16) # hex_char (unat b mod 16) # hex_of_bytes bs"
  by (simp add: hex_of_bytes_def)

lemma length_hex_of_bytes [simp]: "length (hex_of_bytes bs) = 2 * length bs"
  by (induction bs) (simp_all add: hex_of_bytes_Cons)

lemma take_hex_of_bytes: "take (2 * n) (hex_of_bytes bs) = hex_of_bytes (take n bs)"
proof (induction bs arbitrary: n)
  case (Cons b bs)
  then show ?case by (cases n) (simp_all add: hex_of_bytes_Cons)
qed simp

lemma drop_hex_of_bytes: "drop (2 * n) (hex_of_bytes bs) = hex_of_bytes (drop n bs)"
proof (induction bs arbitrary: n)
  case (Cons b bs)
  then show ?case by (cases n) (simp_all add: hex_of_bytes_Cons)
qed simp

lemma hex_of_bytes_eq [simp]: "hex_of_bytes xs = hex_of_bytes ys \<longleftrightarrow> xs = ys"
  using hex_decode_bytes by (metis option.inject)

lemma hex_prefix: "has_prefix (hex_of_bytes bs) (hex_of_bytes ps) \<longleftrightarrow> has_prefix bs ps"
  by (simp add: has_prefix_def take_hex_of_bytes)

lemma byte_nibbles: "unat (b :: byte) div 16 < 16" "unat b mod 16 < 16"
  using unsigned_less[where 'a = nat, of b] by auto

lemma hex_char_inj: "m < 16 \<Longrightarrow> n < 16 \<Longrightarrow> hex_char m = hex_char n \<longleftrightarrow> m = n"
  using hex_value_char by (metis option.inject)

lemma hex_digits_bytes: "hex_digits acc (hex_of_bytes bs) = Some (foldl (\<lambda>n b. n * 256 + unat b) acc bs)"
proof (induction bs arbitrary: acc)
  case (Cons b bs)
  have "(acc * 16 + unat b div 16) * 16 + unat b mod 16 = acc * 256 + unat b"
    using div_mult_mod_eq[of "unat b" 16] by (simp add: algebra_simps)
  then show ?case
    using Cons by (simp add: hex_of_bytes_Cons hex_value_char byte_nibbles add.commute mult.commute)
qed simp

lemma parse_hex_nonneg:
  assumes "s \<noteq> []" "\<forall>c \<in> set s. \<exists>k < 16. c = hex_char k" "hex_digits 0 s = Some n" "n < 2 ^ 63"
  shows "parse_hex_int s = int n"
proof -
  obtain c r where s: "s = c # r" using assms(1) by (cases s) auto
  then have c: "c \<noteq> CHR ''-''" "c \<noteq> CHR ''+''"
    using assms(2) hex_char_no_dash hex_char_no_plus by auto
  have "int n < 2 ^ 63" using assms(4) by (simp add: numeral_power_eq_of_nat_cancel_iff of_nat_less_numeral_power_cancel_iff)
  then show ?thesis using assms(3) c s by (simp add: parse_hex_int_def parse_hex64_def)
qed

lemma hex_bytes_digits_all: "\<forall>c \<in> set (hex_of_bytes bs). \<exists>k < 16. c = hex_char k"
  using hex_bytes_digits by blast

lemma parse_hex_byte: "parse_hex_int (hex_of_bytes [b]) = int (unat b)"
proof (rule parse_hex_nonneg[OF _ hex_bytes_digits_all hex_digits_bytes[of 0 "[b]", simplified]])
  show "hex_of_bytes [b] \<noteq> []" by (simp add: hex_of_bytes_Cons)
  show "unat b < 2 ^ 63" using unsigned_less[where 'a = nat, of b] by simp
qed

lemma parse_hex_two: "parse_hex_int (hex_of_bytes [a, b]) = 256 * int (unat a) + int (unat b)"
proof -
  have "parse_hex_int (hex_of_bytes [a, b]) = int (unat a * 256 + unat b)"
  proof (rule parse_hex_nonneg[OF _ hex_bytes_digits_all hex_digits_bytes[of 0 "[a, b]", simplified]])
    show "hex_of_bytes [a, b] \<noteq> []" by (simp add: hex_of_bytes_Cons)
    show "unat a * 256 + unat b < 2 ^ 63"
      using unsigned_less[where 'a = nat, of a] unsigned_less[where 'a = nat, of b] by simp
  qed
  then show ?thesis by simp
qed

lemma parse_hex_nibble: "n < 16 \<Longrightarrow> parse_hex_int [hex_char n] = int n"
  by (rule parse_hex_nonneg) (auto simp: hex_value_char)

subsection \<open>Frames as bytes\<close>

text \<open>What a frame says, read from its bytes without going through text.\<close>

definition frame_config :: "bytes \<Rightarrow> mcu_config" where
  "frame_config b =
     \<lparr>h_version = hex_of_bytes [b ! 3], s_version = hex_of_bytes [b ! 4], mode = int (unat (b ! 5)),
      lux_value = 256 * int (unat (b ! 6)) + int (unat (b ! 7)),
      pir_on = (unat (b ! 8) div 16 = 1), motion_detected = bit (b ! 8) 0, photo_detection = bit (b ! 8) 1,
      pir_sens = int (unat (b ! 9)), color_temperature = int (unat (b ! 10)),
      high_light = int (unat (b ! 11)), high_light_time = 256 * int (unat (b ! 12)) + int (unat (b ! 13)),
      low_light = int (unat (b ! 14)), low_light_time = 256 * int (unat (b ! 15)) + int (unat (b ! 16))\<rparr>"

lemma to_lower_trim_hex: "to_lower (trim_space (hex_of_bytes bs)) = hex_of_bytes bs"
proof -
  have "\<not> is_space (hex_char n)" if "n < 16" for n
    using that by (auto simp: is_space_def hex_char_def)
  then have "\<forall>c \<in> set (hex_of_bytes bs). \<not> is_space c" using hex_bytes_digits by blast
  then show ?thesis by (simp add: trim_space_def trim_set_none hex_bytes_lower)
qed

lemma nibble_bits:
  fixes b :: byte
  shows "(int (unat b mod 16) AND 1 \<noteq> 0) = bit b 0" "(int (unat b mod 16) AND 2 \<noteq> 0) = bit b 1"
proof -
  have m: "int (unat b mod 16) = take_bit 4 (uint b)"
    by (simp add: take_bit_eq_mod zmod_int)
  have "(x AND 2 \<noteq> 0) = bit x 1" for x :: int
    using and_exp_eq_0_iff_not_bit[of x 1] by simp
  then show "(int (unat b mod 16) AND 2 \<noteq> 0) = bit b 1"
    unfolding m by (simp add: bit_simps bit_uint_iff)
  have "(x AND 1 \<noteq> 0) = bit x 0" for x :: int by (simp add: and_one_eq bit_0 odd_iff_mod_2_eq_one)
  then show "(int (unat b mod 16) AND 1 \<noteq> 0) = bit b 0"
    unfolding m by (simp add: bit_simps bit_uint_iff)
qed

lemma slice_hex: "slice (2 * i) (2 * j) (hex_of_bytes bs) = hex_of_bytes (slice i j bs)"
proof -
  have "2 * j - 2 * i = 2 * (j - i)" by simp
  then show ?thesis unfolding slice_def drop_hex_of_bytes by (simp only: take_hex_of_bytes)
qed

lemma slice_nibbles:
  assumes "drop i bs = b # r"
  shows "slice (2 * i) (Suc (2 * i)) (hex_of_bytes bs) = [hex_char (unat b div 16)]"
    "slice (Suc (2 * i)) (Suc (Suc (2 * i))) (hex_of_bytes bs) = [hex_char (unat b mod 16)]"
proof -
  have d: "drop (2 * i) (hex_of_bytes bs) = hex_char (unat b div 16) # hex_char (unat b mod 16) # hex_of_bytes r"
    unfolding drop_hex_of_bytes assms hex_of_bytes_Cons ..
  have "drop (Suc (2 * i)) (hex_of_bytes bs) = tl (drop (2 * i) (hex_of_bytes bs))" by (simp add: drop_Suc tl_drop)
  then show "slice (2 * i) (Suc (2 * i)) (hex_of_bytes bs) = [hex_char (unat b div 16)]"
    "slice (Suc (2 * i)) (Suc (Suc (2 * i))) (hex_of_bytes bs) = [hex_char (unat b mod 16)]"
    by (simp_all add: slice_def d)
qed

lemma parse_frame_bytes:
  "parse_frame (hex_of_bytes [0x5a, 0x0f, 0x0f, a, b, c, d, e, f, g, h, i, j, k, l, m, n, p]) =
   FrameConfig (frame_config [0x5a, 0x0f, 0x0f, a, b, c, d, e, f, g, h, i, j, k, l, m, n, p])"
proof -
  let ?bs = "[0x5a, 0x0f, 0x0f, a, b, c, d, e, f, g, h, i, j, k, l, m, n, p]"
  let ?bb = "[a, b, c, d, e, f, g, h, i, j, k, l, m, n]"
  have one: "[hex_char (unat f div 16)] = ''1'' \<longleftrightarrow> unat f div 16 = 1"
  proof -
    have "hex_char 1 = CHR ''1''" by code_simp
    then show ?thesis using hex_char_inj[of "unat f div 16" 1] byte_nibbles(1)[of f] by auto
  qed
  have pre: "hex_of_bytes [0x5a, 0x0f, 0x0f] = ''5a0f0f''" by code_simp
  have hp: "has_prefix (hex_of_bytes ?bs) ''5a0f0f''"
    unfolding pre[symmetric] hex_prefix by (simp add: has_prefix_def)
  have body: "slice 6 34 (hex_of_bytes ?bs) = hex_of_bytes ?bb"
    using slice_hex[of 3 17 ?bs] by (simp add: slice_def)
  have fields: "slice 0 2 (hex_of_bytes ?bb) = hex_of_bytes [a]" "slice 2 4 (hex_of_bytes ?bb) = hex_of_bytes [b]"
    "slice 4 6 (hex_of_bytes ?bb) = hex_of_bytes [c]" "slice 6 10 (hex_of_bytes ?bb) = hex_of_bytes [d, e]"
    "slice 12 14 (hex_of_bytes ?bb) = hex_of_bytes [g]" "slice 14 16 (hex_of_bytes ?bb) = hex_of_bytes [h]"
    "slice 16 18 (hex_of_bytes ?bb) = hex_of_bytes [i]" "slice 18 22 (hex_of_bytes ?bb) = hex_of_bytes [j, k]"
    "slice 22 24 (hex_of_bytes ?bb) = hex_of_bytes [l]" "slice 24 28 (hex_of_bytes ?bb) = hex_of_bytes [m, n]"
    using slice_hex[of 0 1 ?bb] slice_hex[of 1 2 ?bb] slice_hex[of 2 3 ?bb] slice_hex[of 3 5 ?bb]
      slice_hex[of 6 7 ?bb] slice_hex[of 7 8 ?bb] slice_hex[of 8 9 ?bb] slice_hex[of 9 11 ?bb]
      slice_hex[of 11 12 ?bb] slice_hex[of 12 14 ?bb]
    by (simp_all add: slice_def)
  have nib: "slice 10 11 (hex_of_bytes ?bb) = [hex_char (unat f div 16)]"
    "slice 11 12 (hex_of_bytes ?bb) = [hex_char (unat f mod 16)]"
    using slice_nibbles[of 5 ?bb f] by simp_all
  have len: "length (hex_of_bytes ?bs) = 36" unfolding length_hex_of_bytes by simp
  note nibble = parse_hex_nibble[OF byte_nibbles(2)]
  show ?thesis
    unfolding parse_frame_def to_lower_trim_hex Let_def body fields nib nibble one nibble_bits
      parse_hex_byte parse_hex_two
    using hp len by (simp add: frame_config_def)
qed

definition read_frame :: "bytes \<Rightarrow> frame_result" where
  "read_frame bs =
     (if length bs = 18 \<and> take 3 bs = [0x5a, 0x0f, 0x0f] then FrameConfig (frame_config bs)
      else if bs \<noteq> [] \<and> hd bs = 0x5a \<and> length bs < 18 then FrameAck else FrameInvalid)"

lemma eighteen_bytes:
  assumes "length bs = 18" "take 3 bs = [x, y, z]"
  obtains a b c d e f g h i j k l m n p where "bs = [x, y, z, a, b, c, d, e, f, g, h, i, j, k, l, m, n, p]"
proof -
  have "drop 3 bs = map (\<lambda>i. drop 3 bs ! i) [0..<15]"
    using assms(1) by (intro nth_equalityI) simp_all
  then have "bs = [x, y, z] @ map (\<lambda>i. drop 3 bs ! i) [0..<15]" using assms(2) by (metis append_take_drop_id)
  then show ?thesis using that by (simp add: upt_rec)
qed

text \<open>
  C19. The detour of the frame parser through base64 and hexadecimal text is faithful: for
  every byte string it does what a reader of the bytes does. Frames of 18 bytes behind
  \<^verbatim>\<open>5A 0F 0F\<close> give the configuration with big-endian numbers, shorter ones behind
  \<^verbatim>\<open>5A\<close> are acknowledgements, and everything else is an error; the checksum in the
  last byte is not looked at.
\<close>

theorem mcu_frame_read_equivalence:
  "parse_base64_data (b64_encode bs) = read_frame bs"
proof (cases "length bs = 18 \<and> take 3 bs = [0x5a, 0x0f, 0x0f]")
  case True
  then show ?thesis
    by (auto elim!: eighteen_bytes simp: parse_base64_data_def b64_decode_encode parse_frame_bytes read_frame_def)
next
  case False
  have pre: "''5a0f0f'' = hex_of_bytes [0x5a, 0x0f, 0x0f]" "''5a'' = hex_of_bytes [0x5a]" by code_simp+
  have len: "length (hex_of_bytes bs) = 2 * length bs" by simp
  have "has_prefix (hex_of_bytes bs) ''5a0f0f'' \<longleftrightarrow> take 3 bs = [0x5a, 0x0f, 0x0f]"
    "has_prefix (hex_of_bytes bs) ''5a'' \<longleftrightarrow> bs \<noteq> [] \<and> hd bs = 0x5a"
    unfolding pre hex_prefix by (simp add: has_prefix_def eval_nat_numeral, cases bs) (simp_all add: has_prefix_def)
  then show ?thesis
    using False by (auto simp: parse_base64_data_def b64_decode_encode parse_frame_def to_lower_trim_hex
        read_frame_def Let_def)
qed

subsection \<open>Command frames\<close>

text \<open>A number in a fixed count of hexadecimal digits.\<close>

fun hex_fixed :: "nat \<Rightarrow> nat \<Rightarrow> string" where
  "hex_fixed 0 n = []"
| "hex_fixed (Suc w) n = hex_fixed w (n div 16) @ [upper_char (hex_char (n mod 16))]"

lemma hex_fixed_0: "hex_fixed w 0 = replicate w (CHR ''0'')"
proof (induction w)
  case (Suc w)
  have "upper_char (hex_char 0) = CHR ''0''" by code_simp
  then show ?case using Suc by (simp add: replicate_append_same)
qed simp

lemma hex_padded_fixed:
  "0 < w \<Longrightarrow> n < 16 ^ w \<Longrightarrow>
   replicate (w - length (hex_of_nat n)) (CHR ''0'') @ to_upper (hex_of_nat n) = hex_fixed w n \<and>
   length (hex_of_nat n) \<le> w"
proof (induction w arbitrary: n)
  case (Suc w)
  show ?case
  proof (cases "n < 16")
    case True
    then show ?thesis by (subst (1 2 3) hex_of_nat.simps) (simp add: to_upper_def hex_fixed_0)
  next
    case False
    with Suc.prems have "0 < w" "n div 16 < 16 ^ w" by (cases w; simp)+
    from Suc.IH[OF this] False show ?thesis
      by (subst (1 2 3) hex_of_nat.simps) (auto simp: to_upper_def)
  qed
qed simp

lemma hex_padded_nat: "0 < w \<Longrightarrow> n < 16 ^ w \<Longrightarrow> hex_padded w (int n) = hex_fixed w n"
  using hex_padded_fixed[of w n] by (simp add: hex_padded_def Let_def to_upper_def)

lemma hex_value_upper: "n < 16 \<Longrightarrow> hex_value (upper_char (hex_char n)) = Some n"
  by (auto simp: hex_value_def hex_char_def upper_char_def Let_def)

lemma hex_decode_fixed2: "n < 256 \<Longrightarrow> hex_decode (hex_fixed 2 n) = Some [word_of_nat n]"
  by (simp add: numeral_2_eq_2 hex_value_upper)

lemma hex_decode_fixed4:
  "n < 65536 \<Longrightarrow> hex_decode (hex_fixed 4 n) = Some [word_of_nat (n div 256), word_of_nat (n mod 256)]"
proof -
  assume n: "n < 65536"
  define a where "a = n div 256"
  have a: "a < 256" using n by (simp add: a_def)
  have d: "n div 16 div 16 = a" "n div 16 div 16 div 16 = a div 16"
    by (simp_all add: a_def div_mult2_eq[symmetric])
  have "a div 16 mod 16 = a div 16" using a by (intro mod_less) simp
  then have hi: "a div 16 mod 16 * 16 + a mod 16 = a" by (simp only: div_mult_mod_eq)
  have "n mod (16 * 16) = 16 * (n div 16 mod 16) + n mod 16" by (rule mod_mult2_eq)
  moreover have "(16 * 16 :: nat) = 256" by simp
  ultimately have lo: "n div 16 mod 16 * 16 + n mod 16 = n mod 256" by (metis mult.commute)
  let ?c = "\<lambda>k. upper_char (hex_char (k mod 16))"
  have "(4 :: nat) = Suc (Suc (Suc (Suc 0)))" by simp
  then have "hex_fixed 4 n = [?c (a div 16), ?c a, ?c (n div 16), ?c n]" by (simp only: hex_fixed.simps d append.simps)
  moreover have "k mod 16 < 16" for k :: nat by simp
  ultimately have "hex_decode (hex_fixed 4 n) = Some [word_of_nat (a div 16 mod 16 * 16 + a mod 16),
      word_of_nat (n div 16 mod 16 * 16 + n mod 16)]"
    by (simp only: hex_decode.simps hex_value_upper option.case prod.case)
  then show ?thesis unfolding hi lo unfolding a_def .
qed

lemma be16_of_nat: "n < 65536 \<Longrightarrow> be16 (word_of_nat n) = [word_of_nat (n div 256), word_of_nat (n mod 256)]"
proof -
  assume "n < 65536"
  then have u: "unat (word_of_nat n :: u16) = n" by (rule unat_of_nat_small16)
  have c: "ucast w = (word_of_nat (unat w) :: byte)" for w :: u16 by simp
  have "unat (drop_bit 8 (word_of_nat n :: u16)) = n div 256"
    using u by (simp add: drop_bit_eq_div unat_div)
  then have "ucast (drop_bit 8 (word_of_nat n :: u16)) = (word_of_nat (n div 256) :: byte)" using c by metis
  moreover have "ucast (word_of_nat n :: u16) = (word_of_nat (n mod 256) :: byte)"
    using c[of "word_of_nat n"] u by (simp add: word_of_nat_eq_iff take_bit_eq_mod)
  ultimately show ?thesis by (simp add: be16_def)
qed

lemma hex_decode_append:
  "hex_decode xs = Some bs \<Longrightarrow> hex_decode (xs @ ys) = map_option ((@) bs) (hex_decode ys)"
proof (induction xs arbitrary: bs rule: hex_decode.induct)
  case (3 c d s)
  then show ?case by (auto split: option.splits simp: option.map_comp o_def)
next
  case 1
  then show ?case by (cases "hex_decode ys") auto
qed simp

definition command_frame :: "bytes \<Rightarrow> bytes" where
  "command_frame ps = ps @ [checksum ps]"

text \<open>What the microcontroller receives: the decoded base64 text, if a command was built.\<close>

definition received :: "string option \<Rightarrow> bytes option" where
  "received r = (case r of None \<Rightarrow> None | Some s \<Rightarrow> b64_decode s)"

lemma build_command_received:
  "hex_decode h = Some ps \<Longrightarrow> received (build_command h) = Some (command_frame ps)"
  by (simp add: received_def build_command_def b64_decode_encode command_frame_def)

lemma clamp_range: "lo \<le> hi \<Longrightarrow> lo \<le> clamp lo hi v \<and> clamp lo hi v \<le> hi"
  by (simp add: clamp_def)

lemma received_byte:
  assumes "hex_decode h = Some [x, y, z]" "0 \<le> v" "v < 256"
  shows "received (build_command (h @ hex_padded 2 v)) = Some (command_frame [x, y, z, word_of_int v])"
proof -
  have "hex_padded 2 v = hex_fixed 2 (nat v)" using assms hex_padded_nat[of 2 "nat v"] by simp
  moreover have "hex_decode (hex_fixed 2 (nat v)) = Some [word_of_int v]"
    using assms hex_decode_fixed2[of "nat v"] by (simp add: word_of_nat_eq_iff)
  ultimately show ?thesis
    using assms(1) by (intro build_command_received) (simp add: hex_decode_append)
qed

lemma received_word:
  assumes "hex_decode h = Some ps" "0 \<le> v" "v < 65536"
  shows "received (build_command (h @ hex_padded 4 v)) = Some (command_frame (ps @ be16 (word_of_int v)))"
proof -
  have "hex_padded 4 v = hex_fixed 4 (nat v)" using assms hex_padded_nat[of 4 "nat v"] by simp
  moreover have "hex_decode (hex_fixed 4 (nat v)) = Some (be16 (word_of_int v))"
    using assms hex_decode_fixed4[of "nat v"] be16_of_nat[of "nat v"] by simp
  ultimately show ?thesis
    using assms(1) by (intro build_command_received) (simp add: hex_decode_append)
qed

lemma command_heads:
  "hex_decode ''5A0201'' = Some [0x5a, 2, 1]" "hex_decode ''5A0207'' = Some [0x5a, 2, 7]"
  "hex_decode ''5A0308'' = Some [0x5a, 3, 8]" "hex_decode ''5A020A'' = Some [0x5a, 2, 10]"
  "hex_decode ''5A030B'' = Some [0x5a, 3, 11]" "hex_decode ''5A0206'' = Some [0x5a, 2, 6]"
  "hex_decode ''5A0304'' = Some [0x5a, 3, 4]"
  by code_simp+

lemma mcu_command_frames:
  "received (build_set_highlight p) = Some (command_frame [0x5a, 2, 7, word_of_int (clamp 0 100 p)])"
  "received (build_set_pir_sensitivity p) = Some (command_frame [0x5a, 2, 6, word_of_int (clamp 0 100 p)])"
  "received (build_set_lux_threshold l) = Some (command_frame ([0x5a, 3, 4] @ be16 (word_of_int (clamp 2 10000 l))))"
  "received (build_set_highlight_time s) = Some (command_frame ([0x5a, 3, 8] @ be16 (word_of_int (clamp 5 900 s))))"
  "received (build_set_lowlight p) = Some (command_frame [0x5a, 2, 10, word_of_int (clamp 0 50 p)])"
proof -
  show "received (build_set_highlight p) = Some (command_frame [0x5a, 2, 7, word_of_int (clamp 0 100 p)])"
    "received (build_set_pir_sensitivity p) = Some (command_frame [0x5a, 2, 6, word_of_int (clamp 0 100 p)])"
    unfolding build_set_highlight_def build_set_pir_sensitivity_def
    by (rule received_byte[OF command_heads(2)] received_byte[OF command_heads(6)]; use clamp_range[of 0 100 p] in simp)+
  show "received (build_set_lowlight p) = Some (command_frame [0x5a, 2, 10, word_of_int (clamp 0 50 p)])"
    unfolding build_set_lowlight_def
    by (rule received_byte[OF command_heads(4)]; use clamp_range[of 0 50 p] in simp)
  show "received (build_set_highlight_time s) = Some (command_frame ([0x5a, 3, 8] @ be16 (word_of_int (clamp 5 900 s))))"
    "received (build_set_lux_threshold l) = Some (command_frame ([0x5a, 3, 4] @ be16 (word_of_int (clamp 2 10000 l))))"
    unfolding build_set_highlight_time_def build_set_lux_threshold_def
    by (rule received_word[OF command_heads(3)] received_word[OF command_heads(7)];
        use clamp_range[of 5 900 s] clamp_range[of 2 10000 l] in simp)+
qed

lemma mcu_mode_frame:
  "received (build_set_mode m) =
     (if 0 \<le> m \<and> m \<le> 2 then Some (command_frame [0x5a, 2, 1, word_of_int m]) else None)"
  using received_byte[OF command_heads(1), of m] by (auto simp: build_set_mode_def received_def)

text \<open>
  Every command that a setter builds is a frame the microcontroller accepts: the start byte,
  the length of what follows, the register, the value clamped to the range of the register (a
  byte, or two bytes big-endian) and the sum of all as checksum; a mode outside 0 to 2 and a
  negative time give no command at all.
\<close>

theorem mcu_commands_well_formed:
  "received (build_set_mode m) =
     (if 0 \<le> m \<and> m \<le> 2 then Some (command_frame [0x5a, 2, 1, word_of_int m]) else None) \<and>
   received (build_set_highlight p) = Some (command_frame [0x5a, 2, 7, word_of_int (clamp 0 100 p)]) \<and>
   received (build_set_highlight_time s) = Some (command_frame ([0x5a, 3, 8] @ be16 (word_of_int (clamp 5 900 s)))) \<and>
   received (build_set_lowlight p) = Some (command_frame [0x5a, 2, 10, word_of_int (clamp 0 50 p)]) \<and>
   received (build_set_lowlight_time (int t mod 65536)) = Some (command_frame ([0x5a, 3, 11] @ be16 (word_of_nat t))) \<and>
   build_set_lowlight_time (- 1 - int t) = None \<and>
   received (build_set_pir_sensitivity p) = Some (command_frame [0x5a, 2, 6, word_of_int (clamp 0 100 p)]) \<and>
   received (build_set_lux_threshold l) = Some (command_frame ([0x5a, 3, 4] @ be16 (word_of_int (clamp 2 10000 l))))"
proof (intro conjI)
  have "hex_value (CHR ''-'') = None" by code_simp
  then have "hex_decode (CHR ''-'' # r) = None" for r by (cases r) simp_all
  then have "hex_decode (''5A030B'' @ CHR ''-'' # r) = None" for r
    using hex_decode_append[OF command_heads(5), of "CHR ''-'' # r"] by (simp only: option.map)
  moreover have "\<exists>r. hex_padded 4 (- 1 - int t) = CHR ''-'' # r" by (simp add: hex_padded_def Let_def)
  ultimately show "build_set_lowlight_time (- 1 - int t) = None"
    unfolding build_set_lowlight_time_def build_command_def by (metis option.map(1))
  have "word_of_int (int t mod 65536) = (word_of_nat t :: u16)"
  proof -
    have "take_bit LENGTH(16) (int t mod 65536) = take_bit LENGTH(16) (int t)" by (simp add: take_bit_eq_mod)
    then have "(word_of_int (int t mod 65536) :: u16) = word_of_int (int t)" by (rule word_of_int_eq_iff[THEN iffD2])
    then show ?thesis by simp
  qed
  moreover have "received (build_set_lowlight_time (int t mod 65536)) =
      Some (command_frame ([0x5a, 3, 11] @ be16 (word_of_int (int t mod 65536))))"
    unfolding build_set_lowlight_time_def by (rule received_word[OF command_heads(5)]) simp_all
  ultimately show "received (build_set_lowlight_time (int t mod 65536)) =
      Some (command_frame ([0x5a, 3, 11] @ be16 (word_of_nat t)))" by (simp only:)
qed (rule mcu_mode_frame mcu_command_frames)+

subsection \<open>Settings of the L 620\<close>

lemma conversion_char: "0 \<le> v \<Longrightarrow> v \<le> 25 \<Longrightarrow> conversion (char_conversion v) = v"
proof -
  assume v: "0 \<le> v" "v \<le> 25"
  have "list_all (\<lambda>i. conversion (char_conversion (int i)) = int i) [0..<26]" by code_simp
  then have "\<forall>i < 26. conversion (char_conversion (int i)) = int i"
    by (simp add: list_all_iff del: upt_rec_numeral)
  from this[rule_format, of "nat v"] v show ?thesis by simp
qed

lemma conversion_char_clamp: "conversion (char_conversion v) = clamp 0 25 v"
proof -
  have "clamp 0 25 (clamp 0 25 v) = clamp 0 25 v" by (simp add: clamp_def)
  then have "char_conversion v = char_conversion (clamp 0 25 v)" by (simp add: char_conversion_def)
  then show ?thesis using conversion_char clamp_range[of 0 25 v] by simp
qed

lemma conversion_range: "0 \<le> conversion c \<and> conversion c \<le> 25"
  by (simp add: conversion_def Let_def)

lemma nearest_invariant:
  assumes "best < length pre" "d = \<bar>pre ! best - lux\<bar>" "\<forall>v \<in> set pre. d \<le> \<bar>v - lux\<bar>"
  shows "nearest lux vs (length pre) best d < length (pre @ vs) \<and>
    (\<forall>v \<in> set (pre @ vs). \<bar>(pre @ vs) ! nearest lux vs (length pre) best d - lux\<bar> \<le> \<bar>v - lux\<bar>)"
  using assms
proof (induction vs arbitrary: pre best d)
  case (Cons x vs)
  show ?case
  proof (cases "\<bar>x - lux\<bar> < d")
    case True
    have "\<forall>v \<in> set (pre @ [x]). \<bar>x - lux\<bar> \<le> \<bar>v - lux\<bar>" using True Cons.prems(3) by fastforce
    from Cons.IH[of "length pre" "pre @ [x]" "\<bar>x - lux\<bar>"] this True show ?thesis by simp
  next
    case False
    then have "\<forall>v \<in> set (pre @ [x]). d \<le> \<bar>v - lux\<bar>" using Cons.prems(3) by fastforce
    from Cons.IH[of best "pre @ [x]" d] this False Cons.prems(1,2) show ?thesis by (simp add: nth_append)
  qed
qed (simp add: nth_append)

lemma nearest_first:
  assumes "\<bar>x - lux\<bar> < 999999"
  shows "nearest lux (x # vs) 0 0 999999 < length (x # vs) \<and>
    (\<forall>v \<in> set (x # vs). \<bar>(x # vs) ! nearest lux (x # vs) 0 0 999999 - lux\<bar> \<le> \<bar>v - lux\<bar>)"
  using nearest_invariant[of 0 "[x]" "\<bar>x - lux\<bar>" lux vs] assms by simp

text \<open>The value that the camera reads back from a command's letter.\<close>

definition letter :: "string \<Rightarrow> char" where "letter cmd = cmd ! 2"

lemma letter_command [simp]: "letter (xm_command k v) = char_conversion v"
  by (simp add: letter_def xm_command_def)

text \<open>
  The loop of \<^verbatim>\<open>BuildSetLuxCommand\<close> is the search for the nearest entry: for every
  threshold up to a million, the letter it sends stands, on the camera's inverted scale, for the
  table entry with the least distance to what was asked for.
\<close>

theorem lux_command_nearest:
  assumes "- 900000 \<le> lux" "lux \<le> 1000000"
  defines "l \<equiv> map_lux_value (conversion (letter (build_set_lux lux)))"
  shows "l \<in> set lux_table \<and> (\<forall>v \<in> set lux_table. \<bar>l - lux\<bar> \<le> \<bar>v - lux\<bar>)"
proof -
  let ?n = "nearest lux lux_table 0 0 999999"
  have t: "lux_table = 2 # tl lux_table" "length lux_table = 26" by (simp_all add: lux_table_def)
  have near: "?n < 26" "\<forall>v \<in> set lux_table. \<bar>lux_table ! ?n - lux\<bar> \<le> \<bar>v - lux\<bar>"
    using nearest_first[of 2 lux "tl lux_table"] assms(1,2) t by simp_all
  have "l = lux_table ! ?n"
    using near(1) by (simp add: l_def build_set_lux_def conversion_char map_lux_value_def clamp_def)
  then show ?thesis using near t(2) by simp
qed

text \<open>A threshold beyond the limit of the loop selects the darkest entry, two lux.\<close>

lemma lux_command_overflow: "map_lux_value (conversion (letter (build_set_lux 1002000))) = 2"
  by code_simp

text \<open>The string of a camera's state with given letters for the nine settings.\<close>

definition state_string :: "char list \<Rightarrow> string" where
  "state_string ls = ''B'' @ ls @ ''U''"

lemma trim_state: "trim_space (state_string ls) = state_string ls"
  unfolding trim_space_def by (rule trim_set_ends) (simp_all add: state_string_def is_space_def)

lemma lowlight_letter:
  assumes "0 < low" "low < 2 ^ 58"
  defines "g \<equiv> clamp 0 19 (go_div ((low - 10) * 19) 30)"
  shows "conversion (letter (build_xm_lowlight low)) = g + 6" "lowlight_of (g + 6) = g * 30 div 19 + 10"
proof -
  have w: "wrap64 ((low - 10) * 19) = (low - 10) * 19" using assms(1,2) by (intro wrap64_id) auto
  have g: "0 \<le> g" "g \<le> 19" unfolding g_def clamp_def by auto
  have "build_xm_lowlight low = xm_command (CHR ''L'') (g + 6)"
    using assms(1) unfolding build_xm_lowlight_def w g_def by simp
  then show "conversion (letter (build_xm_lowlight low)) = g + 6" using g by (simp add: conversion_char)
  have "g * 30 div 19 \<le> 30" using g by auto
  then show "lowlight_of (g + 6) = g * 30 div 19 + 10"
    using g by (simp add: lowlight_of_def Let_def)
qed

lemma lowlight_read_back:
  assumes "\<bar>low\<bar> < 2 ^ 58"
  defines "r \<equiv> lowlight_of (conversion (letter (build_xm_lowlight low)))"
  shows "if low \<le> 0 then r = 0 else if low < 10 then r = 10 else if low > 40 then r = 40
     else low - 2 \<le> r \<and> r \<le> low"
proof (cases "low \<le> 0")
  case True
  then show ?thesis by (simp add: r_def build_xm_lowlight_def letter_def lowlight_of_def conversion_def)
next
  case False
  let ?g = "clamp 0 19 (go_div ((low - 10) * 19) 30)"
  have r: "r = ?g * 30 div 19 + 10" using lowlight_letter[of low] assms(1) False by (simp add: r_def)
  show ?thesis
  proof (cases "low < 10")
    case True
    then have "go_div ((low - 10) * 19) 30 \<le> 0" by (simp add: go_div_def sgn_if)
    then have "?g = 0" by (simp add: clamp_def)
    then show ?thesis using r False True by simp
  next
    case ge: False
    then have d: "go_div ((low - 10) * 19) 30 = (low - 10) * 19 div 30" by simp
    show ?thesis
    proof (cases "low > 40")
      case True
      then have "?g = 19" unfolding d clamp_def by auto
      then show ?thesis using r ge True by simp
    next
      case le: False
      then have "?g = (low - 10) * 19 div 30" unfolding d clamp_def using ge by auto
      moreover have "list_all (\<lambda>k. int k + 8 \<le> (int k * 19 div 30) * 30 div 19 + 10 \<and>
          (int k * 19 div 30) * 30 div 19 + 10 \<le> int k + 10) [0..<31]" by code_simp
      then have "\<forall>k < 31. int k + 8 \<le> (int k * 19 div 30) * 30 div 19 + 10 \<and>
          (int k * 19 div 30) * 30 div 19 + 10 \<le> int k + 10"
        by (simp add: list_all_iff del: upt_rec_numeral)
      from this[rule_format, of "nat (low - 10)"] ge le
      have "low - 2 \<le> ((low - 10) * 19 div 30) * 30 div 19 + 10 \<and>
          ((low - 10) * 19 div 30) * 30 div 19 + 10 \<le> low" by simp
      ultimately show ?thesis using r False ge le by simp
    qed
  qed
qed

lemma parse_mcu_fields:
  assumes "parse_mcu_string st = Some cfg"
    and "\<not> (\<not> has_prefix st ''B'' \<or> \<not> has_suffix st ''U'' \<or> length st < 11)" "trim_space st = st"
  shows "distance cfg = distance_of (conversion (st ! 1))"
    "highlight_delay cfg = (if conversion (st ! 2) * 60 \<le> 0 then 60 else conversion (st ! 2) * 60)"
    "xm_mode cfg = conversion (st ! 4)" "xm_lowlight cfg = lowlight_of (conversion (st ! 6))"
    "xm_highlight cfg = highlight_of (conversion (st ! 7))"
  using assms by (auto simp: parse_mcu_string_def Let_def)

text \<open>
  What a setting reads back as: in a state string that holds the letters of the commands,
  the parser finds the distance class that was set, the delay in whole minutes from 1 to 25, the
  mode 3 of a lamp that was switched on and the mode 1 otherwise, the base brightness
  within two percent below what was asked for (10 to 40), and the main brightness rounded down to a
  multiple of four, but at least 30 and at most 100 percent.
\<close>

theorem settings_read_back:
  assumes "0 \<le> secs" "0 \<le> perc" "length xs = 2" "\<bar>low\<bar> < 2 ^ 58"
  shows "\<exists>cfg. parse_mcu_string (state_string
      ([letter (build_xm_distance d), letter (build_xm_highlight_delay secs), letter (build_set_lux lux),
        letter (build_xm_light_mode on), ind, letter (build_xm_lowlight low),
        letter (build_xm_highlight perc)] @ xs)) = Some cfg \<and>
    distance cfg = (if d \<ge> 8 then 10 else if d \<ge> 5 then 6 else 3) \<and>
    highlight_delay cfg = 60 * max 1 (min 25 (secs div 60)) \<and>
    is_light_on (Some cfg) = on \<and>
    (if low \<le> 0 then xm_lowlight cfg = 0
     else if low < 10 then xm_lowlight cfg = 10
     else if low > 40 then xm_lowlight cfg = 40
     else low - 2 \<le> xm_lowlight cfg \<and> xm_lowlight cfg \<le> low) \<and>
    xm_highlight cfg = (if perc < 32 then 30 else min 100 (4 * (perc div 4)))"
proof -
  let ?ls = "[letter (build_xm_distance d), letter (build_xm_highlight_delay secs), letter (build_set_lux lux),
        letter (build_xm_light_mode on), ind, letter (build_xm_lowlight low),
        letter (build_xm_highlight perc)] @ xs"
  obtain a b where xs: "xs = [a, b]" using assms(3) by (auto simp: length_Suc_conv numeral_2_eq_2)
  have prefix: "has_prefix (state_string ?ls) ''B''" "has_suffix (state_string ?ls) ''U''" "\<not> length (state_string ?ls) < 11"
    by (simp_all add: state_string_def has_prefix_def has_suffix_def xs)
  have nths: "state_string ?ls ! 1 = letter (build_xm_distance d)"
    "state_string ?ls ! 2 = letter (build_xm_highlight_delay secs)"
    "state_string ?ls ! 4 = letter (build_xm_light_mode on)"
    "state_string ?ls ! 6 = letter (build_xm_lowlight low)" "state_string ?ls ! 7 = letter (build_xm_highlight perc)"
    by (simp_all add: state_string_def)
  have dist: "distance_of (conversion (letter (build_xm_distance d))) = (if d \<ge> 8 then 10 else if d \<ge> 5 then 6 else 3)"
    by (simp add: build_xm_distance_def conversion_char distance_of_def)
  have mode: "(conversion (letter (build_xm_light_mode on)) = 3) = on"
    by (simp add: build_xm_light_mode_def letter_def conversion_def)
  have delay: "(if conversion (letter (build_xm_highlight_delay secs)) * 60 \<le> 0 then 60
      else conversion (letter (build_xm_highlight_delay secs)) * 60) = 60 * max 1 (min 25 (secs div 60))"
  proof -
    let ?m = "if secs div 60 < 1 then 1 else secs div 60"
    have "conversion (letter (build_xm_highlight_delay secs)) = min 25 ?m"
      using assms(1) by (simp add: build_xm_highlight_delay_def conversion_char_clamp clamp_def)
    then show ?thesis by auto
  qed
  have high: "highlight_of (conversion (letter (build_xm_highlight perc))) =
      (if perc < 32 then 30 else min 100 (4 * (perc div 4)))"
  proof -
    have "clamp 7 25 (perc div 4) = (if perc < 32 then 7 else min 25 (perc div 4))" by (auto simp: clamp_def)
    moreover have "7 \<le> clamp 7 25 (perc div 4)" "clamp 7 25 (perc div 4) \<le> 25" by (simp_all add: clamp_def)
    ultimately show ?thesis
      using assms(2) by (auto simp: build_xm_highlight_def conversion_char highlight_of_def min_def)
  qed
  obtain st where st: "st = state_string ?ls" by simp
  have "parse_mcu_string st \<noteq> None"
    using prefix unfolding parse_mcu_string_def st trim_state by (simp only: Let_def simp_thms if_False option.distinct)
  then obtain cfg where cfg: "parse_mcu_string st = Some cfg" by blast
  have "\<not> (\<not> has_prefix st ''B'' \<or> \<not> has_suffix st ''U'' \<or> length st < 11)" "trim_space st = st"
    using prefix trim_state unfolding st by blast+
  note f = parse_mcu_fields[OF cfg this, unfolded st nths]
  have "is_light_on (Some cfg) = on" unfolding is_light_on_def option.case f(3) by (rule mode)
  then show ?thesis
    using cfg f(1,2,4,5) lowlight_read_back[OF assms(4)] dist delay high unfolding st
    by (intro exI[of _ cfg] conjI) (simp_all only:)
qed

theorem lux_command_nearest_witness:
  "map_lux_value (conversion (letter (build_set_lux 33))) \<in> set lux_table"
  using lux_command_nearest[of 33] by simp

theorem settings_read_back_witness:
  "\<exists>cfg. parse_mcu_string (state_string
      ([letter (build_xm_distance 6), letter (build_xm_highlight_delay 200), letter (build_set_lux 40),
        letter (build_xm_light_mode True), CHR ''z'', letter (build_xm_lowlight 23),
        letter (build_xm_highlight 55)] @ ''ab'')) = Some cfg \<and> distance cfg = 6 \<and> xm_highlight cfg = 52"
  using settings_read_back[of 200 55 "''ab''" 23 6 40 True "CHR ''z''"] by auto

end
