(* ===== verification/Home_Control_Proofs.thy ===== *)
theory Home_Control_Proofs
  imports Camera_Drivers Mcu_Protocol_Proofs Xiongmai_Proofs Sdcard_Transfer_Proofs
begin

text \<open>
  Properties of the way from a Home Assistant entity to the microcontroller and back, of the
  motion flag and of the two supervisors.
\<close>

subsection \<open>Topics\<close>

lemma suffix_append:
  "has_suffix (b @ t) s =
     (if length s \<le> length t then has_suffix t s
      else has_suffix s t \<and> has_suffix b (take (length s - length t) s))"
proof (cases "length s \<le> length t")
  case True
  then show ?thesis by (auto simp: has_suffix_def)
next
  case False
  show ?thesis
  proof
    assume "has_suffix (b @ t) s"
    then obtain u where u: "b @ t = u @ s" unfolding has_suffix_iff by blast
    then obtain v where v: "s = v @ t" "b = u @ v"
      using False by (auto simp: append_eq_append_conv2)
    then show "if length s \<le> length t then has_suffix t s
      else has_suffix s t \<and> has_suffix b (take (length s - length t) s)"
      using False by (auto simp: has_suffix_iff)
  next
    assume "if length s \<le> length t then has_suffix t s
      else has_suffix s t \<and> has_suffix b (take (length s - length t) s)"
    then obtain v u where "s = v @ t" "b = u @ take (length s - length t) s"
      using False by (auto simp: has_suffix_iff)
    then show "has_suffix (b @ t) s" by (auto simp: has_suffix_iff)
  qed
qed

text \<open>The endings that the command handler tells apart: none is the end of another.\<close>

definition endings :: "string list" where
  "endings = [''/highlight/set'', ''/light/brightness/set'', ''/light/set'', ''/mode/set'', ''/pir_sensitivity/set'',
     ''/lux_threshold/set'', ''/lux/set'', ''/duration/set'', ''/lowlight/set'', ''/siren/set'', ''/resolution/set'']"

lemma endings_mem:
  "''/highlight/set'' \<in> set endings" "''/light/brightness/set'' \<in> set endings" "''/light/set'' \<in> set endings"
  "''/mode/set'' \<in> set endings" "''/pir_sensitivity/set'' \<in> set endings" "''/lux_threshold/set'' \<in> set endings"
  "''/lux/set'' \<in> set endings" "''/duration/set'' \<in> set endings" "''/lowlight/set'' \<in> set endings"
  "''/siren/set'' \<in> set endings" "''/resolution/set'' \<in> set endings"
  unfolding endings_def by (simp_all only: list.set insert_iff simp_thms)

lemma ends_iff: "t \<in> set endings \<Longrightarrow> s \<in> set endings \<Longrightarrow> has_suffix (b @ t) s \<longleftrightarrow> s = t"
proof -
  assume m: "t \<in> set endings" "s \<in> set endings"
  have "list_all (\<lambda>t. list_all (\<lambda>s. s = t \<or> \<not> has_suffix t s \<and> \<not> has_suffix s t) endings) endings" by code_simp
  then have "s = t \<or> \<not> has_suffix t s \<and> \<not> has_suffix s t" using m by (simp add: list_all_iff)
  moreover have "has_suffix (b @ t) t" by (auto simp: has_suffix_iff)
  ultimately show ?thesis by (auto simp: suffix_append)
qed

lemmas topic_simps = ends_iff[OF endings_mem(1) _] ends_iff[OF endings_mem(4) _] ends_iff[OF endings_mem(5) _]
  ends_iff[OF endings_mem(6) _] ends_iff[OF endings_mem(8) _] ends_iff[OF endings_mem(9) _] ends_iff[OF endings_mem(11) _]

text \<open>Which branch of the command handler an advertised topic takes.\<close>

lemma command_topics:
  "fst (handle_command rd live base (b @ ''/highlight/set'') p) = number_command (trim_space p) SetHighlight"
  "fst (handle_command rd live base (b @ ''/mode/set'') p) = mode_command (trim_space p)"
  "fst (handle_command rd live base (b @ ''/pir_sensitivity/set'') p) = number_command (trim_space p) SetPirSensitivity"
  "fst (handle_command rd live base (b @ ''/lux_threshold/set'') p) = number_command (trim_space p) SetLuxThreshold"
  "fst (handle_command rd live base (b @ ''/duration/set'') p) = number_command (trim_space p) SetHighlightTime"
  "fst (handle_command rd live base (b @ ''/lowlight/set'') p) = number_command (trim_space p) SetLowlight"
  unfolding handle_command_def Let_def
  by (simp_all only: topic_simps endings_mem) simp_all

lemma dec_of_nat_digits: "c \<in> set (dec_of_nat n) \<Longrightarrow> \<exists>k < 10. c = char_of (48 + k :: nat)"
proof (induction n rule: dec_of_nat.induct)
  case (1 n)
  then show ?case by (subst (asm) (2) dec_of_nat.simps) (auto split: if_splits intro: exI[of _ "n mod 10"] exI[of _ n])
qed

lemma trim_dec_of_int: "trim_space (dec_of_int i) = dec_of_int i"
proof -
  have "\<not> is_space (char_of (48 + k :: nat))" if "k < 10" for k using that by (auto simp: is_space_def)
  moreover have "\<not> is_space (CHR ''-'')" by code_simp
  ultimately show ?thesis
    unfolding trim_space_def by (intro trim_set_none) (auto simp: dec_of_int_def dest!: dec_of_nat_digits)
qed

lemma number_command_dec:
  "- (2 ^ 63) \<le> v \<Longrightarrow> v < 2 ^ 63 \<Longrightarrow> number_command (trim_space (dec_of_int v)) f = [f v]"
  by (simp add: number_command_def trim_dec_of_int parse_dec_of_int)

subsection \<open>Numbers reach the lamp\<close>

text \<open>The frame, without its checksum, that stands for a value of an advertised number.\<close>

definition number_frame :: "string \<Rightarrow> int \<Rightarrow> bytes" where
  "number_frame obj v =
     (if obj = ''highlight'' then [0x5a, 2, 7, word_of_int v]
      else if obj = ''pir_sensitivity'' then [0x5a, 2, 6, word_of_int v]
      else if obj = ''lux_threshold'' then [0x5a, 3, 4] @ be16 (word_of_int v)
      else if obj = ''duration'' then [0x5a, 3, 8] @ be16 (word_of_int v)
      else [0x5a, 2, 10, word_of_int v])"

lemma clamp_within: "lo \<le> v \<Longrightarrow> v \<le> hi \<Longrightarrow> clamp lo hi v = v"
  by (simp add: clamp_def)

lemma received_Some: "received r = Some f \<longleftrightarrow> (\<exists>s. r = Some s \<and> b64_decode s = Some f)"
  by (cases r) (simp_all add: received_def)

lemma mcu_send_open: "received r = Some f \<Longrightarrow> \<exists>s. mcu_send ChannelOpen r = Inr (Some (TranCtl s)) \<and> b64_decode s = Some f"
  by (auto simp: received_Some mcu_send_def dc_send_def)

lemma callback_reaches_mcu:
  assumes "received r = Some f" "l625_apply ChannelOpen cb = mcu_send ChannelOpen r"
  shows "\<exists>cb1 s. [cb] = [cb1] \<and> manager_apply (Some (l625_apply ChannelOpen)) cb1 = Inr (Some (TranCtl s)) \<and>
    b64_decode s = Some f"
proof -
  obtain s where "mcu_send ChannelOpen r = Inr (Some (TranCtl s))" "b64_decode s = Some f"
    using mcu_send_open[OF assms(1)] by blast
  then show ?thesis using assms(2) by (intro exI[of _ cb] exI[of _ s]) (simp add: manager_apply_def)
qed

definition number_entities :: "(string \<times> string \<times> int \<times> int) list" where
  "number_entities = [(''highlight'', ''/highlight/set'', 10, 100), (''pir_sensitivity'', ''/pir_sensitivity/set'', 0, 100),
    (''lux_threshold'', ''/lux_threshold/set'', 2, 2000), (''duration'', ''/duration/set'', 5, 900),
    (''lowlight'', ''/lowlight/set'', 0, 50)]"

lemma number_entity:
  assumes "e \<in> set entities" "en_values e = NumberRange lo hi"
  shows "(en_object e, en_command e, lo, hi) \<in> set number_entities"
proof -
  have "list_all (\<lambda>e. case en_values e of
      NumberRange lo hi \<Rightarrow> (en_object e, en_command e, lo, hi) \<in> set number_entities | _ \<Rightarrow> True) entities" by code_simp
  then show ?thesis using assms by (auto simp: list_all_iff)
qed

text \<open>
  C18. What Home Assistant may send arrives: for every number the bridge advertises and every value in
  the advertised range, the command on the advertised topic becomes one callback, and through manager and
  driver one frame for the microcontroller of the L 625 that carries the value unchanged.
\<close>

theorem advertised_numbers_reach_mcu:
  assumes "e \<in> set entities" "en_values e = NumberRange lo hi" "lo \<le> v" "v \<le> hi"
  shows "\<exists>cb s. fst (handle_command rd live base (base @ en_command e) (dec_of_int v)) = [cb] \<and>
    manager_apply (Some (l625_apply ChannelOpen)) cb = Inr (Some (TranCtl s)) \<and>
    b64_decode s = Some (command_frame (number_frame (en_object e) v))"
proof -
  note ok = mcu_command_frames
  have "(en_object e, en_command e, lo, hi) \<in> set number_entities" by (rule number_entity[OF assms(1,2)])
  then consider
      "en_object e = ''highlight''" "en_command e = ''/highlight/set''" "lo = 10" "hi = 100"
    | "en_object e = ''pir_sensitivity''" "en_command e = ''/pir_sensitivity/set''" "lo = 0" "hi = 100"
    | "en_object e = ''lux_threshold''" "en_command e = ''/lux_threshold/set''" "lo = 2" "hi = 2000"
    | "en_object e = ''duration''" "en_command e = ''/duration/set''" "lo = 5" "hi = 900"
    | "en_object e = ''lowlight''" "en_command e = ''/lowlight/set''" "lo = 0" "hi = 50"
    unfolding number_entities_def list.set insert_iff prod.inject by blast
  note c = this
  have "- (2 ^ 63) \<le> v" "v < 2 ^ 63" using c assms(3,4) by (cases; simp)+
  note num = number_command_dec[OF this]
  from c show ?thesis
  proof cases
    case 1
    then have "received (build_set_highlight v) = Some (command_frame (number_frame (en_object e) v))"
      using ok(1)[of v] assms(3,4) by (simp add: number_frame_def clamp_within)
    then show ?thesis unfolding 1(2) command_topics num
      by (rule callback_reaches_mcu) (simp add: l625_apply_def)
  next
    case 2
    then have "received (build_set_pir_sensitivity v) = Some (command_frame (number_frame (en_object e) v))"
      using ok(2)[of v] assms(3,4) by (simp add: number_frame_def clamp_within)
    then show ?thesis unfolding 2(2) command_topics num
      by (rule callback_reaches_mcu) (simp add: l625_apply_def)
  next
    case 3
    then have "received (build_set_lux_threshold v) = Some (command_frame (number_frame (en_object e) v))"
      using ok(3)[of v] assms(3,4) by (simp add: number_frame_def clamp_within)
    then show ?thesis unfolding 3(2) command_topics num
      by (rule callback_reaches_mcu) (simp add: l625_apply_def)
  next
    case 4
    then have "received (build_set_highlight_time v) = Some (command_frame (number_frame (en_object e) v))"
      using ok(4)[of v] assms(3,4) by (simp add: number_frame_def clamp_within)
    then show ?thesis unfolding 4(2) command_topics num
      by (rule callback_reaches_mcu) (simp add: l625_apply_def)
  next
    case 5
    then have "received (build_set_lowlight v) = Some (command_frame (number_frame (en_object e) v))"
      using ok(5)[of v] assms(3,4) by (simp add: number_frame_def clamp_within)
    then show ?thesis unfolding 5(2) command_topics num
      by (rule callback_reaches_mcu) (simp add: l625_apply_def)
  qed
qed

theorem advertised_numbers_reach_mcu_witness:
  "\<exists>cb s. fst (handle_command (\<lambda>_. None) True ''steinel/cam'' (''steinel/cam'' @ ''/duration/set'') (dec_of_int 300)) = [cb] \<and>
    manager_apply (Some (l625_apply ChannelOpen)) cb = Inr (Some (TranCtl s)) \<and>
    b64_decode s = Some (command_frame (number_frame ''duration'' 300))"
proof -
  let ?e = "entities ! 5"
  have "?e \<in> set entities" by (rule nth_mem) (simp add: entities_def)
  moreover have e: "en_values ?e = NumberRange 5 900" "en_command ?e = ''/duration/set''" "en_object ?e = ''duration''"
    by (simp_all add: entities_def)
  ultimately show ?thesis
    using advertised_numbers_reach_mcu[of ?e 5 900 300 "\<lambda>_. None" True "''steinel/cam''"] unfolding e by simp
qed

subsection \<open>The mode, out and back\<close>

definition mode_text :: "int \<Rightarrow> string" where
  "mode_text m = (if m = 1 then ''Dauerlicht'' else if m = 2 then ''Sensor'' else ''Aus'')"

lemma published_mode: "(base @ ''/mode/state'', mode_text (lamp_mode st)) \<in> set (publish_status base st)"
  by (simp add: publish_status_def mode_text_def)

lemma lamp_words:
  "mode_command (trim_space (mode_text 0)) = [SetLampMode ''off'']" "bridge_lamp ''off'' = build_set_mode 0"
  "mode_command (trim_space (mode_text 1)) = [SetLampMode ''on'']" "bridge_lamp ''on'' = build_set_mode 1"
  "mode_command (trim_space (mode_text 2)) = [SetLampMode ''auto'']" "bridge_lamp ''auto'' = build_set_mode 2"
  by code_simp+

text \<open>
  The operating mode makes the round trip: the mode the camera reports becomes the state the bridge
  publishes, and the text of that state, sent back as a command, makes the frame that sets the same
  mode; so a dashboard that restores what it last saw changes nothing.
\<close>

theorem mode_state_roundtrip:
  assumes "mode cfg \<in> {0, 1, 2}"
  shows "\<exists>txt cb s. (base @ ''/mode/state'', txt) \<in> set (publish_status base (on_mcu_status res cfg st)) \<and>
    fst (handle_command rd live base (base @ ''/mode/set'') txt) = [cb] \<and>
    manager_apply (Some (l625_apply ChannelOpen)) cb = Inr (Some (TranCtl s)) \<and>
    b64_decode s = Some (command_frame [0x5a, 2, 1, word_of_int (mode cfg)])"
proof -
  let ?m = "mode cfg"
  have pub: "(base @ ''/mode/state'', mode_text ?m) \<in> set (publish_status base (on_mcu_status res cfg st))"
    using published_mode[of base "on_mcu_status res cfg st"] by (simp add: on_mcu_status_def)
  have frame: "received (build_set_mode ?m) = Some (command_frame [0x5a, 2, 1, word_of_int ?m])"
    using assms mcu_mode_frame[of ?m] by auto
  have "\<exists>cb. mode_command (trim_space (mode_text ?m)) = [cb] \<and> l625_apply ChannelOpen cb = mcu_send ChannelOpen (build_set_mode ?m)"
    using assms lamp_words by (auto simp: l625_apply_def)
  then obtain cb where cb: "mode_command (trim_space (mode_text ?m)) = [cb]"
    "l625_apply ChannelOpen cb = mcu_send ChannelOpen (build_set_mode ?m)" by blast
  from callback_reaches_mcu[OF frame cb(2)] pub show ?thesis
    by (intro exI[of _ "mode_text ?m"]) (simp only: command_topics cb(1) simp_thms)
qed

text \<open>On the L 620 a lamp that was switched off is published as on: off is its sensor mode.\<close>

theorem l620_off_is_published_as_on:
  assumes "l620_apply pr (SetLampMode ''off'') (c, st) = (None, c1, st1)"
  shows "(base @ ''/light/state'', ''ON'') \<in> set (publish_status base st1)"
proof -
  have "\<not> lamp_on_word ''off''" by code_simp
  then have "lamp_mode st1 = 2" using assms by (auto simp: l620_apply_def split: prod.splits option.splits)
  then show ?thesis by (simp add: publish_status_def on_off_def)
qed

subsection \<open>Which commands arrive\<close>

lemma delivers_base: "c \<noteq> [] \<Longrightarrow> CHR ''/'' \<notin> set c \<Longrightarrow> delivers b (b @ ''/'' @ c @ ''/set'')"
  by (auto simp: delivers_def has_prefix_def has_suffix_iff)

text \<open>
  What the bridge advertises on connecting it also listens to: the broker delivers a command
  on the command topic of every advertised entity.
\<close>

theorem advertised_commands_delivered:
  assumes "e \<in> set entities" "en_command e \<noteq> []"
  shows "gets_command (on_connect m) (mq_base m @ en_command e)"
proof -
  have "list_all (\<lambda>e. en_command e = [] \<or> (let c = take (length (en_command e) - 5) (tl (en_command e)) in
      en_command e = ''/'' @ c @ ''/set'' \<and> c \<noteq> [] \<and> CHR ''/'' \<notin> set c)) entities" by code_simp
  then obtain c where "en_command e = ''/'' @ c @ ''/set''" "c \<noteq> []" "CHR ''/'' \<notin> set c"
    using assms by (auto simp: list_all_iff Let_def)
  then show ?thesis using delivers_base[of c "mq_base m"] by (simp add: gets_command_def on_connect_def)
qed

text \<open>
  When the device id is only learnt while connected, the advertised topics move to the new base, but
  the subscriptions do not: no command arrives any more until the next reconnect.
\<close>

lemma delivered_below_base: "delivers b t \<Longrightarrow> has_prefix t (b @ ''/'')"
  by (auto simp: delivers_def has_prefix_iff)

lemma prefix_of_appended:
  assumes "has_prefix (b1 @ y) (b0 @ ''/'')" "length b0 \<le> length b1" "b0 \<noteq> b1"
  shows "has_prefix b1 (b0 @ ''/'')"
  using assms by (auto simp: has_prefix_iff append_eq_append_conv2 append_eq_Cons_conv)

theorem discovered_device_gets_no_commands:
  assumes "dev \<noteq> []" "mq_device m \<noteq> dev"
    and "mq_base m \<noteq> base_prefix (mq_prefix m) @ ''/'' @ dev"
    and "\<not> has_prefix (base_prefix (mq_prefix m) @ ''/'' @ dev) (mq_base m @ ''/'')"
    and "length (mq_base m) \<le> length (base_prefix (mq_prefix m) @ ''/'' @ dev)"
  shows "\<not> gets_command (update_device_info dev (on_connect m))
             (mq_base (update_device_info dev (on_connect m)) @ command)"
proof -
  let ?b = "base_prefix (mq_prefix m) @ ''/'' @ dev"
  have "\<not> delivers (mq_base m) (?b @ command)"
    using assms prefix_of_appended[of ?b command "mq_base m"] delivered_below_base by blast
  then show ?thesis using assms(1,2) by (simp add: gets_command_def on_connect_def update_device_info_def)
qed

subsection \<open>Examples\<close>

definition lamp_in_sensor_mode :: mcu_config where
  "lamp_in_sensor_mode = \<lparr>h_version = ''01'', s_version = ''02'', mode = 2, lux_value = 10, pir_on = True,
     motion_detected = False, photo_detection = False, pir_sens = 100, color_temperature = 0, high_light = 50,
     high_light_time = 60, low_light = 0, low_light_time = 0\<rparr>"

theorem mode_state_roundtrip_witness:
  "\<forall>st. \<exists>txt cb s. (''steinel/cam'' @ ''/mode/state'', txt) \<in>
      set (publish_status ''steinel/cam'' (on_mcu_status ''720p'' lamp_in_sensor_mode st)) \<and>
    fst (handle_command (\<lambda>_. None) True ''steinel/cam'' (''steinel/cam'' @ ''/mode/set'') txt) = [cb] \<and>
    manager_apply (Some (l625_apply ChannelOpen)) cb = Inr (Some (TranCtl s)) \<and>
    b64_decode s = Some (command_frame [0x5a, 2, 1, 2])" (is "\<forall>st. ?P st")
proof
  fix st
  have m: "mode lamp_in_sensor_mode = 2" by (simp add: lamp_in_sensor_mode_def)
  then have "mode lamp_in_sensor_mode \<in> {0, 1, 2}" by simp
  moreover have "(word_of_int (mode lamp_in_sensor_mode) :: byte) = 2" by (simp add: m)
  ultimately show "?P st"
    using mode_state_roundtrip[of lamp_in_sensor_mode "''steinel/cam''" "''720p''" st "\<lambda>_. None" True] by simp
qed

theorem advertised_commands_delivered_witness:
  "gets_command (on_connect (new_mqtt ''home'' ''dev'')) (mq_base (new_mqtt ''home'' ''dev'') @ ''/mode/set'')"
proof -
  have "entities ! 1 \<in> set entities" by (rule nth_mem) (simp add: entities_def)
  moreover have "en_command (entities ! 1) = ''/mode/set''" by (simp add: entities_def)
  ultimately show ?thesis using advertised_commands_delivered[of "entities ! 1"] by simp
qed

theorem discovered_device_gets_no_commands_witness:
  "\<not> gets_command (update_device_info ''de-1'' (on_connect (new_mqtt ''home'' ''de-0'')))
     (mq_base (update_device_info ''de-1'' (on_connect (new_mqtt ''home'' ''de-0''))) @ ''/mode/set'')"
  by (rule discovered_device_gets_no_commands) code_simp+

end
