(* ===== verification/Camera_Drivers_Proofs.thy ===== *)
theory Camera_Drivers_Proofs
  imports Camera_Drivers Xiongmai_Proofs
begin

text \<open>
  Properties of the motion flag, of the waits of the L 625's connection loop and of the L 620's
  supervisor.
\<close>

subsection \<open>Motion\<close>

definition about_motion :: "dc_effect \<Rightarrow> bool" where
  "about_motion e \<longleftrightarrow> (case e of McuReport cfg \<Rightarrow> reports_motion cfg | MotionNotice \<Rightarrow> True | _ \<Rightarrow> False)"

lemma quiet_step: "\<not> about_motion e \<Longrightarrow> motion_step (now, e) m = fire_timer now m"
  by (cases e) (auto simp: motion_step_def about_motion_def)

text \<open>Between two reports the flag stays as the last report left it until the timer fires, and is cleared then.\<close>

definition clearing :: "gtime \<Rightarrow> motion_ctl \<Rightarrow> bool" where
  "clearing d m \<longleftrightarrow> mc_deadline m = Some d \<or> m = \<lparr>mc_motion = False, mc_deadline = None\<rparr>"

lemma clearing_fold:
  "clearing d m \<Longrightarrow> \<forall>ev\<in>set evs. \<not> about_motion (snd ev) \<Longrightarrow> clearing d (fold motion_step evs m)"
proof (induction evs arbitrary: m)
  case (Cons ev evs)
  obtain now e where ev: "ev = (now, e)" by force
  have "clearing d (motion_step ev m)"
    using Cons.prems by (auto simp: ev quiet_step clearing_def fire_timer_def)
  with Cons show ?case by simp
qed simp

lemma on_fold:
  "mc_motion m \<Longrightarrow> mc_deadline m = Some d \<Longrightarrow>
   \<forall>ev\<in>set evs. \<not> about_motion (snd ev) \<and> fst ev < d \<Longrightarrow> fold motion_step evs m = m"
proof (induction evs arbitrary: m)
  case (Cons ev evs)
  obtain now e where ev: "ev = (now, e)" by force
  have "motion_step ev m = m"
    using Cons.prems by (auto simp: ev quiet_step fire_timer_def)
  with Cons show ?case by simp
qed simp

text \<open>
  Motion is reported for ten seconds and then taken back: after a report of the sensors at \<open>t\<close>,
  if nothing more is said about motion, the flag is up before \<open>t + 10 s\<close> and down from then on,
  whatever came before and whatever else is received.
\<close>

theorem motion_lasts_ten_seconds:
  assumes "reports_motion cfg" "\<forall>ev\<in>set evs. \<not> about_motion (snd ev) \<and> fst ev \<le> now"
  shows "mc_motion (motion_at now (earlier @ (t, McuReport cfg) # evs) m) \<longleftrightarrow> now < t + motion_timeout"
proof -
  let ?m0 = "motion_step (t, McuReport cfg) (fold motion_step earlier m)"
  have m0: "?m0 = \<lparr>mc_motion = True, mc_deadline = Some (t + motion_timeout)\<rparr>"
    using assms(1) by (simp add: motion_step_def)
  have at: "motion_at now (earlier @ (t, McuReport cfg) # evs) m = fire_timer now (fold motion_step evs ?m0)"
    by (simp add: motion_at_def)
  have "now < t + motion_timeout \<Longrightarrow> fold motion_step evs ?m0 = ?m0"
    using assms(2) by (intro on_fold[of _ "t + motion_timeout"]) (auto simp: m0)
  moreover have "clearing (t + motion_timeout) (fold motion_step evs ?m0)"
    using assms(2) by (intro clearing_fold) (auto simp: m0 clearing_def)
  ultimately show ?thesis by (auto simp: at m0 fire_timer_def clearing_def split: if_splits)
qed

definition seen_motion :: mcu_config where
  "seen_motion = \<lparr>h_version = ''01'', s_version = ''02'', mode = 2, lux_value = 10, pir_on = True, motion_detected = True,
     photo_detection = False, pir_sens = 100, color_temperature = 0, high_light = 50, high_light_time = 60,
     low_light = 0, low_light_time = 0\<rparr>"

theorem motion_lasts_ten_seconds_witness:
  "let quiet = \<lparr>mc_motion = False, mc_deadline = None\<rparr>; evs = [(0, McuReport seen_motion), (second, Ignored)] in
   mc_motion (motion_at (9 * second) evs quiet) \<and> \<not> mc_motion (motion_at (10 * second) evs quiet)"
  unfolding Let_def
  using motion_lasts_ten_seconds[of seen_motion "[(second, Ignored)]" "9 * second" "[]" 0]
    motion_lasts_ten_seconds[of seen_motion "[(second, Ignored)]" "10 * second" "[]" 0]
  by (simp add: seen_motion_def reports_motion_def about_motion_def second_def motion_timeout_def)

text \<open>A mere notification never goes away: no timer is started for it.\<close>

lemma notified_motion_stays:
  assumes "mc_deadline m = None" "\<forall>ev\<in>set evs. \<not> about_motion (snd ev)"
  shows "mc_motion (motion_at now ((t, MotionNotice) # evs) m)"
proof -
  have "fold motion_step evs n = n" if "mc_deadline n = None" for n
    using assms(2) that by (induction evs) (auto simp: quiet_step fire_timer_def)
  moreover have "motion_step (t, MotionNotice) m = m\<lparr>mc_motion := True\<rparr>"
    using assms(1) by (simp add: motion_step_def fire_timer_def)
  ultimately show ?thesis using assms(1) by (simp add: motion_at_def fire_timer_def)
qed

subsection \<open>Waits\<close>

lemma calculate_backoff_cases:
  "calculate_backoff n \<in> {15 * second, 30 * second, 60 * second, 120 * second, 240 * second}"
proof -
  consider "n \<le> 1" | "n = 2" | "n = 3" | "n = 4" | "n \<ge> 5" by linarith
  then show ?thesis by cases (simp_all add: calculate_backoff_def second_def)
qed

lemma calculate_backoff_mono: "a \<le> b \<Longrightarrow> calculate_backoff a \<le> calculate_backoff b"
proof -
  assume "a \<le> b"
  then show ?thesis
    by (cases "a \<le> 1"; cases "b \<ge> 5"; cases "a = 2"; cases "a = 3"; cases "a = 4"; cases "b = 2"; cases "b = 3"; cases "b = 4")
      (auto simp: calculate_backoff_def second_def)
qed

text \<open>
  The camera is neither flooded nor forgotten: whatever fails and however long the
  sessions last, the wait before the next attempt is at least five seconds and at most four minutes.
\<close>

theorem waits_bounded:
  "list_all (\<lambda>w. 5 * second \<le> w \<and> w \<le> 240 * second) (attempt_waits as f)"
proof (induction as arbitrary: f)
  case (Cons a as)
  have "5 * second \<le> snd (after_attempt a f) \<and> snd (after_attempt a f) \<le> 240 * second"
    using calculate_backoff_cases[of "f + 1"] by (cases a) (auto simp: after_attempt_def second_def)
  with Cons show ?case by (cases "after_attempt a f") simp
qed simp

subsection \<open>The supervisor of the L 620\<close>

lemma rsa_loop_failed: "rsa_loop pr key uh ch cl cands lastErr c = (Some e, c1) \<Longrightarrow> logged_in c1 = logged_in c"
  by (induction cands arbitrary: lastErr c)
    (auto simp: Let_def dest!: session.send_with_header split: option.splits prod.splits sum.splits if_splits)

lemma legacy_loop_failed:
  "legacy_loop pr cds sid lastErr c = (r, c1) \<Longrightarrow> r \<noteq> LoggedIn \<Longrightarrow> logged_in c1 = logged_in c"
  by (induction cds arbitrary: sid lastErr c)
    (auto simp: Let_def dest!: session.send_raw split: option.splits prod.splits sum.splits if_splits)

lemma legacy_login_failed: "legacy_login pr c = (Some e, c1) \<Longrightarrow> logged_in c1 = logged_in c"
  by (auto simp: legacy_login_def dest: legacy_loop_failed split: prod.splits legacy_result.splits if_splits)

lemma login_failed: "login pr random c = (Some e, c1) \<Longrightarrow> logged_in c1 = logged_in c"
  by (auto simp: login_def query_claim_def login_rsa_def Let_def
      dest!: legacy_login_failed rsa_loop_failed session.send_with_header
      split: prod.splits sum.splits option.splits if_splits)

lemma connect_effect:
  assumes "connect pr random ws c = (r, c1)" "\<not> logged_in c"
  shows "\<not> xm_closed c1 \<and> close_chan_closed c1 = close_chan_closed c \<and> (logged_in c1 \<longrightarrow> conn_open c1)"
  using assms
  by (auto simp: connect_def dest: lifecycle.login login_failed split: prod.splits option.splits)

text \<open>
  What the supervisor maintains: a client that is logged in has a connection and can be closed, and the channel has
  been closed exactly if a heartbeat was lost.
\<close>

definition sup_ok :: "xm_supervisor \<Rightarrow> bool" where
  "sup_ok s \<longleftrightarrow>
     (logged_in (sup_client s) \<longrightarrow> conn_open (sup_client s) \<and> \<not> xm_closed (sup_client s)) \<and>
     lost s = (if close_chan_closed (sup_client s) then 1 else 0)"

definition life :: "xm_client \<Rightarrow> bool \<times> bool \<times> bool \<times> bool" where
  "life c = (conn_open c, xm_closed c, close_chan_closed c, logged_in c)"

interpretation lifetime: untouched_field life
  by unfold_locales (simp_all add: life_def)

lemma enable_rtsp_life: "life (snd (enable_rtsp pr c)) = life c"
  by (auto simp: enable_rtsp_def Let_def dest!: lifetime.send_raw split: prod.splits sum.splits option.splits)

lemma ensure_h264_life: "life (snd (ensure_h264 pr c)) = life c"
  by (auto simp: ensure_h264_def dest!: lifetime.send_raw split: prod.splits sum.splits option.splits)

lemma sync_life: "sync_initial_state pr res (c, st) = (c1, st1) \<Longrightarrow> life c1 = life c"
  by (auto simp: sync_initial_state_def query_mcu_config_def Let_def
      dest!: lifetime.send_mcu_command split: prod.splits sum.splits option.splits)

lemma keep_alive_life: "send_keep_alive pr c = (r, c1) \<Longrightarrow> life c1 = life c"
  by (auto simp: send_keep_alive_def dest!: lifetime.send_raw split: prod.splits sum.splits)

lemma close_effect:
  assumes "xm_close pr c = Some c1" "logged_in c" "conn_open c" "\<not> xm_closed c"
  shows "\<not> close_chan_closed c \<and> close_chan_closed c1 \<and> \<not> logged_in c1"
proof -
  have "life (snd (send_raw pr mid p d)) = life d" for mid p d by simp
  then have "close_chan_closed (snd (send_raw pr mid p d)) = close_chan_closed d" for mid p d
    by (metis life_def prod.inject)
  then show ?thesis using assms by (auto simp: xm_close_def Let_def split: if_splits)
qed

lemma sup_step_ok:
  assumes "sup_ok s" "xm_sup_step pr res ev s = Some s1"
  shows "sup_ok s1"
proof (cases ev)
  case (Reconnect random ws)
  obtain r c where c: "connect pr random ws (sup_client s) = (r, c)" by fastforce
  show ?thesis
  proof (cases "logged_in (sup_client s)")
    case False
    note eff = connect_effect[OF c False]
    let ?c2 = "snd (ensure_h264 pr (snd (enable_rtsp pr c)))"
    obtain c3 st where sync: "sync_initial_state pr res (?c2, sup_status s) = (c3, st)" by fastforce
    have "life c3 = life c" using sync_life[OF sync] by (simp add: ensure_h264_life enable_rtsp_life)
    then show ?thesis
      using assms False eff by (auto simp: Reconnect xm_sup_step_def c sync sup_ok_def life_def Let_def split: if_splits)
  qed (use assms in \<open>simp add: Reconnect xm_sup_step_def\<close>)
next
  case DialFailed
  then show ?thesis using assms by (auto simp: xm_sup_step_def sup_ok_def split: if_splits)
next
  case Heartbeat
  obtain r c where k: "send_keep_alive pr (sup_client s) = (r, c)" by fastforce
  have l: "life c = life (sup_client s)" by (rule keep_alive_life[OF k])
  show ?thesis
  proof (cases "logged_in (sup_client s) \<and> r \<noteq> None")
    case True
    then obtain e c1 where "r = Some e" "xm_close pr c = Some c1"
      and s1: "s1 = s\<lparr>sup_client := c1, sup_backoff := 5 * second, lost := Suc (lost s)\<rparr>"
      using assms(2) by (auto simp: Heartbeat xm_sup_step_def k)
    then show ?thesis
      using assms(1) close_effect[of pr c c1] True l by (auto simp: sup_ok_def life_def)
  next
    case False
    then show ?thesis
      using assms l by (auto simp: Heartbeat xm_sup_step_def k sup_ok_def life_def split: if_splits)
  qed
qed

lemma sup_run_ok: "sup_ok s \<Longrightarrow> xm_sup_run pr res evs s = Some s1 \<Longrightarrow> sup_ok s1"
proof (induction evs arbitrary: s)
  case (Cons ev evs)
  then obtain s2 where "xm_sup_step pr res ev s = Some s2" "xm_sup_run pr res evs s2 = Some s1"
    by (auto simp: bind_eq_Some_conv)
  with Cons sup_step_ok show ?case by blast
qed simp

text \<open>
  The process survives one lost heartbeat: in every run of the supervisor that does not panic,
  from the client as it is made, at most one heartbeat was lost, however often the camera was
  reached again, and a client that counts as logged in always has an open connection.
\<close>

theorem supervisor_survives_one_loss:
  assumes "xm_sup_run pr res evs \<lparr>sup_client = new_xm_client u p, sup_status = st, sup_backoff = b, lost = 0\<rparr> = Some s"
  shows "lost s \<le> 1 \<and> (logged_in (sup_client s) \<longrightarrow> conn_open (sup_client s) \<and> \<not> xm_closed (sup_client s))"
proof -
  have "sup_ok \<lparr>sup_client = new_xm_client u p, sup_status = st, sup_backoff = b, lost = 0\<rparr>"
    by (simp add: sup_ok_def new_xm_client_def)
  then have "sup_ok s" using assms sup_run_ok by blast
  then show ?thesis by (auto simp: sup_ok_def)
qed

text \<open>Before the first loss no step panics.\<close>

lemma first_loss_survived:
  assumes "sup_ok s" "lost s = 0"
  obtains s1 where "xm_sup_step pr res ev s = Some s1"
proof -
  have open_chan: "\<not> close_chan_closed (sup_client s)"
    using assms by (auto simp: sup_ok_def split: if_splits)
  have "\<exists>c1. xm_close pr c = Some c1" if "\<not> close_chan_closed c" for c
    using that by (simp add: xm_close_def Let_def)
  moreover have "\<not> close_chan_closed (snd (send_keep_alive pr (sup_client s)))"
    using open_chan keep_alive_life[of pr "sup_client s"] by (metis life_def prod.collapse prod.inject)
  ultimately have "\<exists>s1. xm_sup_step pr res ev s = Some s1"
    by (cases ev) (auto simp: xm_sup_step_def Let_def split: prod.split option.split if_splits)
  then show thesis using that by blast
qed

theorem supervisor_survives_one_loss_witness:
  "\<forall>st. \<exists>s. xm_sup_run toy_xm ''1080p'' [DialFailed, Heartbeat, Reconnect [] (on_wire (reply_header msg_login_resp [65]) [65])]
     \<lparr>sup_client = new_xm_client [] [], sup_status = st, sup_backoff = 5 * second, lost = 0\<rparr> = Some s \<and> lost s \<le> 1" (is "\<forall>st. ?P st")
proof
  fix st
  let ?s = "\<lparr>sup_client = new_xm_client [] [], sup_status = st, sup_backoff = 10 * second, lost = 0\<rparr>"
  have "sup_ok ?s" by (simp add: sup_ok_def new_xm_client_def)
  then obtain s where "xm_sup_step toy_xm ''1080p'' (Reconnect [] (on_wire (reply_header msg_login_resp [65]) [65])) ?s = Some s"
    by (rule first_loss_survived[of ?s]) simp
  then have "xm_sup_run toy_xm ''1080p'' [DialFailed, Heartbeat, Reconnect [] (on_wire (reply_header msg_login_resp [65]) [65])]
     \<lparr>sup_client = new_xm_client [] [], sup_status = st, sup_backoff = 5 * second, lost = 0\<rparr> = Some s"
    by (simp add: xm_sup_step_def[of _ _ DialFailed] xm_sup_step_def[of _ _ Heartbeat] new_xm_client_def next_backoff_def second_def)
  with supervisor_survives_one_loss[OF this] show "?P st" by blast
qed

end
