(* ===== verification/Bridge_Config_Proofs.thy ===== *)
theory Bridge_Config_Proofs
  imports Bridge_Config
begin

text \<open>
  Properties of the configuration: which layer a setting is taken from, what is sure of every
  resolved configuration, and that a QR code is read back.
\<close>

subsection \<open>The layers of a setting\<close>

text \<open>The reference: the last flag of that name, else the first of the other layers that is not empty.\<close>

fun last_flag :: "string list \<Rightarrow> (string \<times> string) list \<Rightarrow> string option \<Rightarrow> string option" where
  "last_flag names [] d = d"
| "last_flag names ((n, v) # fs) d = last_flag names fs (if n \<in> set names then Some v else d)"

fun first_given :: "string list \<Rightarrow> string" where
  "first_given [] = []"
| "first_given (x # xs) = (if x \<noteq> [] then x else first_given xs)"

definition layered :: "(string \<times> string) list \<Rightarrow> string list \<Rightarrow> string list \<Rightarrow> string" where
  "layered flags names lower =
     (case last_flag names flags None of Some v \<Rightarrow> v | None \<Rightarrow> first_given lower)"

definition in_file :: "(options \<Rightarrow> string) \<Rightarrow> options option \<Rightarrow> string" where
  "in_file f file = (case file of Some opt \<Rightarrow> f opt | None \<Rightarrow> [])"

definition below_flags ::
  "bool \<Rightarrow> options option \<Rightarrow> (string \<Rightarrow> service_reply) \<Rightarrow> (string \<Rightarrow> string) \<Rightarrow> config" where
  "below_flags dd file ask env =
     load_env env (discover_broker env ask
       (case file of Some opt \<Rightarrow> load_options opt (default_config dd) | None \<Rightarrow> default_config dd))"

lemma last_flag_total: "\<exists>v. last_flag names fs (Some x) = Some v"
  by (induction fs arbitrary: x) auto

locale text_setting =
  fixes get :: "config \<Rightarrow> string" and names :: "string list"
  assumes own_flag: "n \<in> set names \<Longrightarrow> get (fst (set_flag (n, v) (c, b))) = v"
    and other_flag: "n \<notin> set names \<Longrightarrow> get (fst (set_flag (n, v) (c, b))) = get c"
    and kept_by_mark: "get (mark_beta env (c, b)) = get c"
begin

lemma after_flags:
  "get (fst (fold set_flag fs (c, b))) = (case last_flag names fs (Some (get c)) of Some v \<Rightarrow> v | None \<Rightarrow> [])"
proof (induction fs arbitrary: c b)
  case (Cons f fs)
  obtain n v where f: "f = (n, v)" by force
  obtain c1 b1 where s: "set_flag (n, v) (c, b) = (c1, b1)" by fastforce
  have "get c1 = (if n \<in> set names then v else get c)"
    using own_flag[of n v c b] other_flag[of n v c b] s by auto
  then show ?case using Cons[of c1 b1] by (simp add: f s)
qed simp

lemma last_flag_default: "last_flag names fs (Some d) = Some (case last_flag names fs None of Some v \<Rightarrow> v | None \<Rightarrow> d)"
proof (induction fs)
  case (Cons f fs)
  obtain n v where f: "f = (n, v)" by force
  obtain w where "last_flag names fs (Some v) = Some w" using last_flag_total by blast
  then show ?case using Cons by (simp add: f)
qed simp

lemma resolved:
  "get (resolve dd file ask env flags) =
     (case last_flag names flags None of Some v \<Rightarrow> v | None \<Rightarrow> get (below_flags dd file ask env))"
proof -
  obtain c b where f: "fold set_flag flags (below_flags dd file ask env, False) = (c, b)" by fastforce
  have "get (resolve dd file ask env flags) = get c"
    using f kept_by_mark by (simp add: resolve_def below_flags_def Let_def)
  then show ?thesis using after_flags[of flags "below_flags dd file ask env" False] f
    by (simp add: last_flag_default)
qed

end

lemmas setting_simps = set_flag_def mark_beta_def on_nabto_def Let_def

lemma parse_qr_keeps [simp]: "nb_camera_ip (parse_qr s n) = nb_camera_ip n" "nb_key_path (parse_qr s n) = nb_key_path n"
proof -
  have step: "nb_camera_ip (qr_part p n) = nb_camera_ip n \<and> nb_key_path (qr_part p n) = nb_key_path n" for p n
    by (simp add: qr_part_def split: list.split)
  have "nb_camera_ip (fold qr_part ps n) = nb_camera_ip n \<and> nb_key_path (fold qr_part ps n) = nb_key_path n" for ps
    by (induction ps arbitrary: n) (simp_all add: step)
  then show "nb_camera_ip (parse_qr s n) = nb_camera_ip n" "nb_key_path (parse_qr s n) = nb_key_path n"
    by (simp_all add: parse_qr_def)
qed

interpretation resolution_setting: text_setting "cf_resolution" "[''res'']"
  by unfold_locales (simp_all add: setting_simps if_distrib[of fst] if_distrib[of cf_resolution] cong: if_cong option.case_cong split: option.split)

interpretation audio_setting: text_setting "cf_audio_codec" "[''audio-codec'']"
  by unfold_locales (simp_all add: setting_simps if_distrib[of fst] if_distrib[of cf_audio_codec] cong: if_cong option.case_cong split: option.split)

interpretation camera_type_setting: text_setting "cf_camera_type" "[''type'']"
  by unfold_locales (simp_all add: setting_simps if_distrib[of fst] if_distrib[of cf_camera_type] cong: if_cong option.case_cong split: option.split)

interpretation camera_user_setting: text_setting "cf_camera_user" "[''user'']"
  by unfold_locales (simp_all add: setting_simps if_distrib[of fst] if_distrib[of cf_camera_user] cong: if_cong option.case_cong split: option.split)

interpretation camera_password_setting: text_setting "cf_camera_password" "[''pass'', ''password'']"
  by (unfold_locales, simp_all add: setting_simps if_distrib[of fst] if_distrib[of cf_camera_password] cong: if_cong option.case_cong split: option.split, erule disjE, simp_all)

interpretation bridge_user_setting: text_setting "cf_bridge_user" "[''bridge-user'']"
  by unfold_locales (simp_all add: setting_simps if_distrib[of fst] if_distrib[of cf_bridge_user] cong: if_cong option.case_cong split: option.split)

interpretation bridge_pass_setting: text_setting "cf_bridge_pass" "[''bridge-pass'', ''bridge-password'']"
  by (unfold_locales, simp_all add: setting_simps if_distrib[of fst] if_distrib[of cf_bridge_pass] cong: if_cong option.case_cong split: option.split, erule disjE, simp_all)

interpretation rtsp_path_setting: text_setting "cf_rtsp_path" "[''path'']"
  by unfold_locales (simp_all add: setting_simps if_distrib[of fst] if_distrib[of cf_rtsp_path] cong: if_cong option.case_cong split: option.split)

interpretation mqtt_topic_setting: text_setting "cf_mqtt_topic" "[''mqtt-topic'']"
  by unfold_locales (simp_all add: setting_simps if_distrib[of fst] if_distrib[of cf_mqtt_topic] cong: if_cong option.case_cong split: option.split)

interpretation mqtt_discovery_setting: text_setting "cf_mqtt_discovery" "[''mqtt-disc'']"
  by unfold_locales (simp_all add: setting_simps if_distrib[of fst] if_distrib[of cf_mqtt_discovery] cong: if_cong option.case_cong split: option.split)

interpretation log_level_setting: text_setting "cf_log_level" "[''log-level'', ''loglevel'']"
  by (unfold_locales, simp_all add: setting_simps if_distrib[of fst] if_distrib[of cf_log_level] cong: if_cong option.case_cong split: option.split, erule disjE, simp_all)

interpretation cache_dir_setting: text_setting "cf_cache_dir" "[''cache-dir'']"
  by unfold_locales (simp_all add: setting_simps if_distrib[of fst] if_distrib[of cf_cache_dir] cong: if_cong option.case_cong split: option.split)

interpretation camera_ip_setting: text_setting "(nb_camera_ip \<circ> cf_nabto)" "[''ip'']"
  by unfold_locales (simp_all add: setting_simps if_distrib[of fst] if_distrib[of cf_nabto] if_distrib[of nb_camera_ip] cong: if_cong option.case_cong split: option.split)

interpretation key_path_setting: text_setting "(nb_key_path \<circ> cf_nabto)" "[''key'']"
  by unfold_locales (simp_all add: setting_simps if_distrib[of fst] if_distrib[of cf_nabto] if_distrib[of nb_key_path] cong: if_cong option.case_cong split: option.split)

lemma discovered_broker_only:
  "\<exists>b u p. discover_broker env ask c = c\<lparr>cf_mqtt_broker := b, cf_mqtt_user := u, cf_mqtt_password := p\<rparr>"
proof -
  have "\<exists>b u p. c = c\<lparr>cf_mqtt_broker := b, cf_mqtt_user := u, cf_mqtt_password := p\<rparr>"
    by (intro exI[of _ "cf_mqtt_broker c"] exI[of _ "cf_mqtt_user c"] exI[of _ "cf_mqtt_password c"]) simp
  then show ?thesis unfolding discover_broker_def by (auto split: option.split prod.split)
qed

lemma below_layer:
  obtains b u p where "below_flags dd file ask env = load_env env
    ((case file of Some opt \<Rightarrow> load_options opt (default_config dd) | None \<Rightarrow> default_config dd)
      \<lparr>cf_mqtt_broker := b, cf_mqtt_user := u, cf_mqtt_password := p\<rparr>)"
  using discovered_broker_only unfolding below_flags_def by metis

text \<open>A setting with its flags, its environment variables, its options in the file and its default.\<close>

definition text_settings ::
  "bool \<Rightarrow> ((config \<Rightarrow> string) \<times> string list \<times> string list \<times> (options \<Rightarrow> string) list \<times> string) list" where
  "text_settings dd =
     [(cf_resolution, [''res''], [''RESOLUTION''], [op_resolution], ''1080p''),
      (cf_audio_codec, [''audio-codec''], [''AUDIO_CODEC''], [op_audio_codec], ''aac''),
      (cf_camera_type, [''type''], [''CAMERA_TYPE''], [op_camera_type], []),
      (cf_camera_user, [''user''], [''CAMERA_USER''], [op_camera_user], []),
      (cf_camera_password, [''pass'', ''password''], [''CAMERA_PASSWORD'', ''CAMERA_PASS''], [op_camera_password], []),
      (cf_bridge_user, [''bridge-user''], [''BRIDGE_USER''], [op_bridge_user], []),
      (cf_bridge_pass, [''bridge-pass'', ''bridge-password''], [''BRIDGE_PASS'', ''BRIDGE_PASSWORD''], [op_bridge_pass, op_bridge_password], []),
      (cf_rtsp_path, [''path''], [''RTSP_PATH''], [], ''steinel''),
      (cf_mqtt_topic, [''mqtt-topic''], [''MQTT_TOPIC_PREFIX''], [op_mqtt_topic], ''steinel''),
      (cf_mqtt_discovery, [''mqtt-disc''], [''MQTT_DISCOVERY_PREFIX''], [op_mqtt_discovery], ''homeassistant''),
      (cf_log_level, [''log-level'', ''loglevel''], [''LOG_LEVEL''], [op_log_level], ''info''),
      (cf_cache_dir, [''cache-dir''], [''CACHE_DIR''], [op_cache_dir], cf_cache_dir (default_config dd)),
      (nb_camera_ip \<circ> cf_nabto, [''ip''], [''CAMERA_IP''], [op_camera_ip], []),
      (nb_key_path \<circ> cf_nabto, [''key''], [''KEY_PATH''], [], ''data/client.key'')]"

definition comes_from_layers ::
  "(config \<Rightarrow> string) \<times> string list \<times> string list \<times> (options \<Rightarrow> string) list \<times> string \<Rightarrow>
   config \<Rightarrow> options option \<Rightarrow> (string \<Rightarrow> string) \<Rightarrow> (string \<times> string) list \<Rightarrow> bool" where
  "comes_from_layers s c file env flags \<longleftrightarrow>
     (let (get, names, vars, ops, d) = s in
      get c = layered flags names (map env vars @ map (\<lambda>f. in_file f file) ops @ [d]))"

lemmas layer_defs = load_env_def load_options_def default_config_def in_file_def given_def layered_def
  comes_from_layers_def Let_def


subsection \<open>What is sure of every configuration\<close>

lemma number_or_ok: "ok old \<Longrightarrow> ok (number_or ok s old)"
  by (simp add: number_or_def split: option.split)

lemma rtsp_port_flag:
  "cf_rtsp_port (fst (set_flag (n, v) (c, b))) = (if n = ''port'' then number_or (\<lambda>p. p > 0) v (cf_rtsp_port c) else cf_rtsp_port c)"
  by (simp add: setting_simps if_distrib[of fst] if_distrib[of cf_rtsp_port] cong: if_cong option.case_cong split: option.split)

lemma onvif_port_flag:
  "cf_onvif_port (fst (set_flag (n, v) (c, b))) = (if n = ''onvif'' then number_or (\<lambda>p. p > 0) v (cf_onvif_port c) else cf_onvif_port c)"
  by (simp add: setting_simps if_distrib[of fst] if_distrib[of cf_onvif_port] cong: if_cong option.case_cong split: option.split)

lemma ports_after_flags:
  "0 < cf_rtsp_port (fst s) \<Longrightarrow> 0 < cf_onvif_port (fst s) \<Longrightarrow>
   0 < cf_rtsp_port (fst (fold set_flag fs s)) \<and> 0 < cf_onvif_port (fst (fold set_flag fs s))"
proof (induction fs arbitrary: s)
  case (Cons f fs)
  obtain n v c b where "f = (n, v)" "s = (c, b)" by force
  then show ?case
    using Cons.prems Cons.IH[of "set_flag f s"] number_or_ok[of "\<lambda>p. p > 0"]
    by (simp add: rtsp_port_flag onvif_port_flag split: if_splits)
qed simp

lemma ports_below_flags: "0 < cf_rtsp_port (below_flags dd file ask env) \<and> 0 < cf_onvif_port (below_flags dd file ask env)"
proof -
  obtain b u p where "below_flags dd file ask env = load_env env
    ((case file of Some opt \<Rightarrow> load_options opt (default_config dd) | None \<Rightarrow> default_config dd)
      \<lparr>cf_mqtt_broker := b, cf_mqtt_user := u, cf_mqtt_password := p\<rparr>)" by (rule below_layer)
  then show ?thesis
    by (auto simp: load_env_def load_options_def default_config_def given_port_def number_or_ok split: option.split)
qed

text \<open>
  C25. A port that cannot be read never takes effect: whatever the layers hold, both ports of a resolved
  configuration are positive, so that it is refused exactly if it has no camera address or a
  port is above 65535.
\<close>

theorem resolved_config_checks:
  "0 < cf_rtsp_port (resolve dd file ask env flags) \<and> 0 < cf_onvif_port (resolve dd file ask env flags) \<and>
   (validate_config (resolve dd file ask env flags) = None \<longleftrightarrow>
    nb_camera_ip (cf_nabto (resolve dd file ask env flags)) \<noteq> [] \<and>
    cf_rtsp_port (resolve dd file ask env flags) \<le> 65535 \<and> cf_onvif_port (resolve dd file ask env flags) \<le> 65535)"
proof -
  obtain c b where f: "fold set_flag flags (below_flags dd file ask env, False) = (c, b)" by fastforce
  have "resolve dd file ask env flags = mark_beta env (c, b)"
    using f by (simp add: resolve_def below_flags_def Let_def)
  moreover have "0 < cf_rtsp_port c \<and> 0 < cf_onvif_port c"
    using ports_after_flags[of "(below_flags dd file ask env, False)" flags] ports_below_flags f by simp
  ultimately have "0 < cf_rtsp_port (resolve dd file ask env flags) \<and> 0 < cf_onvif_port (resolve dd file ask env flags)"
    by (simp add: mark_beta_def on_nabto_def Let_def)
  then show ?thesis by (auto simp: validate_config_def)
qed

subsection \<open>The QR code\<close>

definition qr_text :: "string \<Rightarrow> string \<Rightarrow> string \<Rightarrow> string \<Rightarrow> string" where
  "qr_text did pid sct pwd = ''did='' @ did @ '','' @ ''pid='' @ pid @ '','' @ ''sct='' @ sct @ '','' @ ''pairPwd='' @ pwd"

definition qr_value :: "string \<Rightarrow> bool" where
  "qr_value v \<longleftrightarrow> CHR '','' \<notin> set v \<and> (v = [] \<or> \<not> is_space (last v))"

lemma qr_key_value:
  assumes "qr_value v" "k \<noteq> []" "\<not> is_space (hd k)" "CHR ''='' \<notin> set k"
  shows "split2 (CHR ''='') (trim_space (k @ CHR ''='' # v)) = [k, v]"
proof -
  have "\<not> is_space (CHR ''='')" by code_simp
  then have "trim_space (k @ CHR ''='' # v) = k @ CHR ''='' # v"
    using assms unfolding trim_space_def by (intro trim_set_ends) (auto simp: qr_value_def)
  then show ?thesis using assms(4) by (simp add: split2_append)
qed

text \<open>
  The pairing data survive the QR code: from the text with the four members in their order,
  whose values hold no comma and do not end in a blank, the parser takes each value unchanged (an equal
  sign in a password included) and leaves the rest of the configuration alone.
\<close>

theorem qr_code_roundtrip:
  assumes "qr_value did" "qr_value pid" "qr_value sct" "qr_value pwd"
  shows "parse_qr (qr_text did pid sct pwd) n =
    n\<lparr>nb_device_id := did, nb_product_id := pid, nb_sct := sct, nb_pair_pwd := pwd\<rparr>"
proof -
  have parts: "split_on (CHR '','') (qr_text did pid sct pwd) =
      [''did='' @ did, ''pid='' @ pid, ''sct='' @ sct, ''pairPwd='' @ pwd]"
    using assms by (simp add: qr_text_def qr_value_def split_on_append[of _ "_ # _"] split_on_append split_on_no_occurrence)
  have kv: "\<not> is_space (CHR ''d'')" "\<not> is_space (CHR ''p'')" "\<not> is_space (CHR ''s'')" by code_simp+
  have "split2 (CHR ''='') (trim_space (''did='' @ did)) = [''did'', did]"
    "split2 (CHR ''='') (trim_space (''pid='' @ pid)) = [''pid'', pid]"
    "split2 (CHR ''='') (trim_space (''sct='' @ sct)) = [''sct'', sct]"
    "split2 (CHR ''='') (trim_space (''pairPwd='' @ pwd)) = [''pairPwd'', pwd]"
    using assms kv qr_key_value[of did "''did''"] qr_key_value[of pid "''pid''"] qr_key_value[of sct "''sct''"]
      qr_key_value[of pwd "''pairPwd''"] by simp_all
  then show ?thesis unfolding parse_qr_def parts by (simp add: qr_part_def)
qed

theorem qr_code_roundtrip_witness:
  "parse_qr (qr_text ''de-abc'' ''pr-xyz'' ''tok'' ''a=b'') (cf_nabto (default_config True)) =
    (cf_nabto (default_config True))\<lparr>nb_device_id := ''de-abc'', nb_product_id := ''pr-xyz'', nb_sct := ''tok'', nb_pair_pwd := ''a=b''\<rparr>"
  by (rule qr_code_roundtrip) code_simp+

subsection \<open>Where the layers are not kept apart\<close>

text \<open>
  A broker given in the environment alone is sent the user and the password that the supervisor
  gave for another one.
\<close>

lemma foreign_broker_gets_credentials:
  assumes "cf_mqtt_broker (case file of Some opt \<Rightarrow> load_options opt (default_config dd) | None \<Rightarrow> default_config dd) = []"
    and "fetch_service env ask = Some (b, u, p)"
    and "env ''MQTT_BROKER'' = other" "other \<noteq> []" "env ''MQTT_USER'' = []" "env ''MQTT_PASSWORD'' = []"
  shows "cf_mqtt_broker (resolve dd file ask env []) = other \<and> cf_mqtt_user (resolve dd file ask env []) = u \<and>
    cf_mqtt_password (resolve dd file ask env []) = p"
proof -
  define c where "c = (case file of Some opt \<Rightarrow> load_options opt (default_config dd) | None \<Rightarrow> default_config dd)"
  have "discover_broker env ask c = c\<lparr>cf_mqtt_broker := b, cf_mqtt_user := u, cf_mqtt_password := p\<rparr>"
    using assms(1,2) by (simp add: discover_broker_def c_def)
  then have "resolve dd file ask env [] =
      mark_beta env (load_env env (c\<lparr>cf_mqtt_broker := b, cf_mqtt_user := u, cf_mqtt_password := p\<rparr>), False)"
    by (simp add: resolve_def Let_def c_def)
  moreover have "cf_mqtt_broker (mark_beta env (d, x)) = cf_mqtt_broker d" "cf_mqtt_user (mark_beta env (d, x)) = cf_mqtt_user d"
    "cf_mqtt_password (mark_beta env (d, x)) = cf_mqtt_password d" for d x
    by (simp_all add: mark_beta_def on_nabto_def Let_def)
  moreover have "cf_mqtt_broker (load_env env d) = given (env ''MQTT_BROKER'') (cf_mqtt_broker d)"
    "cf_mqtt_user (load_env env d) = given (env ''MQTT_USER'') (cf_mqtt_user d)"
    "cf_mqtt_password (load_env env d) = given (env ''MQTT_PASSWORD'') (cf_mqtt_password d)" for d
    by (simp_all add: load_env_def)
  ultimately show ?thesis using assms(3-6) by (simp add: given_def)
qed

text \<open>The environment cannot take back a reset of the pairing that the file asks for.\<close>

lemma reset_pairing_sticks:
  assumes "op_reset_pairing opt"
  shows "cf_reset_pairing (resolve dd (Some opt) ask env [])"
proof -
  obtain b u p where "below_flags dd (Some opt) ask env = load_env env
    ((case Some opt of Some opt \<Rightarrow> load_options opt (default_config dd) | None \<Rightarrow> default_config dd)
      \<lparr>cf_mqtt_broker := b, cf_mqtt_user := u, cf_mqtt_password := p\<rparr>)" by (rule below_layer)
  then have "cf_reset_pairing (below_flags dd (Some opt) ask env)"
    using assms by (simp add: load_env_def load_options_def)
  then show ?thesis by (simp add: resolve_def below_flags_def mark_beta_def on_nabto_def Let_def)
qed

text \<open>An environment variable beats the flag that chooses the driver.\<close>

lemma environment_beats_driver_flag:
  "switched_off (env ''USE_CGO_NABTO'') \<Longrightarrow> resolve_driver_type env (cf_nabto_driver c) = ''pure''"
  by (simp add: resolve_driver_type_def)

end
