(* ===== verification/Rtsp_Server_Proofs.thy ===== *)
theory Rtsp_Server_Proofs
  imports Rtsp_Server
begin

text \<open>
  Properties of the RTSP server: the connection wrapper does not depend on how the network cuts the
  stream, only clients with credentials are served, the count of clients is right and one session talks at a time.
\<close>

subsection \<open>The stream of a connection\<close>

text \<open>What a client sends: text without the dollar sign, and interleaved frames.\<close>

datatype stream_item = Text bytes | Frame byte bytes

fun item_bytes :: "stream_item \<Rightarrow> bytes" where
  "item_bytes (Text t) = t"
| "item_bytes (Frame ch p) = [dollar, ch] @ be16 (word_of_nat (length p)) @ p"

fun item_ok :: "stream_item \<Rightarrow> bool" where
  "item_ok (Text t) \<longleftrightarrow> dollar \<notin> set t"
| "item_ok (Frame ch p) \<longleftrightarrow> length p < 65536"

fun is_talk :: "(bytes \<Rightarrow> bool) \<Rightarrow> stream_item \<Rightarrow> bool" where
  "is_talk rtp_ok (Text t) \<longleftrightarrow> False"
| "is_talk rtp_ok (Frame ch p) \<longleftrightarrow> ch AND 1 = 0 \<and> rtp_ok p"

fun payload_of :: "stream_item \<Rightarrow> bytes" where
  "payload_of (Text t) = t"
| "payload_of (Frame ch p) = p"

definition passed_on :: "(bytes \<Rightarrow> bool) \<Rightarrow> stream_item list \<Rightarrow> bytes" where
  "passed_on rtp_ok its = concat (map item_bytes (filter (\<lambda>i. \<not> is_talk rtp_ok i) its))"

definition talk_packets :: "(bytes \<Rightarrow> bool) \<Rightarrow> stream_item list \<Rightarrow> bytes list" where
  "talk_packets rtp_ok its = map payload_of (filter (is_talk rtp_ok) its)"

text \<open>The reference: a parser of the whole stream, None if it ends inside a frame.\<close>

function demux :: "(bytes \<Rightarrow> bool) \<Rightarrow> bytes \<Rightarrow> (bytes \<times> bytes list) option" where
  "demux rtp_ok d =
     (if d = [] then Some ([], [])
      else if hd d \<noteq> dollar then map_option (\<lambda>(out, talk). (hd d # out, talk)) (demux rtp_ok (tl d))
      else if length d < 4 \<or> length d < 4 + frame_length d then None
      else
        let n = frame_length d; payload = take n (drop 4 d) in
        map_option (\<lambda>(out, talk). if d ! 1 AND 1 = 0 \<and> rtp_ok payload then (out, payload # talk)
                                  else (take 4 d @ payload @ out, talk)) (demux rtp_ok (drop (4 + n) d)))"
  by pat_completeness auto
termination by (relation "measure (\<lambda>(p, d). length d)") (auto simp: neq_Nil_conv)

declare demux.simps [simp del]

lemma demux_Nil [simp]: "demux rtp_ok [] = Some ([], [])"
  by (simp add: demux.simps)

lemma demux_text:
  "dollar \<notin> set t \<Longrightarrow> demux rtp_ok (t @ d) = map_option (\<lambda>(out, talk). (t @ out, talk)) (demux rtp_ok d)"
proof (induction t)
  case (Cons b t)
  then have "demux rtp_ok ((b # t) @ d) = map_option (\<lambda>(out, talk). (b # out, talk)) (demux rtp_ok (t @ d))"
    by (subst demux.simps) auto
  with Cons show ?case by (cases "demux rtp_ok d") auto
qed (simp add: option.map_ident case_prod_unfold)

lemma demux_frame:
  assumes "d \<noteq> []" "hd d = dollar" "4 + frame_length d \<le> length d"
  shows "demux rtp_ok d =
    map_option (\<lambda>(out, talk). if d ! 1 AND 1 = 0 \<and> rtp_ok (take (frame_length d) (drop 4 d))
                               then (out, take (frame_length d) (drop 4 d) # talk)
                               else (take 4 d @ take (frame_length d) (drop 4 d) @ out, talk))
      (demux rtp_ok (drop (4 + frame_length d) d))"
  using assms by (subst demux.simps) (simp add: Let_def)

lemma demux_items:
  "list_all item_ok its \<Longrightarrow>
   demux rtp_ok (concat (map item_bytes its)) = Some (passed_on rtp_ok its, talk_packets rtp_ok its)"
proof (induction its)
  case (Cons i its)
  show ?case
  proof (cases i)
    case (Text t)
    then show ?thesis using Cons by (simp add: demux_text passed_on_def talk_packets_def)
  next
    case (Frame ch p)
    let ?d = "item_bytes i @ concat (map item_bytes its)"
    have n: "frame_length ?d = length p"
      using Cons.prems by (simp add: Frame frame_length_def be16_def unat_of_nat_small16)
    have "?d = [dollar, ch] @ be16 (word_of_nat (length p)) @ p @ concat (map item_bytes its)" by (simp add: Frame)
    then have "drop 4 ?d = p @ concat (map item_bytes its)" "take 4 ?d = [dollar, ch] @ be16 (word_of_nat (length p))"
      "?d ! 1 = ch" "hd ?d = dollar" "4 + length p \<le> length ?d"
      by (simp_all add: be16_def)
    then show ?thesis
      using Cons demux_frame[of ?d rtp_ok] n
      by (simp add: Frame passed_on_def talk_packets_def drop_drop[symmetric] add.commute[of 4])
  qed
qed (simp add: passed_on_def talk_packets_def)

subsection \<open>The wrapper does what the reference does\<close>

lemma read_exactly_some: "n \<le> length (concat segs) \<Longrightarrow> \<exists>m r. read_exactly n segs = Some (m, r)"
proof (induction segs arbitrary: n)
  case (Cons s segs)
  show ?case
  proof (cases "n \<noteq> 0 \<and> \<not> n < length s")
    case True
    then obtain m r where "read_exactly (n - length s) segs = Some (m, r)"
      using Cons.IH[of "n - length s"] Cons.prems by (auto simp: le_diff_conv add.commute)
    then show ?thesis using True by simp
  qed auto
qed simp

lemma fill_to_some: "n \<le> length (data @ concat segs) \<Longrightarrow> \<exists>d r. fill_to n data segs = Some (d, r)"
  using read_exactly_some[of "n - length data" segs] by (auto simp: fill_to_def le_diff_conv add.commute)

lemma frame_length_append: "4 \<le> length d \<Longrightarrow> frame_length (d @ e) = frame_length d"
  by (simp add: frame_length_def nth_append)

lemma intercept_demux:
  "demux rtp_ok (data @ concat segs) = Some (o1, t1) \<Longrightarrow>
   \<exists>out talk r o2 t2. intercept rtp_ok data segs = (True, out, talk, r) \<and>
     demux rtp_ok (concat r) = Some (o2, t2) \<and> o1 = out @ o2 \<and> t1 = talk @ t2"
proof (induction rtp_ok data segs arbitrary: o1 t1 rule: intercept.induct)
  case (1 rtp_ok data segs)
  note dem = 1(3)
  consider "data = []" | "data \<noteq> []" "hd data \<noteq> dollar" | "data \<noteq> []" "hd data = dollar" by blast
  then show ?case
  proof cases
    case 1
    then show ?thesis using dem by (subst intercept.simps) auto
  next
    case 2
    let ?u = "takeWhile (\<lambda>b. b \<noteq> dollar) data" and ?v = "dropWhile (\<lambda>b. b \<noteq> dollar) data"
    have u: "dollar \<notin> set ?u" by (auto dest: set_takeWhileD)
    have "demux rtp_ok (?u @ (?v @ concat segs)) = Some (o1, t1)"
      using dem by (metis append_assoc takeWhile_dropWhile_id)
    then obtain o' where o': "demux rtp_ok (?v @ concat segs) = Some (o', t1)" "o1 = ?u @ o'"
      unfolding demux_text[OF u] by auto
    from 1(2)[OF 2 o'(1)] obtain out talk r o2 t2 where
      i: "intercept rtp_ok ?v segs = (True, out, talk, r)" "demux rtp_ok (concat r) = Some (o2, t2)"
        "o' = out @ o2" "t1 = talk @ t2" by blast
    then show ?thesis using intercept_text[OF 2 i(1)] o'(2) by simp
  next
    case 3
    let ?d = "data @ concat segs"
    have d: "?d \<noteq> []" "hd ?d = dollar" using 3 by simp_all
    then have len: "4 + frame_length ?d \<le> length ?d" using dem by (subst (asm) demux.simps) (auto split: if_splits)
    then obtain d1 segs1 where f1: "fill_to 4 data segs = Some (d1, segs1)"
      using fill_to_some[of 4 data segs] by auto
    note b1 = fill_to_bytes[OF f1]
    have n: "frame_length ?d = frame_length d1" using b1 frame_length_append[of d1 "concat segs1"] by simp
    obtain d2 segs2 where f2: "fill_to (4 + frame_length d1) d1 segs1 = Some (d2, segs2)"
      using fill_to_some[of "4 + frame_length d1" d1 segs1] len b1(1) n by auto
    note b2 = fill_to_bytes[OF f2]
    have d2: "?d = d2 @ concat segs2" using b1(1) b2(1) by simp
    have pay: "take (frame_length ?d) (drop 4 ?d) = take (frame_length d1) (drop 4 d2)"
      unfolding d2 using b2(2) n d2 by simp
    have "take 4 ?d = take 4 d1" "?d ! 1 = d1 ! 1" using b1 by (simp_all flip: b1(1) add: nth_append)
    moreover have "drop (4 + frame_length ?d) ?d = drop (4 + frame_length d1) d2 @ concat segs2"
      unfolding n unfolding d2 using b2(2) by simp
    ultimately obtain o' t' where dr: "demux rtp_ok (drop (4 + frame_length d1) d2 @ concat segs2) = Some (o', t')"
      and o1: "(o1, t1) = (if d1 ! 1 AND 1 = 0 \<and> rtp_ok (take (frame_length d1) (drop 4 d2))
         then (o', take (frame_length d1) (drop 4 d2) # t')
         else (take 4 d1 @ take (frame_length d1) (drop 4 d2) @ o', t'))"
      using dem demux_frame[OF d len, of rtp_ok] unfolding pay by (auto split: if_splits)
    from 1(1)[OF 3 f1 refl f2 refl refl refl dr] obtain out talk r o2 t2 where
      i: "intercept rtp_ok (drop (4 + frame_length d1) d2) segs2 = (True, out, talk, r)"
        "demux rtp_ok (concat r) = Some (o2, t2)" "o' = out @ o2" "t' = talk @ t2" by blast
    then show ?thesis using intercept_frame[OF 3 f1 f2 i(1)] o1 by (auto simp: Let_def split: if_splits)
  qed
qed

lemma fetch_demux:
  "demux rtp_ok (concat segs) = Some (o1, t1) \<Longrightarrow> fetch rtp_ok segs = (ok, out, talk, r) \<Longrightarrow>
   (if ok then out \<noteq> [] \<and> (\<exists>o2 t2. demux rtp_ok (concat r) = Some (o2, t2) \<and> o1 = out @ o2 \<and> t1 = talk @ t2)
    else o1 = [] \<and> out = [] \<and> t1 = talk)"
proof (induction rtp_ok segs arbitrary: o1 t1 ok out talk r rule: fetch.induct)
  case (2 rtp_ok s segs)
  show ?case
  proof (cases "s = []")
    case True
    then show ?thesis using 2(1)[OF True, of o1 t1] 2(3,4) by (simp add: fetch.simps(2))
  next
    case False
    let ?segs = "if length s \<le> read_size then segs else drop read_size s # segs"
    have "take read_size s @ concat ?segs = concat (s # segs)" by simp
    then obtain out1 talk1 r1 o2 t2 where i: "intercept rtp_ok (take read_size s) ?segs = (True, out1, talk1, r1)"
      "demux rtp_ok (concat r1) = Some (o2, t2)" "o1 = out1 @ o2" "t1 = talk1 @ t2"
      using intercept_demux[of rtp_ok "take read_size s" ?segs o1 t1] 2(3) by auto
    show ?thesis
    proof (cases "out1 = []")
      case True
      obtain ok3 out3 talk3 r3 where f: "fetch rtp_ok r1 = (ok3, out3, talk3, r3)" using prod_cases4 by blast
      from 2(2)[OF False i(1)[symmetric] refl refl _ i(2) f] True have
        "if ok3 then out3 \<noteq> [] \<and> (\<exists>o4 t4. demux rtp_ok (concat r3) = Some (o4, t4) \<and> o2 = out3 @ o4 \<and> t2 = talk3 @ t4)
         else o2 = [] \<and> out3 = [] \<and> t2 = talk3" by simp
      then show ?thesis using 2(4) False i f True by (auto simp: fetch.simps(2) split: if_splits)
    next
      case nonempty: False
      then show ?thesis using 2(4) False i by (auto simp: fetch.simps(2))
    qed
  qed
qed simp

text \<open>Reads with buffers of the given sizes, up to the end of the connection.\<close>

fun reads :: "(bytes \<Rightarrow> bool) \<Rightarrow> nat list \<Rightarrow> bytes \<times> bytes list \<Rightarrow> bytes \<times> bytes list" where
  "reads rtp_ok [] st = ([], [])"
| "reads rtp_ok (p # ps) st =
     (case conn_read rtp_ok p st of
        (None, talk, st1) \<Rightarrow> ([], talk)
      | (Some b, talk, st1) \<Rightarrow> (case reads rtp_ok ps st1 of (out, talk1) \<Rightarrow> (b @ out, talk @ talk1)))"

lemma reads_demux:
  "demux rtp_ok (concat segs) = Some (o1, t1) \<Longrightarrow> list_all (\<lambda>p. 0 < p) ps \<Longrightarrow> length (rbuf @ o1) < length ps \<Longrightarrow>
   reads rtp_ok ps (rbuf, segs) = (rbuf @ o1, t1)"
proof (induction ps arbitrary: rbuf segs o1 t1)
  case (Cons p ps)
  show ?case
  proof (cases "rbuf = []")
    case False
    have "length (drop p rbuf @ o1) < length ps" using Cons.prems(2,3) False by (cases rbuf) auto
    then have "reads rtp_ok ps (drop p rbuf, segs) = (drop p rbuf @ o1, t1)"
      using Cons.IH[OF Cons.prems(1)] Cons.prems(2) by simp
    then show ?thesis using False by (simp add: conn_read_def)
  next
    case True
    obtain ok out talk r where f: "fetch rtp_ok segs = (ok, out, talk, r)" using prod_cases4 by blast
    show ?thesis
    proof (cases ok)
      case False
      then show ?thesis using fetch_demux[OF Cons.prems(1) f] f True by (simp add: conn_read_def)
    next
      case ok: True
      then obtain o2 t2 where o2: "demux rtp_ok (concat r) = Some (o2, t2)" "o1 = out @ o2" "t1 = talk @ t2" "out \<noteq> []"
        using fetch_demux[OF Cons.prems(1) f] by auto
      have "length (drop p out @ o2) < length ps" using Cons.prems(2,3) o2(2,4) by (cases out) auto
      then have "reads rtp_ok ps (drop p out, r) = (drop p out @ o2, t2)"
        using Cons.IH[OF o2(1)] Cons.prems(2) by simp
      then show ?thesis using True ok f o2 by (simp add: conn_read_def)
    qed
  qed
qed simp

text \<open>
  C26. The wrapper around a connection does not depend on how the network cuts the stream:
  however text and frames are spread over segments and whatever buffers they are read into, gortsplib gets
  all bytes except the audio frames, in order, and the talk channel gets the payloads of the audio
  frames, each whole and once.
\<close>

theorem interleaved_audio_extracted:
  assumes "list_all item_ok its" "concat segs = concat (map item_bytes its)"
    and "list_all (\<lambda>p. 0 < p) sizes" "length (passed_on rtp_ok its) < length sizes"
  shows "reads rtp_ok sizes ([], segs) = (passed_on rtp_ok its, talk_packets rtp_ok its)"
  using reads_demux[of rtp_ok segs "passed_on rtp_ok its" "talk_packets rtp_ok its" sizes "[]"]
    demux_items[OF assms(1), of rtp_ok] assms(2-4) by simp

theorem interleaved_audio_extracted_witness:
  "reads (\<lambda>p. True) [1, 1, 1] ([], [[65, dollar], [4, 0], [2, 7], [8, 66]]) = ([65, 66], [[7, 8]])"
  using interleaved_audio_extracted[of "[Text [65], Frame 4 [7, 8], Text [66]]" "[[65, dollar], [4, 0], [2, 7], [8, 66]]"
      "[1, 1, 1]" "\<lambda>p. True"]
  by (simp add: dollar_def passed_on_def talk_packets_def be16_def)

text \<open>A dollar sign in a request is taken as the begin of a frame: the request does not arrive.\<close>

lemma dollar_in_request_stalls:
  "fetch rtp_ok [bytes_of ''PLAY rtsp://cam/$a RTSP/1.0''] = (False, bytes_of ''PLAY rtsp://cam/'', [], [])"
  by (subst fetch.simps(2)) code_simp

subsection \<open>Who is served\<close>

datatype peer = Conn nat | Sess nat

fun request_of :: "rtsp_event \<Rightarrow> rtsp_request option" where
  "request_of (Describe r) = Some r"
| "request_of (Setup r) = Some r"
| "request_of (Play r) = Some r"
| "request_of (Record r) = Some r"
| "request_of _ = None"

text \<open>
  Connections and sessions that were seen in the same request, and what hangs together with a connection that sent
  valid credentials.
\<close>

definition linked :: "rtsp_event list \<Rightarrow> (peer \<times> peer) set" where
  "linked es = {(a, b). \<exists>e \<in> set es. \<exists>r n. request_of e = Some r \<and> rq_session r = Some n \<and>
     ((a, b) = (Conn (rq_conn r), Sess n) \<or> (a, b) = (Sess n, Conn (rq_conn r)))}"

definition vouched :: "(rtsp_request \<Rightarrow> bool) \<Rightarrow> rtsp_event list \<Rightarrow> peer set" where
  "vouched valid es = (linked es)\<^sup>* `` {Conn (rq_conn r) | r. valid r \<and> (\<exists>e \<in> set es. request_of e = Some r)}"

lemma vouched_mono: "set es \<subseteq> set fs \<Longrightarrow> vouched valid es \<subseteq> vouched valid fs"
proof -
  assume "set es \<subseteq> set fs"
  then have "linked es \<subseteq> linked fs" unfolding linked_def by blast
  then have "(linked es)\<^sup>* \<subseteq> (linked fs)\<^sup>*" by (rule rtrancl_mono)
  then show ?thesis using \<open>set es \<subseteq> set fs\<close> unfolding vouched_def by blast
qed

lemma vouched_step: "a \<in> vouched valid es \<Longrightarrow> (a, b) \<in> linked es \<Longrightarrow> b \<in> vouched valid es"
  unfolding vouched_def by (blast intro: rtrancl.rtrancl_into_rtrancl)

lemma vouched_valid: "e \<in> set es \<Longrightarrow> request_of e = Some r \<Longrightarrow> valid r \<Longrightarrow> Conn (rq_conn r) \<in> vouched valid es"
  unfolding vouched_def by blast

lemma linked_request:
  "e \<in> set es \<Longrightarrow> request_of e = Some r \<Longrightarrow> rq_session r = Some n \<Longrightarrow>
   (Conn (rq_conn r), Sess n) \<in> linked es \<and> (Sess n, Conn (rq_conn r)) \<in> linked es"
  unfolding linked_def by blast

definition marks_ok :: "peer set \<Rightarrow> rtsp_server \<Rightarrow> bool" where
  "marks_ok P s \<longleftrightarrow> (\<forall>c \<in> marked_conns s. Conn c \<in> P) \<and> (\<forall>n \<in> marked_sessions s. Sess n \<in> P)"

lemma validate_auth_ok:
  assumes "validate_auth valid r so s = (ok, s1)" "marks_ok P s" "so = None \<or> so = rq_session r" "rs_user s \<noteq> []"
    and "valid r \<Longrightarrow> Conn (rq_conn r) \<in> P"
    and "\<And>n. rq_session r = Some n \<Longrightarrow> Conn (rq_conn r) \<in> P \<longleftrightarrow> Sess n \<in> P"
  shows "marks_ok P s1 \<and> (ok \<longrightarrow> Conn (rq_conn r) \<in> P) \<and> rs_user s1 = rs_user s"
  using assms
  by (cases so; cases "rq_session r")
    (auto simp: validate_auth_def marks_ok_def mark_conn_def mark_session_def split: if_splits)

lemma event_step_marks:
  assumes "rtsp_event_step valid e s = (ok, s1)" "marks_ok (vouched valid es) s" "e \<in> set es" "rs_user s \<noteq> []"
  shows "marks_ok (vouched valid es) s1 \<and> rs_user s1 = rs_user s \<and>
    (\<forall>r. request_of e = Some r \<longrightarrow> ok \<longrightarrow> Conn (rq_conn r) \<in> vouched valid es)"
proof (cases "request_of e")
  case None
  then show ?thesis
    using assms by (cases e) (auto simp: rtsp_event_step_def on_session_close_def handle_backchannel_def marks_ok_def
      Let_def split: if_splits)
next
  case (Some r)
  let ?P = "vouched valid es"
  have val: "valid r \<Longrightarrow> Conn (rq_conn r) \<in> ?P" by (rule vouched_valid[OF assms(3) Some])
  have link: "Conn (rq_conn r) \<in> ?P \<longleftrightarrow> Sess n \<in> ?P" if "rq_session r = Some n" for n
    using linked_request[OF assms(3) Some that] vouched_step by blast
  obtain ok0 s0 where v0: "validate_auth valid r None s = (ok0, s0)" by fastforce
  obtain ok2 s2 where v2: "validate_auth valid r (rq_session r) s = (ok2, s2)" by fastforce
  note facts = validate_auth_ok[OF v0 assms(2) _ assms(4) val link] validate_auth_ok[OF v2 assms(2) _ assms(4) val link]
  show ?thesis
    using Some facts assms(1) v0 v2
    by (cases e) (auto simp: rtsp_event_step_def on_describe_def on_setup_def on_play_def on_record_def marks_ok_def
      split: bool.splits if_splits option.splits)
qed

lemma run_marks:
  "rtsp_run valid es s = (oks, s1) \<Longrightarrow> marks_ok (vouched valid past) s \<Longrightarrow> rs_user s \<noteq> [] \<Longrightarrow>
   i < length es \<Longrightarrow> request_of (es ! i) = Some r \<Longrightarrow> oks ! i \<Longrightarrow>
   Conn (rq_conn r) \<in> vouched valid (past @ take (Suc i) es)"
proof (induction es arbitrary: s oks s1 i past)
  case (Cons e es)
  obtain ok s2 where st: "rtsp_event_step valid e s = (ok, s2)" by fastforce
  obtain oks2 s3 where run: "rtsp_run valid es s2 = (oks2, s3)" by fastforce
  have oks: "oks = ok # oks2" using Cons.prems(1) st run by simp
  have mono: "vouched valid past \<subseteq> vouched valid (past @ [e])" by (rule vouched_mono) auto
  then have "marks_ok (vouched valid (past @ [e])) s" using Cons.prems(2) unfolding marks_ok_def by blast
  note step = event_step_marks[OF st this _ Cons.prems(3)]
  show ?case
  proof (cases i)
    case 0
    then show ?thesis using step Cons.prems(5,6) oks by simp
  next
    case (Suc j)
    then show ?thesis
      using Cons.IH[OF run, of "past @ [e]" j] step Cons.prems oks by simp
  qed
qed simp

text \<open>
  C27. With a user configured, no request is granted to a stranger: if a request for the description, the setup,
  playing or recording is answered with OK, then its connection hangs together, through connections and sessions that
  shared a request, with one that sent valid credentials, at the latest in this request.
\<close>

theorem rtsp_grants_vouched:
  assumes "rtsp_run valid es (new_rtsp path codec user) = (oks, s)" "user \<noteq> []"
    and "i < length es" "request_of (es ! i) = Some r" "oks ! i"
  shows "Conn (rq_conn r) \<in> vouched valid (take (Suc i) es)"
  using run_marks[OF assms(1), of "[]" i r] assms(2-5) by (simp add: new_rtsp_def marks_ok_def)

definition plain_request :: "nat \<Rightarrow> string option \<Rightarrow> rtsp_request" where
  "plain_request c a = \<lparr>rq_conn = c, rq_session = None, rq_auth = a, rq_path = ''live''\<rparr>"

theorem rtsp_grants_vouched_witness:
  "Conn 7 \<in> vouched (\<lambda>r. rq_auth r = Some ''ok'') [Describe (plain_request 7 (Some ''ok''))]"
proof -
  have "rtsp_run (\<lambda>r. rq_auth r = Some ''ok'') [Describe (plain_request 7 (Some ''ok''))] (new_rtsp [] [] ''me'') =
    ([True], (new_rtsp [] [] ''me'')\<lparr>marked_conns := {7}\<rparr>)" by (simp add: rtsp_event_step_def on_describe_def
      validate_auth_def mark_conn_def mark_session_def new_rtsp_def plain_request_def check_path_def trim_prefix_def has_prefix_def)
  from rtsp_grants_vouched[OF this, of 0 "plain_request 7 (Some ''ok'')"] show ?thesis by (simp add: plain_request_def)
qed

subsection \<open>Playing clients\<close>

definition playing_ok :: "rtsp_server \<Rightarrow> bool" where
  "playing_ok s \<longleftrightarrow> distinct (playing s) \<and> active_clients s = int (length (playing s))"

lemma validate_auth_playing:
  "validate_auth valid r so s = (ok, s1) \<Longrightarrow> playing s1 = playing s \<and> active_clients s1 = active_clients s"
  by (auto simp: validate_auth_def mark_conn_def mark_session_def split: if_splits option.splits)

fun now_playing :: "nat set \<Rightarrow> (rtsp_event \<times> bool) list \<Rightarrow> nat set" where
  "now_playing P [] = P"
| "now_playing P ((Play r, True) # es) = now_playing (case rq_session r of Some n \<Rightarrow> insert n P | None \<Rightarrow> P) es"
| "now_playing P ((SessionClose n, ok) # es) = now_playing (P - {n}) es"
| "now_playing P (_ # es) = now_playing P es"

lemma event_step_playing:
  assumes "rtsp_event_step valid e s = (ok, s1)" "playing_ok s"
  shows "playing_ok s1 \<and> set (playing s1) = now_playing (set (playing s)) [(e, ok)]"
proof (cases e)
  case (Play r)
  obtain ok2 s2 where "validate_auth valid r (rq_session r) s = (ok2, s2)" by fastforce
  then show ?thesis
    using assms validate_auth_playing[of valid r "rq_session r" s ok2 s2]
    by (auto simp: Play rtsp_event_step_def on_play_def playing_ok_def split: bool.splits option.splits if_splits)
next
  case (SessionClose n)
  have "length (remove1 n xs) = length xs - 1 \<and> 0 < length xs" if "n \<in> set xs" for xs
    using that length_pos_if_in_set[OF that] by (simp add: length_remove1)
  then show ?thesis
    using assms by (auto simp: SessionClose rtsp_event_step_def on_session_close_def playing_ok_def Let_def
        set_remove1_eq of_nat_diff Suc_le_eq split: if_splits)
qed (use assms in \<open>auto simp: rtsp_event_step_def on_describe_def on_setup_def on_record_def handle_backchannel_def
      playing_ok_def dest!: validate_auth_playing split: prod.splits bool.splits if_splits\<close>)

lemma now_playing_step: "now_playing P (x # xs) = now_playing (now_playing P [x]) xs"
  by (cases x rule: prod.exhaust; rename_tac e ok; case_tac e; case_tac ok) (auto split: option.splits)

lemma run_playing:
  "rtsp_run valid es s = (oks, s1) \<Longrightarrow> playing_ok s \<Longrightarrow>
   playing_ok s1 \<and> set (playing s1) = now_playing (set (playing s)) (zip es oks)"
proof (induction es arbitrary: s oks s1)
  case (Cons e es)
  obtain ok s2 where st: "rtsp_event_step valid e s = (ok, s2)" by fastforce
  obtain oks2 s3 where run: "rtsp_run valid es s2 = (oks2, s3)" by fastforce
  have eq: "oks = ok # oks2" "s1 = s3" using Cons.prems(1) st run by simp_all
  note step = event_step_playing[OF st Cons.prems(2)]
  with Cons.IH[OF run] have "set (playing s3) = now_playing (now_playing (set (playing s)) [(e, ok)]) (zip es oks2)" "playing_ok s3"
    by simp_all
  then show ?case unfolding eq by (metis now_playing_step zip_Cons_Cons)
qed simp

text \<open>
  The count of active clients, which the poller of recordings goes by, is exact in every run: it
  is the number of sessions that were granted \<^verbatim>\<open>PLAY\<close> and have not been closed since,
  however often a session plays or is closed again.
\<close>

theorem active_clients_exact:
  assumes "rtsp_run valid es (new_rtsp path codec user) = (oks, s)"
  shows "active_count s = int (card (now_playing {} (zip es oks)))"
proof -
  have "playing_ok (new_rtsp path codec user)" "playing (new_rtsp path codec user) = []"
    by (simp_all add: playing_ok_def new_rtsp_def)
  then have "playing_ok s" "set (playing s) = now_playing {} (zip es oks)" using run_playing[OF assms] by simp_all
  then show ?thesis by (metis active_count_def distinct_card of_nat_less_0_iff playing_ok_def)
qed

theorem active_clients_exact_witness:
  "active_count (snd (rtsp_run (\<lambda>r. True) [Play ((plain_request 1 None)\<lparr>rq_session := Some 4\<rparr>), SessionClose 4,
     Play ((plain_request 1 None)\<lparr>rq_session := Some 5\<rparr>)] (new_rtsp [] [] []))) = 1"
proof -
  let ?es = "[Play ((plain_request 1 None)\<lparr>rq_session := Some 4\<rparr>), SessionClose 4, Play ((plain_request 1 None)\<lparr>rq_session := Some 5\<rparr>)]"
  obtain oks s where run: "rtsp_run (\<lambda>r. True) ?es (new_rtsp [] [] []) = (oks, s)" by fastforce
  have "oks = [True, True, True]"
    using run by (auto simp: rtsp_event_step_def on_play_def validate_auth_def new_rtsp_def on_session_close_def
      plain_request_def Let_def split: prod.splits)
  then show ?thesis using active_clients_exact[OF run] run by (simp add: plain_request_def)
qed

subsection \<open>One talker\<close>

fun is_closing :: "nat \<Rightarrow> rtsp_event \<Rightarrow> bool" where
  "is_closing a (SessionClose n) \<longleftrightarrow> n = a"
| "is_closing a _ \<longleftrightarrow> False"

fun is_talking :: "rtsp_event \<Rightarrow> bool" where
  "is_talking (Talk t who) \<longleftrightarrow> True"
| "is_talking _ \<longleftrightarrow> False"

lemma validate_auth_talker:
  "validate_auth valid r so s = (ok, s1) \<Longrightarrow> talker s1 = talker s \<and> last_talk s1 = last_talk s"
  by (auto simp: validate_auth_def mark_conn_def mark_session_def split: if_splits option.splits)

lemma event_step_talker:
  assumes "rtsp_event_step valid e s = (ok, s1)" "talker s = Some a" "\<not> is_closing a e" "\<not> (is_talking e \<and> ok)"
  shows "talker s1 = Some a \<and> last_talk s1 = last_talk s"
proof (cases e)
  case (SessionClose n)
  then show ?thesis using assms by (auto simp: rtsp_event_step_def on_session_close_def Let_def)
next
  case (Talk t who)
  then show ?thesis using assms by (auto simp: rtsp_event_step_def handle_backchannel_def split: if_splits)
qed (use assms in \<open>auto simp: rtsp_event_step_def on_describe_def on_setup_def on_record_def on_play_def
      dest!: validate_auth_talker split: prod.splits bool.splits if_splits option.splits\<close>)

lemma run_talker:
  "rtsp_run valid es s = (oks, s1) \<Longrightarrow> talker s = Some a \<Longrightarrow>
   list_all2 (\<lambda>e ok. \<not> is_closing a e \<and> \<not> (is_talking e \<and> ok)) es oks \<Longrightarrow>
   talker s1 = Some a \<and> last_talk s1 = last_talk s"
proof (induction es arbitrary: s oks s1)
  case (Cons e es)
  obtain ok s2 where st: "rtsp_event_step valid e s = (ok, s2)" by fastforce
  obtain oks2 s3 where run: "rtsp_run valid es s2 = (oks2, s3)" by fastforce
  have "oks = ok # oks2" "s1 = s3" using Cons.prems(1) st run by simp_all
  then show ?case
    using Cons.IH[OF run] event_step_talker[OF st Cons.prems(2)] Cons.prems(3) by simp
qed simp

text \<open>
  One session talks at a time: after a packet of a session has been forwarded, the next packet that is
  forwarded from anyone else comes more than two seconds later, whatever happens in between, unless the
  session is closed.
\<close>

theorem one_talker_at_a_time:
  assumes "handle_backchannel t1 (Some a) s0 = (True, s1)" "rtsp_run valid es s1 = (oks, s2)"
    and "list_all2 (\<lambda>e ok. \<not> is_closing a e \<and> \<not> (is_talking e \<and> ok)) es oks"
    and "handle_backchannel t2 who s2 = (True, s3)" "who \<noteq> Some a"
  shows "t2 - t1 > talk_timeout"
proof -
  have "talker s1 = Some a" "last_talk s1 = t1"
    using assms(1) by (auto simp: handle_backchannel_def split: if_splits)
  then have "talker s2 = Some a" "last_talk s2 = t1" using run_talker[OF assms(2) _ assms(3)] by simp_all
  then show ?thesis using assms(4,5) by (auto simp: handle_backchannel_def split: if_splits)
qed

theorem one_talker_at_a_time_witness:
  "\<not> fst (handle_backchannel 2000000000 (Some 2) (snd (rtsp_run (\<lambda>r. False) [SessionClose 2]
     (snd (handle_backchannel 0 (Some 1) (new_rtsp [] [] []))))))"
proof
  let ?s1 = "snd (handle_backchannel 0 (Some 1) (new_rtsp [] [] []))"
  let ?s2 = "snd (rtsp_run (\<lambda>r. False) [SessionClose 2] ?s1)"
  assume "fst (handle_backchannel 2000000000 (Some 2) ?s2)"
  then have t: "handle_backchannel 2000000000 (Some 2) ?s2 = (True, snd (handle_backchannel 2000000000 (Some 2) ?s2))"
    by (metis prod.collapse)
  have h: "handle_backchannel 0 (Some 1) (new_rtsp [] [] []) = (True, ?s1)"
    by (simp add: handle_backchannel_def new_rtsp_def)
  have r: "rtsp_run (\<lambda>r. False) [SessionClose 2] ?s1 = ([True], ?s2)" by (simp add: rtsp_event_step_def)
  from one_talker_at_a_time[OF h r _ t] show False by (simp add: talk_timeout_def)
qed

text \<open>
  Interleaved frames and datagrams name no session and need no credentials: their packets are forwarded on a
  server with a user, and two such clients talk at the same time.
\<close>

lemma nameless_talk_needs_nothing:
  assumes "talker s = None"
  shows "handle_backchannel now None s = (True, s\<lparr>last_talk := now\<rparr>)"
    "talker (s\<lparr>last_talk := now\<rparr>) = None"
  using assms by (simp_all add: handle_backchannel_def)

end
