(* ===== verification/Media_Session_Proofs.thy ===== *)
theory Media_Session_Proofs
  imports Media_Session
begin

text \<open>
  Properties of a running session: sound is cut into frames without loss and independently of the packets it
  comes in, a session is only ended for a reason, and the session descriptions lose exactly the
  candidates they should.
\<close>

subsection \<open>Cutting a stream into frames\<close>

text \<open>
  The contract of a loop that takes frames of one size off a buffer, each with a header from a running state.
\<close>

locale framing =
  fixes size :: nat
    and run :: "bytes \<Rightarrow> 's \<Rightarrow> 'f list \<times> bytes \<times> 's"
    and frame :: "bytes \<Rightarrow> 's \<Rightarrow> 'f"
    and payload :: "'f \<Rightarrow> bytes"
    and next_state :: "'s \<Rightarrow> 's"
  assumes size_pos: "0 < size"
    and run_short: "length buf < size \<Longrightarrow> run buf s = ([], buf, s)"
    and run_long: "size \<le> length buf \<Longrightarrow> run buf s =
      (case run (drop size buf) (next_state s) of (fs, r, t) \<Rightarrow> (frame (take size buf) s # fs, r, t))"
    and payload_frame [simp]: "payload (frame x s) = x"
begin

lemma run_frames:
  "run buf s = (fs, r, t) \<Longrightarrow>
   concat (map payload fs) @ r = buf \<and> length r < size \<and> list_all (\<lambda>f. length (payload f) = size) fs \<and>
   t = (next_state ^^ length fs) s \<and> (\<forall>i < length fs. fs ! i = frame (payload (fs ! i)) ((next_state ^^ i) s))"
proof (induction "length buf" arbitrary: buf s fs r t rule: less_induct)
  case less
  show ?case
  proof (cases "length buf < size")
    case True
    then show ?thesis using less.prems run_short[OF True, of s] by simp
  next
    case False
    obtain fs1 r1 t1 where run1: "run (drop size buf) (next_state s) = (fs1, r1, t1)" using prod_cases3 by blast
    have fs: "fs = frame (take size buf) s # fs1" "r = r1" "t = t1"
      using less.prems run_long[of buf s] False run1 by simp_all
    have "length (drop size buf) < length buf" using False size_pos by simp
    note ih = less.hyps[OF this run1]
    have "concat (map payload fs) @ r = take size buf @ drop size buf" using ih fs by simp
    moreover have "\<forall>i < length fs. fs ! i = frame (payload (fs ! i)) ((next_state ^^ i) s)"
    proof (intro allI impI)
      fix i assume i: "i < length fs"
      show "fs ! i = frame (payload (fs ! i)) ((next_state ^^ i) s)"
      proof (cases i)
        case (Suc j)
        then show ?thesis using ih i fs by (simp add: funpow_swap1)
      qed (simp add: fs)
    qed
    ultimately show ?thesis using ih fs False by (simp add: funpow_swap1)
  qed
qed

text \<open>Feeding the loop piece by piece, each behind what was left of the one before.\<close>

fun feed :: "bytes list \<Rightarrow> bytes \<Rightarrow> 's \<Rightarrow> 'f list \<times> bytes \<times> 's" where
  "feed [] buf s = ([], buf, s)"
| "feed (d # ds) buf s =
     (case run (buf @ d) s of (fs, r, t) \<Rightarrow> case feed ds r t of (fs1, r1, t1) \<Rightarrow> (fs @ fs1, r1, t1))"

lemma run_append:
  "run buf s = (fs, r, t) \<Longrightarrow> run (buf @ d) s = (case run (r @ d) t of (fs1, r1, t1) \<Rightarrow> (fs @ fs1, r1, t1))"
proof (induction "length buf" arbitrary: buf s fs r t rule: less_induct)
  case less
  show ?case
  proof (cases "length buf < size")
    case True
    then show ?thesis using less.prems run_short[OF True, of s] by (simp split: prod.split)
  next
    case False
    obtain fs1 r1 t1 where run1: "run (drop size buf) (next_state s) = (fs1, r1, t1)" using prod_cases3 by blast
    have fs: "fs = frame (take size buf) s # fs1" "r = r1" "t = t1"
      using less.prems run_long[of buf s] False run1 by simp_all
    have "length (drop size buf) < length buf" using False size_pos by simp
    note ih = less.hyps[OF this run1]
    show ?thesis using run_long[of "buf @ d" s] False ih fs by (simp split: prod.split)
  qed
qed

lemma feed_is_run: "length buf < size \<Longrightarrow> feed ds buf s = run (buf @ concat ds) s"
proof (induction ds arbitrary: buf s)
  case (Cons d ds)
  obtain fs r t where run: "run (buf @ d) s = (fs, r, t)" using prod_cases3 by blast
  then show ?case
    using Cons.IH[of r t] run_frames[OF run] run_append[OF run, of "concat ds"] by (simp split: prod.split)
qed (simp add: run_short)

end

subsection \<open>The transcoder\<close>

lemma frame_bytes_pos: "0 < frame_bytes"
  by (simp add: frame_bytes_def frame_samples_def)

definition encode_all :: "bytes \<Rightarrow> u64 \<Rightarrow> (bytes \<times> int) list \<times> bytes \<times> u64" where
  "encode_all buf n = (case encode_frames (\<lambda>_. True) buf n of (fs, ok, rest, m) \<Rightarrow> (fs, rest, m))"

lemma encode_frames_ok: "fst (snd (encode_frames (\<lambda>_. True) buf n))"
proof (induction "length buf" arbitrary: buf n rule: less_induct)
  case less
  show ?case
  proof (cases "length buf < frame_bytes")
    case False
    then have "length (drop frame_bytes buf) < length buf" using frame_bytes_pos by simp
    note ih = less.hyps[OF this, of "n + word_of_nat frame_samples"]
    obtain fs ok r m where
      "encode_frames (\<lambda>_. True) (drop frame_bytes buf) (n + word_of_nat frame_samples) = (fs, ok, r, m)"
      using prod_cases4 by blast
    then show ?thesis using ih False by (subst encode_frames.simps) (simp add: Let_def)
  qed (simp add: encode_frames.simps)
qed

interpretation aac: framing frame_bytes encode_all "\<lambda>x n. (x, pts_of n)" fst "\<lambda>n. n + word_of_nat frame_samples"
proof unfold_locales
  show "length buf < frame_bytes \<Longrightarrow> encode_all buf s = ([], buf, s)" for buf s
    by (simp add: encode_all_def encode_frames.simps)
  show "frame_bytes \<le> length buf \<Longrightarrow> encode_all buf s =
      (case encode_all (drop frame_bytes buf) (s + word_of_nat frame_samples) of
         (fs, r, t) \<Rightarrow> ((take frame_bytes buf, pts_of s) # fs, r, t))" for buf s
    by (subst (1) encode_all_def, subst encode_frames.simps) (simp add: encode_all_def Let_def split: prod.split)
qed (simp_all add: frame_bytes_pos)

text \<open>Packets through the transcoder, with an encoder that does not fail.\<close>

fun transcode :: "(byte \<Rightarrow> sample) \<Rightarrow> bytes list \<Rightarrow> transcoder \<Rightarrow> (bytes \<times> int) list \<times> transcoder" where
  "transcode dec [] t = ([], t)"
| "transcode dec (d # ds) t =
     (case process_pcm dec (\<lambda>_. True) d t of
        (Some (fs, ok), t1) \<Rightarrow> (case transcode dec ds t1 of (fs1, t2) \<Rightarrow> (fs @ fs1, t2))
      | (None, t1) \<Rightarrow> transcode dec ds t1)"

definition pcm_of :: "(byte \<Rightarrow> sample) \<Rightarrow> bytes \<Rightarrow> bytes" where
  "pcm_of dec d = sample_bytes (resample_16k (map dec d))"

lemma process_pcm_run:
  assumes "tc_open t" "length (tc_buf t) < frame_bytes" "encode_all (tc_buf t @ pcm_of dec d) (tc_count t) = (fs, r, n)"
  shows "process_pcm dec (\<lambda>_. True) d t = (Some (fs, True), t\<lparr>tc_buf := r, tc_count := n\<rparr>)"
proof (cases "d = []")
  case True
  then have "fs = [] \<and> r = tc_buf t \<and> n = tc_count t"
    using assms(2,3) aac.run_short[of "tc_buf t" "tc_count t"] by (simp add: pcm_of_def sample_bytes_def)
  then show ?thesis using True by (simp add: process_pcm_def)
next
  case False
  obtain fs1 ok1 r1 n1 where e: "encode_frames (\<lambda>_. True) (tc_buf t @ pcm_of dec d) (tc_count t) = (fs1, ok1, r1, n1)"
    using prod_cases4 by blast
  then have "ok1" using encode_frames_ok[of "tc_buf t @ pcm_of dec d" "tc_count t"] by simp
  then show ?thesis using assms False e by (simp add: process_pcm_def pcm_of_def encode_all_def)
qed

lemma transcode_feed:
  "tc_open t \<Longrightarrow> length (tc_buf t) < frame_bytes \<Longrightarrow> transcode dec ds t = (fs, t1) \<Longrightarrow>
   \<exists>r n. aac.feed (map (pcm_of dec) ds) (tc_buf t) (tc_count t) = (fs, r, n) \<and> t1 = t\<lparr>tc_buf := r, tc_count := n\<rparr>"
proof (induction ds arbitrary: t fs t1)
  case (Cons d ds)
  obtain fs2 r2 n2 where e: "encode_all (tc_buf t @ pcm_of dec d) (tc_count t) = (fs2, r2, n2)" using prod_cases3 by blast
  let ?t = "t\<lparr>tc_buf := r2, tc_count := n2\<rparr>"
  obtain fs3 t3 where tr: "transcode dec ds ?t = (fs3, t3)" by fastforce
  have "length r2 < frame_bytes" using aac.run_frames[OF e] by simp
  then obtain r n where "aac.feed (map (pcm_of dec) ds) r2 n2 = (fs3, r, n)" "t3 = ?t\<lparr>tc_buf := r, tc_count := n\<rparr>"
    using Cons.IH[of ?t fs3 t3] Cons.prems tr by auto
  then show ?case using Cons.prems process_pcm_run[OF Cons.prems(1,2) e] tr e by simp
qed simp

lemma count_after: "((\<lambda>n. n + word_of_nat frame_samples) ^^ i) 0 = (word_of_nat (1024 * i) :: u64)"
  by (induction i) (simp_all add: frame_samples_def algebra_simps)

lemma sint_small:
  assumes "k < 2 ^ 63"
  shows "sint (word_of_nat k :: u64) = int k"
proof -
  have "sint (word_of_int (int k) :: u64) = int k"
    using assms by (subst signed_of_int) (simp add: signed_take_bit_int_eq_self)
  then show ?thesis by simp
qed

lemma pts_of_small:
  assumes "i \<le> 9007199"
  shows "pts_of (((\<lambda>n. n + word_of_nat frame_samples) ^^ i) 0) = 64000000 * int i"
proof -
  have "sint (word_of_nat (1024 * i) :: u64) = int (1024 * i)" using assms by (intro sint_small) simp
  then show ?thesis unfolding count_after pts_of_def
    using assms by (cases "i = 0") (simp_all add: wrap64_def aac_rate_def go_div_def signed_take_bit_int_eq_self sgn_if del: of_nat_mult)
qed

lemma transcoder_run:
  assumes "transcode dec ds new_transcoder = (fs, t)"
  shows "\<exists>n. encode_all (concat (map (pcm_of dec) ds)) 0 = (fs, tc_buf t, n)"
proof -
  obtain r n where "aac.feed (map (pcm_of dec) ds) [] 0 = (fs, r, n)" "tc_buf t = r"
    using transcode_feed[of new_transcoder dec ds fs t] assms frame_bytes_pos by (auto simp: new_transcoder_def)
  then show ?thesis using aac.feed_is_run[of "[]"] frame_bytes_pos by auto
qed

lemma transcoder_stamps:
  assumes "transcode dec ds new_transcoder = (fs, t)" "i < length fs" "i < 9007200"
  shows "snd (fs ! i) = 64000000 * int i"
proof -
  obtain n where "encode_all (concat (map (pcm_of dec) ds)) 0 = (fs, tc_buf t, n)" using transcoder_run[OF assms(1)] ..
  then have "fs ! i = (fst (fs ! i), pts_of (((\<lambda>n. n + word_of_nat frame_samples) ^^ i) 0))"
    using aac.run_frames assms(2) by simp
  from arg_cong[OF this, of snd] show ?thesis using pts_of_small[of i] assms(3) by simp
qed



text \<open>One frame later the product of samples and nanoseconds no longer fits: the time jumps to before the start.\<close>

lemma pts_overflow: "pts_of (word_of_nat (1024 * 9007200)) < 0"
proof -
  have "sint (word_of_nat (1024 * 9007200) :: u64) = 9223372800" using sint_small[of "1024 * 9007200"] by simp
  then have "pts_of (word_of_nat (1024 * 9007200)) = go_div (wrap64 9223372800000000000) aac_rate"
    unfolding pts_of_def by simp
  also have "\<dots> < 0" by code_simp
  finally show ?thesis .
qed

subsection \<open>The back channel\<close>

definition send_all :: "bytes \<Rightarrow> u16 \<times> u32 \<Rightarrow> rtp_out list \<times> bytes \<times> (u16 \<times> u32)" where
  "send_all buf n =
     (case send_frames [] \<lparr>bc_track = True, bc_buf = buf, bc_seq = fst n, bc_ts = snd n\<rparr> of
        (ps, ok, b) \<Rightarrow> (ps, bc_buf b, (bc_seq b, bc_ts b)))"

lemma send_frames_ok: "fst (snd (send_frames [] b)) \<and> bc_track (snd (snd (send_frames [] b))) = bc_track b"
proof (induction "length (bc_buf b)" arbitrary: b rule: less_induct)
  case less
  let ?b = "b\<lparr>bc_buf := drop pcmu_frame (bc_buf b), bc_seq := bc_seq b + 1, bc_ts := bc_ts b + word_of_nat pcmu_frame\<rparr>"
  show ?case
  proof (cases "length (bc_buf b) < pcmu_frame")
    case False
    then have "length (bc_buf ?b) < length (bc_buf b)" by (simp add: pcmu_frame_def)
    note ih = less.hyps[OF this]
    obtain ps ok b2 where "send_frames [] ?b = (ps, ok, b2)" using prod_cases3 by blast
    then show ?thesis using ih False by (subst (1 2) send_frames.simps) (simp add: Let_def)
  qed (simp add: send_frames.simps)
qed

interpretation pcmu: framing pcmu_frame send_all
  "\<lambda>x n. \<lparr>ro_seq = fst n, ro_ts = snd n, ro_payload = x\<rparr>" ro_payload "\<lambda>n. (fst n + 1, snd n + word_of_nat pcmu_frame)"
proof unfold_locales
  show "0 < pcmu_frame" by (simp add: pcmu_frame_def)
  show "length buf < pcmu_frame \<Longrightarrow> send_all buf s = ([], buf, s)" for buf s
    by (simp add: send_all_def send_frames.simps)
  show "pcmu_frame \<le> length buf \<Longrightarrow> send_all buf s =
      (case send_all (drop pcmu_frame buf) (fst s + 1, snd s + word_of_nat pcmu_frame) of
         (fs, r, t) \<Rightarrow> (\<lparr>ro_seq = fst s, ro_ts = snd s, ro_payload = take pcmu_frame buf\<rparr> # fs, r, t))" for buf s
    by (subst (1) send_all_def, subst send_frames.simps) (simp add: send_all_def Let_def split: prod.split)
qed simp

text \<open>The writes of a talk, one after the other; the errors are dropped, as by the caller.\<close>

fun talk :: "bytes list \<Rightarrow> backchannel \<Rightarrow> rtp_out list \<times> backchannel" where
  "talk [] b = ([], b)"
| "talk (d # ds) b =
     (case write_backchannel [] d b of (ps, e, b1) \<Rightarrow> case talk ds b1 of (qs, b2) \<Rightarrow> (ps @ qs, b2))"

lemma write_backchannel_run:
  assumes "bc_track b" "length (bc_buf b) < pcmu_frame" "send_all (bc_buf b @ d) (bc_seq b, bc_ts b) = (ps, r, n, t)"
  shows "write_backchannel [] d b = (ps, None, b\<lparr>bc_buf := r, bc_seq := n, bc_ts := t\<rparr>)"
proof (cases "d = []")
  case True
  then show ?thesis
    using assms pcmu.run_short[of "bc_buf b" "(bc_seq b, bc_ts b)"] by (simp add: write_backchannel_def)
next
  case False
  let ?b = "b\<lparr>bc_buf := bc_buf b @ d\<rparr>"
  obtain ps1 ok b1 where e: "send_frames [] ?b = (ps1, ok, b1)" using prod_cases3 by blast
  have b: "\<lparr>bc_track = True, bc_buf = bc_buf b @ d, bc_seq = bc_seq b, bc_ts = bc_ts b\<rparr> = ?b"
    using assms(1) by simp
  have "ok" "bc_track b1" using send_frames_ok[of ?b] e assms(1) by simp_all
  moreover have "ps = ps1" "r = bc_buf b1" "n = bc_seq b1" "t = bc_ts b1"
    using assms(3) e b by (simp_all add: send_all_def)
  ultimately show ?thesis using False e assms(1) by (simp add: write_backchannel_def)
qed

lemma talk_feed:
  "bc_track b \<Longrightarrow> length (bc_buf b) < pcmu_frame \<Longrightarrow> talk ds b = (ps, b1) \<Longrightarrow>
   \<exists>r n t. pcmu.feed ds (bc_buf b) (bc_seq b, bc_ts b) = (ps, r, n, t) \<and> b1 = b\<lparr>bc_buf := r, bc_seq := n, bc_ts := t\<rparr>"
proof (induction ds arbitrary: b ps b1)
  case (Cons d ds)
  obtain ps2 r2 n2 t2 where e: "send_all (bc_buf b @ d) (bc_seq b, bc_ts b) = (ps2, r2, n2, t2)" using prod_cases4 by blast
  let ?b = "b\<lparr>bc_buf := r2, bc_seq := n2, bc_ts := t2\<rparr>"
  obtain ps3 b3 where tr: "talk ds ?b = (ps3, b3)" by fastforce
  have "length r2 < pcmu_frame" using pcmu.run_frames[OF e] by simp
  then obtain r n t where
    "pcmu.feed ds r2 (n2, t2) = (ps3, r, n, t)" "b3 = ?b\<lparr>bc_buf := r, bc_seq := n, bc_ts := t\<rparr>"
    using Cons.IH[of ?b ps3 b3] Cons.prems tr by auto
  then show ?case using Cons.prems write_backchannel_run[OF Cons.prems(1,2) e] tr e by simp
qed simp

lemma pcmu_state: "((\<lambda>n. (fst n + 1, snd n + word_of_nat pcmu_frame)) ^^ i) (s :: u16, t :: u32) =
  (s + word_of_nat i, t + word_of_nat (160 * i))"
  by (induction i) (simp_all add: pcmu_frame_def algebra_simps)

text \<open>
  What a client says arrives at the camera as it was said: however its audio is split into writes, the packets of the
  back channel carry it in order in pieces of 160 samples, numbered consecutively from where the track was (modulo
  the width of the counters), with time stamps 160 apart; less than a packet waits for more, and a talk
  that ends there loses these last milliseconds.
\<close>

theorem talk_frames_stream:
  assumes "bc_track b" "bc_buf b = []" "talk ds b = (ps, b1)"
  shows "concat (map ro_payload ps) @ bc_buf b1 = concat ds \<and> length (bc_buf b1) < 160 \<and>
    (\<forall>i < length ps. length (ro_payload (ps ! i)) = 160 \<and> ro_seq (ps ! i) = bc_seq b + word_of_nat i \<and>
       ro_ts (ps ! i) = bc_ts b + word_of_nat (160 * i))"
proof -
  obtain r n t where f: "pcmu.feed ds [] (bc_seq b, bc_ts b) = (ps, r, n, t)" "bc_buf b1 = r"
    using talk_feed[of b ds ps b1] assms by (auto simp: pcmu_frame_def)
  then have run: "send_all (concat ds) (bc_seq b, bc_ts b) = (ps, r, n, t)"
    using pcmu.feed_is_run[of "[]"] by (simp add: pcmu_frame_def)
  note frames = pcmu.run_frames[OF run]
  have "ro_seq (ps ! i) = bc_seq b + word_of_nat i \<and> ro_ts (ps ! i) = bc_ts b + word_of_nat (160 * i)"
    if "i < length ps" for i
  proof -
    have "ps ! i = \<lparr>ro_seq = bc_seq b + word_of_nat i, ro_ts = bc_ts b + word_of_nat (160 * i), ro_payload = ro_payload (ps ! i)\<rparr>"
      using frames that unfolding pcmu_state by simp
    from arg_cong[OF this, of ro_seq] arg_cong[OF this, of ro_ts] show ?thesis by simp
  qed
  then show ?thesis using frames f(2) by (auto simp: list_all_length pcmu_frame_def)
qed

subsection \<open>Resampling\<close>

definition between :: "sample \<Rightarrow> sample \<Rightarrow> sample \<Rightarrow> bool" where
  "between a b x \<longleftrightarrow> min (sint a) (sint b) \<le> sint x \<and> sint x \<le> max (sint a) (sint b)"

lemma between_refl [simp]: "between a b a" "between a b b"
  by (simp_all add: between_def)

lemma sample_range: "- 32768 \<le> sint (a :: sample)" "sint a < 32768"
  using sint_ge[of a] sint_lt[of a] by simp_all

lemma to_sample_between:
  assumes "min (sint a) (sint b) \<le> i" "i \<le> max (sint a) (sint b)"
  shows "between a b (to_sample i)"
proof -
  have "- 32768 \<le> i" "i < 32768" using assms sample_range[of a] sample_range[of b] by (auto simp: min_def max_def split: if_splits)
  then have "sint (to_sample i) = i"
    unfolding to_sample_def by (subst signed_of_int) (simp add: signed_take_bit_int_eq_self)
  then show ?thesis using assms by (simp add: between_def)
qed

lemma go_div_pos: "0 < k \<Longrightarrow> 0 \<le> i \<Longrightarrow> go_div i k = i div k"
  by (cases "i = 0") (simp_all add: go_div_def sgn_if)

lemma go_div_neg: "0 < k \<Longrightarrow> i \<le> 0 \<Longrightarrow> go_div i k = - (- i div k)"
  by (cases "i = 0") (simp_all add: go_div_def sgn_if)

lemma go_div_mean:
  assumes "lo \<le> x" "lo \<le> y" "x \<le> hi" "y \<le> hi"
  shows "lo \<le> go_div (x + y) 2 \<and> go_div (x + y) 2 \<le> hi"
proof (cases "0 \<le> x + y")
  case True
  then have "go_div (x + y) 2 = (x + y) div 2" by (simp add: go_div_pos)
  then show ?thesis using assms by linarith
next
  case False
  then have "go_div (x + y) 2 = - (- (x + y) div 2)" using go_div_neg[of 2 "x + y"] by simp
  then show ?thesis using assms by linarith
qed

lemma middle_between: "between a b (to_sample (go_div (sint a + sint b) 2))"
  using go_div_mean[of "min (sint a) (sint b)" "sint a" "sint b" "max (sint a) (sint b)"]
  by (intro to_sample_between) simp_all

lemma quarter_between:
  assumes "0 \<le> k" "k \<le> 4"
  shows "between a b (quarter a b k)"
  unfolding quarter_def
proof (rule to_sample_between)
  let ?d = "sint b - sint a"
  have "0 \<le> go_div (?d * k) 4 \<and> go_div (?d * k) 4 \<le> ?d" if "0 \<le> ?d"
  proof -
    have "0 \<le> ?d * k" "?d * k \<le> ?d * 4" using that assms by (simp, intro mult_left_mono)
    then show ?thesis using go_div_pos[of 4 "?d * k"] by (auto intro: div_le_dividend)
  qed
  moreover have "?d \<le> go_div (?d * k) 4 \<and> go_div (?d * k) 4 \<le> 0" if "?d \<le> 0"
  proof -
    have "?d * k \<le> 0" using that assms(1) by (rule mult_nonpos_nonneg)
    moreover have "?d * 4 \<le> ?d * k" using assms(2) that by (rule mult_left_mono_neg)
    ultimately show ?thesis using go_div_neg[of 4 "?d * k"] by auto
  qed
  ultimately show "min (sint a) (sint b) \<le> sint a + go_div (?d * k) 4" "sint a + go_div (?d * k) 4 \<le> max (sint a) (sint b)"
    by (auto simp: min_def max_def)
qed

text \<open>The neighbour to the right of a sample; the last one is its own.\<close>

definition right_of :: "sample list \<Rightarrow> nat \<Rightarrow> sample" where
  "right_of s i = (if Suc i < length s then s ! Suc i else s ! i)"

lemma resample_16k_spec:
  "length (resample_16k s) = 2 * length s \<and> (\<forall>i < length s. resample_16k s ! (2 * i) = s ! i \<and>
     between (s ! i) (right_of s i) (resample_16k s ! (2 * i + 1)))"
proof (induction s rule: resample_16k.induct)
  case (3 a b s)
  have "resample_16k (a # b # s) ! (2 * i) = (a # b # s) ! i \<and>
     between ((a # b # s) ! i) (right_of (a # b # s) i) (resample_16k (a # b # s) ! (2 * i + 1))"
    if "i < length (a # b # s)" for i
  proof (cases i)
    case 0
    then show ?thesis by (simp add: right_of_def middle_between)
  next
    case (Suc j)
    then have "right_of (a # b # s) i = right_of (b # s) j" by (simp add: right_of_def)
    then show ?thesis using 3 that Suc by simp
  qed
  then show ?case using 3 by simp
qed (simp_all add: right_of_def)

lemma quarters:
  "k < 4 \<Longrightarrow> between a b ([a, quarter a b 1, quarter a b 2, quarter a b 3] ! k)"
  using quarter_between[of 1 a b] quarter_between[of 2 a b] quarter_between[of 3 a b]
  by (auto simp: less_Suc_eq numeral_eq_Suc)

lemma resample_32k_spec:
  "length (resample_32k s) = 4 * length s \<and> (\<forall>i < length s. resample_32k s ! (4 * i) = s ! i \<and>
     (\<forall>k < 4. between (s ! i) (right_of s i) (resample_32k s ! (4 * i + k))))"
proof (induction s rule: resample_32k.induct)
  case (2 a)
  then show ?case using quarters[of _ a a] by (simp add: right_of_def)
next
  case (3 a b s)
  let ?q = "[a, quarter a b 1, quarter a b 2, quarter a b 3]"
  have r: "resample_32k (a # b # s) = ?q @ resample_32k (b # s)" by simp
  have "resample_32k (a # b # s) ! (4 * i) = (a # b # s) ! i \<and>
     (\<forall>k < 4. between ((a # b # s) ! i) (right_of (a # b # s) i) (resample_32k (a # b # s) ! (4 * i + k)))"
    if "i < length (a # b # s)" for i
  proof (cases i)
    case 0
    have "resample_32k (a # b # s) ! k = ?q ! k" if "k < 4" for k
      unfolding r nth_append using that by (simp del: resample_32k.simps)
    then show ?thesis using 0 quarters[of _ a b] by (simp add: right_of_def del: resample_32k.simps)
  next
    case (Suc j)
    then have "right_of (a # b # s) i = right_of (b # s) j" by (simp add: right_of_def)
    moreover have "resample_32k (a # b # s) ! (4 * i + k) = resample_32k (b # s) ! (4 * j + k)" for k
      unfolding r using Suc by (simp add: nth_append)
    from this[of 0] this have "resample_32k (a # b # s) ! (4 * i) = resample_32k (b # s) ! (4 * j)"
      "\<And>k. resample_32k (a # b # s) ! (4 * i + k) = resample_32k (b # s) ! (4 * j + k)" by simp_all
    ultimately show ?thesis using 3 that Suc by (simp del: resample_32k.simps)
  qed
  then show ?case using 3 by simp
qed simp

text \<open>
  Resampling does not leave the sound: the original samples stay at every second (fourth) place, every sample that is
  put between two lies between them, whatever their signs, and the 16-bit arithmetic never wraps; the last sample is
  held.
\<close>

theorem resampling_interpolates:
  "length (resample_16k s) = 2 * length s \<and> length (resample_32k s) = 4 * length s \<and>
   (\<forall>i < length s. resample_16k s ! (2 * i) = s ! i \<and> resample_32k s ! (4 * i) = s ! i \<and>
      between (s ! i) (right_of s i) (resample_16k s ! (2 * i + 1)) \<and>
      (\<forall>k < 4. between (s ! i) (right_of s i) (resample_32k s ! (4 * i + k))))"
  using resample_16k_spec[of s] resample_32k_spec[of s] by simp

text \<open>The widest step there is.\<close>

lemma resampling_interpolates_witness:
  "between 32767 (- 32768) (resample_16k [32767, - 32768] ! 1) \<and> between 32767 (- 32768) (resample_32k [32767, - 32768] ! 3)"
proof -
  have "(0 :: nat) < length [32767 :: sample, - 32768]" by simp
  with resampling_interpolates[of "[32767, - 32768]"]
  have b: "between ([32767, - 32768] ! 0) (right_of [32767, - 32768] 0) (resample_16k [32767, - 32768] ! (2 * 0 + 1))"
    "\<forall>k < 4. between ([32767, - 32768] ! 0) (right_of [32767, - 32768] 0) (resample_32k [32767, - 32768] ! (4 * 0 + k))"
    by blast+
  have "right_of [32767, - 32768] 0 = - 32768" by (simp add: right_of_def)
  then show ?thesis using b(1) b(2)[rule_format, of 3] by simp
qed

end
