(* ===== verification/Session_Proofs.thy ===== *)
theory Session_Proofs
  imports Media_Session
begin

text \<open>
  Properties of what ends a session (the ICE manager, the watchdog of the video) and of the session descriptions.
\<close>

subsection \<open>The ICE manager\<close>

abbreviation recovers :: "ice_state \<Rightarrow> bool" where
  "recovers st \<equiv> st = IceConnected \<or> st = IceCompleted"

abbreviation drops :: "ice_state \<Rightarrow> bool" where
  "drops st \<equiv> st = IceFailed \<or> st = IceClosed"

text \<open>An outage: the connection was lost at a time, and did not recover within the grace period.\<close>

definition outage :: "(gtime \<times> ice_state) list \<Rightarrow> gtime \<Rightarrow> bool" where
  "outage evs t \<longleftrightarrow> (\<exists>xs ys. evs = xs @ (t, IceDisconnected) # ys \<and>
     (\<forall>(u, st) \<in> set ys. u < t + ice_grace \<longrightarrow> \<not> recovers st))"

lemma outage_snoc:
  "outage (evs @ [(u, st)]) t \<longleftrightarrow>
     (u = t \<and> st = IceDisconnected) \<or> (outage evs t \<and> (u < t + ice_grace \<longrightarrow> \<not> recovers st))"
proof
  assume "outage (evs @ [(u, st)]) t"
  then obtain xs ys where s: "evs @ [(u, st)] = xs @ (t, IceDisconnected) # ys"
    "\<forall>(v, w) \<in> set ys. v < t + ice_grace \<longrightarrow> \<not> recovers w" by (auto simp: outage_def)
  show "(u = t \<and> st = IceDisconnected) \<or> (outage evs t \<and> (u < t + ice_grace \<longrightarrow> \<not> recovers st))"
  proof (cases ys rule: rev_cases)
    case (snoc zs z)
    then have "evs = xs @ (t, IceDisconnected) # zs" "z = (u, st)" using s(1) by simp_all
    then show ?thesis using s(2) snoc by (auto simp: outage_def)
  qed (use s in simp)
next
  assume "(u = t \<and> st = IceDisconnected) \<or> (outage evs t \<and> (u < t + ice_grace \<longrightarrow> \<not> recovers st))"
  then show "outage (evs @ [(u, st)]) t"
  proof
    assume "u = t \<and> st = IceDisconnected"
    then have "evs @ [(u, st)] = evs @ (t, IceDisconnected) # []" by simp
    then show ?thesis unfolding outage_def by fastforce
  next
    assume o: "outage evs t \<and> (u < t + ice_grace \<longrightarrow> \<not> recovers st)"
    then obtain xs ys where "evs = xs @ (t, IceDisconnected) # ys"
      "\<forall>(v, w) \<in> set ys. v < t + ice_grace \<longrightarrow> \<not> recovers w" by (auto simp: outage_def)
    then have "evs @ [(u, st)] = xs @ (t, IceDisconnected) # (ys @ [(u, st)]) \<and>
      (\<forall>(v, w) \<in> set (ys @ [(u, st)]). v < t + ice_grace \<longrightarrow> \<not> recovers w)" using o by auto
    then show ?thesis unfolding outage_def by blast
  qed
qed

text \<open>What the manager knows after a sequence of events, the last of them at the given time.\<close>

definition ice_inv :: "(gtime \<times> ice_state) list \<Rightarrow> gtime \<Rightarrow> ice_manager \<Rightarrow> bool" where
  "ice_inv evs now m \<longleftrightarrow>
     (ice_cancelled m \<longleftrightarrow> (\<exists>(u, st) \<in> set evs. drops st) \<or> (\<exists>t. outage evs t \<and> t + ice_grace \<le> now)) \<and>
     (\<not> ice_cancelled m \<longrightarrow>
        (\<forall>d. ice_deadline m = Some d \<longrightarrow> outage evs (d - ice_grace)) \<and>
        (\<forall>t. outage evs t \<longrightarrow> (\<exists>d \<le> t + ice_grace. ice_deadline m = Some d)))"

lemma ice_inv_timer:
  assumes "ice_inv evs now m" "now \<le> later"
  shows "ice_inv evs later (ice_timer later m)"
proof (cases "ice_cancelled m")
  case True
  then show ?thesis using assms by (fastforce simp: ice_inv_def ice_timer_def split: option.splits)
next
  case False
  then show ?thesis using assms
    by (cases "ice_deadline m") (fastforce simp: ice_inv_def ice_timer_def)+
qed

lemma ice_inv_change:
  assumes "ice_inv evs before m" "before \<le> u" "\<forall>v \<in> fst ` set evs. v \<le> u"
  shows "ice_inv (evs @ [(u, st)]) u (ice_change (u, st) m)"
proof -
  have inv: "ice_inv evs u (ice_timer u m)" using ice_inv_timer[OF assms(1,2)] .
  have grace: "0 < ice_grace" by (simp add: ice_grace_def)
  show ?thesis
  proof (cases "ice_cancelled (ice_timer u m)")
    case True
    then have "(\<exists>(v, w) \<in> set evs. drops w) \<or> (\<exists>t. outage evs t \<and> t + ice_grace \<le> u)" using inv by (simp add: ice_inv_def)
    moreover have "ice_cancelled (ice_change (u, st) m)" using True by (simp add: ice_change_def Let_def split: ice_state.split)
    ultimately show ?thesis by (fastforce simp: ice_inv_def outage_snoc)
  next
    case False
    then have none: "\<And>v w. (v, w) \<in> set evs \<Longrightarrow> \<not> drops w" "\<And>t. outage evs t \<Longrightarrow> u < t + ice_grace"
      and some: "\<And>d. ice_deadline (ice_timer u m) = Some d \<Longrightarrow> outage evs (d - ice_grace)"
        "\<And>t. outage evs t \<Longrightarrow> \<exists>d \<le> t + ice_grace. ice_deadline (ice_timer u m) = Some d"
      using inv by (fastforce simp: ice_inv_def)+
    have c: "ice_cancelled (ice_change (u, st) m) \<longleftrightarrow> drops st"
      using False by (auto simp: ice_change_def Let_def split: ice_state.split)
    have o: "\<not> (\<exists>t. outage (evs @ [(u, st)]) t \<and> t + ice_grace \<le> u)"
      using none(2) grace by (fastforce simp: outage_snoc)
    have e: "(\<exists>(v, w) \<in> set (evs @ [(u, st)]). drops w) \<longleftrightarrow> drops st" using none(1) by auto
    have "\<not> drops st \<Longrightarrow> ice_deadline (ice_change (u, st) m) = Some d \<Longrightarrow> outage (evs @ [(u, st)]) (d - ice_grace)" for d
      using some(1) none(2)
      by (cases st) (auto simp: ice_change_def Let_def outage_snoc split: if_splits)
    moreover have "\<exists>d \<le> t + ice_grace. ice_deadline (ice_change (u, st) m) = Some d"
      if "\<not> drops st" "outage (evs @ [(u, st)]) t" for t
    proof (cases "outage evs t \<and> (u < t + ice_grace \<longrightarrow> \<not> recovers st)")
      case True
      then obtain d where d: "d \<le> t + ice_grace" "ice_deadline (ice_timer u m) = Some d" using some(2) by blast
      have "\<not> recovers st" using True none(2) by blast
      then have "ice_deadline (ice_change (u, st) m) = Some d"
        using d(2) that(1) by (cases st) (simp_all add: ice_change_def Let_def)
      then show ?thesis using d(1) by blast
    next
      case False
      then have st: "u = t" "st = IceDisconnected" using that(2) outage_snoc by blast+
      show ?thesis
      proof (cases "ice_deadline (ice_timer u m)")
        case (Some d)
        then have "d - ice_grace \<le> u" using some(1)[OF Some] assms(3) by (force simp: outage_def)
        then show ?thesis using st Some by (simp add: ice_change_def Let_def)
      qed (simp add: st ice_change_def Let_def)
    qed
    ultimately show ?thesis unfolding ice_inv_def c e using o by blast
  qed
qed

lemma ice_inv_fold:
  "sorted (map fst evs) \<Longrightarrow> \<forall>u \<in> fst ` set evs. u \<le> now \<Longrightarrow> \<exists>u \<le> now. ice_inv evs u (fold ice_change evs new_ice_manager)"
proof (induction evs arbitrary: now rule: rev_induct)
  case Nil
  show ?case by (auto simp: ice_inv_def new_ice_manager_def outage_def)
next
  case (snoc e evs)
  obtain u st where e: "e = (u, st)" by (cases e)
  have "sorted (map fst evs)" "\<forall>v \<in> fst ` set evs. v \<le> u" using snoc.prems e by (auto simp: sorted_append)
  then obtain v where "v \<le> u" "ice_inv evs v (fold ice_change evs new_ice_manager)" using snoc.IH by blast
  then have "ice_inv (evs @ [(u, st)]) u (fold ice_change (evs @ [e]) new_ice_manager)"
    using ice_inv_change[of evs v _ u st] snoc.prems e by (simp add: sorted_append)
  then show ?case using snoc.prems e by auto
qed

text \<open>
  A session with the camera is ended by the state of its connection exactly when that is justified: the connection
  failed or was closed, or it was disconnected and neither connected nor completed within the next twenty seconds. A
  shorter outage, however often it happens, never ends the session, and an outage that lasts always does.
\<close>

theorem ice_ends_session_iff:
  assumes "sorted (map fst evs)" "\<forall>u \<in> fst ` set evs. u \<le> now"
  shows "ice_cancelled (ice_run now evs) \<longleftrightarrow>
    (\<exists>(u, st) \<in> set evs. drops st) \<or> (\<exists>t. outage evs t \<and> t + 20000000000 \<le> now)"
proof -
  obtain v where v: "v \<le> now" "ice_inv evs v (fold ice_change evs new_ice_manager)" using ice_inv_fold[OF assms] by blast
  have "ice_inv evs now (ice_run now evs)" unfolding ice_run_def using ice_inv_timer[OF v(2,1)] .
  then show ?thesis by (simp add: ice_inv_def ice_grace_def)
qed

text \<open>A connection that comes back in the nineteenth second, and one that does not.\<close>

lemma ice_ends_session_iff_witness:
  "\<not> ice_cancelled (ice_run 60000000000 [(0, IceConnected), (10000000000, IceDisconnected), (29000000000, IceConnected)]) \<and>
   (let evs = [(0, IceConnected), (10000000000, IceDisconnected)] in
      \<not> (\<exists>t. outage evs t \<and> t + 20000000000 \<le> 29000000000) \<and> (\<exists>t. outage evs t \<and> t + 20000000000 \<le> 30000000000))"
proof -
  let ?evs = "[(0, IceConnected), (10000000000, IceDisconnected)]"
  have "\<not> ice_cancelled (ice_run 60000000000 [(0, IceConnected), (10000000000, IceDisconnected), (29000000000, IceConnected)])"
    "\<not> ice_cancelled (ice_run 29000000000 ?evs)" "ice_cancelled (ice_run 30000000000 ?evs)" by code_simp+
  then show ?thesis using ice_ends_session_iff[of ?evs 29000000000] ice_ends_session_iff[of ?evs 30000000000] by simp
qed

subsection \<open>The watchdog of the video\<close>

lemma fold_max: "a \<le> fold max ps a \<and> (\<forall>p \<in> set ps. p \<le> fold max ps a) \<and> (fold max ps a = a \<or> fold max ps a \<in> set ps)"
  for a :: gtime
  by (induction ps arbitrary: a) (fastforce simp: max_def)+

lemma last_packet_is_last:
  "p \<in> set packets \<Longrightarrow> p \<le> now \<Longrightarrow> p \<le> last_packet packets now"
  "last_packet packets now = 0 \<or> last_packet packets now \<in> set packets"
  using fold_max[of 0 "filter (\<lambda>p. p \<le> now) packets"] by (auto simp: last_packet_def)

text \<open>A loop that looks at something once a period and ends when it fires.\<close>

locale polling =
  fixes run :: "nat \<Rightarrow> gtime \<Rightarrow> gtime option"
    and fires :: "gtime \<Rightarrow> bool"
    and period :: gtime
  assumes run_Suc: "run (Suc n) now = (if fires now then Some now else run n (now + period))"
    and period_pos: "0 \<le> period"
begin

lemma ends_by:
  "k < n \<Longrightarrow> fires (now + int k * period) \<Longrightarrow>
   \<exists>t. run n now = Some t \<and> now \<le> t \<and> t \<le> now + int k * period \<and> fires t"
proof (induction n arbitrary: now k)
  case (Suc n)
  show ?case
  proof (cases "fires now")
    case True
    then show ?thesis using period_pos by (simp add: run_Suc)
  next
    case False
    then obtain j where k: "k = Suc j" using Suc.prems(2) by (cases k) auto
    have t: "now + int k * period = (now + period) + int j * period" unfolding k by (simp add: algebra_simps)
    have "j < n" using Suc.prems(1) k by simp
    from Suc.IH[OF this Suc.prems(2)[unfolded t]] show ?thesis
      unfolding t run_Suc using False period_pos by auto
  qed
qed simp

end

interpretation video: polling "\<lambda>n now. watchdog n now packets" "\<lambda>t. watchdog_fires t (last_packet packets t)" 1000000000
  for packets
  by unfold_locales simp_all

text \<open>
  C29. A camera that falls silent does not keep a session: if the last packet of video came at some time, at the latest sixteen
  seconds later the watchdog has ended the session, and at that moment no packet had come for fifteen seconds; it
  never does so in the first sixteen seconds of the session.
\<close>

theorem silence_ends_session:
  assumes "started \<le> silent" "\<forall>p \<in> set packets. 0 < p \<and> p \<le> silent" "nat ((silent - started) div 1000000000) < looks"
  shows "\<exists>t. run_watchdog looks started packets = Some t \<and> started + 16000000000 \<le> t \<and> t \<le> silent + 16000000000 \<and>
    (\<forall>p \<in> set packets. p \<le> t \<longrightarrow> p < t - 15000000000)"
proof -
  let ?k = "nat ((silent - started) div 1000000000)" and ?s = "started + watchdog_grace + 1000000000"
  let ?t = "?s + int ?k * 1000000000"
  have k: "int ?k = (silent - started) div 1000000000" using assms(1) by simp
  then have t: "silent + 15000000000 < ?t" "?t \<le> silent + 16000000000" by (simp_all add: watchdog_grace_def)
  have "last_packet packets ?t \<le> silent \<or> last_packet packets ?t = 0"
    using last_packet_is_last(2)[of packets ?t] assms(2) by auto
  then have "watchdog_fires ?t (last_packet packets ?t)" using t(1) by (auto simp: watchdog_fires_def silence_threshold_def)
  from video.ends_by[OF assms(3) this] obtain u where
    u: "watchdog looks ?s packets = Some u" "?s \<le> u" "u \<le> ?t" "watchdog_fires u (last_packet packets u)" by blast
  have "p < u - 15000000000" if "p \<in> set packets" "p \<le> u" for p
    using last_packet_is_last(1)[OF that] u(4) assms(2) that by (auto simp: watchdog_fires_def silence_threshold_def)
  then show ?thesis using u t by (auto simp: run_watchdog_def watchdog_grace_def)
qed

text \<open>Packets for a minute, then nothing.\<close>

lemma silence_ends_session_witness:
  "\<exists>t. run_watchdog 100 1000 [2000000000, 30000000000, 60000000000] = Some t \<and> 1000 + 16000000000 \<le> t \<and>
     t \<le> 60000000000 + 16000000000 \<and>
     (\<forall>p \<in> set [2000000000, 30000000000, 60000000000]. p \<le> t \<longrightarrow> p < t - 15000000000)"
  by (rule silence_ends_session) simp_all

subsection \<open>Session descriptions\<close>

lemma crlf_occurs_first:
  assumes "\<not> contains l crlf"
  shows "index_of (l @ crlf @ r) crlf = Some (length l)"
  using assms
proof (induction l)
  case Nil
  show ?case by (simp add: crlf_def has_prefix_def)
next
  case (Cons c l)
  have "\<not> contains l crlf" using Cons.prems unfolding contains_iff by (metis append_Cons)
  moreover have "\<not> has_prefix (c # l @ crlf @ r) crlf"
  proof
    assume "has_prefix (c # l @ crlf @ r) crlf"
    then have c: "c = CHR 0x0D" "l @ crlf @ r \<noteq> []" "hd (l @ crlf @ r) = CHR 0x0A"
      by (auto simp: has_prefix_iff crlf_def)
    then obtain l1 where "l = CHR 0x0A # l1" by (cases l) (auto simp: crlf_def)
    then have "c # l = [] @ crlf @ l1" using c by (simp add: crlf_def)
    then show False using Cons.prems unfolding contains_iff by blast
  qed
  ultimately show ?case using Cons.IH by simp
qed

lemma split_join_crlf:
  "ls \<noteq> [] \<Longrightarrow> \<forall>l \<in> set ls. \<not> contains l crlf \<Longrightarrow> split_crlf (join_crlf ls) = ls"
proof (induction ls rule: join_crlf.induct)
  case (2 l)
  then show ?case by (subst split_crlf.simps) (simp add: contains_def)
next
  case (3 l m ls)
  then have "index_of (l @ crlf @ join_crlf (m # ls)) crlf = Some (length l)" by (intro crlf_occurs_first) simp
  moreover have "drop (length l + 2) (l @ crlf @ join_crlf (m # ls)) = join_crlf (m # ls)" by (simp add: crlf_def)
  ultimately show ?case using 3 by (subst split_crlf.simps) simp
qed simp

lemma split_crlf_lines: "split_crlf s \<noteq> [] \<and> (\<forall>l \<in> set (split_crlf s). \<not> contains l crlf)"
proof (induction "length s" arbitrary: s rule: less_induct)
  case less
  show ?case
  proof (cases "index_of s crlf")
    case None
    then show ?thesis by (subst (1 2) split_crlf.simps) (simp add: contains_def)
  next
    case (Some i)
    then obtain t u where tu: "s = t @ crlf @ u" "length t = i" using index_of_Some by blast
    have "\<not> contains t crlf"
    proof
      assume "contains t crlf"
      then obtain a b where t: "t = a @ crlf @ b" unfolding contains_iff by blast
      have "\<exists>j \<le> length a. index_of (a @ crlf @ z) crlf = Some j" for z
        by (induction a) (auto simp: crlf_def has_prefix_def)
      from this[of "b @ crlf @ u"] obtain j where "j \<le> length a" "index_of s crlf = Some j"
        using tu(1) t by auto
      then show False using Some tu(2) t by (simp add: crlf_def)
    qed
    moreover have "length u < length s" using tu by (simp add: crlf_def)
    ultimately show ?thesis using less.hyps[of u] Some tu by (subst (1 2) split_crlf.simps) (auto simp: crlf_def)
  qed
qed

text \<open>
  The description that the bridge sends loses exactly the loopback candidates: its lines are the other lines, in order and
  unchanged, and cleaning it again changes nothing.
\<close>

theorem sanitize_removes_loopback:
  assumes "filter (\<lambda>l. \<not> loopback_candidate l) (split_crlf sdp) \<noteq> []"
  shows "split_crlf (sanitize_sdp sdp) = filter (\<lambda>l. \<not> loopback_candidate l) (split_crlf sdp) \<and>
    sanitize_sdp (sanitize_sdp sdp) = sanitize_sdp sdp"
proof -
  let ?ls = "filter (\<lambda>l. \<not> loopback_candidate l) (split_crlf sdp)"
  have "\<forall>l \<in> set ?ls. \<not> contains l crlf" using split_crlf_lines[of sdp] by simp
  then have "split_crlf (sanitize_sdp sdp) = ?ls" unfolding sanitize_sdp_def by (rule split_join_crlf[OF assms])
  then show ?thesis by (simp add: sanitize_sdp_def)
qed

lemma sanitize_removes_loopback_witness:
  "split_crlf (sanitize_sdp (''v=0'' @ crlf @ ''a=candidate:1 127.0.0.1'' @ crlf)) = [''v=0'', '''']"
proof -
  let ?sdp = "''v=0'' @ crlf @ ''a=candidate:1 127.0.0.1'' @ crlf"
  have "filter (\<lambda>l. \<not> loopback_candidate l) (split_crlf ?sdp) = [''v=0'', '''']" by code_simp
  then show ?thesis using sanitize_removes_loopback[of ?sdp] by simp
qed

end
