(* ===== verification/L625_Session.thy ===== *)
theory L625_Session
  imports Camera_Drivers Media_Session
begin

text \<open>
  The life of the connection with the L 625: a session from the TURN exchange to the signaling loop with everything it has to release
  (\<^verbatim>\<open>Run\<close> of \<^verbatim>\<open>pkg/webrtc/bridge.go\<close>, \<^verbatim>\<open>signaling.go\<close>), and the loop of the driver around it
  (\<^verbatim>\<open>Run\<close> of \<^verbatim>\<open>pkg/driver/l625.go\<close>), each as the sequence of its actions. How stages end is the environment.
\<close>

subsection \<open>The TURN exchange\<close>

datatype session_error =
    TurnSendFailed
  | TurnReadFailed
  | BadTurnResponse
  | CodecsFailed
  | PeerFailed
  | TrackFailed
  | ChannelFailed
  | OfferFailed
  | OfferSendFailed
  | SignalReadFailed

text \<open>The reader of a message and of the servers in it are the JSON decoder; a payload that it cannot read gives no servers.\<close>

definition exchange_turn ::
  "(bytes \<Rightarrow> signal option) \<Rightarrow> (string \<Rightarrow> ice_server list \<times> turn_server list) \<Rightarrow> bool \<Rightarrow> bytes option \<Rightarrow>
   session_error + ice_server list" where
  "exchange_turn rd payload sent reply =
     (if \<not> sent then Inl TurnSendFailed
      else case reply of
             None \<Rightarrow> Inl TurnReadFailed
           | Some raw \<Rightarrow>
               (case unmarshal_signal rd raw of
                  None \<Rightarrow> Inl BadTurnResponse
                | Some m \<Rightarrow>
                    if sg_type m \<noteq> type_turn_response then Inl BadTurnResponse
                    else (case payload (sg_data m) of (ices, turns) \<Rightarrow> Inr (ice_servers ices turns))))"

subsection \<open>The signaling loop\<close>

text \<open>
  A turn finds the context ended, or a read fails (and the context may have ended by then), or a message comes, with what the
  peer connection does with it.
\<close>

datatype signal_input = ContextEnded | ReadFails bool | Message bytes peer_env

datatype outcome = Running | Ended "session_error option"

record codec =
  cd_signal :: "bytes \<Rightarrow> signal option"
  cd_servers :: "string \<Rightarrow> ice_server list \<times> turn_server list"
  cd_sdp :: "string \<Rightarrow> string option"
  cd_candidate :: "string \<Rightarrow> (string \<times> string) option"

fun signaling_loop :: "codec \<Rightarrow> signal_input list \<Rightarrow> signal_action list \<times> outcome" where
  "signaling_loop k [] = ([], Running)"
| "signaling_loop k (ContextEnded # is) = ([], Ended None)"
| "signaling_loop k (ReadFails done_by_then # is) = ([], Ended (if done_by_then then None else Some SignalReadFailed))"
| "signaling_loop k (Message raw e # is) =
     (case signaling_loop k is of (as, out) \<Rightarrow>
        ((case unmarshal_signal (cd_signal k) raw of
            None \<Rightarrow> []
          | Some m \<Rightarrow> on_signal (cd_sdp k) (cd_candidate k) e m) @ as, out))"

subsection \<open>A session\<close>

text \<open>
  What a session does to the world, with the calls that it has deferred: cancelling the ICE timer, closing the peer connection,
  stopping the watcher of the context, taking back the handler of the SD card manager and ending its own context.
\<close>

datatype session_action =
    SetUnresponsive bool
  | SendTurnRequest
  | MakePeer "ice_server list"
  | ClosePeer
  | SendOffer string
  | StartLoops
  | Signal signal_action
  | CancelIce
  | StopWatcher
  | CancelContext

text \<open>How the stages end; the offer is the local description after gathering, None if it cannot be made.\<close>

record session_env =
  sv_written :: bool
  sv_reply :: "bytes option"
  sv_codecs :: bool
  sv_peer :: bool
  sv_track :: bool
  sv_channel :: bool
  sv_offer :: "string option"
  sv_offer_written :: bool
  sv_inputs :: "signal_input list"

definition deferred_first :: "session_action list" where
  "deferred_first = [StopWatcher, SetUnresponsive False, CancelContext]"

definition deferred_all :: "session_action list" where
  "deferred_all = CancelIce # ClosePeer # deferred_first"

text \<open>The actions with what was deferred at the return, which is not reached while the session is running.\<close>

definition session_run :: "codec \<Rightarrow> session_env \<Rightarrow> session_action list \<times> outcome" where
  "session_run k e =
     (let start = [SetUnresponsive True, SendTurnRequest] in
      case exchange_turn (cd_signal k) (cd_servers k) (sv_written e) (sv_reply e) of
        Inl err \<Rightarrow> (start @ deferred_first, Ended (Some err))
      | Inr servers \<Rightarrow>
          if \<not> sv_codecs e then (start @ deferred_first, Ended (Some CodecsFailed))
          else if \<not> sv_peer e then (start @ deferred_first, Ended (Some PeerFailed))
          else let made = start @ [MakePeer servers] in
          if \<not> sv_track e then (made @ [ClosePeer] @ deferred_first, Ended (Some TrackFailed))
          else if \<not> sv_channel e then (made @ deferred_all, Ended (Some ChannelFailed))
          else case sv_offer e of
                 None \<Rightarrow> (made @ deferred_all, Ended (Some OfferFailed))
               | Some sdp \<Rightarrow>
                   let offered = made @ [SendOffer (sanitize_sdp sdp)] in
                   if \<not> sv_offer_written e then (offered @ deferred_all, Ended (Some OfferSendFailed))
                   else case signaling_loop k (sv_inputs e) of
                          (as, out) \<Rightarrow>
                            (offered @ [StartLoops] @ map Signal as @ (if out = Running then [] else deferred_all), out))"

text \<open>The requests for key frames: four at the start for the first source, then one per tick, and one on demand.\<close>

definition pli_burst :: "u32 list" where "pli_burst = replicate 4 1"

definition pli_tick :: "u32 \<Rightarrow> u32 list" where
  "pli_tick ssrc = (if ssrc > 0 then [ssrc] else [])"

definition request_keyframe :: "bool \<Rightarrow> u32 \<Rightarrow> u32 list" where
  "request_keyframe has_peer ssrc = (if has_peer then [if ssrc = 0 then 1 else ssrc] else [])"

subsection \<open>The loop of the driver\<close>

datatype stage_end = StageDone bool | StageTimeout | StageCancelled

text \<open>When the context of the driver ends: not in this turn, before the wait at the end of it, or in the wait.\<close>

datatype cancelled = NotCancelled | BeforeWait | DuringWait

record turn_env =
  tv_init :: bool
  tv_connect :: stage_end
  tv_port :: stage_end
  tv_stream :: stage_end
  tv_session :: int
  tv_cancelled :: cancelled

datatype loop_action =
    NewClient
  | ProbeNetwork
  | Connect
  | AnnounceDevice
  | QueryPort
  | OpenStream
  | SetBridge bool
  | RunSession
  | CloseStream
  | CloseClient
  | Wait int

definition cooldown :: int where "cooldown = 60 * second"

text \<open>A failed stage: the client is closed (twice after a timeout), and the loop waits; None: it is left.\<close>

definition fail_turn :: "stage_end \<Rightarrow> cancelled \<Rightarrow> int \<Rightarrow> loop_action list \<times> int option" where
  "fail_turn st c failures =
     (case st of
        StageCancelled \<Rightarrow> ([CloseClient], None)
      | _ \<Rightarrow> ((if st = StageTimeout then [CloseClient] else []) @ [CloseClient] @
                (if c = BeforeWait then [] else [Wait (calculate_backoff (failures + 1))]),
              if c = NotCancelled then Some (failures + 1) else None))"

text \<open>A turn of the loop with the number of failures in a row; the flag says whether the camera's identifier is known.\<close>

definition l625_turn :: "bool \<Rightarrow> turn_env \<Rightarrow> int \<Rightarrow> loop_action list \<times> int option" where
  "l625_turn known e f =
     (if \<not> tv_init e then ([Wait (5 * second)], if tv_cancelled e = NotCancelled then Some f else None)
      else let connecting = [NewClient] @ (if f > 0 then [ProbeNetwork] else []) @ [Connect] in
      if tv_connect e \<noteq> StageDone True then
        (case fail_turn (tv_connect e) (tv_cancelled e) f of (as, r) \<Rightarrow> (connecting @ as, r))
      else let querying = connecting @ (if known then [AnnounceDevice] else []) @ [QueryPort] in
      if tv_port e \<noteq> StageDone True then
        (case fail_turn (tv_port e) (tv_cancelled e) f of (as, r) \<Rightarrow> (querying @ as, r))
      else let opening = querying @ [OpenStream] in
      if tv_stream e \<noteq> StageDone True then
        (case fail_turn (tv_stream e) (tv_cancelled e) f of (as, r) \<Rightarrow> (opening @ as, r))
      else
        (opening @ [SetBridge True, RunSession, SetBridge False, CloseStream, CloseClient] @
           (if tv_cancelled e = BeforeWait then [] else [Wait cooldown]),
         if tv_cancelled e = NotCancelled then Some (if tv_session e > 60 * second then 0 else f + 1) else None))"

fun l625_run :: "bool \<Rightarrow> turn_env list \<Rightarrow> int \<Rightarrow> loop_action list \<times> int option" where
  "l625_run known [] f = ([], Some f)"
| "l625_run known (e # es) f =
     (case l625_turn known e f of
        (as, None) \<Rightarrow> (as, None)
      | (as, Some g) \<Rightarrow> (case l625_run known es g of (bs, r) \<Rightarrow> (as @ bs, r)))"

end
