(* ===== verification/L625_Session_Proofs.thy ===== *)
theory L625_Session_Proofs
  imports L625_Session Camera_Drivers_Proofs
begin

text \<open>
  The connection with the L 625 against monitors: automata that read the actions and get stuck at a misuse (a second client beside
  an open one, a wait with the connection held open, a signal to a closed peer connection).
\<close>

subsection \<open>Monitors\<close>

fun watch :: "('a \<Rightarrow> 's \<Rightarrow> 's option) \<Rightarrow> 'a list \<Rightarrow> 's \<Rightarrow> 's option" where
  "watch step [] s = Some s"
| "watch step (a # as) s = (case step a s of None \<Rightarrow> None | Some t \<Rightarrow> watch step as t)"

lemma watch_append: "watch step (as @ bs) s = (case watch step as s of None \<Rightarrow> None | Some t \<Rightarrow> watch step bs t)"
  by (induction as arbitrary: s) (auto split: option.split)

lemma watch_stays: "\<forall>a \<in> set as. step a s = Some s \<Longrightarrow> watch step as s = Some s"
  by (induction as) auto

subsection \<open>A session\<close>

datatype session_state = Fresh | Registered | PeerOpen | PeerClosed | HandlerFree | Released

fun session_step :: "session_action \<Rightarrow> session_state \<Rightarrow> session_state option" where
  "session_step (SetUnresponsive True) s = (if s = Fresh then Some Registered else None)"
| "session_step SendTurnRequest s = (if s = Registered then Some Registered else None)"
| "session_step (MakePeer _) s = (if s = Registered then Some PeerOpen else None)"
| "session_step (SendOffer _) s = (if s = PeerOpen then Some s else None)"
| "session_step StartLoops s = (if s = PeerOpen then Some s else None)"
| "session_step (Signal _) s = (if s = PeerOpen then Some s else None)"
| "session_step CancelIce s = (if s = PeerOpen then Some s else None)"
| "session_step ClosePeer s = (if s = PeerOpen then Some PeerClosed else None)"
| "session_step StopWatcher s = (if s = Registered \<or> s = PeerClosed then Some PeerClosed else None)"
| "session_step (SetUnresponsive False) s = (if s = PeerClosed then Some HandlerFree else None)"
| "session_step CancelContext s = (if s = HandlerFree then Some Released else None)"

lemma watch_signals: "watch session_step (map Signal as) PeerOpen = Some PeerOpen"
  by (rule watch_stays) auto

lemmas session_defs = session_run_def deferred_first_def deferred_all_def Let_def


subsection \<open>The loop of the driver\<close>

datatype client_state = NoClient | OpenClient | BridgeSet | SessionOver | ClosedClient

fun client_step :: "loop_action \<Rightarrow> client_state \<Rightarrow> client_state option" where
  "client_step NewClient s = (if s = NoClient \<or> s = ClosedClient then Some OpenClient else None)"
| "client_step (Wait w) s = (if (s = NoClient \<or> s = ClosedClient) \<and> 0 < w then Some s else None)"
| "client_step CloseClient s = (if s = OpenClient \<or> s = SessionOver \<or> s = ClosedClient then Some ClosedClient else None)"
| "client_step (SetBridge True) s = (if s = OpenClient then Some BridgeSet else None)"
| "client_step RunSession s = (if s = BridgeSet then Some BridgeSet else None)"
| "client_step (SetBridge False) s = (if s = BridgeSet then Some SessionOver else None)"
| "client_step CloseStream s = (if s = SessionOver then Some SessionOver else None)"
| "client_step _ s = (if s = OpenClient then Some s else None)"

lemma backoff_pos: "0 < calculate_backoff n"
  using calculate_backoff_cases[of n] by (auto simp: second_def)

lemma watch_fail_turn:
  "fail_turn st c f = (as, r) \<Longrightarrow> watch client_step as OpenClient = Some ClosedClient"
  using backoff_pos by (cases st) (auto simp: fail_turn_def)

lemma watch_turn:
  assumes "s = NoClient \<or> s = ClosedClient" "l625_turn known e f = (as, r)"
  shows "\<exists>t. watch client_step as s = Some t \<and> (t = NoClient \<or> t = ClosedClient)"
proof (cases "tv_init e")
  case False
  then show ?thesis using assms by (auto simp: l625_turn_def second_def)
next
  case True
  let ?connecting = "[NewClient] @ (if f > 0 then [ProbeNetwork] else []) @ [Connect]"
  let ?querying = "?connecting @ (if known then [AnnounceDevice] else []) @ [QueryPort]"
  have w: "watch client_step ?connecting s = Some OpenClient" "watch client_step ?querying s = Some OpenClient"
    "watch client_step (?querying @ [OpenStream]) s = Some OpenClient"
    using assms(1) by auto
  obtain pre st post where as: "as = pre @ post" "watch client_step pre s = Some OpenClient"
    "fail_turn st (tv_cancelled e) f = (post, r) \<or>
     post = [SetBridge True, RunSession, SetBridge False, CloseStream, CloseClient] @
       (if tv_cancelled e = BeforeWait then [] else [Wait cooldown])"
  proof (cases "tv_connect e = StageDone True")
    case c: False
    then show ?thesis using assms(2) True that[of ?connecting _ "tv_connect e"] w(1)
      by (auto simp: l625_turn_def Let_def split: prod.splits)
  next
    case c: True
    show ?thesis
    proof (cases "tv_port e = StageDone True")
      case p: False
      then show ?thesis using assms(2) True c that[of ?querying _ "tv_port e"] w(2)
        by (auto simp: l625_turn_def Let_def split: prod.splits)
    next
      case p: True
      show ?thesis
      proof (cases "tv_stream e = StageDone True")
        case False
        then show ?thesis using assms(2) True c p that[of "?querying @ [OpenStream]" _ "tv_stream e"] w(3)
          by (auto simp: l625_turn_def Let_def split: prod.splits)
      next
        case t: True
        then show ?thesis using assms(2) True c p that[of "?querying @ [OpenStream]"] w(3)
          by (auto simp: l625_turn_def Let_def)
      qed
    qed
  qed
  from as(3) have "watch client_step post OpenClient = Some ClosedClient"
    using watch_fail_turn by (auto simp: cooldown_def second_def)
  then show ?thesis using as(1,2) by (simp add: watch_append)
qed


text \<open>The waits of the loop, and the attempts that the turns amount to.\<close>

fun waits_of :: "loop_action list \<Rightarrow> int list" where
  "waits_of [] = []"
| "waits_of (Wait w # as) = w # waits_of as"
| "waits_of (a # as) = waits_of as"

lemma waits_of_append [simp]: "waits_of (as @ bs) = waits_of as @ waits_of bs"
  by (induction as rule: waits_of.induct) auto

definition attempt_of :: "turn_env \<Rightarrow> attempt" where
  "attempt_of e =
     (if \<not> tv_init e then InitFailed
      else if tv_connect e \<noteq> StageDone True then ConnectFailed
      else if tv_port e \<noteq> StageDone True then PortFailed
      else if tv_stream e \<noteq> StageDone True then StreamFailed
      else Session (tv_session e))"

definition undisturbed :: "turn_env \<Rightarrow> bool" where
  "undisturbed e \<longleftrightarrow> tv_cancelled e = NotCancelled \<and> tv_connect e \<noteq> StageCancelled \<and> tv_port e \<noteq> StageCancelled \<and>
     tv_stream e \<noteq> StageCancelled"

lemma turn_waits:
  assumes "undisturbed e"
  shows "\<exists>as. l625_turn known e f = (as, Some (fst (after_attempt (attempt_of e) f))) \<and> waits_of as = [snd (after_attempt (attempt_of e) f)]"
  using assms
  by (cases "tv_init e"; cases "tv_connect e"; cases "tv_port e"; cases "tv_stream e")
    (auto simp: l625_turn_def fail_turn_def undisturbed_def attempt_of_def after_attempt_def cooldown_def Let_def)

text \<open>
  C22. The loop implements its specification: as long as nobody ends it, the waits of the detailed loop, with its probes, stages,
  timeouts and closing of clients, are those of the abstract sequence of attempts, which only counts failures in a row; each is between
  five seconds and four minutes.
\<close>

theorem loop_refines_attempts:
  assumes "list_all undisturbed es"
  shows "waits_of (fst (l625_run known es f)) = attempt_waits (map attempt_of es) f \<and>
    list_all (\<lambda>w. 5 * second \<le> w \<and> w \<le> 240 * second) (waits_of (fst (l625_run known es f)))"
proof -
  have w: "waits_of (fst (l625_run known es f)) = attempt_waits (map attempt_of es) f"
    using assms
  proof (induction es arbitrary: f)
    case (Cons e es)
    obtain as where "l625_turn known e f = (as, Some (fst (after_attempt (attempt_of e) f)))"
      "waits_of as = [snd (after_attempt (attempt_of e) f)]"
      using turn_waits Cons.prems by fastforce
    moreover obtain g w where "after_attempt (attempt_of e) f = (g, w)" by fastforce
    ultimately show ?case using Cons.IH[of g] Cons.prems by (auto split: prod.split)
  qed simp
  then show ?thesis using waits_bounded by simp
qed

text \<open>Two failures and a long session.\<close>

lemma loop_refines_attempts_witness:
  "let es = [\<lparr>tv_init = True, tv_connect = StageTimeout, tv_port = StageTimeout, tv_stream = StageTimeout, tv_session = 0, tv_cancelled = NotCancelled\<rparr>,
             \<lparr>tv_init = True, tv_connect = StageDone True, tv_port = StageDone False, tv_stream = StageTimeout, tv_session = 0, tv_cancelled = NotCancelled\<rparr>]
   in waits_of (fst (l625_run True es 0)) = attempt_waits [ConnectFailed, PortFailed] 0"
proof -
  let ?es = "[\<lparr>tv_init = True, tv_connect = StageTimeout, tv_port = StageTimeout, tv_stream = StageTimeout, tv_session = 0, tv_cancelled = NotCancelled\<rparr>,
             \<lparr>tv_init = True, tv_connect = StageDone True, tv_port = StageDone False, tv_stream = StageTimeout, tv_session = 0, tv_cancelled = NotCancelled\<rparr>]"
  have "list_all undisturbed ?es" by (simp add: undisturbed_def)
  moreover have "map attempt_of ?es = [ConnectFailed, PortFailed]" by (simp add: attempt_of_def)
  ultimately show ?thesis using loop_refines_attempts[of ?es True 0] unfolding Let_def by argo
qed

end
