(* ===== verification/Camera_Stream_Proofs.thy ===== *)
theory Camera_Stream_Proofs
  imports Camera_Stream Session_Proofs Recording_Cache_Proofs
begin

text \<open>
  Properties of the L 620's stream: the log does not give passwords away, the camera is not flooded with attempts, a silent
  stream is given up, and recordings that are listed can be fetched.
\<close>

subsection \<open>The log\<close>

lemma index_of_skip:
  "hd p \<notin> set s \<Longrightarrow> p \<noteq> [] \<Longrightarrow> index_of (s @ t) p = map_option (\<lambda>n. length s + n) (index_of t p)"
proof (induction s)
  case Nil
  then show ?case by (simp add: option.map_ident)
next
  case (Cons c s)
  have "\<not> has_prefix ((c # s) @ t) p"
  proof
    assume "has_prefix ((c # s) @ t) p"
    then obtain u where "(c # s) @ t = p @ u" unfolding has_prefix_iff by blast
    then have "c = hd p" using Cons.prems(2) by (cases p) auto
    then show False using Cons.prems(1) by simp
  qed
  then show ?case using Cons by (simp add: option.map_comp o_def)
qed

lemma index_of_prefix: "index_of (p @ t) p = Some 0"
proof (cases "p @ t")
  case (Cons c r)
  have "has_prefix (p @ t) p" by (simp add: has_prefix_def)
  then show ?thesis unfolding Cons by simp
qed simp

lemma mask_password:
  assumes "CHR ''_'' \<notin> set s" "CHR ''_'' \<notin> set pwd"
  shows "mask_query (s @ pwd_key @ pwd @ CHR ''_'' # t) = s @ ''_password=***_'' @ mask_query t"
proof -
  let ?u = "s @ pwd_key @ pwd @ CHR ''_'' # t"
  have "hd pwd_key = CHR ''_''" "pwd_key \<noteq> []" by (simp_all add: pwd_key_def)
  then have "index_of ?u pwd_key = Some (length s)"
    using index_of_skip[of pwd_key s] index_of_prefix[of pwd_key "pwd @ CHR ''_'' # t"] assms(1) by simp
  moreover have "dropWhile (\<lambda>c. c \<noteq> CHR ''_'') (pwd @ CHR ''_'' # t) = CHR ''_'' # t"
    using assms(2) by (induction pwd) auto
  ultimately show ?thesis by (subst mask_query.simps) simp
qed

lemma sdp_url_shape:
  "sdp_url ip port user subtype pwd @ q =
   (''rtsp://'' @ ip @ '':'' @ dec_of_int port @ ''/user='' @ user) @ pwd_key @ pwd @ CHR ''_'' # (''channel=1_stream='' @ dec_of_int subtype @ ''.sdp'' @ q)"
  by (simp add: sdp_url_def pwd_key_def)

lemma dec_no_underscore: "CHR ''_'' \<notin> set (dec_of_int i)"
proof -
  have n: "CHR ''_'' \<notin> set (dec_of_nat n)" for n
  proof (induction n rule: dec_of_nat.induct)
    case (1 n)
    have "CHR ''_'' \<noteq> char_of (48 + k)" if "k < 10" for k :: nat
    proof
      assume "CHR ''_'' = char_of (48 + k)"
      then have "(of_char (CHR ''_'') :: nat) = of_char (char_of (48 + k) :: char)" by simp
      then show False using that by simp
    qed
    then show ?case using 1 by (subst dec_of_nat.simps) simp
  qed
  then show ?thesis by (simp add: dec_of_int_def)
qed

text \<open>
  The log does not give the camera's password away: what it shows of the two addresses that carry the password in their
  path is the same for every password, provided neither the address of the camera, the user nor the password contains an
  underscore.
\<close>

theorem log_hides_password:
  assumes "CHR ''_'' \<notin> set ip" "CHR ''_'' \<notin> set user" "CHR ''_'' \<notin> set p" "CHR ''_'' \<notin> set q"
  shows "mask_query (sdp_url ip port user subtype p @ suffix) = mask_query (sdp_url ip port user subtype q @ suffix)"
  unfolding sdp_url_shape using assms dec_no_underscore by (subst (1 2) mask_password) auto

lemma log_hides_password_witness:
  "mask_query (sdp_url ''10.0.0.7'' 554 ''admin'' 0 ''geheim'' @ ''?real_stream'') =
   mask_query (sdp_url ''10.0.0.7'' 554 ''admin'' 0 '''' @ ''?real_stream'')"
  by (rule log_hides_password) simp_all

text \<open>Of a password with an underscore the part behind it is shown.\<close>

lemma underscore_shows_password:
  "contains (mask_query (sdp_url ''10.0.0.7'' 554 ''admin'' 0 ''ab_geheim'')) ''geheim''"
  by code_simp

subsection \<open>Attempts\<close>

text \<open>An attempt behind which no other address is tried.\<close>

definition final_attempt :: "attempt_env \<times> bool \<Rightarrow> bool" where
  "final_attempt a \<longleftrightarrow> snd a \<or> fst (attempt (fst a)) = None \<or> fst (attempt (fst a)) = Some DialFailed"

definition attempt_result :: "attempt_env \<times> bool \<Rightarrow> ingest_error option" where
  "attempt_result a = (if snd a then None else fst (attempt (fst a)))"

text \<open>The addresses that could be parsed.\<close>

fun parsable :: "'a option list \<Rightarrow> 'a list" where
  "parsable [] = []"
| "parsable (None # cs) = parsable cs"
| "parsable (Some a # cs) = a # parsable cs"

lemma run_session_spec:
  "run_session cs err = (res, n) \<Longrightarrow>
   n \<le> length (parsable cs) \<and> (\<forall>i. Suc i < n \<longrightarrow> \<not> final_attempt (parsable cs ! i)) \<and>
   (n < length (parsable cs) \<longrightarrow> 0 < n \<and> final_attempt (parsable cs ! (n - 1))) \<and>
   res = (if n = 0 then err else attempt_result (parsable cs ! (n - 1)))"
proof (induction cs err arbitrary: res n rule: run_session.induct)
  case (3 e closed cs err)
  let ?a = "(e, closed)"
  show ?case
  proof (cases "final_attempt ?a")
    case True
    then have "res = attempt_result ?a \<and> n = 1"
      using "3.prems" by (auto simp: final_attempt_def attempt_result_def split: option.splits)
    then show ?thesis using True by simp
  next
    case False
    then obtain er where er: "fst (attempt e) = Some er" "\<not> closed" "er \<noteq> DialFailed"
      by (auto simp: final_attempt_def)
    obtain n1 where n1: "run_session cs (Some er) = (res, n1)" "n = Suc n1"
      using "3.prems" er by (auto split: prod.splits)
    note ih = "3.IH"[OF er(1,2,3) n1(1)]
    have "\<not> final_attempt (parsable (Some ?a # cs) ! i)" if "Suc i < n" for i
      using that ih n1(2) False by (cases i) auto
    moreover have "res = attempt_result (parsable (Some ?a # cs) ! (n - 1))"
      using ih n1(2) er by (cases n1) (auto simp: attempt_result_def)
    ultimately show ?thesis using ih n1(2) by (cases n1) auto
  qed
qed simp_all

text \<open>
  A session with the camera tries the addresses in order and only as long as it should: it stops at the first one that
  streamed, that was interrupted by the end of the ingest, or whose port cannot be reached, so an unreachable port is
  dialled once and not ten times; otherwise all are tried, and the error is that of the last.
\<close>

theorem attempts_in_order:
  assumes "run_session cs None = (res, n)"
  shows "n \<le> length (parsable cs) \<and> (\<forall>i. Suc i < n \<longrightarrow> \<not> final_attempt (parsable cs ! i)) \<and>
    (n < length (parsable cs) \<longrightarrow> 0 < n \<and> final_attempt (parsable cs ! (n - 1))) \<and>
    (0 < n \<longrightarrow> res = attempt_result (parsable cs ! (n - 1)))"
  using run_session_spec[OF assms] by simp

lemma attempts_in_order_witness:
  "\<exists>res n. run_session (replicate 10 (Some (\<lparr>at_dial = False, at_describe = NetworkError, at_video = True, at_audio = True,
     at_play = True, at_clean_end = False\<rparr>, False))) None = (res, n) \<and> n = 1 \<and> res = Some DialFailed"
proof -
  let ?a = "(\<lparr>at_dial = False, at_describe = NetworkError, at_video = True, at_audio = True, at_play = True, at_clean_end = False\<rparr>, False)"
  obtain res n where r: "run_session (replicate 10 (Some ?a)) None = (res, n)" by fastforce
  have p: "parsable (replicate k (Some ?a)) = replicate k ?a" for k by (induction k) simp_all
  have "final_attempt ?a" "attempt_result ?a = Some DialFailed" by (simp_all add: final_attempt_def attempt_result_def attempt_def)
  then have "n = 1 \<and> res = Some DialFailed" using attempts_in_order[OF r] unfolding p by (cases n; cases "n - 1") auto
  then show ?thesis using r by blast
qed

text \<open>Without an address that can be parsed the result is no error, after which the loop goes on at once.\<close>

lemma unparsable_spins: "run_session (replicate k None) None = (None, 0) \<and> ingest_waits (replicate m None) b = replicate m None"
  by (rule conjI, induction k, simp_all, induction m arbitrary: b) (simp_all add: ingest_turn_def)

subsection \<open>The reconnect loop\<close>

lemma ingest_waits_bounds:
  "sec \<le> b \<Longrightarrow> b \<le> 60 * sec \<Longrightarrow> i < length errs \<Longrightarrow>
   \<exists>w. ingest_waits (map Some errs) b ! i = Some w \<and> min (60 * sec) (2 ^ i * b) \<le> w \<and> w \<le> 60 * sec \<and>
     (errs ! i = DialFailed \<longrightarrow> 5 * sec \<le> w)"
proof (induction errs arbitrary: b i)
  case (Cons e errs)
  let ?b = "if e = DialFailed \<and> b < 5 * sec then 5 * sec else b"
  define b1 where "b1 = (if ?b < 60 * sec then min (?b * 2) (60 * sec) else ?b)"
  have s: "0 < sec" by (simp add: sec_def)
  have t: "ingest_turn (Some e) b = (Some ?b, b1)" by (simp add: ingest_turn_def b1_def Let_def)
  show ?case
  proof (cases i)
    case 0
    then show ?thesis using Cons.prems s unfolding list.map ingest_waits.simps t by (auto simp: min_def)
  next
    case (Suc j)
    have b1: "sec \<le> b1" "b1 \<le> 60 * sec" "min (60 * sec) (2 * b) \<le> b1"
      using Cons.prems s by (simp_all add: b1_def min_def)
    have "min (60 * sec) (2 ^ i * b) \<le> min (60 * sec) (2 ^ j * b1)"
    proof (cases "b1 = 60 * sec")
      case True
      have "1 * b1 \<le> 2 ^ j * b1" using b1 s by (intro mult_right_mono) simp_all
      then show ?thesis using True by simp
    next
      case False
      then have "2 * b \<le> b1" using b1 by (simp add: min_def split: if_splits)
      then have "2 ^ j * (2 * b) \<le> 2 ^ j * b1" by (intro mult_left_mono) simp_all
      moreover have "2 ^ j * (2 * b) = 2 ^ i * b" using Suc by simp
      ultimately have "2 ^ i * b \<le> 2 ^ j * b1" by (simp only:)
      then show ?thesis by (rule min.mono[OF order_refl])
    qed
    moreover have "j < length errs" using Cons.prems Suc by simp
    ultimately show ?thesis using Cons.IH[OF b1(1,2), of j] Suc unfolding list.map ingest_waits.simps t by fastforce
  qed
qed simp

text \<open>
  The camera is not overrun with attempts: after the i-th failed session in a row (whatever failed) the ingest waits at
  least 2^i seconds, or a minute, and never more than a minute; at least five seconds if the port could not be reached.
\<close>

theorem reconnects_back_off:
  "\<forall>i < length errs. \<exists>w. ingest_waits (map Some errs) sec ! i = Some w \<and>
     min 60000000000 (2 ^ i * 1000000000) \<le> w \<and> w \<le> 60000000000 \<and> (errs ! i = DialFailed \<longrightarrow> 5000000000 \<le> w)"
  using ingest_waits_bounds[of sec _ errs] by (simp add: sec_def)

lemma reconnects_back_off_witness:
  "\<exists>w. ingest_waits (map Some [StreamLost, DialFailed, DialFailed]) sec ! 2 = Some w \<and> 5000000000 \<le> w"
  using reconnects_back_off[rule_format, of 2 "[StreamLost, DialFailed, DialFailed]"] by auto

subsection \<open>Silence\<close>

interpretation ingest: polling "\<lambda>n now. stream_watchdog n now packets" "\<lambda>t. stream_silent t (last_packet packets t)" "5 * sec"
  for packets
  by unfold_locales (simp_all add: sec_def)

text \<open>
  A silent stream is given up: if the camera sends no packet in the first five seconds the connection is closed then, and
  otherwise at the latest twenty seconds after its last packet, when none has come for fifteen seconds.
\<close>

theorem silent_stream_closed:
  assumes "0 \<le> played" "\<forall>p \<in> set packets. played < p \<and> p \<le> silent" "nat ((silent - played) div 5000000000) + 2 < looks"
    "played + 5000000000 \<le> silent"
  shows "\<exists>t. run_stream_watchdog looks played packets = Some t \<and>
    (if \<forall>p \<in> set packets. played + 5000000000 < p then t = played + 5000000000
     else t \<le> silent + 20000000000 \<and> (\<forall>p \<in> set packets. p \<le> t \<longrightarrow> p < t - 15000000000))"
proof -
  let ?first = "last_packet packets (played + 5 * sec)"
  have pos: "0 < p" if "p \<in> set packets" for p using that assms(1,2) by fastforce
  show ?thesis
  proof (cases "\<forall>p \<in> set packets. played + 5000000000 < p")
    case True
    then have "filter (\<lambda>p. p \<le> played + 5 * sec) packets = []" by (auto simp: filter_empty_conv sec_def)
    then have "?first = 0" by (simp add: last_packet_def)
    then show ?thesis using True by (simp add: run_stream_watchdog_def sec_def)
  next
    case False
    then obtain p0 where p0: "p0 \<in> set packets" "p0 \<le> played + 5 * sec" by (auto simp: sec_def not_less)
    have first: "?first \<noteq> 0" using last_packet_is_last(1)[OF p0] pos[OF p0(1)] by simp
    let ?k = "nat ((silent - played) div 5000000000) + 2" and ?s = "played + 10 * sec"
    let ?t = "?s + int ?k * (5 * sec)"
    have k: "int ?k = (silent - played) div 5000000000 + 2" using assms(4) by simp
    have "(silent - played) div 5000000000 * 5000000000 \<le> silent - played"
      "silent - played < (silent - played) div 5000000000 * 5000000000 + 5000000000"
      using div_mult_mod_eq[of "silent - played" 5000000000] pos_mod_bound[of 5000000000 "silent - played"]
        pos_mod_sign[of 5000000000 "silent - played"] by linarith+
    then have t: "silent + 15000000000 < ?t" "?t \<le> silent + 20000000000" unfolding k sec_def by (simp_all add: algebra_simps)
    have last: "last_packet packets v \<in> set packets" if "played + 5 * sec \<le> v" for v
      using last_packet_is_last(1)[of p0 packets v] last_packet_is_last(2)[of packets v] p0 pos[OF p0(1)] that by auto
    have "played + 5 * sec \<le> ?t" by (simp add: sec_def)
    from last[OF this] have "stream_silent ?t (last_packet packets ?t)"
      using pos assms(2) t(1) by (fastforce simp: stream_silent_def sec_def)
    from ingest.ends_by[OF assms(3) this] obtain u where
      u: "stream_watchdog looks ?s packets = Some u" "?s \<le> u" "u \<le> ?t" "stream_silent u (last_packet packets u)" by blast
    have "p < u - 15000000000" if "p \<in> set packets" "p \<le> u" for p
      using last_packet_is_last(1)[OF that] u(4) by (simp add: stream_silent_def sec_def)
    then show ?thesis using u t(2) first False by (auto simp: run_stream_watchdog_def)
  qed
qed

text \<open>A camera that answers \<^verbatim>\<open>PLAY\<close> and sends nothing, and one that stops after half a minute.\<close>

lemma silent_stream_closed_witness:
  "(\<exists>t. run_stream_watchdog 9 0 [] = Some t \<and> t = 5000000000) \<and>
   (\<exists>t. run_stream_watchdog 9 0 [1000000000, 30000000000] = Some t \<and> t \<le> 30000000000 + 20000000000)"
  using silent_stream_closed[of 0 "[]" 5000000000 9] silent_stream_closed[of 0 "[1000000000, 30000000000]" 30000000000 9]
  by auto

subsection \<open>Recordings\<close>

text \<open>
  What the L 620 lists can be fetched: every recording of the default listing, the last day, is found by its id, with the
  same start.
\<close>

theorem listed_recording_found:
  assumes "up_list (xm_upstream e) 0 0 page limit ev = Inr (Some resp)" "r \<in> set (resp_list resp)"
  shows "\<exists>r1. up_get (xm_upstream e) (item_id r) = Inr r1 \<and> item_id r1 = item_id r \<and> r1 \<in> set (resp_list resp)"
proof -
  have l: "xm_list e 0 0 = Inr (Some resp)" using assms(1) by (simp add: xm_upstream_def)
  obtain r1 where r1: "find (\<lambda>x. item_id x = item_id r) (resp_list resp) = Some r1"
    using assms(2) by (cases "find (\<lambda>x. item_id x = item_id r) (resp_list resp)") (auto simp: find_None_iff)
  then have "item_id r1 = item_id r \<and> r1 \<in> set (resp_list resp)" by (auto simp: find_Some_iff)
  then show ?thesis using l r1 by (simp add: xm_upstream_def xm_get_def)
qed

lemma listed_recording_found_witness:
  "let e = \<lparr>so_logged_in = True, so_now = 63900000000000000000, so_parse = \<lambda>s. Some (int (length s) * 1000000000),
             so_query = \<lambda>a b. Found [\<lparr>sf_begin = ''ab'', sf_end = ''abc'', sf_name = ''f.h264''\<rparr>]\<rparr>
   in \<exists>resp. up_list (xm_upstream e) 0 0 0 0 [] = Inr (Some resp) \<and>
        (\<exists>r \<in> set (resp_list resp). \<exists>r1. up_get (xm_upstream e) (item_id r) = Inr r1 \<and> item_id r1 = item_id r)"
proof -
  define e where "e = \<lparr>so_logged_in = True, so_now = 63900000000000000000, so_parse = \<lambda>s :: string. Some (int (length s) * 1000000000),
             so_query = \<lambda>a b. Found [\<lparr>sf_begin = ''ab'', sf_end = ''abc'', sf_name = ''f.h264''\<rparr>]\<rparr>"
  obtain resp where l: "up_list (xm_upstream e) 0 0 0 0 [] = Inr (Some resp)" "resp_list resp \<noteq> []"
    by (simp add: xm_upstream_def xm_list_def e_def Let_def)
  then have "hd (resp_list resp) \<in> set (resp_list resp)" by simp
  then show ?thesis using listed_recording_found[OF l(1)] l unfolding e_def[symmetric] Let_def by blast
qed

text \<open>
  Streaming one of them gives nothing, so with a cache no recording is ever kept: the sync takes each of them for a failed
  download.
\<close>

lemma empty_download_fails: "copied e = 0 \<Longrightarrow> max_count c \<noteq> 0 \<Longrightarrow> \<exists>err. fst (cache_add it e c) = Inl err"
  by (auto simp: cache_add_def store_video_def Let_def)

lemma add_keeps_max: "cache_add it e c = (Inl err, c1) \<Longrightarrow> max_count c1 = max_count c"
  by (auto simp: cache_add_def Let_def split: if_splits sum.splits prod.splits)

lemma record_failure_max:
  assumes "max_count c \<noteq> 0"
  shows "max_count (snd (record_failure i m c)) = max_count c"
  using assms by (auto simp: record_failure_def mark_failed_def Let_def cache_simps split: option.split)

lemma nothing_kept:
  "\<forall>(it, e) \<in> set its. copied (download e) = 0 \<Longrightarrow> max_count c \<noteq> 0 \<Longrightarrow> sync_items its c = Some (ns, fs, b, c2) \<Longrightarrow> ns = []"
proof (induction its arbitrary: c ns fs b c2)
  case (Cons x its)
  obtain it e where x: "x = (it, e)" by (cases x)
  show ?case
  proof (cases "ctx_done e \<or> cache_has c (item_id it)")
    case True
    then show ?thesis using Cons x by (auto split: if_splits)
  next
    case False
    obtain err c1 where a: "cache_add it (download e) c = (Inl err, c1)"
      using empty_download_fails[of "download e" c it] Cons.prems(1,2) x by (cases "cache_add it (download e) c") auto
    let ?c = "snd (record_failure (item_id it) (marker e) c1)"
    have "max_count c1 \<noteq> 0" using add_keeps_max[OF a] Cons.prems(2) by simp
    then have m: "max_count ?c \<noteq> 0" by (simp add: record_failure_max)
    obtain fs1 b1 c3 where "sync_items its ?c = Some (ns, fs1, b1, c3)"
      using Cons.prems(3) False a x by (auto split: if_splits option.splits)
    then show ?thesis using Cons.IH[OF _ m] Cons.prems(1) by simp
  qed
qed simp

text \<open>
  With the L 620 the cache of recordings stays without a video: what the provider streams of a recording that exists is
  empty, so a sync never adds anything, whatever the camera lists.
\<close>

theorem l620_cache_stays_empty:
  assumes "p_upstream p = Some (xm_upstream e)"
    "\<forall>k i. copied (download (envs k)) = int (length (fst (up_video (xm_upstream e) i)))"
    "sync_latest envs p = Some ((err, news, asked), p1)"
  shows "news = []"
proof -
  have z: "copied (download (envs k)) = 0" for k using assms(2) by (simp add: xm_upstream_def)
  show ?thesis
  proof (cases "p_cache p")
    case (Some c)
    show ?thesis
    proof (cases "max_count c = 0 \<or> sync_running p")
      case False
      note s = assms(3)[unfolded sync_latest_def assms(1) Some prod.case option.case if_not_P[OF False]]
      let ?l = "up_list (xm_upstream e) 0 0 0 (int (max_count c)) []"
      show ?thesis
      proof (cases ?l)
        case (Inr r)
        show ?thesis
        proof (cases r)
          case (Some resp)
          let ?its = "map (\<lambda>(k, it). (it, envs k)) (enumerate 0 (resp_list resp))"
          have "\<forall>(it, e) \<in> set ?its. copied (download e) = 0" using z by auto
          moreover obtain fs b c1 where "sync_items ?its c = Some (news, fs, b, c1)"
            using s Inr Some by (auto split: option.splits)
          ultimately show ?thesis using nothing_kept False by blast
        qed (use s Inr in simp)
      qed (use s in simp)
    qed (use assms(1,3) Some in \<open>simp add: sync_latest_def\<close>)
  qed (use assms(3) in \<open>simp add: sync_latest_def\<close>)
qed

end
