(* ===== verification/Network_Probe.thy ===== *)
theory Network_Probe
  imports Go_Strings
begin

text \<open>
  Is the camera there (\<^verbatim>\<open>pkg/netprobe/ping.go\<close>), and waking it up
  (\<^verbatim>\<open>pkg/nabto/mdns.go\<close>): the echo request with its checksum, the three strategies of the
  prober, and the mDNS queries. The outcome of commands and connections is the environment.
\<close>

subsection \<open>The Internet checksum\<close>

fun sum_words :: "u32 \<Rightarrow> bytes \<Rightarrow> u32" where
  "sum_words s [] = s"
| "sum_words s [a] = s + push_bit 8 (ucast a)"
| "sum_words s (a # b # r) = sum_words (s + ucast (of_be16 a b)) r"

lemma unat_drop16: "unat (drop_bit 16 s :: u32) = unat s div 65536"
  by (simp add: drop_bit_eq_div unat_div)

lemma drop16_zero: "drop_bit 16 s = (0 :: u32) \<longleftrightarrow> unat s < 65536"
  using unat_drop16[of s] by (simp add: unat_eq_zero[symmetric] div_eq_0_iff)

lemma fold_carry_nat:
  "unat ((s AND 0xffff) + drop_bit 16 s :: u32) = unat s mod 65536 + unat s div 65536"
proof -
  have "s AND 0xffff = take_bit 16 s" by (simp add: take_bit_eq_mask mask_eq_exp_minus_1)
  then have "s AND 0xffff = s mod 65536" by (simp add: take_bit_eq_mod)
  then have lo: "unat (s AND 0xffff) = unat s mod 65536" by (simp add: unat_mod)
  have "unat s < 2 ^ 32" using unsigned_less[of s] by simp
  then have "unat s div 65536 < 65536" by simp
  then show ?thesis using lo unat_drop16[of s] by (simp add: unat_word_ariths)
qed

function fold_carry :: "u32 \<Rightarrow> u32" where
  "fold_carry s = (if drop_bit 16 s = 0 then s else fold_carry ((s AND 0xffff) + drop_bit 16 s))"
  by pat_completeness auto
termination
proof (relation "measure unat", goal_cases)
  case (2 s)
  then have "0 < unat s div 65536" by (simp add: drop16_zero div_greater_zero_iff)
  then have "unat s mod 65536 + unat s div 65536 < unat s" using div_mult_mod_eq[of "unat s" 65536] by linarith
  then show ?case by (simp only: in_measure fold_carry_nat)
qed simp

declare fold_carry.simps [simp del]

definition inet_checksum :: "bytes \<Rightarrow> u16" where
  "inet_checksum b = NOT (ucast (fold_carry (sum_words 0 b)))"

subsection \<open>The echo request\<close>

definition probe_text :: string where
  "probe_text = ''steinel-ping-probe''"

definition echo_request :: "u16 \<Rightarrow> bytes" where
  "echo_request pid =
     (let b = [8, 0, 0, 0] @ be16 pid @ be16 1 @ bytes_of probe_text
      in take 2 b @ be16 (inet_checksum b) @ drop 4 b)"

text \<open>A reply, with the header of the IP packet, that answers the request.\<close>

definition answers :: "u16 \<Rightarrow> bytes \<Rightarrow> bool" where
  "answers pid reply \<longleftrightarrow>
     length reply \<ge> 28 \<and> (let icmp = drop 20 reply in icmp ! 0 = 0 \<and> of_be16 (icmp ! 4) (icmp ! 5) = pid)"

text \<open>The loop over what the socket gives until its deadline; a read takes at most 1500 bytes.\<close>

fun await_reply :: "u16 \<Rightarrow> bytes list \<Rightarrow> bool" where
  "await_reply pid [] = False"
| "await_reply pid (d # ds) = (answers pid (take 1500 d) \<or> await_reply pid ds)"

subsection \<open>The prober\<close>

datatype dial_result = Connected | DialError string

text \<open>
  The outcome of the system's ping (None without one), of the raw socket (None if it cannot be opened, else whether
  the request could be written and what was read), of the connections, and how many of them
  are tried before the context ends.
\<close>

record probe_env =
  pv_ping :: "bool option"
  pv_raw :: "(bool \<times> bytes list) option"
  pv_dial :: "int \<Rightarrow> dial_result"
  pv_tries :: nat

definition probe_ports :: "int list" where
  "probe_ports = [34567, 80, 554, 5592]"

definition port_timeout :: "int \<Rightarrow> int" where
  "port_timeout timeout = max (go_div timeout 4) 150000000"

fun try_ports :: "(int \<Rightarrow> dial_result) \<Rightarrow> int list \<Rightarrow> string option" where
  "try_ports dial [] = None"
| "try_ports dial (p # ps) =
     (case dial p of
        Connected \<Rightarrow> Some ''tcp_open''
      | DialError e \<Rightarrow> if contains (to_lower e) ''refused'' then Some ''tcp_refused'' else try_ports dial ps)"

text \<open>The method by which the host was found, None for an error.\<close>

definition ping :: "u16 \<Rightarrow> probe_env \<Rightarrow> string \<Rightarrow> string option" where
  "ping pid e target =
     (if trim_space target = [] then None
      else if pv_ping e = Some True then Some ''icmp_cmd''
      else if (case pv_raw e of Some (written, ds) \<Rightarrow> written \<and> await_reply pid ds | None \<Rightarrow> False) then Some ''icmp_raw''
      else try_ports (pv_dial e) (take (pv_tries e) probe_ports))"

text \<open>The seconds that the system's ping is given, and its milliseconds on a Mac.\<close>

definition ping_wait :: "bool \<Rightarrow> int \<Rightarrow> int" where
  "ping_wait darwin timeout =
     (if darwin then max (go_div timeout 1000000) 500 else max (go_div timeout 1000000000) 1)"

subsection \<open>Waking the camera\<close>

definition dns_header :: bytes where
  "dns_header = [0, 0, 0, 0, 0, 1, 0, 0, 0, 0, 0, 0]"

definition dns_label :: "string \<Rightarrow> bytes" where
  "dns_label s = word_of_nat (length s) # bytes_of s"

definition device_query :: "string \<Rightarrow> string \<Rightarrow> bytes" where
  "device_query product dev =
     (let p = (if trim_space product = [] then ''pr-xxxxx'' else trim_space product);
          d = (if trim_space dev = [] then ''de-xxxxxxx'' else trim_space dev)
      in dns_header @ dns_label (p @ ''-'' @ d) @ dns_label ''local'' @ [0] @ [0, 0xff] @ [0, 1])"

definition service_query :: bytes where
  "service_query = dns_header @ dns_label ''_nabto'' @ dns_label ''_udp'' @ dns_label ''local'' @ [0] @ [0, 12] @ [0, 1]"

text \<open>The packets that are sent, with the addresses that can be reached.\<close>

definition send_wakeup :: "(string \<Rightarrow> bool) \<Rightarrow> string \<Rightarrow> string \<Rightarrow> string \<Rightarrow> (string \<times> bytes) list" where
  "send_wakeup reachable ip product dev =
     (if ip = [] then []
      else concat (map (\<lambda>t. if reachable t then concat (replicate 2 [(t, device_query product dev), (t, service_query)]) else [])
             [ip @ '':5353'', ''224.0.0.251:5353'']))"

end
