(* ===== verification/Network_Probe_Proofs.thy ===== *)
theory Network_Probe_Proofs
  imports Network_Probe
begin

text \<open>
  The checksum of the echo request in ordinary arithmetic (a sum modulo 65535), what the prober's answer rests on, and the
  mDNS query read back by the rules of DNS.
\<close>

subsection \<open>The checksum as a sum\<close>

lemma unat_of_be16: "unat (of_be16 a b) = 256 * unat a + unat b"
proof -
  have "of_be16 a b = push_bit 8 (ucast a) + ucast b"
    unfolding of_be16_def by (rule disjunctive_add[symmetric]) (auto simp: bit_simps dest: bit_imp_le_length)
  moreover have "unat a < 256" "unat b < 256" using unsigned_less[of a] unsigned_less[of b] by simp_all
  ultimately show ?thesis by (simp add: push_bit_eq_mult unat_word_ariths unsigned_ucast_eq take_bit_eq_mod)
qed

fun words_sum :: "bytes \<Rightarrow> nat" where
  "words_sum [] = 0"
| "words_sum [a] = 256 * unat a"
| "words_sum (a # b # r) = 256 * unat a + unat b + words_sum r"

lemma unat_byte: "unat (a :: byte) \<le> 255"
proof -
  have "unat a < 2 ^ LENGTH(8)" by (rule unsigned_less)
  then show ?thesis by simp
qed

lemma unat_not16: "unat (NOT w) = 65535 - unat (w :: u16)"
proof -
  have "uint w < 2 ^ LENGTH(16)" by (rule unsigned_less)
  then have w: "0 \<le> uint w" "uint w < 65536" by simp_all
  have "uint (NOT w) = take_bit LENGTH(16) (NOT (uint w))" by (rule unsigned_not_eq)
  also have "\<dots> = (- uint w - 1) mod 65536" by (simp add: take_bit_eq_mod not_int_def)
  also have "\<dots> = ((65535 - uint w) - 65536) mod 65536" by (rule arg_cong[where f = "\<lambda>x. x mod 65536"]) simp
  also have "\<dots> = 65535 - uint w" unfolding minus_mod_self2 using w by (intro mod_pos_pos_trivial) linarith+
  finally have "int (unat (NOT w)) = 65535 - int (unat w)" by simp
  then show ?thesis by linarith
qed

lemma words_sum_bound: "words_sum b \<le> 65535 * length b"
proof (induction b rule: words_sum.induct)
  case (2 a)
  then show ?case using unat_byte[of a] by simp
next
  case (3 a b r)
  then show ?case using unat_byte[of a] unat_byte[of b] by simp
qed simp

lemma sum_words_sum: "unat s + words_sum b < 2 ^ 32 \<Longrightarrow> unat (sum_words s b) = unat s + words_sum b"
proof (induction s b rule: sum_words.induct)
  case (2 s a)
  then show ?case using unat_byte[of a]
    by (simp add: push_bit_eq_mult unat_word_ariths unsigned_ucast_eq take_bit_eq_mod)
next
  case (3 s a b r)
  have "unat (s + ucast (of_be16 a b)) = unat s + (256 * unat a + unat b)"
    using 3(2) unat_byte[of a] unat_byte[of b]
    by (simp add: unat_word_ariths unsigned_ucast_eq take_bit_eq_mod unat_of_be16)
  then show ?case using 3 by simp
qed simp

lemma fold_carry_spec:
  "unat (fold_carry s) < 65536 \<and> unat (fold_carry s) mod 65535 = unat s mod 65535 \<and> (fold_carry s = 0 \<longleftrightarrow> s = 0)"
proof (induction s rule: fold_carry.induct)
  case (1 s)
  show ?case
  proof (cases "drop_bit 16 s = 0")
    case True
    then show ?thesis using drop16_zero[of s] by (subst (1 2 3) fold_carry.simps) simp
  next
    case False
    let ?t = "(s AND 0xffff) + drop_bit 16 s"
    have t: "unat ?t = unat s mod 65536 + unat s div 65536" by (rule fold_carry_nat)
    have "unat s = unat s div 65536 * 65535 + unat ?t" unfolding t using div_mult_mod_eq[of "unat s" 65536] by linarith
    then have "unat s mod 65535 = unat ?t mod 65535" by (metis mod_mult_self3)
    moreover have "0 < unat s div 65536" using False by (simp add: drop16_zero div_greater_zero_iff)
    then have "unat ?t \<noteq> 0" "unat s \<noteq> 0" unfolding t by (simp, cases "unat s = 0", simp_all)
    then have "?t \<noteq> 0" "s \<noteq> 0" by (metis unat_0)+
    moreover have "fold_carry s = fold_carry ?t" using False by (subst fold_carry.simps) simp
    ultimately show ?thesis using 1[OF False] by simp
  qed
qed

text \<open>The loop with a bound on its turns.\<close>

fun fold_steps :: "nat \<Rightarrow> u32 \<Rightarrow> u32 option" where
  "fold_steps 0 s = None"
| "fold_steps (Suc n) s = (if drop_bit 16 s = 0 then Some s else fold_steps n ((s AND 0xffff) + drop_bit 16 s))"

lemma fold_steps_result: "fold_steps n s = Some t \<Longrightarrow> t = fold_carry s"
proof (induction n arbitrary: s)
  case (Suc n)
  then show ?case
    by (cases "drop_bit 16 s = 0") (subst fold_carry.simps, simp)+
qed simp

text \<open>
  C30. Folding the carries into the sum always ends, for every 32-bit sum, and after two turns of the loop at the latest: the
  third test finds no carry, and what is left is the value of the function.
\<close>

theorem carry_folding_terminates: "fold_steps 3 s = Some (fold_carry s)"
proof -
  let ?f = "\<lambda>s :: u32. (s AND 0xffff) + drop_bit 16 s"
  have "unat s < 2 ^ LENGTH(32)" by (rule unsigned_less)
  then have "unat s div 65536 < 65536" "unat s mod 65536 < 65536" by simp_all
  then have f1: "unat (?f s) \<le> 131070" unfolding fold_carry_nat by linarith
  have f2: "unat (?f (?f s)) < 65536"
  proof (cases "unat (?f s) < 65536")
    case True
    then show ?thesis unfolding fold_carry_nat[of "?f s"] by simp
  next
    case False
    then have "unat (?f s) div 65536 = 1" using f1 by simp
    then show ?thesis unfolding fold_carry_nat[of "?f s"] using f1 div_mult_mod_eq[of "unat (?f s)" 65536] by linarith
  qed
  then have "drop_bit 16 (?f (?f s)) = 0" by (simp only: drop16_zero)
  then have "\<exists>t. fold_steps 3 s = Some t" by (simp add: numeral_3_eq_3)
  then show ?thesis using fold_steps_result by fastforce
qed

text \<open>The two facts about the checksum that its use needs.\<close>

lemma checksum_value:
  assumes "length b \<le> 65536"
  shows "unat (inet_checksum b) = 65535 - unat (fold_carry (sum_words 0 b))"
    "unat (fold_carry (sum_words 0 b)) < 65536"
    "unat (fold_carry (sum_words 0 b)) mod 65535 = words_sum b mod 65535"
    "unat (fold_carry (sum_words 0 b)) = 0 \<longleftrightarrow> words_sum b = 0"
proof -
  have "words_sum b < 2 ^ 32" using words_sum_bound[of b] assms by simp
  then have sum: "unat (sum_words 0 b) = words_sum b" using sum_words_sum[of 0 b] by simp
  let ?f = "fold_carry (sum_words 0 b)"
  show f: "unat ?f < 65536" and "unat ?f mod 65535 = words_sum b mod 65535"
    using fold_carry_spec[of "sum_words 0 b"] sum by simp_all
  show "unat ?f = 0 \<longleftrightarrow> words_sum b = 0"
    using fold_carry_spec[of "sum_words 0 b"] sum by (metis unat_0 unat_eq_zero)
  have "unat (ucast ?f :: u16) = unat ?f" using f by (simp add: unsigned_ucast_eq take_bit_eq_mod)
  then show "unat (inet_checksum b) = 65535 - unat ?f"
    by (simp add: inet_checksum_def unat_not16)
qed

lemma checksum_zero: "length b \<le> 65536 \<Longrightarrow> inet_checksum b = 0 \<longleftrightarrow> words_sum b mod 65535 = 0 \<and> words_sum b \<noteq> 0"
proof -
  assume "length b \<le> 65536"
  note c = checksum_value[OF this]
  let ?f = "unat (fold_carry (sum_words 0 b))"
  have "inet_checksum b = 0 \<longleftrightarrow> unat (inet_checksum b) = 0" by (simp add: unat_eq_zero)
  also have "\<dots> \<longleftrightarrow> ?f = 65535" using c(1,2) by linarith
  also have "\<dots> \<longleftrightarrow> ?f mod 65535 = 0 \<and> ?f \<noteq> 0"
  proof (cases "?f < 65535")
    case False
    then have "?f = 65535" using c(2) by linarith
    then show ?thesis by simp
  qed auto
  finally show ?thesis using c(3,4) by simp
qed

lemma checksum_inserted:
  assumes "length r \<le> 60000" "c = inet_checksum (a # b # 0 # 0 # r)"
  shows "inet_checksum (a # b # be16 c @ r) = 0"
proof -
  let ?b = "a # b # 0 # 0 # r" and ?d = "a # b # be16 c @ r"
  have l: "length ?b \<le> 65536" "length ?d \<le> 65536" using assms(1) by simp_all
  note v = checksum_value[OF l(1)]
  let ?f = "unat (fold_carry (sum_words 0 ?b))"
  have "unat (of_be16 (ucast (drop_bit 8 c)) (ucast c)) = unat c" by simp
  then have "words_sum ?d = words_sum ?b + unat c" unfolding unat_of_be16 by (simp add: be16_def)
  moreover have "unat c = 65535 - ?f" using v(1) assms(2) by simp
  ultimately have d: "words_sum ?d = words_sum ?b + (65535 - ?f)" by simp
  have "words_sum ?d mod 65535 = (?f mod 65535 + (65535 - ?f)) mod 65535" unfolding d using v(3) by (intro mod_add_cong) simp_all
  also have "\<dots> = (?f + (65535 - ?f)) mod 65535" by (rule mod_add_left_eq)
  also have "\<dots> = 0" using v(2) by simp
  finally have "words_sum ?d mod 65535 = 0" .
  moreover have "words_sum ?d \<noteq> 0" using d v(4) by linarith
  ultimately show ?thesis by (intro iffD2[OF checksum_zero[OF l(2)]] conjI)
qed

text \<open>One changed byte changes the sum by less than 65535, and not by nothing.\<close>

lemma words_sum_update:
  "i < length b \<Longrightarrow> \<exists>k \<in> {1, 256}. words_sum (b[i := x]) + k * unat (b ! i) = words_sum b + k * unat x"
proof (induction b arbitrary: i rule: words_sum.induct)
  case (3 a c r)
  then consider "i = 0" | "i = 1" | j where "i = Suc (Suc j)" "j < length r" by (cases i rule: nat.exhaust; cases "i - 1") auto
  then show ?case
  proof cases
    case 3
    then show ?thesis using "3.IH"[of j] by auto
  qed auto
qed auto

lemma small_step:
  "p \<le> 255 \<Longrightarrow> q \<le> 255 \<Longrightarrow> 0 \<le> p \<Longrightarrow> 0 \<le> q \<Longrightarrow> d = p - q \<or> d = 256 * (p - q) \<Longrightarrow> \<bar>d\<bar> < 65535" for p q d :: int
  by (elim disjE) (auto simp: abs_if)

lemma checksum_detects:
  assumes "length b \<le> 65536" "inet_checksum b = 0" "i < length b" "x \<noteq> b ! i"
  shows "inet_checksum (b[i := x]) \<noteq> 0"
proof
  assume "inet_checksum (b[i := x]) = 0"
  then have m: "words_sum (b[i := x]) mod 65535 = words_sum b mod 65535"
    using checksum_zero[of b] checksum_zero[of "b[i := x]"] assms(1,2) by simp
  obtain k where k: "k = 1 \<or> k = 256" "words_sum (b[i := x]) + k * unat (b ! i) = words_sum b + k * unat x"
    using words_sum_update[OF assms(3), of x] by blast
  let ?d = "int k * (int (unat x) - int (unat (b ! i)))"
  have "int (words_sum (b[i := x])) - int (words_sum b) = ?d"
    using arg_cong[OF k(2), of int] by (simp add: algebra_simps)
  moreover have "65535 dvd int (words_sum (b[i := x])) - int (words_sum b)"
    using arg_cong[OF m, of int] unfolding mod_eq_dvd_iff[symmetric] by (simp add: of_nat_mod)
  ultimately have "65535 dvd ?d" by simp
  moreover have "\<bar>?d\<bar> < 65535"
  proof -
    have "int (unat x) \<le> 255" "int (unat (b ! i)) \<le> 255" using unat_byte[of x] unat_byte[of "b ! i"] by linarith+
    moreover have "0 \<le> int (unat x)" "0 \<le> int (unat (b ! i))" by simp_all
    moreover have "?d = int (unat x) - int (unat (b ! i)) \<or> ?d = 256 * (int (unat x) - int (unat (b ! i)))"
      using k(1) by auto
    ultimately show ?thesis by (rule small_step)
  qed
  ultimately have "?d = 0" using dvd_imp_le_int[of ?d 65535] by fastforce
  then have "uint x = uint (b ! i)" using k(1) by auto
  then show False using assms(4) by (simp add: word_uint_eq_iff)
qed

text \<open>
  The echo request carries the right checksum: whatever the identifier, the checksum of the whole packet is zero, which is
  what the camera tests, and with any single byte of it changed on the way it is not.
\<close>

theorem echo_request_checksum:
  "inet_checksum (echo_request pid) = 0 \<and>
   (\<forall>i x. i < length (echo_request pid) \<and> x \<noteq> echo_request pid ! i \<longrightarrow> inet_checksum ((echo_request pid)[i := x]) \<noteq> 0)"
proof -
  define r where "r = be16 pid @ be16 1 @ bytes_of probe_text"
  have "length probe_text = 18" by (simp add: probe_text_def)
  then have r: "length r \<le> 60000" by (simp add: r_def)
  have e: "echo_request pid = 8 # 0 # be16 (inet_checksum (8 # 0 # 0 # 0 # r)) @ r" by (simp add: echo_request_def r_def Let_def)
  have "inet_checksum (echo_request pid) = 0" unfolding e by (rule checksum_inserted[OF r refl])
  moreover have "length (echo_request pid) \<le> 65536" unfolding e using r by simp
  ultimately show ?thesis using checksum_detects by blast
qed

lemma echo_request_checksum_witness: "inet_checksum ((echo_request 7)[0 := 0]) \<noteq> 0"
proof -
  have "0 < length (echo_request 7) \<and> 0 \<noteq> echo_request 7 ! 0" by (simp add: echo_request_def)
  then show ?thesis using echo_request_checksum[of 7] by blast
qed

subsection \<open>The prober\<close>

lemma await_reply_iff: "await_reply pid ds \<longleftrightarrow> (\<exists>d \<in> set ds. answers pid (take 1500 d))"
  by (induction ds) auto

definition port_answers :: "(int \<Rightarrow> dial_result) \<Rightarrow> int \<Rightarrow> bool" where
  "port_answers dial p \<longleftrightarrow> (case dial p of Connected \<Rightarrow> True | DialError e \<Rightarrow> contains (to_lower e) ''refused'')"

lemma try_ports_iff: "try_ports dial ps \<noteq> None \<longleftrightarrow> (\<exists>p \<in> set ps. port_answers dial p)"
  by (induction ps) (auto simp: port_answers_def split: dial_result.splits)

text \<open>
  The camera is reported as reachable exactly when something came back from it: its answer to the system's ping, an echo
  reply with the identifier of the request in one of the packets of the raw socket, or one of the four ports that
  accepted the connection or refused it.
\<close>

theorem ping_evidence:
  assumes "trim_space target \<noteq> []" "4 \<le> pv_tries e"
  shows "ping pid e target \<noteq> None \<longleftrightarrow>
    pv_ping e = Some True \<or>
    (\<exists>ds. pv_raw e = Some (True, ds) \<and> (\<exists>d \<in> set ds. answers pid (take 1500 d))) \<or>
    (\<exists>p \<in> {34567, 80, 554, 5592}. port_answers (pv_dial e) p)"
proof -
  have "take (pv_tries e) probe_ports = probe_ports" using assms(2) by (simp add: probe_ports_def)
  then have "try_ports (pv_dial e) (take (pv_tries e) probe_ports) \<noteq> None \<longleftrightarrow> (\<exists>p \<in> {34567, 80, 554, 5592}. port_answers (pv_dial e) p)"
    by (simp only: try_ports_iff) (simp add: probe_ports_def)
  then show ?thesis using assms(1) by (auto simp: ping_def await_reply_iff split: option.splits)
qed

text \<open>A camera without any of its ports open, which still refuses a connection.\<close>

lemma ping_evidence_witness:
  "ping 1 \<lparr>pv_ping = Some False, pv_raw = None, pv_dial = \<lambda>p. DialError (if p = 80 then ''Connection Refused'' else ''i/o timeout''),
     pv_tries = 4\<rparr> ''10.0.0.7'' \<noteq> None"
proof -
  let ?e = "\<lparr>pv_ping = Some False, pv_raw = None, pv_dial = \<lambda>p. DialError (if p = 80 then ''Connection Refused'' else ''i/o timeout''),
     pv_tries = 4\<rparr>"
  have "port_answers (pv_dial ?e) 80" by code_simp
  moreover have "trim_space ''10.0.0.7'' \<noteq> []" by code_simp
  ultimately show ?thesis using ping_evidence[of "''10.0.0.7''" ?e 1] by auto
qed

subsection \<open>The queries\<close>

text \<open>How a responder reads a question: labels of at most 63 bytes up to the root, type and class.\<close>

function read_labels :: "bytes \<Rightarrow> (string list \<times> bytes) option" where
  "read_labels [] = None"
| "read_labels (n # r) =
     (if n = 0 then Some ([], r)
      else if n \<ge> 64 \<or> length r < unat n then None
      else case read_labels (drop (unat n) r) of
             None \<Rightarrow> None
           | Some (ls, rest) \<Rightarrow> Some (string_of (take (unat n) r) # ls, rest))"
  by pat_completeness auto
termination by (relation "measure length") auto

definition read_question :: "bytes \<Rightarrow> (string list \<times> u16 \<times> u16) option" where
  "read_question b =
     (if take 12 b \<noteq> [0, 0, 0, 0, 0, 1, 0, 0, 0, 0, 0, 0] then None
      else case read_labels (drop 12 b) of
             Some (ls, [a, b, c, d]) \<Rightarrow> Some (ls, of_be16 a b, of_be16 c d)
           | _ \<Rightarrow> None)"

lemma label_length: "k < 256 \<Longrightarrow> unat (word_of_nat k :: byte) = k"
  by (simp add: unat_of_nat take_bit_nat_eq_self)

lemma read_label:
  assumes "s \<noteq> []" "length s < 64"
  shows "read_labels (dns_label s @ r) = (case read_labels r of None \<Rightarrow> None | Some (ls, rest) \<Rightarrow> Some (s # ls, rest))"
proof -
  let ?n = "word_of_nat (length s) :: byte"
  have n: "unat ?n = length s" using assms(2) by (intro label_length) simp
  have "?n \<noteq> 0" using n assms(1) by auto
  moreover have "\<not> ?n \<ge> 64" using n assms(2) by (simp add: word_le_nat_alt)
  ultimately show ?thesis by (simp add: dns_label_def n split: option.split)
qed

text \<open>
  The wake-up query asks for the camera: a responder that reads it by the rules of DNS finds one question, for any record
  of class IN of the name of the product and the device in the domain local, as long as that name fits
  into a label.
\<close>

theorem device_query_reads_back:
  assumes "trim_space product \<noteq> []" "trim_space dev \<noteq> []" "length (trim_space product) + length (trim_space dev) < 63"
  shows "read_question (device_query product dev) =
    Some ([trim_space product @ ''-'' @ trim_space dev, ''local''], 0x00ff, 1)"
proof -
  let ?name = "trim_space product @ ''-'' @ trim_space dev"
  have q: "device_query product dev = dns_header @ dns_label ?name @ dns_label ''local'' @ [0, 0, 0xff, 0, 1]"
    using assms by (simp add: device_query_def Let_def)
  have "read_labels (dns_label ?name @ dns_label ''local'' @ [0, 0, 0xff, 0, 1]) =
    Some ([?name, ''local''], [0, 0xff, 0, 1])"
    using assms read_label[of ?name] read_label[of "''local''"] by simp
  moreover have "of_be16 0 0xff = 0x00ff" "of_be16 0 1 = 1" by (simp_all add: of_be16_def)
  ultimately show ?thesis unfolding q by (simp add: read_question_def dns_header_def)
qed

lemma device_query_reads_back_witness:
  "read_question (device_query '' pr-abcde '' ''de-fghij42'') = Some ([''pr-abcde-de-fghij42'', ''local''], 0x00ff, 1)"
proof -
  have "trim_space '' pr-abcde '' = ''pr-abcde''" "trim_space ''de-fghij42'' = ''de-fghij42''" by code_simp+
  then show ?thesis using device_query_reads_back[of "'' pr-abcde ''" "''de-fghij42''"] by simp
qed

text \<open>A longer name gives a length byte that is not one.\<close>

lemma long_name_malformed:
  assumes "trim_space product \<noteq> []" "trim_space dev \<noteq> []"
    "63 \<le> length (trim_space product) + length (trim_space dev)" "length (trim_space product) + length (trim_space dev) < 255"
  shows "read_question (device_query product dev) = None"
proof -
  let ?name = "trim_space product @ ''-'' @ trim_space dev"
  have q: "device_query product dev = dns_header @ dns_label ?name @ dns_label ''local'' @ [0, 0, 0xff, 0, 1]"
    using assms by (simp add: device_query_def Let_def)
  let ?n = "word_of_nat (length ?name) :: byte"
  have "unat ?n = length ?name" using assms(4) by (intro label_length) simp
  then have "?n \<ge> 64" using assms(3) by (simp add: word_le_nat_alt)
  then have "read_labels (dns_label ?name @ dns_label ''local'' @ [0, 0, 0xff, 0, 1]) = None"
    unfolding dns_label_def by (auto simp: word_le_nat_alt)
  then show ?thesis unfolding q by (simp add: read_question_def dns_header_def)
qed

end
