(* ===== verification/Event_Query.thy ===== *)
theory Event_Query
  imports Sdcard_Transfer
begin

text \<open>
  The list of recordings as several callers ask for it at once (\<^verbatim>\<open>GetEventList\<close> and the answer in
  \<^verbatim>\<open>HandleJSONMessage\<close> of \<^verbatim>\<open>pkg/webrtc/sdcard.go\<close>): the lock that lets one query through at a time, the
  channel that the answer comes through, and the counter of timeouts. An answer carries no number of its query, so that the
  camera's answers are taken as they come.
\<close>

text \<open>
  What the camera sends: its list, and, for the reader of the model only, the call that it answers.
\<close>

record list_answer =
  la_count :: int
  la_total :: int
  la_list :: "event_item list"
  la_for :: nat

datatype list_result =
    ListGot list_answer
  | ListNotSent
  | ListCancelled
  | ListDeadline
  | ListTimedOut

text \<open>
  A call waits for the lock, has it, waits for the answer on its channel, is about to run its deferred calls, and has returned.
\<close>

datatype list_call =
    ListIdle
  | ListLocked sd_query
  | ListWaiting sd_query nat
  | ListLeaving list_result
  | ListReturned list_result

record list_sys =
  lq_owner :: "nat option"
  lq_chan :: "nat option"
  lq_bufs :: "nat \<Rightarrow> list_answer option"
  lq_next :: nat
  lq_calls :: "nat \<Rightarrow> list_call"
  lq_timeouts :: nat
  lq_resets :: nat
  lq_asked :: "(nat \<times> sd_query) list"

definition list_init :: list_sys where
  "list_init = \<lparr>lq_owner = None, lq_chan = None, lq_bufs = (\<lambda>_. None), lq_next = 0, lq_calls = (\<lambda>_. ListIdle),
     lq_timeouts = 0, lq_resets = 0, lq_asked = []\<rparr>"

text \<open>The first thing with the lock: the query with its defaults, unless the caller's context has ended.\<close>

definition list_register :: "nat \<Rightarrow> sd_query \<Rightarrow> list_sys \<Rightarrow> list_sys" where
  "list_register i q s =
     s\<lparr>lq_chan := Some (lq_next s), lq_bufs := (lq_bufs s)(lq_next s := None), lq_next := Suc (lq_next s),
       lq_calls := (lq_calls s)(i := ListWaiting (normal_query q) (lq_next s)),
       lq_asked := lq_asked s @ [(i, normal_query q)]\<rparr>"

definition outcome_of :: "list_result \<Rightarrow> query_outcome" where
  "outcome_of r = (case r of ListGot a \<Rightarrow> QAnswered | ListNotSent \<Rightarrow> QNotSent | ListCancelled \<Rightarrow> QCancelled
     | ListDeadline \<Rightarrow> QDeadline | ListTimedOut \<Rightarrow> QTimedOut)"

text \<open>The end of the wait: the counter, and the handler that asks for a new session when it is set.\<close>

definition list_end :: "bool \<Rightarrow> nat \<Rightarrow> list_result \<Rightarrow> list_sys \<Rightarrow> list_sys" where
  "list_end handler i r s =
     (case query_step (outcome_of r) (lq_timeouts s) of
        (n, reset) \<Rightarrow> s\<lparr>lq_timeouts := n, lq_resets := (if reset \<and> handler then Suc (lq_resets s) else lq_resets s),
                       lq_calls := (lq_calls s)(i := ListLeaving r)\<rparr>)"

text \<open>The answer goes to the channel that is there; a second one finds it full and is dropped.\<close>

definition list_deliver :: "list_answer \<Rightarrow> list_sys \<Rightarrow> list_sys" where
  "list_deliver a s =
     (case lq_chan s of
        None \<Rightarrow> s
      | Some c \<Rightarrow> if lq_bufs s c = None then s\<lparr>lq_bufs := (lq_bufs s)(c := Some a)\<rparr> else s)"

text \<open>The deferred calls: the channel goes, then the lock.\<close>

definition list_leave :: "nat \<Rightarrow> list_result \<Rightarrow> list_sys \<Rightarrow> list_sys" where
  "list_leave i r s = s\<lparr>lq_chan := None, lq_owner := None, lq_calls := (lq_calls s)(i := ListReturned r)\<rparr>"

text \<open>
  With the flag, the camera answers in time: what it answers is still being waited for. Without it, it may also answer a query
  that has been given up, as late as it likes. The command may be sent and still count as unsent (an error of the channel).
\<close>

inductive list_step :: "bool \<Rightarrow> list_sys \<Rightarrow> list_sys \<Rightarrow> bool" for prompt where
  list_lock: "lq_calls s i = ListIdle \<Longrightarrow> lq_owner s = None \<Longrightarrow>
    list_step prompt s (s\<lparr>lq_owner := Some i, lq_calls := (lq_calls s)(i := ListLocked q)\<rparr>)"
| list_ended_before: "lq_calls s i = ListLocked q \<Longrightarrow>
    list_step prompt s (s\<lparr>lq_owner := None, lq_calls := (lq_calls s)(i := ListReturned ListCancelled)\<rparr>)"
| list_send: "lq_calls s i = ListLocked q \<Longrightarrow> list_step prompt s (list_register i q s)"
| list_answered: "lq_calls s i = ListWaiting q c \<Longrightarrow> lq_bufs s c = Some a \<Longrightarrow>
    list_step prompt s (list_end handler i (ListGot a) (s\<lparr>lq_bufs := (lq_bufs s)(c := None)\<rparr>))"
| list_gives_up: "lq_calls s i = ListWaiting q c \<Longrightarrow> r \<in> {ListNotSent, ListCancelled, ListDeadline, ListTimedOut} \<Longrightarrow>
    list_step prompt s (list_end handler i r s)"
| list_returns: "lq_calls s i = ListLeaving r \<Longrightarrow> list_step prompt s (list_leave i r s)"
| camera_answers: "(la_for a, q) \<in> set (lq_asked s) \<Longrightarrow>
    prompt \<longrightarrow> (\<exists>c. lq_calls s (la_for a) = ListWaiting q c) \<Longrightarrow> list_step prompt s (list_deliver a s)"

inductive list_reachable :: "bool \<Rightarrow> list_sys \<Rightarrow> bool" for prompt where
  list_start: "list_reachable prompt list_init"
| list_next: "list_reachable prompt s \<Longrightarrow> list_step prompt s t \<Longrightarrow> list_reachable prompt t"

end
