(* ===== verification/Event_Query_Proofs.thy ===== *)
theory Event_Query_Proofs
  imports Event_Query
begin

text \<open>
  One query at a time, and with a camera that answers in time every caller gets the answer to its own question; a late
  answer is taken for that of the next one.
\<close>

text \<open>Only the owner of the lock is under way, and the channel is the one it waits on.\<close>

definition under_way :: "list_call \<Rightarrow> bool" where
  "under_way c = (case c of ListLocked q \<Rightarrow> True | ListWaiting q n \<Rightarrow> True | ListLeaving r \<Rightarrow> True | _ \<Rightarrow> False)"

lemma under_way_simps [simp]:
  "\<not> under_way ListIdle" "under_way (ListLocked q)" "under_way (ListWaiting q n)" "under_way (ListLeaving r)"
  "\<not> under_way (ListReturned r)"
  by (simp_all add: under_way_def)

definition lock_inv :: "list_sys \<Rightarrow> bool" where
  "lock_inv s \<longleftrightarrow>
     (\<forall>i. under_way (lq_calls s i) \<longleftrightarrow> lq_owner s = Some i) \<and>
     (\<forall>i q c. lq_calls s i = ListWaiting q c \<longrightarrow> lq_chan s = Some c)"

lemma lock_inv_owner: "lock_inv s \<Longrightarrow> under_way (lq_calls s i) \<longleftrightarrow> lq_owner s = Some i"
  by (simp add: lock_inv_def)

lemma lock_inv_chan: "lock_inv s \<Longrightarrow> lq_calls s i = ListWaiting q c \<Longrightarrow> lq_chan s = Some c"
  by (simp add: lock_inv_def)

lemma lock_inv_others: "lock_inv s \<Longrightarrow> under_way (lq_calls s i) \<Longrightarrow> j \<noteq> i \<Longrightarrow> \<not> under_way (lq_calls s j)"
  by (simp add: lock_inv_def)

lemma waiting_alone:
  "lock_inv s \<Longrightarrow> under_way (lq_calls s i) \<Longrightarrow> j \<noteq> i \<Longrightarrow> lq_calls s j \<noteq> ListWaiting q c"
  using lock_inv_others[of s i j] by auto

lemma deliver_fields [simp]:
  "lq_owner (list_deliver a s) = lq_owner s" "lq_calls (list_deliver a s) = lq_calls s" "lq_chan (list_deliver a s) = lq_chan s"
  "lq_asked (list_deliver a s) = lq_asked s"
  by (simp_all add: list_deliver_def split: option.split)

lemma end_fields [simp]:
  "lq_owner (list_end h i r s) = lq_owner s" "lq_calls (list_end h i r s) = (lq_calls s)(i := ListLeaving r)"
  "lq_chan (list_end h i r s) = lq_chan s" "lq_bufs (list_end h i r s) = lq_bufs s"
  "lq_asked (list_end h i r s) = lq_asked s"
  by (simp_all add: list_end_def split: prod.split)

lemma register_fields [simp]:
  "lq_owner (list_register i q s) = lq_owner s" "lq_chan (list_register i q s) = Some (lq_next s)"
  "lq_calls (list_register i q s) = (lq_calls s)(i := ListWaiting (normal_query q) (lq_next s))"
  by (simp_all add: list_register_def)

lemma leave_fields [simp]:
  "lq_owner (list_leave i r s) = None" "lq_chan (list_leave i r s) = None" "lq_bufs (list_leave i r s) = lq_bufs s"
  "lq_asked (list_leave i r s) = lq_asked s" "lq_calls (list_leave i r s) = (lq_calls s)(i := ListReturned r)"
  by (simp_all add: list_leave_def)

lemma lock_inv_step:
  assumes "list_step prompt s t" "lock_inv s"
  shows "lock_inv t"
  using assms(1)
proof cases
  case (list_send i q)
  then have "lq_calls s j \<noteq> ListWaiting q' c" if "j \<noteq> i" for j q' c
    using waiting_alone[OF assms(2), of i j] that by simp
  with list_send assms(2) show ?thesis by (auto simp: lock_inv_def)
next
  case (list_returns i r)
  then have "lq_calls s j \<noteq> ListWaiting q' c" if "j \<noteq> i" for j q' c
    using waiting_alone[OF assms(2), of i j] that by simp
  with list_returns assms(2) show ?thesis by (auto simp: lock_inv_def)
qed (use assms(2) in \<open>auto simp: lock_inv_def split: if_splits, (metis option.inject)+\<close>)

lemma lock_inv_reachable: "list_reachable prompt s \<Longrightarrow> lock_inv s"
  by (induction rule: list_reachable.induct)
     (use lock_inv_step in \<open>auto simp: lock_inv_def list_init_def\<close>)

text \<open>What is buffered for a waiting call, and what a call has got, answers its own question.\<close>

definition answer_inv :: "list_sys \<Rightarrow> bool" where
  "answer_inv s \<longleftrightarrow>
     (\<forall>i q c a. lq_calls s i = ListWaiting q c \<longrightarrow> lq_bufs s c = Some a \<longrightarrow> la_for a = i) \<and>
     (\<forall>i a. lq_calls s i = ListLeaving (ListGot a) \<or> lq_calls s i = ListReturned (ListGot a) \<longrightarrow> la_for a = i)"

lemma answer_inv_step:
  assumes "list_step True s t" "lock_inv s" "answer_inv s"
  shows "answer_inv t"
  using assms(1)
proof cases
  case (camera_answers a q)
  then obtain q' c where w: "lq_calls s (la_for a) = ListWaiting q' c" by blast
  then have "lq_chan s = Some c" by (rule lock_inv_chan[OF assms(2)])
  then have "t = s \<or> t = s\<lparr>lq_bufs := (lq_bufs s)(c := Some a)\<rparr>"
    using camera_answers(1) by (simp add: list_deliver_def)
  then show ?thesis
  proof
    assume t: "t = s\<lparr>lq_bufs := (lq_bufs s)(c := Some a)\<rparr>"
    have "lq_calls s j \<noteq> ListWaiting q'' d" if "j \<noteq> la_for a" for j q'' d
      using waiting_alone[OF assms(2), of "la_for a" j] w that by simp
    then show ?thesis
      using assms(3) w by (auto simp: answer_inv_def t) metis
  qed (use assms(3) in simp)
next
  case (list_send i q)
  then have "lq_calls s j \<noteq> ListWaiting q' c" if "j \<noteq> i" for j q' c
    using waiting_alone[OF assms(2), of i j] that by simp
  with list_send assms(3) show ?thesis by (auto simp: answer_inv_def list_register_def)
next
  case (list_answered i q c a h)
  then have "lq_calls s j \<noteq> ListWaiting q' c" if "j \<noteq> i" for j q' c
    using waiting_alone[OF assms(2), of i j] that by simp
  with list_answered assms(3) show ?thesis by (auto simp: answer_inv_def)
qed (use assms(3) in \<open>auto simp: answer_inv_def\<close>)

text \<open> C35. However many callers ask for the list of recordings at once, one query is under way at a time, its channel is never
  replaced by another's, and when the camera answers only what is still being waited for, every caller that gets a list gets the one for its
  own question. \<close>

theorem list_answers_own_query:
  assumes "list_reachable True s"
  shows "(\<forall>i j. under_way (lq_calls s i) \<longrightarrow> under_way (lq_calls s j) \<longrightarrow> i = j) \<and>
    (\<forall>i q c. lq_calls s i = ListWaiting q c \<longrightarrow> lq_chan s = Some c) \<and>
    (\<forall>i a. lq_calls s i = ListReturned (ListGot a) \<longrightarrow> la_for a = i)"
proof -
  have l: "lock_inv s" by (rule lock_inv_reachable[OF assms])
  have a: "answer_inv s" using assms
  proof (induction rule: list_reachable.induct)
    case list_start
    then show ?case by (simp add: answer_inv_def list_init_def)
  next
    case (list_next s t)
    then show ?case using answer_inv_step lock_inv_reachable by blast
  qed
  show ?thesis
    using l a by (simp add: lock_inv_def answer_inv_def)
qed

lemma list_answers_own_query_witness:
  "\<exists>s. list_reachable True s \<and> lq_calls s 0 = ListWaiting (normal_query \<lparr>sq_start = 1, sq_end = 0, sq_page = 0, sq_limit = 5\<rparr>) 0 \<and> lq_chan s = Some 0"
proof -
  let ?s1 = "list_init\<lparr>lq_owner := Some 0, lq_calls := (lq_calls list_init)(0 := ListLocked \<lparr>sq_start = 1, sq_end = 0, sq_page = 0, sq_limit = 5\<rparr>)\<rparr>"
  have "list_reachable True ?s1"
    by (rule list_next[OF list_start list_lock]) (simp_all add: list_init_def)
  then have r: "list_reachable True (list_register 0 \<lparr>sq_start = 1, sq_end = 0, sq_page = 0, sq_limit = 5\<rparr> ?s1)"
    by (rule list_next[OF _ list_send]) simp
  have w: "lq_calls (list_register 0 \<lparr>sq_start = 1, sq_end = 0, sq_page = 0, sq_limit = 5\<rparr> ?s1) 0 = ListWaiting (normal_query \<lparr>sq_start = 1, sq_end = 0, sq_page = 0, sq_limit = 5\<rparr>) 0"
    by (simp add: list_init_def)
  show ?thesis
    using r w list_answers_own_query[OF r] by blast
qed

text \<open>
  Without a camera in time: the answer to the first caller's query, given up after its fifteen seconds, comes while the
  second one waits and is handed to it.
\<close>

definition late_answer :: list_answer where
  "late_answer = \<lparr>la_count = 1, la_total = 1, la_list = [], la_for = 0\<rparr>"

lemma second_caller_waits:
  "\<exists>s c. list_reachable False s \<and> lq_calls s 1 = ListWaiting (normal_query q) c \<and> lq_chan s = Some c \<and>
     lq_bufs s c = None \<and> lq_calls s 0 = ListReturned ListTimedOut \<and> lq_asked s = [(0, normal_query p), (1, normal_query q)]"
proof -
  let ?s1 = "list_init\<lparr>lq_owner := Some 0, lq_calls := (lq_calls list_init)(0 := ListLocked p)\<rparr>"
  let ?s2 = "list_register 0 p ?s1"
  let ?s3 = "list_end False 0 ListTimedOut ?s2"
  let ?s4 = "list_leave 0 ListTimedOut ?s3"
  let ?s5 = "?s4\<lparr>lq_owner := Some 1, lq_calls := (lq_calls ?s4)(1 := ListLocked q)\<rparr>"
  have "list_reachable False ?s1"
    by (rule list_next[OF list_start list_lock]) (simp_all add: list_init_def)
  then have "list_reachable False ?s2"
    by (rule list_next[OF _ list_send]) simp
  then have "list_reachable False ?s3"
    by (rule list_next[OF _ list_gives_up]) simp_all
  then have "list_reachable False ?s4"
    by (rule list_next[OF _ list_returns]) simp
  then have "list_reachable False ?s5"
    by (rule list_next[OF _ list_lock]) (simp_all add: list_init_def)
  then have "list_reachable False (list_register 1 q ?s5)"
    by (rule list_next[OF _ list_send]) simp
  moreover have "lq_asked (list_register 1 q ?s5) = [(0, normal_query p), (1, normal_query q)]"
    by (simp add: list_register_def list_leave_def list_end_def list_init_def
        split: prod.split)
  ultimately show ?thesis
    by (intro exI[of _ "list_register 1 q ?s5"] exI[of _ "lq_next ?s5"]) (simp add: list_register_def)
qed

theorem late_answer_taken:
  "\<exists>s. list_reachable False s \<and> lq_calls s 1 = ListReturned (ListGot late_answer) \<and> la_for late_answer = 0 \<and>
     lq_asked s = [(0, normal_query p), (1, normal_query q)]"
proof -
  obtain s c where s: "list_reachable False s" "lq_calls s 1 = ListWaiting (normal_query q) c" "lq_chan s = Some c"
    "lq_bufs s c = None" "lq_asked s = [(0, normal_query p), (1, normal_query q)]"
    using second_caller_waits[of q p] by blast
  let ?t = "list_deliver late_answer s"
  have "list_reachable False ?t"
    by (rule list_next[OF s(1) camera_answers]) (use s(5) in \<open>simp_all add: late_answer_def\<close>)
  then have "list_reachable False (list_end False 1 (ListGot late_answer) (?t\<lparr>lq_bufs := (lq_bufs ?t)(c := None)\<rparr>))"
    by (rule list_next[OF _ list_answered]) (use s in \<open>simp_all add: list_deliver_def\<close>)
  then have "list_reachable False (list_leave 1 (ListGot late_answer)
      (list_end False 1 (ListGot late_answer) (?t\<lparr>lq_bufs := (lq_bufs ?t)(c := None)\<rparr>)))"
    by (rule list_next[OF _ list_returns]) simp
  then show ?thesis
    by (intro exI conjI, assumption) (use s(5) in \<open>simp_all add: late_answer_def\<close>)
qed

end
