(* ===== verification/Onvif_Xml.thy ===== *)
theory Onvif_Xml
  imports Onvif_Server Sdcard_Transfer
begin

text \<open>
  XML documents as the ONVIF services write them: elements, elements without content and character data, the layout of the
  literals in \<^verbatim>\<open>pkg/onvif\<close> (one child on a line, two columns deeper), and a reader for the subset that is
  written. The reader is a reference: elements and attributes, the declaration at the start, no
  entities, no comments.
\<close>

type_synonym attrs = "(string \<times> string) list"

datatype node =
    Node string attrs "node list"
  | Void string attrs
  | Chars string

text \<open>The text of a document.\<close>

definition show_attrs :: "attrs \<Rightarrow> string" where
  "show_attrs as = concat (map (\<lambda>(k, v). '' '' @ k @ ''=\"'' @ v @ ''\"'') as)"

fun show_node :: "node \<Rightarrow> string" where
  "show_node (Chars s) = s"
| "show_node (Void n as) = ''<'' @ n @ show_attrs as @ ''/>''"
| "show_node (Node n as ts) =
     ''<'' @ n @ show_attrs as @ ''>'' @ concat (map show_node ts) @ ''</'' @ n @ ''>''"

subsection \<open>Layout\<close>

text \<open>A part of a document, given the column it starts in.\<close>

type_synonym doc = "nat \<Rightarrow> node"

definition new_line :: "nat \<Rightarrow> string" where
  "new_line d = CHR 0x0A # replicate d (CHR '' '')"

text \<open>Children on lines of their own, children one after the other, character data only, nothing.\<close>

definition xblock :: "string \<Rightarrow> attrs \<Rightarrow> doc list \<Rightarrow> doc" where
  "xblock n as ts d = Node n as (concat (map (\<lambda>t. [Chars (new_line (d + 2)), t (d + 2)]) ts) @ [Chars (new_line d)])"

definition xrow :: "string \<Rightarrow> attrs \<Rightarrow> doc list \<Rightarrow> doc" where
  "xrow n as ts d = Node n as (map (\<lambda>t. t d) ts)"

definition xfield :: "string \<Rightarrow> attrs \<Rightarrow> string \<Rightarrow> doc" where
  "xfield n as s d = Node n as (if s = [] then [] else [Chars s])"

definition xvoid :: "string \<Rightarrow> attrs \<Rightarrow> doc" where
  "xvoid n as d = Void n as"

abbreviation xtext :: "string \<Rightarrow> string \<Rightarrow> doc" where
  "xtext n s \<equiv> xfield n [] s"

subsection \<open>The reader\<close>

datatype token = TOpen string attrs | TVoid string attrs | TClose string | TChars string

text \<open>The attributes of a tag, each after one space.\<close>

function read_attrs :: "string \<Rightarrow> attrs option" where
  "read_attrs s =
     (case s of
        [] \<Rightarrow> Some []
      | c # r \<Rightarrow>
          (let k = takeWhile (\<lambda>c. c \<noteq> CHR ''='') r;
               v = takeWhile (\<lambda>c. c \<noteq> CHR 0x22) (drop (length k + 2) r) in
           if c = CHR '' '' \<and> take 2 (drop (length k) r) = ''=\"'' \<and> length k + 2 + length v < length r
           then map_option (Cons (k, v)) (read_attrs (drop (length k + 3 + length v) r))
           else None))"
  by pat_completeness auto
termination by (relation "measure length") auto

declare read_attrs.simps [simp del]

definition read_tag :: "string \<Rightarrow> token option" where
  "read_tag s =
     (let name = takeWhile (\<lambda>c. c \<noteq> CHR '' ''); rest = dropWhile (\<lambda>c. c \<noteq> CHR '' '') in
      if s = [] then None
      else if hd s = CHR ''/'' then Some (TClose (tl s))
      else if last s = CHR ''/''
      then map_option (TVoid (name (butlast s))) (read_attrs (rest (butlast s)))
      else map_option (TOpen (name s)) (read_attrs (rest s)))"

function lex :: "string \<Rightarrow> token list option" where
  "lex s =
     (case s of
        [] \<Rightarrow> Some []
      | c # r \<Rightarrow>
          if c \<noteq> CHR ''<''
          then (let t = takeWhile (\<lambda>c. c \<noteq> CHR ''<'') s in
                if CHR ''&'' \<in> set t then None
                else map_option (Cons (TChars t)) (lex (drop (length t) s)))
          else (let tag = takeWhile (\<lambda>c. c \<noteq> CHR ''>'') r in
                if length tag = length r then None
                else if take 1 tag = ''?'' then lex (drop (Suc (length tag)) r)
                else Option.bind (read_tag tag) (\<lambda>k. map_option (Cons k) (lex (drop (Suc (length tag)) r)))))"
  by pat_completeness auto
termination by (relation "measure length") (auto split: if_splits)

declare lex.simps [simp del]

text \<open>The elements that are open, each with what came before it, innermost first.\<close>

fun build :: "token list \<Rightarrow> (string \<times> attrs \<times> node list) list \<Rightarrow> node list \<Rightarrow> node list option" where
  "build [] st acc = (if st = [] then Some (rev acc) else None)"
| "build (TChars s # ts) st acc = build ts st (Chars s # acc)"
| "build (TVoid n as # ts) st acc = build ts st (Void n as # acc)"
| "build (TOpen n as # ts) st acc = build ts ((n, as, acc) # st) []"
| "build (TClose n # ts) st acc =
     (case st of
        [] \<Rightarrow> None
      | (m, as, before) # st' \<Rightarrow> if n = m then build ts st' (Node m as (rev acc) # before) else None)"

definition read_xml :: "string \<Rightarrow> node list option" where
  "read_xml s = Option.bind (lex s) (\<lambda>ts. build ts [] [])"

subsection \<open>Well-formed documents\<close>

text \<open>No character that has a meaning in XML.\<close>

definition no_markup :: "string \<Rightarrow> bool" where
  "no_markup s \<longleftrightarrow> list_all (\<lambda>c. c \<noteq> CHR ''<'' \<and> c \<noteq> CHR ''>'' \<and> c \<noteq> CHR ''&'' \<and> c \<noteq> CHR 0x22) s"

definition name_ok :: "string \<Rightarrow> bool" where
  "name_ok n \<longleftrightarrow> n \<noteq> [] \<and> no_markup n \<and> list_all (\<lambda>c. c \<noteq> CHR '' '' \<and> c \<noteq> CHR ''='' \<and> c \<noteq> CHR ''/'' \<and> c \<noteq> CHR ''?'') n"

text \<open>The prefix of a name, and the prefixes that the attributes of an element declare.\<close>

definition prefix_of :: "string \<Rightarrow> string option" where
  "prefix_of n = (if CHR '':'' \<in> set n then Some (takeWhile (\<lambda>c. c \<noteq> CHR '':'') n) else None)"

definition declared :: "attrs \<Rightarrow> string list" where
  "declared as = map (\<lambda>(k, v). drop 6 k) (filter (\<lambda>(k, v). take 6 k = ''xmlns:'') as)"

definition known :: "string list \<Rightarrow> string \<Rightarrow> bool" where
  "known ps n \<longleftrightarrow> (case prefix_of n of None \<Rightarrow> True | Some p \<Rightarrow> p \<in> set ps)"

definition attrs_ok :: "string list \<Rightarrow> attrs \<Rightarrow> bool" where
  "attrs_ok ps as \<longleftrightarrow> list_all (\<lambda>(k, v). name_ok k \<and> no_markup v \<and> known (''xmlns'' # ''xml'' # ps) k) as"

fun is_chars :: "node \<Rightarrow> bool" where
  "is_chars (Chars s) = True"
| "is_chars t = False"

fun apart :: "node list \<Rightarrow> bool" where
  "apart (t # u # ts) \<longleftrightarrow> \<not> (is_chars t \<and> is_chars u) \<and> apart (u # ts)"
| "apart ts = True"

text \<open>Names and text without markup, and every prefix declared where it is used; no two stretches of text side by side.\<close>

fun well_formed :: "string list \<Rightarrow> node \<Rightarrow> bool" where
  "well_formed ps (Chars s) \<longleftrightarrow> s \<noteq> [] \<and> no_markup s"
| "well_formed ps (Void n as) \<longleftrightarrow>
     name_ok n \<and> attrs_ok (declared as @ ps) as \<and> known (declared as @ ps) n"
| "well_formed ps (Node n as ts) \<longleftrightarrow>
     name_ok n \<and> attrs_ok (declared as @ ps) as \<and> known (declared as @ ps) n \<and>
     list_all (well_formed (declared as @ ps)) ts \<and> apart ts"

subsection \<open>Parts of a node\<close>

text \<open>A name without its prefix; name, attributes and content of a node, of which text has none.\<close>

definition local_name :: "string \<Rightarrow> string" where
  "local_name n = (if CHR '':'' \<in> set n then tl (dropWhile (\<lambda>c. c \<noteq> CHR '':'') n) else n)"

fun node_name :: "node \<Rightarrow> string" where
  "node_name (Node n as ts) = n"
| "node_name (Void n as) = n"
| "node_name (Chars s) = []"

fun node_attrs :: "node \<Rightarrow> attrs" where
  "node_attrs (Node n as ts) = as"
| "node_attrs (Void n as) = as"
| "node_attrs (Chars s) = []"

fun node_children :: "node \<Rightarrow> node list" where
  "node_children (Node n as ts) = ts"
| "node_children t = []"

abbreviation root_name :: "node \<Rightarrow> string" where
  "root_name t \<equiv> local_name (node_name t)"

end
