(* ===== verification/Onvif_Xml_Proofs.thy ===== *)
theory Onvif_Xml_Proofs
  imports Onvif_Xml
begin

text \<open>
  The reader gives back every well-formed document that is shown, and rules by which the documents of the services are
  well-formed piece by piece.
\<close>

subsection \<open>Reading back\<close>

lemma span_word:
  assumes "list_all P xs" "ys = [] \<or> \<not> P (hd ys)"
  shows "takeWhile P (xs @ ys) = xs" "dropWhile P (xs @ ys) = ys"
  using assms by (cases ys; induction xs; simp)+

lemma no_markup_chars:
  assumes "no_markup s"
  shows "list_all (\<lambda>c. c \<noteq> CHR ''<'') s" "list_all (\<lambda>c. c \<noteq> CHR ''>'') s" "list_all (\<lambda>c. c \<noteq> CHR 0x22) s" "CHR ''&'' \<notin> set s"
  using assms by (auto simp: no_markup_def list_all_iff)

lemma name_ok_chars:
  assumes "name_ok n"
  shows "n \<noteq> []" "no_markup n" "list_all (\<lambda>c. c \<noteq> CHR '' '') n" "list_all (\<lambda>c. c \<noteq> CHR ''='') n" "list_all (\<lambda>c. c \<noteq> CHR ''/'') n"
    "list_all (\<lambda>c. c \<noteq> CHR ''?'') n"
  using assms by (auto simp: name_ok_def list_all_iff)

lemma show_attrs_simps [simp]:
  "show_attrs [] = []"
  "show_attrs ((k, v) # as) = '' '' @ k @ ''=\"'' @ v @ ''\"'' @ show_attrs as"
  by (simp_all add: show_attrs_def)

lemma attrs_ok_simps [simp]:
  "attrs_ok ps []"
  "attrs_ok ps ((k, v) # as) \<longleftrightarrow>
     name_ok k \<and> no_markup v \<and> known (''xmlns'' # ''xml'' # ps) k \<and> attrs_ok ps as"
  by (simp_all add: attrs_ok_def)

lemma read_attrs_show: "attrs_ok ps as \<Longrightarrow> read_attrs (show_attrs as) = Some as"
proof (induction as)
  case Nil
  show ?case by (simp add: read_attrs.simps)
next
  case (Cons a as)
  obtain k v where a: "a = (k, v)" by (cases a)
  have ok: "name_ok k" "no_markup v" "attrs_ok ps as" using Cons.prems by (simp_all add: a)
  let ?r = "k @ CHR ''='' # CHR 0x22 # v @ CHR 0x22 # show_attrs as"
  have "takeWhile (\<lambda>c. c \<noteq> CHR ''='') ?r = k"
    using name_ok_chars(4)[OF ok(1)] by (simp add: takeWhile_stop)
  moreover have "takeWhile (\<lambda>c. c \<noteq> CHR 0x22) (v @ CHR 0x22 # show_attrs as) = v"
    using no_markup_chars(3)[OF ok(2)] by (simp add: takeWhile_stop)
  ultimately show ?case
    using Cons.IH[OF ok(3)] by (simp add: a read_attrs.simps[of "CHR '' '' # ?r"] Let_def numeral_3_eq_3)
qed

lemma read_tag_open:
  assumes "name_ok n" "attrs_ok ps as"
  shows "read_tag (n @ show_attrs as) = Some (TOpen n as)" and "read_tag (n @ show_attrs as @ ''/'') = Some (TVoid n as)"
    and "read_tag (CHR ''/'' # n) = Some (TClose n)"
proof -
  note n = name_ok_chars[OF assms(1)]
  obtain c m where cm: "n = c # m" using n(1) by (cases n) auto
  have c: "c \<noteq> CHR ''/''" using n(5) cm by simp
  have sp: "takeWhile (\<lambda>c. c \<noteq> CHR '' '') (n @ show_attrs as) = n"
      "dropWhile (\<lambda>c. c \<noteq> CHR '' '') (n @ show_attrs as) = show_attrs as"
    using span_word[OF n(3), of "show_attrs as"] by (cases as; force)+
  have l: "last (n @ show_attrs as) \<noteq> CHR ''/''"
  proof (cases as rule: rev_cases)
    case Nil
    then show ?thesis using n(1,5) by (auto simp: list_all_iff)
  next
    case (snoc bs b)
    then show ?thesis by (cases b) (simp add: show_attrs_def)
  qed
  have r: "read_attrs (show_attrs as) = Some as" by (rule read_attrs_show[OF assms(2)])
  have ne: "n @ show_attrs as \<noteq> []" "hd (n @ show_attrs as) \<noteq> CHR ''/''" using cm c by simp_all
  show "read_tag (n @ show_attrs as) = Some (TOpen n as)"
    unfolding read_tag_def Let_def using ne l sp r by simp
  have bl: "butlast (n @ show_attrs as @ ''/'') = n @ show_attrs as" using butlast_snoc[of "n @ show_attrs as"] by simp
  show "read_tag (n @ show_attrs as @ ''/'') = Some (TVoid n as)"
    unfolding read_tag_def Let_def bl using sp r c cm by simp
  show "read_tag (CHR ''/'' # n) = Some (TClose n)"
    by (simp add: read_tag_def)
qed

lemma tag_start:
  assumes "name_ok n"
  shows "take 1 (n @ s) \<noteq> ''?''"
  using name_ok_chars(1,6)[OF assms] by (cases n) auto

lemma tag_chars:
  assumes "name_ok n" "attrs_ok ps as"
  shows "list_all (\<lambda>c. c \<noteq> CHR ''>'') (n @ show_attrs as)"
proof -
  have "list_all (\<lambda>c. c \<noteq> CHR ''>'') (show_attrs as)" using assms(2)
    by (induction as) (auto simp: no_markup_chars(2) name_ok_chars(2))
  then show ?thesis using no_markup_chars(2)[OF name_ok_chars(2)[OF assms(1)]] by simp
qed

lemma lex_tag:
  assumes "list_all (\<lambda>c. c \<noteq> CHR ''>'') tag" "read_tag tag = Some k" "take 1 tag \<noteq> ''?''"
  shows "lex (CHR ''<'' # tag @ CHR ''>'' # rest) = map_option (Cons k) (lex rest)"
proof -
  have "takeWhile (\<lambda>c. c \<noteq> CHR ''>'') (tag @ CHR ''>'' # rest) = tag" by (rule takeWhile_stop) (use assms in simp_all)
  then show ?thesis using assms(2,3) by (simp add: lex.simps[of "CHR ''<'' # tag @ CHR ''>'' # rest"] Let_def)
qed

lemma lex_chars:
  assumes "no_markup s" "s \<noteq> []" "rest = [] \<or> hd rest = CHR ''<''"
  shows "lex (s @ rest) = map_option (Cons (TChars s)) (lex rest)"
proof -
  have t: "takeWhile (\<lambda>c. c \<noteq> CHR ''<'') (s @ rest) = s"
    using no_markup_chars(1)[OF assms(1)] assms(3)
    by (cases rest) (auto simp: takeWhile_stop list_all_iff)
  obtain c r where s: "s = c # r" using assms(2) by (cases s) auto
  have c: "c \<noteq> CHR ''<''" using no_markup_chars(1)[OF assms(1)] s by simp
  then show ?thesis
    using t s no_markup_chars(4)[OF assms(1)] by (subst lex.simps) (simp add: Let_def)
qed

lemma map_option_append_Nil: "map_option ((@) []) x = x"
  by (cases x) simp_all

fun tokens :: "node \<Rightarrow> token list" where
  "tokens (Chars s) = [TChars s]"
| "tokens (Void n as) = [TVoid n as]"
| "tokens (Node n as ts) = TOpen n as # concat (map tokens ts) @ [TClose n]"

definition at_tag :: "string \<Rightarrow> bool" where
  "at_tag s \<longleftrightarrow> s = [] \<or> hd s = CHR ''<''"

lemma show_starts: "\<not> is_chars t \<Longrightarrow> at_tag (show_node t @ s)"
  by (cases t) (simp_all add: at_tag_def)

lemma lex_shows:
  assumes "\<And>t rest. t \<in> set ts \<Longrightarrow> (is_chars t \<Longrightarrow> at_tag rest) \<Longrightarrow>
      lex (show_node t @ rest) = map_option (append (tokens t)) (lex rest)"
    and "apart ts" "at_tag rest"
  shows "lex (concat (map show_node ts) @ rest) = map_option (append (concat (map tokens ts))) (lex rest)"
  using assms
proof (induction ts)
  case (Cons t ts)
  let ?r = "concat (map show_node ts) @ rest"
  have "at_tag ?r" if "is_chars t"
    using that Cons.prems(2,3) by (cases ts) (simp_all add: show_starts)
  then have "lex (show_node t @ ?r) = map_option (append (tokens t)) (lex ?r)"
    by (intro Cons.prems(1)) simp_all
  moreover have "lex ?r = map_option (append (concat (map tokens ts))) (lex rest)"
    by (rule Cons.IH) (use Cons.prems in \<open>auto, cases ts, auto\<close>)
  ultimately show ?case by (simp add: option.map_comp comp_def)
qed (simp add: map_option_append_Nil)

lemma lex_show:
  "well_formed ps t \<Longrightarrow> (is_chars t \<Longrightarrow> at_tag rest) \<Longrightarrow> lex (show_node t @ rest) = map_option (append (tokens t)) (lex rest)"
proof (induction t arbitrary: ps rest)
  case (Node n as ts)
  let ?r = "''</'' @ n @ ''>'' @ rest"
  have w: "name_ok n" "attrs_ok (declared as @ ps) as" "list_all (well_formed (declared as @ ps)) ts" "apart ts"
    using Node.prems(1) by simp_all
  note tag = read_tag_open[OF w(1,2)]
  have "lex (show_node (Node n as ts) @ rest) = map_option (Cons (TOpen n as)) (lex (concat (map show_node ts) @ ?r))"
    using lex_tag[OF tag_chars[OF w(1,2)] tag(1) tag_start[OF w(1)]] by simp
  also have "lex (concat (map show_node ts) @ ?r) = map_option (append (concat (map tokens ts))) (lex ?r)"
    by (rule lex_shows) (use Node.IH w(3,4) in \<open>auto simp: at_tag_def list_all_iff\<close>)
  also have "lex ?r = map_option (Cons (TClose n)) (lex rest)"
    using lex_tag[OF _ tag(3)] no_markup_chars(2)[OF name_ok_chars(2)[OF w(1)]] by simp
  finally show ?case by (simp add: option.map_comp comp_def)
next
  case (Void n as)
  have w: "name_ok n" "attrs_ok (declared as @ ps) as" using Void.prems(1) by simp_all
  have "list_all (\<lambda>c. c \<noteq> CHR ''>'') (n @ show_attrs as @ ''/'')" using tag_chars[OF w] by simp
  from lex_tag[OF this read_tag_open(2)[OF w] tag_start[OF w(1)]] show ?case by simp
next
  case (Chars s)
  then show ?case using lex_chars[of s rest] by (simp add: at_tag_def append_def)
qed

lemma build_all:
  assumes "\<And>t ts st acc. t \<in> set us \<Longrightarrow> build (tokens t @ ts) st acc = build ts st (t # acc)"
  shows "build (concat (map tokens us) @ ts) st acc = build ts st (rev us @ acc)"
  using assms by (induction us arbitrary: acc) simp_all

lemma build_tokens: "build (tokens t @ ts) st acc = build ts st (t # acc)"
  by (induction t arbitrary: ts st acc) (simp_all add: build_all)

theorem read_shown:
  assumes "well_formed ps t" "\<not> is_chars t"
  shows "read_xml (show_node t) = Some [t]"
  using lex_show[OF assms(1), of "[]"] assms(2) build_tokens[of t "[]" "[]" "[]"]
  by (simp add: read_xml_def lex.simps)

subsection \<open>Well-formed parts\<close>

text \<open>Wherever it stands, a part is a well-formed element under the given prefixes.\<close>

definition doc_ok :: "string list \<Rightarrow> doc \<Rightarrow> bool" where
  "doc_ok ps t \<longleftrightarrow> (\<forall>d. well_formed ps (t d) \<and> \<not> is_chars (t d))"

definition head_ok :: "string list \<Rightarrow> string \<Rightarrow> attrs \<Rightarrow> bool" where
  "head_ok ps n as \<longleftrightarrow> name_ok n \<and> attrs_ok ps as \<and> known ps n"

lemma no_markup_simps [simp]:
  "no_markup []"
  "no_markup (c # s) \<longleftrightarrow> c \<noteq> CHR ''<'' \<and> c \<noteq> CHR ''>'' \<and> c \<noteq> CHR ''&'' \<and> c \<noteq> CHR 0x22 \<and> no_markup s"
  "no_markup (s @ t) \<longleftrightarrow> no_markup s \<and> no_markup t"
  by (auto simp: no_markup_def)

lemma no_markup_new_line [simp]: "no_markup (new_line d)"
  by (auto simp: new_line_def no_markup_def list_all_iff)

lemma new_line_not_Nil [simp]: "new_line d \<noteq> []"
  by (simp add: new_line_def)

lemma apart_no_chars: "list_all (\<lambda>t. \<not> is_chars t) ts \<Longrightarrow> apart ts"
  by (induction ts rule: apart.induct) auto

lemma apart_lines:
  "list_all (\<lambda>t. \<not> is_chars (t d)) ts \<Longrightarrow> apart (concat (map (\<lambda>t. [Chars s, t d]) ts) @ [Chars s'])"
  by (induction ts) (auto simp: neq_Nil_conv Cons_eq_append_conv elim: apart.elims)

lemma doc_ok_xtext: "head_ok ps n [] \<Longrightarrow> no_markup s \<Longrightarrow> doc_ok ps (xtext n s)"
  by (simp add: doc_ok_def head_ok_def xfield_def declared_def)

lemma doc_ok_xfield: "head_ok (declared as @ ps) n as \<Longrightarrow> no_markup s \<Longrightarrow> doc_ok ps (xfield n as s)"
  by (simp add: doc_ok_def head_ok_def xfield_def)

lemma doc_ok_xvoid: "head_ok (declared as @ ps) n as \<Longrightarrow> doc_ok ps (xvoid n as)"
  by (simp add: doc_ok_def head_ok_def xvoid_def)

lemma doc_ok_xrow:
  "head_ok (declared as @ ps) n as \<Longrightarrow> list_all (doc_ok (declared as @ ps)) ts \<Longrightarrow> doc_ok ps (xrow n as ts)"
  by (auto simp: doc_ok_def head_ok_def xrow_def list_all_iff intro!: apart_no_chars)

lemma doc_ok_xblock:
  "head_ok (declared as @ ps) n as \<Longrightarrow> list_all (doc_ok (declared as @ ps)) ts \<Longrightarrow> doc_ok ps (xblock n as ts)"
  by (auto simp: doc_ok_def head_ok_def xblock_def list_all_iff intro!: apart_lines)

lemmas doc_oks = doc_ok_xtext doc_ok_xfield doc_ok_xvoid doc_ok_xrow doc_ok_xblock

end
