(* ===== verification/Onvif_Device_Answers.thy ===== *)
theory Onvif_Device_Answers
  imports Onvif_Xml
begin

text \<open>
  What the device service answers (\<^verbatim>\<open>pkg/onvif/device.go\<close>), element for element as the literals of the code have it. The
  namespaces are those of \<^verbatim>\<open>types.go\<close>; the arguments are what the code puts into the text.
\<close>

definition ns_soap_env :: string where "ns_soap_env = ''http://www.w3.org/2003/05/soap-envelope''"
definition ns_wsdd :: string where "ns_wsdd = ''http://schemas.xmlsoap.org/ws/2005/04/discovery''"
definition ns_wsa :: string where "ns_wsa = ''http://www.w3.org/2005/08/addressing''"
definition ns_tds :: string where "ns_tds = ''http://www.onvif.org/ver10/device/wsdl''"
definition ns_trt :: string where "ns_trt = ''http://www.onvif.org/ver10/media/wsdl''"
definition ns_tt :: string where "ns_tt = ''http://www.onvif.org/ver10/schema''"
definition ns_tev :: string where "ns_tev = ''http://www.onvif.org/ver10/events/wsdl''"
definition ns_tio :: string where "ns_tio = ''http://www.onvif.org/ver10/deviceIO/wsdl''"
definition ns_tse :: string where "ns_tse = ''http://www.onvif.org/ver10/search/wsdl''"
definition ns_trp :: string where "ns_trp = ''http://www.onvif.org/ver10/replay/wsdl''"
definition ns_trc :: string where "ns_trc = ''http://www.onvif.org/ver10/recording/wsdl''"
definition ns_wsnt :: string where "ns_wsnt = ''http://docs.oasis-open.org/wsn/b-2''"
definition ns_wsrf_r :: string where "ns_wsrf_r = ''http://docs.oasis-open.org/wsrf/r-2''"

record device_handler =
  dh_id :: string
  dh_product :: string
  dh_model :: string
  dh_onvif :: int
  dh_rtsp :: int
  dh_user :: string

definition new_device_handler :: "string \<Rightarrow> string \<Rightarrow> string \<Rightarrow> int \<Rightarrow> int \<Rightarrow> string \<Rightarrow> device_handler" where
  "new_device_handler device_id product device_model onvif_port rtsp_port user =
     \<lparr>dh_id = device_id, dh_product = product,
      dh_model = (if device_model = [] then ''L 625 CAM SC'' else device_model),
      dh_onvif = onvif_port, dh_rtsp = rtsp_port, dh_user = user\<rparr>"

text \<open>The host of a request without its port; \<open>outbound\<close> is the address of the machine.\<close>

definition extract_host_ip :: "string \<Rightarrow> string \<Rightarrow> string" where
  "extract_host_ip outbound host =
     (if host = [] then outbound else case index_of host '':'' of Some i \<Rightarrow> take i host | None \<Rightarrow> host)"

definition service_url :: "string \<Rightarrow> int \<Rightarrow> string \<Rightarrow> string" where
  "service_url ip port name = ''http://'' @ ip @ '':'' @ dec_of_int port @ ''/onvif/'' @ name"

text \<open>The current time in UTC.\<close>

record calendar =
  cal_hour :: int
  cal_minute :: int
  cal_second :: int
  cal_year :: int
  cal_month :: int
  cal_day :: int

subsection \<open>Device information and capabilities\<close>

definition get_device_information :: "device_handler \<Rightarrow> string \<Rightarrow> doc" where
  "get_device_information h firmware =
  (let fw = (if firmware \<noteq> [] then firmware else ''2.0.0'');
       shown = (if dh_model h = [] then ''L 625 CAM SC'' else dh_model h) in
   xblock ''tds:GetDeviceInformationResponse'' [(''xmlns:tds'', ns_tds)] [
     xtext ''tds:Manufacturer'' ''STEINEL'',
     xtext ''tds:Model'' shown,
     xtext ''tds:FirmwareVersion'' fw,
     xtext ''tds:SerialNumber'' (dh_id h),
     xtext ''tds:HardwareId'' (dh_product h)])"

definition get_capabilities :: "device_handler \<Rightarrow> string \<Rightarrow> doc" where
  "get_capabilities h ip =
  (let port = dh_onvif h;
      device_url = service_url ip port ''device_service'';
      media_url = service_url ip port ''media_service'';
      event_url = service_url ip port ''event_service'';
      device_io_url = service_url ip port ''deviceio_service'';
      search_url = service_url ip port ''search_service'';
      replay_url = service_url ip port ''replay_service'';
      recording_url = service_url ip port ''recording_service'' in
   xblock ''tds:GetCapabilitiesResponse'' [(''xmlns:tds'', ns_tds), (''xmlns:tt'', ns_tt)] [
     xblock ''tds:Capabilities'' [] [
       xblock ''tt:Device'' [] [
         xtext ''tt:XAddr'' device_url,
         xblock ''tt:Network'' [] [
           xtext ''tt:IPFilter'' ''false'',
           xtext ''tt:ZeroConfiguration'' ''false'',
           xtext ''tt:IPVersion6'' ''false'',
           xtext ''tt:DynDNS'' ''false''],
         xblock ''tt:System'' [] [
           xtext ''tt:DiscoveryResolve'' ''false'',
           xtext ''tt:DiscoveryBye'' ''true'',
           xtext ''tt:RemoteDiscovery'' ''true'',
           xtext ''tt:SystemBackup'' ''false'',
           xtext ''tt:SystemLogging'' ''false'',
           xtext ''tt:FirmwareUpgrade'' ''false'',
           xblock ''tt:SupportedVersions'' [] [
             xtext ''tt:Major'' ''2'',
             xtext ''tt:Minor'' ''0'']],
         xblock ''tt:Security'' [] [
           xtext ''tt:TLS1.1'' ''false'',
           xtext ''tt:TLS1.2'' ''false'',
           xtext ''tt:OnboardKeyGeneration'' ''false'',
           xtext ''tt:AccessPolicyFiles'' ''false'',
           xtext ''tt:EnableNormalizedDirectory'' ''false'',
           xtext ''tt:ApplicationDefaultContext'' ''false'',
           xtext ''tt:KerberosToken'' ''false'',
           xtext ''tt:RELToken'' ''false'',
           xblock ''tt:Extension'' [] [
             xtext ''tt:TLS1.0'' ''false'',
             xblock ''tt:Extension'' [] [
               xtext ''tt:Dot1X'' ''false'',
               xtext ''tt:SupportedEAPMethod'' ''0'',
               xtext ''tt:RemoteUserHandling'' ''false'',
               xtext ''tt:UsernameToken'' ''true'',
               xtext ''tt:HttpDigest'' ''true'']]]],
       xblock ''tt:Events'' [] [
         xtext ''tt:XAddr'' event_url,
         xtext ''tt:WSSubscriptionPolicySupport'' ''true'',
         xtext ''tt:WSPullPointSupport'' ''true'',
         xtext ''tt:WSPausableSubscriptionManagerInterfaceSupport'' ''false''],
       xblock ''tt:Media'' [] [
         xtext ''tt:XAddr'' media_url,
         xblock ''tt:StreamingCapabilities'' [] [
           xtext ''tt:RTPMulticast'' ''false'',
           xtext ''tt:RTP_TCP'' ''true'',
           xtext ''tt:RTP_RTSP_TCP'' ''true'']],
       xblock ''tt:Search'' [] [
         xtext ''tt:XAddr'' search_url,
         xtext ''tt:MetadataSearch'' ''false''],
       xblock ''tt:Replay'' [] [
         xtext ''tt:XAddr'' replay_url],
       xblock ''tt:Recording'' [] [
         xtext ''tt:XAddr'' recording_url,
         xtext ''tt:ReceiverSource'' ''false'',
         xtext ''tt:MediaProfileSource'' ''true'',
         xtext ''tt:DynamicRecordings'' ''false''],
       xblock ''tt:Extension'' [] [
         xblock ''tt:DeviceIO'' [] [
           xtext ''tt:XAddr'' device_io_url,
           xtext ''tt:VideoSources'' ''1'',
           xtext ''tt:VideoOutputs'' ''0'',
           xtext ''tt:AudioSources'' ''1'',
           xtext ''tt:AudioOutputs'' ''1'',
           xtext ''tt:RelayOutputs'' ''1'']]]])"

text \<open>A service with its version, and the two forms of the list of services.\<close>

definition version_2_0 :: doc where
  "version_2_0 = xrow ''tds:Version'' [] [xtext ''tt:Major'' ''2'', xtext ''tt:Minor'' ''0'']"

definition plain_service :: "string \<Rightarrow> string \<Rightarrow> doc" where
  "plain_service ns url = xblock ''tds:Service'' [] [xtext ''tds:Namespace'' ns, xtext ''tds:XAddr'' url, version_2_0]"

definition include_capability :: "string \<Rightarrow> bool" where
  "include_capability body \<longleftrightarrow> contains (to_lower body) ''includecapability'' \<and> contains (to_lower body) ''true''"

definition plain_services :: "device_handler \<Rightarrow> string \<Rightarrow> doc" where
  "plain_services h ip =
  (let port = dh_onvif h;
      device_url = service_url ip port ''device_service'';
      media_url = service_url ip port ''media_service'';
      event_url = service_url ip port ''event_service'';
      device_io_url = service_url ip port ''deviceio_service'';
      search_url = service_url ip port ''search_service'';
      replay_url = service_url ip port ''replay_service'';
      recording_url = service_url ip port ''recording_service'' in
   xblock ''tds:GetServicesResponse'' [(''xmlns:tds'', ns_tds), (''xmlns:tt'', ns_tt)] [
     plain_service ns_tds device_url,
     plain_service ns_trt media_url,
     plain_service ns_tev event_url,
     plain_service ns_tio device_io_url,
     plain_service ns_tse search_url,
     plain_service ns_trp replay_url,
     plain_service ns_trc recording_url])"

definition services_with_capabilities :: "device_handler \<Rightarrow> string \<Rightarrow> doc" where
  "services_with_capabilities h ip =
  (let port = dh_onvif h;
      device_url = service_url ip port ''device_service'';
      media_url = service_url ip port ''media_service'';
      event_url = service_url ip port ''event_service'';
      device_io_url = service_url ip port ''deviceio_service'';
      search_url = service_url ip port ''search_service'';
      replay_url = service_url ip port ''replay_service'';
      recording_url = service_url ip port ''recording_service'' in
   xblock ''tds:GetServicesResponse'' [(''xmlns:tds'', ns_tds), (''xmlns:tt'', ns_tt), (''xmlns:trt'', ns_trt),
       (''xmlns:tev'', ns_tev), (''xmlns:tmd'', ns_tio)] [
     xblock ''tds:Service'' [] [
       xtext ''tds:Namespace'' ns_tds,
       xtext ''tds:XAddr'' device_url,
       xblock ''tds:Capabilities'' [] [
         xblock ''tds:Capabilities'' [] [
           xvoid ''tds:Network'' [(''IPFilter'', ''false''), (''ZeroConfiguration'', ''false''), (''IPVersion6'', ''true''),
               (''DynDNS'', ''false''), (''Dot11Configuration'', ''false''), (''Dot1XConfigurations'', ''0''),
               (''HostnameFromDHCP'', ''false''), (''NTP'', ''0''), (''DHCPv6'', ''false'')],
           xvoid ''tds:Security'' [(''TLS1.0'', ''false''), (''TLS1.1'', ''false''), (''TLS1.2'', ''false''),
               (''OnboardKeyGeneration'', ''false''), (''AccessPolicyConfig'', ''false''), (''DefaultAccessPolicy'', ''false''),
               (''Dot1X'', ''false''), (''RemoteUserHandling'', ''false''), (''X.509Token'', ''false''),
               (''SAMLToken'', ''false''), (''KerberosToken'', ''false''), (''UsernameToken'', ''true''),
               (''HttpDigest'', ''true''), (''RELToken'', ''false''), (''MaxUsers'', ''1''), (''MaxUserNameLength'', ''64''),
               (''MaxPasswordLength'', ''64'')],
           xvoid ''tds:System'' [(''DiscoveryResolve'', ''true''), (''DiscoveryBye'', ''true''), (''RemoteDiscovery'', ''true''),
               (''SystemBackup'', ''false''), (''SystemLogging'', ''false''), (''FirmwareUpgrade'', ''false''),
               (''HttpFirmwareUpgrade'', ''false''), (''HttpSystemBackup'', ''false''), (''HttpSystemLogging'', ''false''),
               (''HttpSupportInformation'', ''false''), (''StorageConfiguration'', ''false'')]]],
       version_2_0],
     xblock ''tds:Service'' [] [
       xtext ''tds:Namespace'' ns_trt,
       xtext ''tds:XAddr'' media_url,
       xblock ''tds:Capabilities'' [] [
         xblock ''trt:Capabilities'' [(''SnapshotUri'', ''false'')] [
           xvoid ''trt:ProfileCapabilities'' [(''MaximumNumberOfProfiles'', ''2'')],
           xvoid ''trt:StreamingCapabilities'' [(''RTPMulticast'', ''false''), (''RTP_TCP'', ''true''),
               (''RTP_RTSP_TCP'', ''true'')]]],
       version_2_0],
     xblock ''tds:Service'' [] [
       xtext ''tds:Namespace'' ns_tev,
       xtext ''tds:XAddr'' event_url,
       xblock ''tds:Capabilities'' [] [
         xvoid ''tev:Capabilities'' [(''WSSubscriptionPolicySupport'', ''true''), (''WSPullPointSupport'', ''true''),
             (''WSPausableSubscriptionManagerInterfaceSupport'', ''false'')]],
       version_2_0],
     xblock ''tds:Service'' [] [
       xtext ''tds:Namespace'' ns_tio,
       xtext ''tds:XAddr'' device_io_url,
       xblock ''tds:Capabilities'' [] [
         xvoid ''tmd:Capabilities'' [(''VideoSources'', ''1''), (''VideoOutputs'', ''0''), (''AudioSources'', ''1''),
             (''AudioOutputs'', ''1''), (''RelayOutputs'', ''1'')]],
       version_2_0],
     plain_service ns_tse search_url,
     plain_service ns_trp replay_url,
     plain_service ns_trc recording_url])"

definition get_services :: "device_handler \<Rightarrow> string \<Rightarrow> string \<Rightarrow> doc" where
  "get_services h ip body =
     (if include_capability body then services_with_capabilities h ip else plain_services h ip)"

definition device_service_capabilities :: "doc" where
  "device_service_capabilities =
  xblock ''tds:GetServiceCapabilitiesResponse'' [(''xmlns:tds'', ns_tds)] [
    xblock ''tds:Capabilities'' [] [
      xvoid ''tds:Network'' [(''IPFilter'', ''false''), (''ZeroConfiguration'', ''false''), (''IPVersion6'', ''true''),
          (''DynDNS'', ''false''), (''Dot11Configuration'', ''false''), (''Dot1XConfigurations'', ''0''),
          (''HostnameFromDHCP'', ''false''), (''NTP'', ''0''), (''DHCPv6'', ''false'')],
      xvoid ''tds:Security'' [(''TLS1.0'', ''false''), (''TLS1.1'', ''false''), (''TLS1.2'', ''false''),
          (''OnboardKeyGeneration'', ''false''), (''AccessPolicyConfig'', ''false''), (''DefaultAccessPolicy'', ''false''),
          (''Dot1X'', ''false''), (''RemoteUserHandling'', ''false''), (''X.509Token'', ''false''), (''SAMLToken'', ''false''),
          (''KerberosToken'', ''false''), (''UsernameToken'', ''true''), (''HttpDigest'', ''true''), (''RELToken'', ''false''),
          (''MaxUsers'', ''1''), (''MaxUserNameLength'', ''64''), (''MaxPasswordLength'', ''64'')],
      xvoid ''tds:System'' [(''DiscoveryResolve'', ''true''), (''DiscoveryBye'', ''true''), (''RemoteDiscovery'', ''true''),
          (''SystemBackup'', ''false''), (''SystemLogging'', ''false''), (''FirmwareUpgrade'', ''false''),
          (''HttpFirmwareUpgrade'', ''false''), (''HttpSystemBackup'', ''false''), (''HttpSystemLogging'', ''false''),
          (''HttpSupportInformation'', ''false''), (''StorageConfiguration'', ''false''),
          (''NetworkConfigNotSupported'', ''true''), (''UserConfigNotSupported'', ''true'')]]]"

subsection \<open>The other answers\<close>

definition get_endpoint_reference :: "device_handler \<Rightarrow> doc" where
  "get_endpoint_reference h =
  (let device_id = (if dh_id h = [] then ''00000000-0000-0000-0000-000000000000'' else dh_id h) in
   xblock ''tds:GetEndpointReferenceResponse'' [(''xmlns:tds'', ns_tds)] [
     xtext ''tds:GUID'' (''urn:uuid:'' @ device_id)])"

definition get_wsdl_url :: "doc" where
  "get_wsdl_url =
  xblock ''tds:GetWsdlUrlResponse'' [(''xmlns:tds'', ns_tds)] [
    xtext ''tds:WsdlUrl'' ''http://www.onvif.org/ver10/device/wsdl'']"

definition get_network_default_gateway :: "string \<Rightarrow> doc" where
  "get_network_default_gateway ip =
  xblock ''tds:GetNetworkDefaultGatewayResponse'' [(''xmlns:tds'', ns_tds), (''xmlns:tt'', ns_tt)] [
    xblock ''tds:NetworkGateway'' [] [
      xtext ''tt:IPv4Address'' ip]]"

definition get_system_date_and_time :: "calendar \<Rightarrow> doc" where
  "get_system_date_and_time t =
  xblock ''tds:GetSystemDateAndTimeResponse'' [(''xmlns:tds'', ns_tds), (''xmlns:tt'', ns_tt)] [
    xblock ''tds:SystemDateAndTime'' [] [
      xtext ''tt:DateTimeType'' ''NTP'',
      xtext ''tt:DaylightSavings'' ''false'',
      xrow ''tt:TimeZone'' [] [xtext ''tt:TZ'' ''UTC''],
      xblock ''tt:UTCDateTime'' [] [
        xblock ''tt:Time'' [] [
          xtext ''tt:Hour'' (dec_of_int (cal_hour t)),
          xtext ''tt:Minute'' (dec_of_int (cal_minute t)),
          xtext ''tt:Second'' (dec_of_int (cal_second t))],
        xblock ''tt:Date'' [] [
          xtext ''tt:Year'' (dec_of_int (cal_year t)),
          xtext ''tt:Month'' (dec_of_int (cal_month t)),
          xtext ''tt:Day'' (dec_of_int (cal_day t))]]]]"

definition get_network_interfaces :: "doc" where
  "get_network_interfaces =
  xblock ''tds:GetNetworkInterfacesResponse'' [(''xmlns:tds'', ns_tds), (''xmlns:tt'', ns_tt)] [
    xblock ''tds:NetworkInterfaces'' [(''token'', ''eth0'')] [
      xtext ''tt:Enabled'' ''true'',
      xblock ''tt:Info'' [] [
        xtext ''tt:Name'' ''eth0'',
        xtext ''tt:HwAddress'' ''00:0C:43:00:01:02'',
        xtext ''tt:MTU'' ''1500''],
      xblock ''tt:IPv4'' [] [
        xtext ''tt:Enabled'' ''true'',
        xblock ''tt:Config'' [] [
          xblock ''tt:Manual'' [] [
            xtext ''tt:Address'' ''127.0.0.1'',
            xtext ''tt:PrefixLength'' ''24''],
          xtext ''tt:DHCP'' ''true'']]]]"

definition get_users :: "device_handler \<Rightarrow> doc" where
  "get_users h =
  (let user = (if dh_user h = [] then ''admin'' else dh_user h) in
   xblock ''tds:GetUsersResponse'' [(''xmlns:tds'', ns_tds), (''xmlns:tt'', ns_tt)] [
     xblock ''tds:User'' [] [
       xtext ''tt:Username'' user,
       xtext ''tt:UserLevel'' ''Administrator'']])"

definition get_scopes :: "doc" where
  "get_scopes =
  xblock ''tds:GetScopesResponse'' [(''xmlns:tds'', ns_tds), (''xmlns:tt'', ns_tt)] [
    xblock ''tds:Scopes'' [] [
      xtext ''tt:ScopeDef'' ''Fixed'',
      xtext ''tt:ScopeItem'' ''onvif://www.onvif.org/type/video_encoder''],
    xblock ''tds:Scopes'' [] [
      xtext ''tt:ScopeDef'' ''Fixed'',
      xtext ''tt:ScopeItem'' ''onvif://www.onvif.org/type/audio_encoder''],
    xblock ''tds:Scopes'' [] [
      xtext ''tt:ScopeDef'' ''Fixed'',
      xtext ''tt:ScopeItem'' ''onvif://www.onvif.org/hardware/Steinel''],
    xblock ''tds:Scopes'' [] [
      xtext ''tt:ScopeDef'' ''Fixed'',
      xtext ''tt:ScopeItem'' ''onvif://www.onvif.org/name/Steinel-CAM''],
    xblock ''tds:Scopes'' [] [
      xtext ''tt:ScopeDef'' ''Fixed'',
      xtext ''tt:ScopeItem'' ''onvif://www.onvif.org/location/outdoor''],
    xblock ''tds:Scopes'' [] [
      xtext ''tt:ScopeDef'' ''Fixed'',
      xtext ''tt:ScopeItem'' ''onvif://www.onvif.org/Profile/Streaming'']]"

definition get_network_protocols :: "device_handler \<Rightarrow> doc" where
  "get_network_protocols h =
  xblock ''tds:GetNetworkProtocolsResponse'' [(''xmlns:tds'', ns_tds), (''xmlns:tt'', ns_tt)] [
    xblock ''tds:NetworkProtocols'' [] [
      xtext ''tt:Name'' ''HTTP'',
      xtext ''tt:Enabled'' ''true'',
      xtext ''tt:Port'' (dec_of_int (dh_onvif h))],
    xblock ''tds:NetworkProtocols'' [] [
      xtext ''tt:Name'' ''RTSP'',
      xtext ''tt:Enabled'' ''true'',
      xtext ''tt:Port'' (dec_of_int (dh_rtsp h))]]"

definition get_hostname :: "doc" where
  "get_hostname =
  xblock ''tds:GetHostnameResponse'' [(''xmlns:tds'', ns_tds), (''xmlns:tt'', ns_tt)] [
    xblock ''tds:HostnameInformation'' [] [
      xtext ''tt:FromDHCP'' ''true'',
      xtext ''tt:Name'' ''Steinel-CAM'']]"

definition get_dns :: "doc" where
  "get_dns =
  xblock ''tds:GetDNSResponse'' [(''xmlns:tds'', ns_tds), (''xmlns:tt'', ns_tt)] [
    xblock ''tds:DNSInformation'' [] [
      xtext ''tt:FromDHCP'' ''true'']]"

definition get_ntp :: "doc" where
  "get_ntp =
  xblock ''tds:GetNTPResponse'' [(''xmlns:tds'', ns_tds), (''xmlns:tt'', ns_tt)] [
    xblock ''tds:NTPInformation'' [] [
      xtext ''tt:FromDHCP'' ''true'']]"

definition get_discovery_mode :: "doc" where
  "get_discovery_mode =
  xblock ''tds:GetDiscoveryModeResponse'' [(''xmlns:tds'', ns_tds)] [
    xtext ''tds:DiscoveryMode'' ''Discoverable'']"

definition system_reboot_response :: doc where
  "system_reboot_response =
  xrow ''tds:SystemRebootResponse'' [] [xtext ''tds:Message'' ''Rebooting Steinel Camera'']"

subsection \<open>Which answer\<close>

text \<open>\<open>firmware\<close> is the version in the status of the event bus.\<close>

definition device_answer ::
  "device_handler \<Rightarrow> string \<Rightarrow> string \<Rightarrow> calendar \<Rightarrow> string \<Rightarrow> string \<Rightarrow> string \<Rightarrow> doc option" where
  "device_answer h outbound firmware t host action body =
     (case find_action device_actions action body of
        None \<Rightarrow> None
      | Some a \<Rightarrow>
          (let ip = extract_host_ip outbound host in
           if a = ''GetDeviceInformation'' then Some (get_device_information h firmware)
           else if a = ''GetCapabilities'' then Some (get_capabilities h ip)
           else if a = ''GetServices'' then Some (get_services h ip body)
           else if a = ''GetServiceCapabilities'' then Some device_service_capabilities
           else if a = ''GetEndpointReference'' then Some (get_endpoint_reference h)
           else if a = ''GetWsdlUrl'' then Some get_wsdl_url
           else if a = ''GetNetworkDefaultGateway'' then Some (get_network_default_gateway ip)
           else if a = ''GetSystemDateAndTime'' then Some (get_system_date_and_time t)
           else if a = ''GetNetworkInterfaces'' then Some get_network_interfaces
           else if a = ''GetUsers'' then Some (get_users h)
           else if a = ''GetScopes'' then Some get_scopes
           else if a = ''GetNetworkProtocols'' then Some (get_network_protocols h)
           else if a = ''GetHostname'' then Some get_hostname
           else if a = ''GetDNS'' then Some get_dns
           else if a = ''GetNTP'' then Some get_ntp
           else if a = ''GetDiscoveryMode'' then Some get_discovery_mode
           else Some system_reboot_response))"

end
