(* ===== verification/Onvif_Answers.thy ===== *)
theory Onvif_Answers
  imports Onvif_Device_Answers
begin

text \<open>
  What the other services answer (\<^verbatim>\<open>media.go\<close>, \<^verbatim>\<open>events.go\<close>, \<^verbatim>\<open>deviceio.go\<close>, \<^verbatim>\<open>search.go\<close>,
  \<^verbatim>\<open>replay.go\<close> and \<^verbatim>\<open>recording.go\<close> of \<^verbatim>\<open>pkg/onvif\<close>), the envelopes around an answer and a fault, and the answer
  to a request as the server sends it. \<open>rfc\<close> is the text of a time in the RFC 3339 format, in the zone the time is in.
\<close>

subsection \<open>Media\<close>

record media_handler =
  mh_rtsp :: int
  mh_path :: string
  mh_codec :: string
  mh_onvif :: int

definition new_media_handler :: "int \<Rightarrow> string \<Rightarrow> string \<Rightarrow> int \<Rightarrow> media_handler" where
  "new_media_handler rtsp_port path codec onvif_port =
     (let c = to_lower (trim_space codec) in
      \<lparr>mh_rtsp = rtsp_port, mh_path = path, mh_codec = (if c = [] then ''aac'' else c), mh_onvif = onvif_port\<rparr>)"

definition get_profiles :: "media_handler \<Rightarrow> doc" where
  "get_profiles h =
  (let encoding = (if mh_codec h = ''pcmu'' then ''G711'' else ''AAC'');
       rate = (if mh_codec h = ''pcmu'' then ''8'' else ''16'') in
   xblock ''trt:GetProfilesResponse'' [(''xmlns:trt'', ns_trt), (''xmlns:tt'', ns_tt)] [
     xblock ''trt:Profiles'' [(''token'', ''Profile_Main''), (''fixed'', ''true'')] [
       xtext ''tt:Name'' ''MainStream 1080p'',
       xblock ''tt:VideoSourceConfiguration'' [(''token'', ''VideoSourceConfig_1'')] [
         xtext ''tt:Name'' ''VideoSourceConfig_1'',
         xtext ''tt:UseCount'' ''2'',
         xtext ''tt:SourceToken'' ''VideoSource_1'',
         xvoid ''tt:Bounds'' [(''x'', ''0''), (''y'', ''0''), (''width'', ''1920''), (''height'', ''1080'')]],
       xblock ''tt:AudioSourceConfiguration'' [(''token'', ''AudioSourceConfig_1'')] [
         xtext ''tt:Name'' ''AudioSourceConfig_1'',
         xtext ''tt:UseCount'' ''2'',
         xtext ''tt:SourceToken'' ''AudioSource_1''],
       xblock ''tt:VideoEncoderConfiguration'' [(''token'', ''VideoEncoderConfig_Main'')] [
         xtext ''tt:Name'' ''VideoEncoderConfig_Main'',
         xtext ''tt:UseCount'' ''1'',
         xtext ''tt:Encoding'' ''H264'',
         xblock ''tt:Resolution'' [] [
           xtext ''tt:Width'' ''1920'',
           xtext ''tt:Height'' ''1080''],
         xtext ''tt:Quality'' ''5.0'',
         xblock ''tt:RateControl'' [] [
           xtext ''tt:FrameRateLimit'' ''15'',
           xtext ''tt:EncodingInterval'' ''1'',
           xtext ''tt:BitrateLimit'' ''2048''],
         xblock ''tt:H264'' [] [
           xtext ''tt:GovLength'' ''45'',
           xtext ''tt:H264Profile'' ''High''],
         xblock ''tt:Multicast'' [] [
           xrow ''tt:Address'' [] [xtext ''tt:Type'' ''IPv4'', xtext ''tt:IPv4Address'' ''0.0.0.0''],
           xtext ''tt:Port'' ''0'',
           xtext ''tt:TTL'' ''1'',
           xtext ''tt:AutoStart'' ''false''],
         xtext ''tt:SessionTimeout'' ''PT60S''],
       xblock ''tt:AudioEncoderConfiguration'' [(''token'', ''AudioEncoderConfig_1'')] [
         xtext ''tt:Name'' ''AudioEncoderConfig_1'',
         xtext ''tt:UseCount'' ''2'',
         xtext ''tt:Encoding'' encoding,
         xtext ''tt:Bitrate'' ''64'',
         xtext ''tt:SampleRate'' rate,
         xtext ''tt:SessionTimeout'' ''PT60S''],
       xblock ''tt:AudioOutputConfiguration'' [(''token'', ''AudioOutputConfig_1'')] [
         xtext ''tt:Name'' ''AudioOutputConfig_1'',
         xtext ''tt:UseCount'' ''1'',
         xtext ''tt:OutputToken'' ''AudioOutput_1'',
         xtext ''tt:SendPrimacy'' ''www.onvif.org/ver20/HalfDuplex/Server'',
         xtext ''tt:OutputLevel'' ''80'']],
     xblock ''trt:Profiles'' [(''token'', ''Profile_Sub''), (''fixed'', ''true'')] [
       xtext ''tt:Name'' ''SubStream 360p'',
       xblock ''tt:VideoSourceConfiguration'' [(''token'', ''VideoSourceConfig_1'')] [
         xtext ''tt:Name'' ''VideoSourceConfig_1'',
         xtext ''tt:UseCount'' ''2'',
         xtext ''tt:SourceToken'' ''VideoSource_1'',
         xvoid ''tt:Bounds'' [(''x'', ''0''), (''y'', ''0''), (''width'', ''640''), (''height'', ''360'')]],
       xblock ''tt:AudioSourceConfiguration'' [(''token'', ''AudioSourceConfig_1'')] [
         xtext ''tt:Name'' ''AudioSourceConfig_1'',
         xtext ''tt:UseCount'' ''2'',
         xtext ''tt:SourceToken'' ''AudioSource_1''],
       xblock ''tt:VideoEncoderConfiguration'' [(''token'', ''VideoEncoderConfig_Sub'')] [
         xtext ''tt:Name'' ''VideoEncoderConfig_Sub'',
         xtext ''tt:UseCount'' ''1'',
         xtext ''tt:Encoding'' ''H264'',
         xblock ''tt:Resolution'' [] [
           xtext ''tt:Width'' ''640'',
           xtext ''tt:Height'' ''360''],
         xtext ''tt:Quality'' ''3.0'',
         xblock ''tt:RateControl'' [] [
           xtext ''tt:FrameRateLimit'' ''10'',
           xtext ''tt:EncodingInterval'' ''1'',
           xtext ''tt:BitrateLimit'' ''512''],
         xblock ''tt:H264'' [] [
           xtext ''tt:GovLength'' ''30'',
           xtext ''tt:H264Profile'' ''Baseline''],
         xblock ''tt:Multicast'' [] [
           xrow ''tt:Address'' [] [xtext ''tt:Type'' ''IPv4'', xtext ''tt:IPv4Address'' ''0.0.0.0''],
           xtext ''tt:Port'' ''0'',
           xtext ''tt:TTL'' ''1'',
           xtext ''tt:AutoStart'' ''false''],
         xtext ''tt:SessionTimeout'' ''PT60S''],
       xblock ''tt:AudioEncoderConfiguration'' [(''token'', ''AudioEncoderConfig_1'')] [
         xtext ''tt:Name'' ''AudioEncoderConfig_1'',
         xtext ''tt:UseCount'' ''2'',
         xtext ''tt:Encoding'' encoding,
         xtext ''tt:Bitrate'' ''64'',
         xtext ''tt:SampleRate'' rate,
         xtext ''tt:SessionTimeout'' ''PT60S'']]])"

definition get_stream_uri :: "media_handler \<Rightarrow> string \<Rightarrow> doc" where
  "get_stream_uri h ip =
  (let url = ''rtsp://'' @ ip @ '':'' @ dec_of_int (mh_rtsp h) @ ''/'' @ mh_path h in
   xblock ''trt:GetStreamUriResponse'' [(''xmlns:trt'', ns_trt), (''xmlns:tt'', ns_tt)] [
     xblock ''trt:MediaUri'' [] [
       xtext ''tt:Uri'' url,
       xtext ''tt:InvalidAfterConnect'' ''false'',
       xtext ''tt:InvalidAfterReboot'' ''false'',
       xtext ''tt:Timeout'' ''PT60S'']])"

definition video_encoder_options :: "doc" where
  "video_encoder_options =
  xblock ''trt:GetVideoEncoderConfigurationOptionsResponse'' [(''xmlns:trt'', ns_trt), (''xmlns:tt'', ns_tt)] [
    xblock ''trt:Options'' [] [
      xrow ''tt:QualityRange'' [] [xtext ''tt:Min'' ''1'', xtext ''tt:Max'' ''5''],
      xblock ''tt:H264'' [] [
        xrow ''tt:ResolutionsAvailable'' [] [xtext ''tt:Width'' ''1920'', xtext ''tt:Height'' ''1080''],
        xrow ''tt:ResolutionsAvailable'' [] [xtext ''tt:Width'' ''1280'', xtext ''tt:Height'' ''720''],
        xrow ''tt:ResolutionsAvailable'' [] [xtext ''tt:Width'' ''640'', xtext ''tt:Height'' ''360''],
        xrow ''tt:GovLengthRange'' [] [xtext ''tt:Min'' ''15'', xtext ''tt:Max'' ''60''],
        xrow ''tt:FrameRateRange'' [] [xtext ''tt:Min'' ''1'', xtext ''tt:Max'' ''15''],
        xtext ''tt:H264ProfilesSupported'' ''High'',
        xtext ''tt:H264ProfilesSupported'' ''Main'',
        xtext ''tt:H264ProfilesSupported'' ''Baseline'']]]"

definition set_video_encoder_response :: "doc" where
  "set_video_encoder_response =
  xvoid ''trt:SetVideoEncoderConfigurationResponse'' [(''xmlns:trt'', ns_trt)]"

definition get_audio_sources :: "doc" where
  "get_audio_sources =
  xblock ''trt:GetAudioSourcesResponse'' [(''xmlns:trt'', ns_trt), (''xmlns:tt'', ns_tt)] [
    xblock ''trt:AudioSources'' [(''token'', ''AudioSource_1'')] [
      xtext ''tt:Channels'' ''1'']]"

definition get_audio_outputs :: "doc" where
  "get_audio_outputs =
  xblock ''trt:GetAudioOutputsResponse'' [(''xmlns:trt'', ns_trt), (''xmlns:tt'', ns_tt)] [
    xvoid ''trt:AudioOutputs'' [(''token'', ''AudioOutput_1'')]]"

definition audio_encoder_options :: "doc" where
  "audio_encoder_options =
  xblock ''trt:GetAudioEncoderConfigurationOptionsResponse'' [(''xmlns:trt'', ns_trt), (''xmlns:tt'', ns_tt)] [
    xblock ''trt:Options'' [] [
      xblock ''tt:Options'' [] [
        xtext ''tt:Encoding'' ''AAC'',
        xrow ''tt:BitrateList'' [] [xtext ''tt:Items'' ''64''],
        xrow ''tt:SampleRateList'' [] [xtext ''tt:Items'' ''16'']],
      xblock ''tt:Options'' [] [
        xtext ''tt:Encoding'' ''G711'',
        xrow ''tt:BitrateList'' [] [xtext ''tt:Items'' ''64''],
        xrow ''tt:SampleRateList'' [] [xtext ''tt:Items'' ''8'']]]]"

definition get_video_sources :: "doc" where
  "get_video_sources =
  xblock ''trt:GetVideoSourcesResponse'' [(''xmlns:trt'', ns_trt), (''xmlns:tt'', ns_tt)] [
    xblock ''trt:VideoSources'' [(''token'', ''VideoSource_1'')] [
      xtext ''tt:Framerate'' ''15.0'',
      xrow ''tt:Resolution'' [] [xtext ''tt:Width'' ''1920'', xtext ''tt:Height'' ''1080'']]]"

definition video_source_configurations :: "doc" where
  "video_source_configurations =
  xblock ''trt:GetVideoSourceConfigurationsResponse'' [(''xmlns:trt'', ns_trt), (''xmlns:tt'', ns_tt)] [
    xblock ''trt:Configurations'' [(''token'', ''VideoSourceConfig_1'')] [
      xtext ''tt:Name'' ''VideoSourceConfig_1'',
      xtext ''tt:UseCount'' ''2'',
      xtext ''tt:SourceToken'' ''VideoSource_1'',
      xvoid ''tt:Bounds'' [(''x'', ''0''), (''y'', ''0''), (''width'', ''1920''), (''height'', ''1080'')]]]"

definition audio_source_configurations :: "doc" where
  "audio_source_configurations =
  xblock ''trt:GetAudioSourceConfigurationsResponse'' [(''xmlns:trt'', ns_trt), (''xmlns:tt'', ns_tt)] [
    xblock ''trt:Configurations'' [(''token'', ''AudioSourceConfig_1'')] [
      xtext ''tt:Name'' ''AudioSourceConfig_1'',
      xtext ''tt:UseCount'' ''2'',
      xtext ''tt:SourceToken'' ''AudioSource_1'']]"

definition audio_output_configurations :: "doc" where
  "audio_output_configurations =
  xblock ''trt:GetAudioOutputConfigurationsResponse'' [(''xmlns:trt'', ns_trt), (''xmlns:tt'', ns_tt)] [
    xblock ''trt:Configurations'' [(''token'', ''AudioOutputConfig_1'')] [
      xtext ''tt:Name'' ''AudioOutputConfig_1'',
      xtext ''tt:UseCount'' ''1'',
      xtext ''tt:OutputToken'' ''AudioOutput_1'',
      xtext ''tt:SendPrimacy'' ''www.onvif.org/ver20/HalfDuplex/Server'',
      xtext ''tt:OutputLevel'' ''80'']]"

definition unknown_action_response :: doc where
  "unknown_action_response = xvoid ''trt:UnknownActionResponse'' [(''xmlns:trt'', ''http://www.onvif.org/ver10/media/wsdl'')]"

text \<open>\<^verbatim>\<open>getProfile\<close> is \<^verbatim>\<open>getProfiles\<close>.\<close>

definition media_answer :: "media_handler \<Rightarrow> string \<Rightarrow> string \<Rightarrow> string \<Rightarrow> string \<Rightarrow> doc option" where
  "media_answer h outbound host action body =
     (case find_action media_actions action body of
        None \<Rightarrow> Some unknown_action_response
      | Some a \<Rightarrow>
          (if a = ''GetProfiles'' \<or> a = ''GetProfile'' then Some (get_profiles h)
           else if a = ''GetStreamUri'' then Some (get_stream_uri h (extract_host_ip outbound host))
           else if a = ''GetVideoSourceConfigurations'' \<or> a = ''GetVideoSourceConfiguration''
             then Some video_source_configurations
           else if a = ''GetAudioSourceConfigurations'' \<or> a = ''GetAudioSourceConfiguration''
             then Some audio_source_configurations
           else if a = ''GetAudioOutputConfigurations'' \<or> a = ''GetAudioOutputConfiguration''
             then Some audio_output_configurations
           else if a = ''GetVideoEncoderConfigurationOptions'' then Some video_encoder_options
           else if a = ''SetVideoEncoderConfiguration'' then Some set_video_encoder_response
           else if a = ''GetAudioSources'' then Some get_audio_sources
           else if a = ''GetAudioOutputs'' then Some get_audio_outputs
           else if a = ''GetAudioEncoderConfigurationOptions'' then Some audio_encoder_options
           else Some get_video_sources))"

subsection \<open>Events\<close>

definition synchronization_point_response :: "doc" where
  "synchronization_point_response =
  xvoid ''tev:SetSynchronizationPointResponse'' [(''xmlns:tev'', ns_tev)]"

definition event_service_capabilities :: "doc" where
  "event_service_capabilities =
  xblock ''tev:GetServiceCapabilitiesResponse'' [(''xmlns:tev'', ns_tev), (''xmlns:tt'', ns_tt)] [
    xvoid ''tev:Capabilities'' [(''WSSubscriptionPolicySupport'', ''true''), (''WSPullPointSupport'', ''true''),
        (''WSPausableSubscriptionManagerInterfaceSupport'', ''false''), (''MaxNotificationProducers'', ''10''),
        (''MaxPullPoints'', ''10'')]]"

definition get_event_properties :: "doc" where
  "get_event_properties =
  xblock ''tev:GetEventPropertiesResponse'' [(''xmlns:tev'', ns_tev), (''xmlns:tt'', ns_tt), (''xmlns:wsnt'', ns_wsnt)] [
    xtext ''tev:TopicNamespaceLocation'' ''http://www.onvif.org/onvif/ver10/topics/topicns.xml'',
    xtext ''wsnt:FixedTopicSet'' ''true'',
    xtext ''tev:MessageContentFilterDialect'' ''http://www.onvif.org/ver10/tev/messageContentFilter/ItemFilter'',
    xtext ''tev:ProducerPropertiesFilterDialect'' ''http://www.onvif.org/ver10/tev/messageContentFilter/ItemFilter'',
    xtext ''tev:MessageContentSchemaLocation'' ''http://www.onvif.org/onvif/ver10/schema/onvif.xsd'']"

definition pull_point_response :: "(gtime \<Rightarrow> string) \<Rightarrow> int \<Rightarrow> string \<Rightarrow> string \<Rightarrow> gtime \<Rightarrow> doc" where
  "pull_point_response rfc port ip sub now =
  (let url = ''http://'' @ ip @ '':'' @ dec_of_int port @ ''/onvif/event_service?sub='' @ sub in
   xblock ''tev:CreatePullPointSubscriptionResponse'' [(''xmlns:tev'', ns_tev), (''xmlns:wsnt'', ns_wsnt),
       (''xmlns:wsa'', ns_wsa)] [
     xblock ''tev:SubscriptionReference'' [] [
       xtext ''wsa:Address'' url],
     xtext ''wsnt:CurrentTime'' (rfc now),
     xtext ''wsnt:TerminationTime'' (rfc (now + ten_minutes))])"

text \<open>What a pull reports, with the times in the answer.\<close>

definition pull_response :: "(gtime \<Rightarrow> string) \<Rightarrow> gtime \<Rightarrow> gtime \<Rightarrow> bool option \<Rightarrow> doc" where
  "pull_response rfc now expires report =
     (case report of
        None \<Rightarrow>
          xblock ''tev:PullMessagesResponse'' [(''xmlns:tev'', ns_tev), (''xmlns:wsnt'', ns_wsnt)] [
            xtext ''tev:CurrentTime'' (rfc now),
            xtext ''tev:TerminationTime'' (rfc expires)]
      | Some m \<Rightarrow>
          xblock ''tev:PullMessagesResponse'' [(''xmlns:tev'', ns_tev), (''xmlns:wsnt'', ns_wsnt), (''xmlns:tt'', ns_tt)] [
            xtext ''tev:CurrentTime'' (rfc now),
            xtext ''tev:TerminationTime'' (rfc expires),
            xblock ''wsnt:NotificationMessage'' [] [
              xfield ''wsnt:Topic'' [(''Dialect'', ''http://www.onvif.org/ver10/tev/topicExpression/ConcreteSet'')] ''tns1:RuleEngine/CellMotionDetector/Motion'',
              xblock ''wsnt:Message'' [] [
                xblock ''tt:Message'' [(''UtcTime'', rfc now), (''PropertyOperation'', ''Changed'')] [
                  xblock ''tt:Source'' [] [
                    xvoid ''tt:SimpleItem'' [(''Name'', ''VideoSourceConfigurationToken''), (''Value'', ''VideoSourceConfig_1'')]],
                  xblock ''tt:Data'' [] [
                    xvoid ''tt:SimpleItem'' [(''Name'', ''IsMotion''), (''Value'', if m then ''true'' else ''false'')]]]]]])"

definition renew_response :: "(gtime \<Rightarrow> string) \<Rightarrow> gtime \<Rightarrow> doc" where
  "renew_response rfc now =
  xblock ''wsnt:RenewResponse'' [(''xmlns:wsnt'', ns_wsnt)] [
    xtext ''wsnt:TerminationTime'' (rfc (now + ten_minutes)),
    xtext ''wsnt:CurrentTime'' (rfc now)]"

definition unsubscribe_response :: doc where
  "unsubscribe_response =
  xvoid ''wsnt:UnsubscribeResponse'' [(''xmlns:wsnt'', ns_wsnt)]"

text \<open>The pull sees the subscription as it is when the lock is given back.\<close>

definition pull_expires :: "string \<Rightarrow> gtime \<Rightarrow> subscriptions \<Rightarrow> gtime" where
  "pull_expires i now subs =
     (case pull_target i now subs of
        (k, subs1) \<Rightarrow> (case subs1 k of Some s \<Rightarrow> sub_expires s | None \<Rightarrow> now))"

definition event_answer ::
  "(gtime \<Rightarrow> string) \<Rightarrow> int \<Rightarrow> event_env \<Rightarrow> gtime \<Rightarrow> string \<Rightarrow> string \<Rightarrow> string \<Rightarrow> string \<Rightarrow> string \<Rightarrow> subscriptions \<Rightarrow>
     doc option" where
  "event_answer rfc port ev now outbound host action body sub subs =
     (case find_action event_actions action body of
        None \<Rightarrow> None
      | Some a \<Rightarrow>
          (if a = ''GetServiceCapabilities'' then Some event_service_capabilities
           else if a = ''GetEventProperties'' then Some get_event_properties
           else if a = ''PullMessages''
             then Some (pull_response rfc now (pull_expires sub now subs)
                          (fst (pull_messages sub now (arrived ev) (motion ev) subs)))
           else if a = ''Renew'' then Some (renew_response rfc now)
           else if a = ''Unsubscribe'' then Some unsubscribe_response
           else if a = ''SetSynchronizationPoint'' then Some synchronization_point_response
           else Some (pull_point_response rfc port (extract_host_ip outbound host) (new_id ev) now)))"

subsection \<open>Relays, search, replay, recordings\<close>

definition get_relay_outputs :: "doc" where
  "get_relay_outputs =
  xblock ''tio:GetRelayOutputsResponse'' [(''xmlns:tio'', ns_tio), (''xmlns:tt'', ns_tt)] [
    xblock ''tio:RelayOutputs'' [(''token'', ''RelayOutput_1'')] [
      xblock ''tt:Properties'' [] [
        xtext ''tt:Mode'' ''Bistable'',
        xtext ''tt:DelayTime'' ''PT0S'',
        xtext ''tt:IdleState'' ''open'']]]"

definition set_relay_response :: "doc" where
  "set_relay_response =
  xvoid ''tio:SetRelayOutputStateResponse'' [(''xmlns:tio'', ns_tio)]"

definition auxiliary_response :: "doc" where
  "auxiliary_response =
  xrow ''tptz:SendAuxiliaryCommandResponse'' [(''xmlns:tptz'', ''http://www.onvif.org/ver20/ptz/wsdl'')] [xtext ''tptz:AuxiliaryResponse'' ''OK'']"

definition device_io_answer :: "string \<Rightarrow> string \<Rightarrow> doc option" where
  "device_io_answer action body =
     (case find_action [''GetRelayOutputs'', ''SetRelayOutputState'', ''SendAuxiliaryCommand''] action body of
        None \<Rightarrow> None
      | Some a \<Rightarrow>
          Some (if a = ''GetRelayOutputs'' then get_relay_outputs
                else if a = ''SetRelayOutputState'' then set_relay_response else auxiliary_response))"

text \<open>\<open>query\<close> asks the recording provider; None is no provider, no answer or an error.\<close>

type_synonym recording_query = "gtime \<Rightarrow> gtime \<Rightarrow> int \<Rightarrow> int \<Rightarrow> list_response option"

definition hours :: "int \<Rightarrow> int" where "hours n = n * 3600 * 1000000000"

text \<open>How many recordings there are, and from when to when.\<close>

definition summary_of :: "recording_query \<Rightarrow> gtime \<Rightarrow> int \<times> gtime \<times> gtime" where
  "summary_of query now =
     (case query (now - hours (7 * 24)) now 0 1000 of
        None \<Rightarrow> (0, now - hours (7 * 24), now)
      | Some r \<Rightarrow>
          (resp_total r,
           if resp_list r = [] then (now - hours (7 * 24), now)
           else (start_time (List.last (resp_list r)), end_time (hd (resp_list r)))))"

definition recording_summary :: "(gtime \<Rightarrow> string) \<Rightarrow> recording_query \<Rightarrow> gtime \<Rightarrow> doc" where
  "recording_summary rfc query now =
     (case summary_of query now of
        (n, start, stop) \<Rightarrow>
          xblock ''tse:GetRecordingSummaryResponse'' [(''xmlns:tse'', ns_tse), (''xmlns:tt'', ns_tt)] [
            xblock ''tse:Summary'' [] [
              xblock ''tt:DataFromStore'' [] [
                xtext ''tt:TotalRecordings'' (dec_of_int n),
                xtext ''tt:EarliestRecording'' (rfc start),
                xtext ''tt:LatestRecording'' (rfc stop)]]])"

definition find_recordings :: "string \<Rightarrow> doc" where
  "find_recordings uuid =
  xblock ''tse:FindRecordingsResponse'' [(''xmlns:tse'', ns_tse)] [
    xtext ''tse:SearchToken'' (''SearchToken_'' @ take 8 uuid)]"

definition result_items :: "recording_query \<Rightarrow> gtime \<Rightarrow> recording_item list" where
  "result_items query now =
     (case query (now - hours 24) now 0 50 of None \<Rightarrow> [] | Some r \<Rightarrow> resp_list r)"

definition recording_information_of :: "(gtime \<Rightarrow> string) \<Rightarrow> string \<Rightarrow> recording_item \<Rightarrow> doc" where
  "recording_information_of rfc host it =
  xblock ''tt:RecordingInformation'' [] [
    xtext ''tt:RecordingToken'' (item_id it),
    xblock ''tt:Source'' [] [
      xtext ''tt:SourceId'' ''SteinelCamera0'',
      xtext ''tt:Name'' (recording_item.file_name it),
      xtext ''tt:Location'' ''Main'',
      xtext ''tt:Description'' (event_type it),
      xtext ''tt:Address'' (''http://'' @ host @ ''/api/sdcard/events/'' @ item_id it @ ''/video.mp4'')],
    xtext ''tt:EarliestRecording'' (rfc (start_time it)),
    xtext ''tt:LatestRecording'' (rfc (end_time it)),
    xtext ''tt:Content'' ''Motion Event Recording'',
    xblock ''tt:Track'' [] [
      xtext ''tt:TrackToken'' ''Track_Video'',
      xblock ''tt:TrackInformation'' [] [
        xtext ''tt:TrackType'' ''Video'',
        xtext ''tt:Description'' ''H264 Main Video Track'',
        xtext ''tt:DataFrom'' (rfc (start_time it)),
        xtext ''tt:DataTo'' (rfc (end_time it))]]]"

text \<open>The items are each on a line of their own, the tags around them directly at their sides.\<close>

definition search_results :: "(gtime \<Rightarrow> string) \<Rightarrow> string \<Rightarrow> recording_item list \<Rightarrow> doc" where
  "search_results rfc host its d =
     Node ''tse:GetRecordingSearchResultsResponse'' [(''xmlns:tse'', ns_tse), (''xmlns:tt'', ns_tt)]
       [Node ''tse:ResultList'' []
          (concat (map (\<lambda>it. [Chars (new_line 4), recording_information_of rfc host it 4]) its))]"

definition find_events :: "string \<Rightarrow> doc" where
  "find_events uuid =
  xblock ''tse:FindEventsResponse'' [(''xmlns:tse'', ns_tse)] [
    xtext ''tse:SearchToken'' (''EventSearchToken_'' @ take 8 uuid)]"

definition event_search_results :: "doc" where
  "event_search_results =
  xblock ''tse:GetEventSearchResultsResponse'' [(''xmlns:tse'', ns_tse), (''xmlns:tt'', ns_tt)] [
    xtext ''tse:ResultList'' []]"

definition recording_information :: "(gtime \<Rightarrow> string) \<Rightarrow> gtime \<Rightarrow> doc" where
  "recording_information rfc now =
  xblock ''tse:GetRecordingInformationResponse'' [(''xmlns:tse'', ns_tse), (''xmlns:tt'', ns_tt)] [
    xblock ''tse:RecordingInformation'' [] [
      xtext ''tt:RecordingToken'' ''Recording_Main'',
      xblock ''tt:Source'' [] [
        xtext ''tt:SourceId'' ''SteinelCamera0'',
        xtext ''tt:Name'' ''Steinel Cam'',
        xtext ''tt:Location'' ''Main'',
        xtext ''tt:Description'' ''Local MicroSD Storage''],
      xtext ''tt:EarliestRecording'' (rfc (now - hours 24)),
      xtext ''tt:LatestRecording'' (rfc now),
      xtext ''tt:Content'' ''Motion Recordings'']]"

definition search_answer ::
  "(gtime \<Rightarrow> string) \<Rightarrow> recording_query \<Rightarrow> string \<Rightarrow> gtime \<Rightarrow> string \<Rightarrow> string \<Rightarrow> string \<Rightarrow> doc option" where
  "search_answer rfc query uuid now host action body =
     (case find_action [''GetRecordingSummary'', ''FindRecordings'', ''GetRecordingSearchResults'',
             ''FindEvents'', ''GetEventSearchResults'', ''GetRecordingInformation''] action body of
        None \<Rightarrow> None
      | Some a \<Rightarrow>
          Some (if a = ''GetRecordingSummary'' then recording_summary rfc query now
                else if a = ''FindRecordings'' then find_recordings uuid
                else if a = ''GetRecordingSearchResults'' then search_results rfc host (result_items query now)
                else if a = ''FindEvents'' then find_events uuid
                else if a = ''GetEventSearchResults'' then event_search_results
                else recording_information rfc now))"

definition get_replay_uri :: "int \<Rightarrow> string \<Rightarrow> doc" where
  "get_replay_uri rtsp_port ip =
  (let url = ''rtsp://'' @ ip @ '':'' @ dec_of_int rtsp_port @ ''/live'' in
   xblock ''trp:GetReplayUriResponse'' [(''xmlns:trp'', ns_trp)] [
     xtext ''trp:Uri'' url])"

definition get_replay_configuration :: "doc" where
  "get_replay_configuration =
  xblock ''trp:GetReplayConfigurationResponse'' [(''xmlns:trp'', ns_trp), (''xmlns:tt'', ns_tt)] [
    xblock ''trp:Configuration'' [] [
      xtext ''tt:SessionTimeout'' ''PT60S'']]"

definition set_replay_response :: doc where
  "set_replay_response = xvoid ''trp:SetReplayConfigurationResponse'' [(''xmlns:trp'', ''http://www.onvif.org/ver10/replay/wsdl'')]"

definition replay_answer :: "int \<Rightarrow> string \<Rightarrow> string \<Rightarrow> string \<Rightarrow> string \<Rightarrow> doc option" where
  "replay_answer rtsp_port outbound host action body =
     (case find_action [''GetReplayUri'', ''GetReplayConfiguration'', ''SetReplayConfiguration''] action body of
        None \<Rightarrow> None
      | Some a \<Rightarrow>
          Some (if a = ''GetReplayUri'' then get_replay_uri rtsp_port (extract_host_ip outbound host)
                else if a = ''GetReplayConfiguration'' then get_replay_configuration else set_replay_response))"

definition get_recordings :: "int \<Rightarrow> doc" where
  "get_recordings port =
  xblock ''trc:GetRecordingsResponse'' [(''xmlns:trc'', ns_trc), (''xmlns:tt'', ns_tt)] [
    xblock ''trc:RecordingItem'' [] [
      xtext ''tt:RecordingToken'' ''Recording_Main'',
      xblock ''tt:Configuration'' [] [
        xblock ''tt:Source'' [] [
          xtext ''tt:SourceId'' ''SteinelCamera0'',
          xtext ''tt:Name'' ''Steinel Cam Main'',
          xtext ''tt:Location'' ''Main'',
          xtext ''tt:Description'' ''MicroSD Storage'',
          xtext ''tt:Address'' (''http://127.0.0.1:'' @ dec_of_int port @ ''/onvif/device_service'')],
        xtext ''tt:Content'' ''Motion Events'',
        xtext ''tt:MaximumRetentionTime'' ''P30D'']]]"

definition get_recording_configuration :: "int \<Rightarrow> doc" where
  "get_recording_configuration port =
  xblock ''trc:GetRecordingConfigurationResponse'' [(''xmlns:trc'', ns_trc), (''xmlns:tt'', ns_tt)] [
    xblock ''trc:RecordingConfiguration'' [] [
      xblock ''tt:Source'' [] [
        xtext ''tt:SourceId'' ''SteinelCamera0'',
        xtext ''tt:Name'' ''Steinel Cam Main'',
        xtext ''tt:Location'' ''Main'',
        xtext ''tt:Description'' ''MicroSD Storage'',
        xtext ''tt:Address'' (''http://127.0.0.1:'' @ dec_of_int port @ ''/onvif/device_service'')],
      xtext ''tt:Content'' ''Motion Events'',
      xtext ''tt:MaximumRetentionTime'' ''P30D'']]"

definition recording_answer :: "int \<Rightarrow> string \<Rightarrow> string \<Rightarrow> doc option" where
  "recording_answer port action body =
     (case find_action [''GetRecordings'', ''GetRecordingConfiguration''] action body of
        None \<Rightarrow> None
      | Some a \<Rightarrow> Some (if a = ''GetRecordings'' then get_recordings port else get_recording_configuration port))"

subsection \<open>The server\<close>

text \<open>The handlers with what \<^verbatim>\<open>NewServer\<close> gives them, and what changes from request to request.\<close>

record onvif_handlers =
  oh_device :: device_handler
  oh_media :: media_handler
  oh_port :: int
  oh_rtsp :: int

definition new_onvif_handlers ::
  "int \<Rightarrow> int \<Rightarrow> string \<Rightarrow> string \<Rightarrow> string \<Rightarrow> string \<Rightarrow> string \<Rightarrow> string \<Rightarrow> onvif_handlers" where
  "new_onvif_handlers port rtsp_port path codec device_id product device_model user =
     (let p = (if port = 0 then 8000 else port) in
      \<lparr>oh_device = new_device_handler device_id product device_model p rtsp_port user,
       oh_media = new_media_handler rtsp_port path codec p, oh_port = p, oh_rtsp = rtsp_port\<rparr>)"

record answer_env =
  ae_outbound :: string
  ae_firmware :: string
  ae_calendar :: calendar
  ae_rfc :: "gtime \<Rightarrow> string"
  ae_query :: recording_query
  ae_uuid :: string
  ae_message :: string

definition soap_answer ::
  "onvif_handlers \<Rightarrow> answer_env \<Rightarrow> event_env \<Rightarrow> gtime \<Rightarrow> http_request \<Rightarrow> subscriptions \<Rightarrow> doc option" where
  "soap_answer hs w ev now rq subs =
     (let a = rq_action rq; b = rq_body rq; host = rq_host rq; out = ae_outbound w in
      case service_of (rq_path rq) b of
        DeviceSvc \<Rightarrow> device_answer (oh_device hs) out (ae_firmware w) (ae_calendar w) host a b
      | MediaSvc \<Rightarrow> media_answer (oh_media hs) out host a b
      | EventSvc \<Rightarrow> event_answer (ae_rfc w) (oh_port hs) ev now out host a b (rq_sub rq) subs
      | DeviceIOSvc \<Rightarrow> device_io_answer a b
      | SearchSvc \<Rightarrow> search_answer (ae_rfc w) (ae_query w) (ae_uuid w) now host a b
      | ReplaySvc \<Rightarrow> replay_answer (oh_rtsp hs) out host a b
      | RecordingSvc \<Rightarrow> recording_answer (oh_port hs) a b)"

subsection \<open>Envelopes\<close>

definition xml_prolog :: string where
  "xml_prolog = ''<?xml version=\"1.0\" encoding=\"UTF-8\"?>'' @ new_line 0"

definition envelope_attrs :: attrs where
  "envelope_attrs =
    [(''xmlns:s'', ''http://www.w3.org/2003/05/soap-envelope''),
     (''xmlns:a'', ''http://www.w3.org/2005/08/addressing''),
     (''xmlns:tt'', ''http://www.onvif.org/ver10/schema''),
     (''xmlns:tds'', ''http://www.onvif.org/ver10/device/wsdl''),
     (''xmlns:trt'', ''http://www.onvif.org/ver10/media/wsdl''),
     (''xmlns:tev'', ''http://www.onvif.org/ver10/events/wsdl''),
     (''xmlns:tio'', ''http://www.onvif.org/ver10/deviceIO/wsdl''),
     (''xmlns:wsnt'', ''http://docs.oasis-open.org/wsn/b-2'')]"

text \<open>The text of the answer is put in as it is.\<close>

definition envelope_header :: "string \<Rightarrow> doc" where
  "envelope_header uuid =
     xblock ''s:Header'' [] [
       xtext ''a:MessageID'' (''urn:uuid:'' @ uuid),
       xtext ''a:To'' ''http://www.w3.org/2005/08/addressing/anonymous'']"

definition wrap_soap_response :: "string \<Rightarrow> string \<Rightarrow> string" where
  "wrap_soap_response uuid inner =
     xml_prolog @ show_node
       (xblock ''s:Envelope'' envelope_attrs [
          envelope_header uuid,
          xtext ''s:Body'' (new_line 4 @ inner @ new_line 2)] 0)"

definition wrap_soap_fault :: "string \<Rightarrow> string option \<Rightarrow> string" where
  "wrap_soap_fault action err =
     (let message = (case err of None \<Rightarrow> ''Action not supported'' | Some e \<Rightarrow> e) in
      xml_prolog @ show_node
        (xblock ''s:Envelope'' [(''xmlns:s'', ''http://www.w3.org/2003/05/soap-envelope''),
             (''xmlns:a'', ''http://www.w3.org/2005/08/addressing'')] [
           xblock ''s:Body'' [] [
             xblock ''s:Fault'' [] [
               xrow ''s:Code'' [] [xtext ''s:Value'' ''s:Receiver''],
               xrow ''s:Reason'' [] [xfield ''s:Text'' [(''xml:lang'', ''en'')] (action @ '': '' @ message)]]]] 0))"

text \<open>The error of each handler names the action; the media service has an answer to everything.\<close>

definition unhandled :: "service \<Rightarrow> string \<Rightarrow> string" where
  "unhandled svc action =
     ''unhandled '' @
     (case svc of DeviceSvc \<Rightarrow> ''device'' | MediaSvc \<Rightarrow> ''media'' | EventSvc \<Rightarrow> ''event'' | DeviceIOSvc \<Rightarrow> ''deviceio''
      | SearchSvc \<Rightarrow> ''search'' | ReplaySvc \<Rightarrow> ''replay'' | RecordingSvc \<Rightarrow> ''recording'') @ '' action: '' @ action"

text \<open>What the client of an accepted request reads.\<close>

definition soap_text ::
  "onvif_handlers \<Rightarrow> answer_env \<Rightarrow> event_env \<Rightarrow> gtime \<Rightarrow> http_request \<Rightarrow> subscriptions \<Rightarrow> string" where
  "soap_text hs w ev now rq subs =
     (case soap_answer hs w ev now rq subs of
        None \<Rightarrow> wrap_soap_fault (rq_action rq) (Some (unhandled (service_of (rq_path rq) (rq_body rq)) (rq_action rq)))
      | Some t \<Rightarrow> wrap_soap_response (ae_message w) (show_node (t 0)))"

end
