(* ===== verification/Onvif_Answers_Proofs.thy ===== *)
theory Onvif_Answers_Proofs
  imports Onvif_Xml_Proofs Onvif_Answers Onvif_Server_Proofs
begin

text \<open>
  Every answer of the ONVIF services is well-formed, with its prefixes declared, as long as nothing with markup is put into
  it; a reader gets back the element that the request stands for. What a client or a camera sends is put in as it is.
\<close>

lemmas ns_defs = ns_soap_env_def ns_wsdd_def ns_wsa_def ns_tds_def ns_trt_def ns_tt_def ns_tev_def ns_tio_def ns_tse_def
  ns_trp_def ns_trc_def ns_wsnt_def ns_wsrf_r_def

lemma no_markup_ns [simp]:
  "no_markup ns_soap_env" "no_markup ns_wsdd" "no_markup ns_wsa" "no_markup ns_tds" "no_markup ns_trt" "no_markup ns_tt"
  "no_markup ns_tev" "no_markup ns_tio" "no_markup ns_tse" "no_markup ns_trp" "no_markup ns_trc" "no_markup ns_wsnt"
  by (simp_all add: ns_defs)

lemma no_markup_digit:
  assumes "n < 10"
  shows "no_markup [char_of (48 + n :: nat)]"
proof -
  have "take_bit 8 (48 + n) = 48 + n" using assms by (simp add: take_bit_nat_eq_self)
  then show ?thesis using assms by (simp add: char_of_eq_iff)
qed

lemma no_markup_dec_nat [simp]: "no_markup (dec_of_nat n)"
proof (induction n rule: dec_of_nat.induct)
  case (1 n)
  then show ?case
    using no_markup_digit[of n] no_markup_digit[of "n mod 10"] by (subst dec_of_nat.simps) auto
qed

lemma no_markup_dec [simp]: "no_markup (dec_of_int i)"
  by (simp add: dec_of_int_def)

lemma no_markup_take [simp]: "no_markup s \<Longrightarrow> no_markup (take n s)"
  by (auto simp: no_markup_def list_all_iff dest: in_set_takeD)

lemmas head_simps = head_ok_def name_ok_def known_def prefix_of_def declared_def

subsection \<open>The device service\<close>

lemma url_plain [simp]: "no_markup ip \<Longrightarrow> no_markup name \<Longrightarrow> no_markup (service_url ip port name)"
  by (simp add: service_url_def)

lemma version_ok: "''tds'' \<in> set ps \<Longrightarrow> ''tt'' \<in> set ps \<Longrightarrow> doc_ok ps version_2_0"
  unfolding version_2_0_def by (simp add: doc_oks head_simps)

lemma plain_service_ok:
  "''tds'' \<in> set ps \<Longrightarrow> ''tt'' \<in> set ps \<Longrightarrow> no_markup ns \<Longrightarrow> no_markup url \<Longrightarrow> doc_ok ps (plain_service ns url)"
  unfolding plain_service_def by (simp add: doc_oks version_ok head_simps)

lemma device_information_ok:
  "no_markup (dh_id h) \<Longrightarrow> no_markup (dh_product h) \<Longrightarrow> no_markup (dh_model h) \<Longrightarrow> no_markup fw \<Longrightarrow>
   doc_ok ps (get_device_information h fw)"
  unfolding get_device_information_def Let_def by (simp add: doc_oks head_simps)

lemma capabilities_ok: "no_markup ip \<Longrightarrow> doc_ok ps (get_capabilities h ip)"
  unfolding get_capabilities_def Let_def by (simp add: doc_oks head_simps)

lemma plain_services_ok: "no_markup ip \<Longrightarrow> doc_ok ps (plain_services h ip)"
  unfolding plain_services_def Let_def by (simp add: doc_oks plain_service_ok head_simps)

lemma services_with_capabilities_ok: "no_markup ip \<Longrightarrow> doc_ok ps (services_with_capabilities h ip)"
  unfolding services_with_capabilities_def Let_def by (simp add: doc_oks plain_service_ok version_ok head_simps)

lemma device_service_capabilities_ok: "doc_ok ps device_service_capabilities"
  unfolding device_service_capabilities_def by (simp add: doc_oks head_simps)

lemma small_device_answers_ok:
  "doc_ok ps get_wsdl_url" "doc_ok ps get_network_interfaces" "doc_ok ps get_hostname" "doc_ok ps get_dns" "doc_ok ps get_ntp"
  "doc_ok ps get_discovery_mode" "doc_ok ps (get_network_protocols h)" "doc_ok ps (get_system_date_and_time t)"
  "no_markup (dh_id h) \<Longrightarrow> doc_ok ps (get_endpoint_reference h)"
  "no_markup ip \<Longrightarrow> doc_ok ps (get_network_default_gateway ip)"
  "no_markup (dh_user h) \<Longrightarrow> doc_ok ps (get_users h)"
  unfolding get_wsdl_url_def get_network_interfaces_def get_hostname_def get_dns_def get_ntp_def get_discovery_mode_def
    get_network_protocols_def get_system_date_and_time_def get_endpoint_reference_def get_network_default_gateway_def
    get_users_def Let_def
  by (simp_all add: doc_oks head_simps)

lemma scopes_ok: "doc_ok ps get_scopes"
  unfolding get_scopes_def by (simp add: doc_oks head_simps)

text \<open>The only answer that relies on the envelope for its prefix.\<close>

lemma reboot_ok: "''tds'' \<in> set ps \<Longrightarrow> doc_ok ps system_reboot_response"
  unfolding system_reboot_response_def by (simp add: doc_oks head_simps)

definition plain_device :: "device_handler \<Rightarrow> bool" where
  "plain_device h \<longleftrightarrow> no_markup (dh_id h) \<and> no_markup (dh_product h) \<and> no_markup (dh_model h) \<and> no_markup (dh_user h)"

lemma host_plain [simp]: "no_markup outbound \<Longrightarrow> no_markup host \<Longrightarrow> no_markup (extract_host_ip outbound host)"
  by (simp add: extract_host_ip_def split: option.split)

lemma device_answer_ok:
  assumes "device_answer h outbound fw t host action body = Some d" "plain_device h" "no_markup outbound" "no_markup fw"
    "no_markup host" "''tds'' \<in> set ps"
  shows "doc_ok ps d"
  using assms unfolding device_answer_def Let_def plain_device_def get_services_def
  by (auto simp: device_information_ok capabilities_ok plain_services_ok services_with_capabilities_ok
      device_service_capabilities_ok small_device_answers_ok scopes_ok reboot_ok split: option.splits if_splits)

subsection \<open>The other services\<close>

lemma profiles_ok: "doc_ok ps (get_profiles h)"
  unfolding get_profiles_def Let_def by (simp add: doc_oks head_simps)

lemma media_answers_ok:
  "doc_ok ps video_encoder_options" "doc_ok ps set_video_encoder_response" "doc_ok ps get_audio_sources"
  "doc_ok ps get_audio_outputs" "doc_ok ps audio_encoder_options" "doc_ok ps get_video_sources"
  "doc_ok ps video_source_configurations" "doc_ok ps audio_source_configurations" "doc_ok ps audio_output_configurations"
  "doc_ok ps unknown_action_response"
  "no_markup ip \<Longrightarrow> no_markup (mh_path m) \<Longrightarrow> doc_ok ps (get_stream_uri m ip)"
  unfolding video_encoder_options_def set_video_encoder_response_def get_audio_sources_def get_audio_outputs_def
    audio_encoder_options_def get_video_sources_def video_source_configurations_def audio_source_configurations_def
    audio_output_configurations_def unknown_action_response_def get_stream_uri_def Let_def
  by (simp_all add: doc_oks head_simps)

lemma media_answer_ok:
  "media_answer m outbound host action body = Some d \<Longrightarrow> no_markup outbound \<Longrightarrow> no_markup host \<Longrightarrow> no_markup (mh_path m) \<Longrightarrow>
   doc_ok ps d"
  unfolding media_answer_def
  by (auto simp: profiles_ok media_answers_ok split: option.splits if_splits)

lemma event_answers_ok:
  "doc_ok ps synchronization_point_response" "doc_ok ps event_service_capabilities" "doc_ok ps get_event_properties"
  "doc_ok ps unsubscribe_response" "(\<And>t. no_markup (rfc t)) \<Longrightarrow> doc_ok ps (renew_response rfc now)"
  "(\<And>t. no_markup (rfc t)) \<Longrightarrow> doc_ok ps (pull_response rfc now e r)"
  "(\<And>t. no_markup (rfc t)) \<Longrightarrow> no_markup ip \<Longrightarrow> no_markup sub \<Longrightarrow> doc_ok ps (pull_point_response rfc port ip sub now)"
  unfolding synchronization_point_response_def event_service_capabilities_def get_event_properties_def unsubscribe_response_def
    renew_response_def pull_response_def pull_point_response_def Let_def
  by (simp_all add: doc_oks head_simps split: option.split)

lemma event_answer_ok:
  "event_answer rfc port ev now outbound host action body sub subs = Some d \<Longrightarrow> (\<And>t. no_markup (rfc t)) \<Longrightarrow>
   no_markup outbound \<Longrightarrow> no_markup host \<Longrightarrow> no_markup (new_id ev) \<Longrightarrow> doc_ok ps d"
  unfolding event_answer_def
  by (auto simp: event_answers_ok split: option.splits if_splits)

lemma io_answer_ok: "device_io_answer action body = Some d \<Longrightarrow> doc_ok ps d"
  unfolding device_io_answer_def get_relay_outputs_def set_relay_response_def auxiliary_response_def
  by (auto simp: doc_oks head_simps split: option.splits if_splits)

lemma replay_answer_ok:
  "replay_answer port outbound host action body = Some d \<Longrightarrow> no_markup outbound \<Longrightarrow> no_markup host \<Longrightarrow> doc_ok ps d"
  unfolding replay_answer_def get_replay_uri_def get_replay_configuration_def set_replay_response_def Let_def
  by (auto simp: doc_oks head_simps split: option.splits if_splits)

lemma recording_answer_ok: "recording_answer port action body = Some d \<Longrightarrow> doc_ok ps d"
  unfolding recording_answer_def get_recordings_def get_recording_configuration_def
  by (auto simp: doc_oks head_simps split: option.splits if_splits)

definition plain_item :: "recording_item \<Rightarrow> bool" where
  "plain_item it \<longleftrightarrow> no_markup (item_id it) \<and> no_markup (recording_item.file_name it) \<and> no_markup (event_type it)"

lemma recording_information_of_ok:
  "(\<And>t. no_markup (rfc t)) \<Longrightarrow> no_markup host \<Longrightarrow> plain_item it \<Longrightarrow> ''tt'' \<in> set ps \<Longrightarrow>
   doc_ok ps (recording_information_of rfc host it)"
  unfolding recording_information_of_def plain_item_def by (simp add: doc_oks head_simps)

lemma apart_results:
  "(\<And>it. it \<in> set its \<Longrightarrow> \<not> is_chars (f it)) \<Longrightarrow> apart (concat (map (\<lambda>it. [Chars s, f it]) its))"
  by (induction its rule: induct_list012) auto

lemma search_results_ok:
  assumes "\<And>t. no_markup (rfc t)" "no_markup host" "list_all plain_item its"
  shows "doc_ok ps (search_results rfc host its)"
proof -
  have i: "doc_ok qs (recording_information_of rfc host it)" if "it \<in> set its" "''tt'' \<in> set qs" for it qs
    using that recording_information_of_ok assms by (simp add: list_all_iff)
  have "apart (concat (map (\<lambda>it. [Chars (new_line 4), recording_information_of rfc host it 4]) its))"
    by (rule apart_results) (use i[where qs = "[''tt'']"] in \<open>auto simp: doc_ok_def\<close>)
  then show ?thesis
    using i by (auto simp: doc_ok_def search_results_def head_simps list_all_iff)
qed

lemma search_texts_ok:
  "no_markup uuid \<Longrightarrow> doc_ok ps (find_recordings uuid)" "no_markup uuid \<Longrightarrow> doc_ok ps (find_events uuid)"
  "doc_ok ps event_search_results" "(\<And>t. no_markup (rfc t)) \<Longrightarrow> doc_ok ps (recording_information rfc now)"
  "(\<And>t. no_markup (rfc t)) \<Longrightarrow> doc_ok ps (recording_summary rfc query now)"
  unfolding find_recordings_def find_events_def event_search_results_def recording_information_def recording_summary_def
  by (simp_all add: doc_oks head_simps split: prod.split)

lemma search_answer_ok:
  assumes "search_answer rfc query uuid now host action body = Some d" "\<And>t. no_markup (rfc t)" "no_markup uuid" "no_markup host"
    "list_all plain_item (result_items query now)"
  shows "doc_ok ps d"
  using assms unfolding search_answer_def
  by (auto simp: search_texts_ok search_results_ok split: option.splits if_splits)

subsection \<open>The whole server\<close>

text \<open>Nothing that is put into an answer has markup: settings, status, host, times, identifiers and the recordings found.\<close>

definition plain_setting :: "onvif_handlers \<Rightarrow> answer_env \<Rightarrow> event_env \<Rightarrow> gtime \<Rightarrow> http_request \<Rightarrow> bool" where
  "plain_setting hs w ev now rq \<longleftrightarrow>
     plain_device (oh_device hs) \<and> no_markup (mh_path (oh_media hs)) \<and> no_markup (ae_outbound w) \<and>
     no_markup (ae_firmware w) \<and> (\<forall>t. no_markup (ae_rfc w t)) \<and> no_markup (ae_uuid w) \<and> no_markup (ae_message w) \<and>
     no_markup (new_id ev) \<and> no_markup (rq_host rq) \<and> list_all plain_item (result_items (ae_query w) now)"

lemma soap_answer_ok:
  assumes "soap_answer hs w ev now rq subs = Some d" "plain_setting hs w ev now rq" "''tds'' \<in> set ps"
  shows "doc_ok ps d"
proof (cases "service_of (rq_path rq) (rq_body rq)")
  case DeviceSvc
  with assms show ?thesis
    by (auto simp: soap_answer_def plain_setting_def Let_def intro: device_answer_ok)
next
  case MediaSvc
  with assms show ?thesis
    by (auto simp: soap_answer_def plain_setting_def Let_def intro: media_answer_ok)
next
  case EventSvc
  with assms show ?thesis
    by (auto simp: soap_answer_def plain_setting_def Let_def intro: event_answer_ok)
next
  case DeviceIOSvc
  with assms show ?thesis
    by (auto simp: soap_answer_def Let_def intro: io_answer_ok)
next
  case SearchSvc
  with assms show ?thesis
    by (auto simp: soap_answer_def plain_setting_def Let_def intro: search_answer_ok)
next
  case ReplaySvc
  with assms show ?thesis
    by (auto simp: soap_answer_def plain_setting_def Let_def intro: replay_answer_ok)
next
  case RecordingSvc
  with assms show ?thesis
    by (auto simp: soap_answer_def Let_def intro: recording_answer_ok)
qed

text \<open>The answer inside its envelope, as elements.\<close>

definition enveloped :: "string \<Rightarrow> node \<Rightarrow> node" where
  "enveloped uuid t =
     Node ''s:Envelope'' envelope_attrs
       [Chars (new_line 2), envelope_header uuid 2, Chars (new_line 2),
        Node ''s:Body'' [] [Chars (new_line 4), t, Chars (new_line 2)], Chars (new_line 0)]"

lemma wrapped: "wrap_soap_response uuid (show_node t) = xml_prolog @ show_node (enveloped uuid t)"
  by (simp add: wrap_soap_response_def enveloped_def xblock_def xfield_def numeral_2_eq_2)

lemma envelope_ok:
  assumes "no_markup uuid" "well_formed (declared envelope_attrs) t" "\<not> is_chars t"
  shows "well_formed [] (enveloped uuid t)"
proof -
  have "doc_ok (declared envelope_attrs) (envelope_header uuid)"
    unfolding envelope_header_def using assms(1) by (simp add: doc_oks head_simps envelope_attrs_def)
  then show ?thesis
    using assms(2,3) by (simp add: enveloped_def doc_ok_def) (simp add: head_simps envelope_attrs_def)
qed

lemma read_prolog:
  assumes "well_formed ps t" "\<not> is_chars t"
  shows "read_xml (xml_prolog @ show_node t) = Some [Chars (new_line 0), t]"
proof -
  let ?rest = "new_line 0 @ show_node t"
  let ?decl = "''?xml version=\"1.0\" encoding=\"UTF-8\"?''"
  have "takeWhile (\<lambda>c. c \<noteq> CHR ''>'') (?decl @ CHR ''>'' # ?rest) = ?decl"
    by (rule takeWhile_stop) simp_all
  then have "lex (xml_prolog @ show_node t) = lex ?rest"
    by (simp add: xml_prolog_def lex.simps[of "CHR ''<'' # ?decl @ CHR ''>'' # ?rest", simplified])
  also have "\<dots> = map_option (Cons (TChars (new_line 0))) (lex (show_node t))"
    by (rule lex_chars) (use show_starts[OF assms(2), of "[]"] in \<open>auto simp: at_tag_def\<close>)
  also have "lex (show_node t) = Some (tokens t)"
    using lex_show[OF assms(1), of "[]"] assms(2) by (simp add: lex.simps)
  finally show ?thesis
    using build_tokens[of t "[]" "[]" "[Chars (new_line 0)]"] by (simp add: read_xml_def)
qed

end
