(* ===== verification/Onvif_Reply_Proofs.thy ===== *)
theory Onvif_Reply_Proofs
  imports Onvif_Answers_Proofs
begin

text \<open>
  The answer that a request gets is the one that the dispatch names, in an envelope that can be read; and what the code puts
  into an answer without looking at it.
\<close>

subsection \<open>The element of an answer\<close>

lemma node_name_parts [simp]:
  "node_name (xblock n as ts d) = n" "node_name (xrow n as ts d) = n"
  "node_name (xfield n as s d) = n" "node_name (xvoid n as d) = n"
  by (simp_all add: xblock_def xrow_def xfield_def xvoid_def)

lemma find_action_mem: "find_action as action body = Some a \<Longrightarrow> a \<in> set as"
  by (auto simp: find_action_def find_Some_iff)

lemma device_roots:
  "map_option (\<lambda>t. root_name (t 0)) (device_answer h outbound fw t host action body) = fst (device_handle action body)"
proof (cases "find_action device_actions action body")
  case (Some a)
  from find_action_mem[OF Some, unfolded device_actions_def] show ?thesis
    unfolding device_answer_def device_handle_def Some
    by (auto simp: Let_def local_name_def get_device_information_def get_capabilities_def get_services_def plain_services_def
        services_with_capabilities_def device_service_capabilities_def get_endpoint_reference_def get_wsdl_url_def
        get_network_default_gateway_def get_system_date_and_time_def get_network_interfaces_def get_users_def get_scopes_def
        get_network_protocols_def get_hostname_def get_dns_def get_ntp_def get_discovery_mode_def system_reboot_response_def)
qed (simp add: device_answer_def device_handle_def)

lemma media_roots:
  "map_option (\<lambda>t. root_name (t 0)) (media_answer h outbound host action body) = fst (media_handle action body)"
proof (cases "find_action media_actions action body")
  case (Some a)
  from find_action_mem[OF Some, unfolded media_actions_def] show ?thesis
    unfolding media_answer_def media_handle_def Some
    by (auto simp: Let_def local_name_def media_response_def get_profiles_def get_stream_uri_def video_encoder_options_def
        set_video_encoder_response_def get_audio_sources_def get_audio_outputs_def audio_encoder_options_def
        get_video_sources_def video_source_configurations_def audio_source_configurations_def audio_output_configurations_def)
qed (simp add: media_answer_def media_handle_def unknown_action_response_def local_name_def)

lemma event_roots:
  "map_option (\<lambda>t. root_name (t 0)) (event_answer rfc port ev now outbound host action body sub subs) =
   fst (fst (event_handle ev now action body sub subs))"
proof (cases "find_action event_actions action body")
  case (Some a)
  from find_action_mem[OF Some, unfolded event_actions_def] show ?thesis
    unfolding event_answer_def event_handle_def Some
    by (auto simp: Let_def local_name_def synchronization_point_response_def event_service_capabilities_def
        get_event_properties_def unsubscribe_response_def renew_response_def pull_response_def pull_point_response_def
        split: option.split)
qed (simp add: event_answer_def event_handle_def)

lemma io_roots: "map_option (\<lambda>t. root_name (t 0)) (device_io_answer action body) = fst (device_io_handle action body)"
  unfolding device_io_answer_def device_io_handle_def
  by (auto dest!: find_action_mem simp: local_name_def get_relay_outputs_def set_relay_response_def auxiliary_response_def
      split: option.split)

lemma search_roots:
  "map_option (\<lambda>t. root_name (t 0)) (search_answer rfc query uuid now host action body) = fst (search_handle action body)"
  unfolding search_answer_def search_handle_def
  by (auto dest!: find_action_mem simp: local_name_def recording_summary_def find_recordings_def search_results_def
      find_events_def event_search_results_def recording_information_def split: option.split prod.split)

lemma replay_roots:
  "map_option (\<lambda>t. root_name (t 0)) (replay_answer port outbound host action body) = fst (replay_handle action body)"
  unfolding replay_answer_def replay_handle_def
  by (auto dest!: find_action_mem simp: Let_def local_name_def get_replay_uri_def get_replay_configuration_def
      set_replay_response_def split: option.split)

lemma recording_roots:
  "map_option (\<lambda>t. root_name (t 0)) (recording_answer port action body) = fst (recording_handle action body)"
  unfolding recording_answer_def recording_handle_def
  by (auto dest!: find_action_mem simp: local_name_def get_recordings_def get_recording_configuration_def split: option.split)

lemma soap_roots:
  "map_option (\<lambda>t. root_name (t 0)) (soap_answer hs w ev now rq subs) = fst (fst (serve ev now rq subs))"
  by (cases "service_of (rq_path rq) (rq_body rq)")
     (simp_all add: soap_answer_def serve_def Let_def device_roots media_roots event_roots io_roots search_roots replay_roots
       recording_roots)

text \<open> C36. A request that the server answers is answered with a document that can be read back: the envelope with the
  element that the dispatch names, well-formed and with every prefix declared, as long as the settings, the host, the identifiers and
  the recordings found contain no markup. \<close>

theorem soap_replies_read:
  assumes "soap_answer hs w ev now rq subs = Some d" "plain_setting hs w ev now rq"
  shows "read_xml (soap_text hs w ev now rq subs) = Some [Chars (new_line 0), enveloped (ae_message w) (d 0)] \<and>
    well_formed [] (enveloped (ae_message w) (d 0)) \<and> fst (fst (serve ev now rq subs)) = Some (root_name (d 0))"
proof -
  have "doc_ok (declared envelope_attrs) d"
    by (rule soap_answer_ok[OF assms]) (simp add: envelope_attrs_def declared_def)
  then have "well_formed [] (enveloped (ae_message w) (d 0))"
    using assms(2) envelope_ok by (simp add: doc_ok_def plain_setting_def)
  moreover have "\<not> is_chars (enveloped (ae_message w) (d 0))" by (simp add: enveloped_def)
  ultimately show ?thesis
    using soap_roots[of hs w ev now rq subs] read_prolog assms(1) by (simp add: soap_text_def wrapped)
qed

definition sample_handlers :: onvif_handlers where
  "sample_handlers = new_onvif_handlers 0 8554 ''live'' [] ''cam1'' ''pr'' [] ''admin''"

definition sample_env :: answer_env where
  "sample_env = \<lparr>ae_outbound = ''10.0.0.2'', ae_firmware = [],
     ae_calendar = \<lparr>cal_hour = 0, cal_minute = 0, cal_second = 0, cal_year = 2025, cal_month = 1, cal_day = 1\<rparr>,
     ae_rfc = (\<lambda>_. ''2025-01-01T00:00:00Z''), ae_query = (\<lambda>_ _ _ _. None), ae_uuid = ''0123456789'', ae_message = ''m''\<rparr>"

theorem soap_replies_read_witness:
  "\<exists>d. soap_answer sample_handlers sample_env toy_events 0 (toy_request ''/onvif/device_service'' ''GetHostname'') Map.empty = Some d \<and>
     fst (fst (serve toy_events 0 (toy_request ''/onvif/device_service'' ''GetHostname'') Map.empty)) = Some (root_name (d 0))"
proof -
  let ?rq = "toy_request ''/onvif/device_service'' ''GetHostname''"
  have "service_of (rq_path ?rq) (rq_body ?rq) = DeviceSvc" "rq_action ?rq = []"
      "find_action device_actions (rq_action ?rq) (rq_body ?rq) = Some ''GetHostname''" by code_simp+
  then have a: "soap_answer sample_handlers sample_env toy_events 0 ?rq Map.empty = Some get_hostname"
    by (simp add: soap_answer_def device_answer_def Let_def)
  have "plain_setting sample_handlers sample_env toy_events 0 ?rq"
    by (simp add: plain_setting_def plain_device_def sample_handlers_def sample_env_def new_onvif_handlers_def
        new_device_handler_def new_media_handler_def toy_events_def toy_request_def result_items_def Let_def)
  from soap_replies_read[OF a this] a show ?thesis by blast
qed

subsection \<open>What is not looked at\<close>

definition fault_attrs :: attrs where
  "fault_attrs = [(''xmlns:s'', ''http://www.w3.org/2003/05/soap-envelope''),
     (''xmlns:a'', ''http://www.w3.org/2005/08/addressing'')]"

definition fault_with :: "node list \<Rightarrow> node" where
  "fault_with ts =
     Node ''s:Envelope'' fault_attrs [Chars (new_line 2),
       Node ''s:Body'' [] [Chars (new_line 4),
         Node ''s:Fault'' [] [Chars (new_line 6), xrow ''s:Code'' [] [xtext ''s:Value'' ''s:Receiver''] 6, Chars (new_line 6),
           Node ''s:Reason'' [] [Node ''s:Text'' [(''xml:lang'', ''en'')] ts], Chars (new_line 4)], Chars (new_line 2)],
       Chars (new_line 0)]"

lemma fault_shown:
  "concat (map show_node ts) = action @ '': '' @ message \<Longrightarrow>
   wrap_soap_fault action (Some message) = xml_prolog @ show_node (fault_with ts)"
  by (simp add: wrap_soap_fault_def fault_with_def fault_attrs_def xblock_def xrow_def xfield_def numeral_2_eq_2 eval_nat_numeral)

lemma fault_ok:
  assumes "list_all (well_formed (declared fault_attrs)) ts" "apart ts"
  shows "well_formed [] (fault_with ts)"
proof -
  have "doc_ok (declared fault_attrs) (xrow ''s:Code'' [] [xtext ''s:Value'' ''s:Receiver''])"
    by (simp add: doc_oks head_simps fault_attrs_def)
  then show ?thesis
    using assms by (simp add: fault_with_def doc_ok_def) (simp add: head_simps fault_attrs_def)
qed

text \<open> A fault repeats the SOAPAction header of the request as it is: an element that a client writes there becomes an
  element of the answer, twice, and not text. \<close>

theorem fault_carries_elements:
  assumes "soap_answer hs w ev now rq subs = None" "rq_action rq = show_node t"
    and "well_formed (declared fault_attrs) t" "\<not> is_chars t"
  shows "read_xml (soap_text hs w ev now rq subs) =
    Some [Chars (new_line 0), fault_with
      [t, Chars ('': '' @ unhandled (service_of (rq_path rq) (rq_body rq)) []), t]]"
proof -
  define m where "m = '': '' @ unhandled (service_of (rq_path rq) (rq_body rq)) []"
  have m: "no_markup m" "m \<noteq> []" by (auto simp: m_def unhandled_def split: service.split)
  have "soap_text hs w ev now rq subs = xml_prolog @ show_node (fault_with [t, Chars m, t])"
    unfolding soap_text_def assms(1) option.case
    by (rule fault_shown) (simp add: assms(2) m_def unhandled_def)
  moreover have "well_formed [] (fault_with [t, Chars m, t])"
    by (rule fault_ok) (use assms(3,4) m in simp_all)
  moreover have "\<not> is_chars (fault_with [t, Chars m, t])" by (simp add: fault_with_def)
  ultimately show ?thesis using read_prolog by (simp add: m_def)
qed

theorem fault_carries_elements_witness:
  "read_xml (soap_text sample_handlers sample_env toy_events 0
     ((toy_request ''/onvif/recording_service'' [])\<lparr>rq_action := ''<a/>''\<rparr>) Map.empty) =
   Some [Chars (new_line 0), fault_with [Void ''a'' [], Chars '': unhandled recording action: '', Void ''a'' []]]"
proof -
  let ?rq = "(toy_request ''/onvif/recording_service'' [])\<lparr>rq_action := ''<a/>''\<rparr>"
  have s: "service_of (rq_path ?rq) (rq_body ?rq) = RecordingSvc" by code_simp
  have "find_action [''GetRecordings'', ''GetRecordingConfiguration''] ''<a/>'' (rq_body ?rq) = None" by code_simp
  then have "soap_answer sample_handlers sample_env toy_events 0 ?rq Map.empty = None"
    using s by (simp add: soap_answer_def recording_answer_def Let_def)
  from fault_carries_elements[OF this, of "Void ''a'' []"] s show ?thesis
    by (simp add: head_simps unhandled_def)
qed

text \<open>The topic of a motion event has a prefix that neither the envelope nor the answer declares.\<close>

lemma topic_prefix_undeclared:
  "''tns1'' \<notin> set (declared (node_attrs (pull_response rfc now expires (Some m) d)) @ declared envelope_attrs)"
  by (simp add: pull_response_def xblock_def declared_def envelope_attrs_def)

text \<open>A request for one profile gets the answer to the request for all, and one for options gets the configurations.\<close>

lemma profile_answered_with_all:
  assumes "find_action media_actions action body = Some ''GetProfile''"
  shows "fst (media_handle action body) = Some ''GetProfilesResponse''"
  using assms by (simp add: media_handle_def media_response_def)

lemma options_answered_with_configurations:
  assumes "contains body ''GetVideoSourceConfigurationOptions''"
    and "\<not> list_ex (mentions action body) [''GetProfile'', ''GetStreamUri'', ''GetVideoSourceConfigurations'']"
  shows "fst (media_handle action body) = Some ''GetVideoSourceConfigurationsResponse''"
proof -
  have "contains ''GetVideoSourceConfigurationOptions'' ''GetVideoSourceConfiguration''" by code_simp
  then have m: "mentions action body ''GetVideoSourceConfiguration''"
    using assms(1) contains_trans by (auto simp: mentions_def)
  have "contains ''GetProfiles'' ''GetProfile''" by code_simp
  then have "\<not> mentions action body ''GetProfiles''"
    using assms(2) contains_trans by (auto simp: mentions_def)
  then have "find_action media_actions action body = Some ''GetVideoSourceConfiguration''"
    using assms(2) m by (simp add: find_action_def media_actions_def)
  then show ?thesis by (simp add: media_handle_def media_response_def)
qed

text \<open>Of an address in brackets the answers keep the part before its first colon.\<close>

lemma bracketed_host_cut:
  assumes "CHR '':'' \<notin> set a"
  shows "extract_host_ip outbound (CHR ''['' # a @ CHR '':'' # b) = CHR ''['' # a"
proof -
  have "index_of (a @ CHR '':'' # b) '':'' = Some (length a)"
    using assms by (induction a) (auto simp: has_prefix_def)
  then show ?thesis by (simp add: extract_host_ip_def has_prefix_def)
qed

text \<open>The paths that are registered name their service: the search of the body for one is never reached.\<close>

lemma registered_paths_decide:
  "path \<in> {''/onvif/device_service'', ''/onvif/media_service'', ''/onvif/event_service'', ''/onvif/deviceio_service'',
     ''/onvif/search_service'', ''/onvif/replay_service'', ''/onvif/recording_service''} \<Longrightarrow>
   service_of path body = service_of path []"
  by (elim insertE emptyE) (simp_all add: service_of_def has_suffix_def)

end
