(* ===== verification/Onvif_Discovery.thy ===== *)
theory Onvif_Discovery
  imports Onvif_Answers
begin

text \<open>
  WS-Discovery (\<^verbatim>\<open>pkg/onvif/discovery.go\<close>): which packets are taken for a probe, the identifier that is read from them,
  and the answer.
\<close>

record discovery =
  ds_port :: int
  ds_uuid :: string
  ds_local :: string

text \<open>\<open>fresh\<close> is a random identifier.\<close>

definition new_discovery :: "int \<Rightarrow> string \<Rightarrow> string \<Rightarrow> discovery" where
  "new_discovery port device_uuid fresh =
     \<lparr>ds_port = port, ds_uuid = (if device_uuid = [] then fresh else device_uuid), ds_local = []\<rparr>"

definition is_probe :: "string \<Rightarrow> bool" where
  "is_probe raw \<longleftrightarrow> contains raw ''Probe''"

subsection \<open>The identifier of a probe\<close>

text \<open>
  What the XML decoder fills the field \<^verbatim>\<open>MessageID\<close> of \<^verbatim>\<open>SOAPHeader\<close> with, on the elements of a document: names are
  compared with the namespace that their prefix stands for. A scope is the list of declared prefixes, innermost first.
\<close>

type_synonym scope = "(string \<times> string) list"

definition scope_of :: "attrs \<Rightarrow> scope" where
  "scope_of as =
     concat (map (\<lambda>(k, v). if k = ''xmlns'' then [([], v)] else if take 6 k = ''xmlns:'' then [(drop 6 k, v)] else []) as)"

definition name_space :: "scope \<Rightarrow> string \<Rightarrow> string" where
  "name_space sc n =
     (case prefix_of n of
        None \<Rightarrow> (case map_of sc [] of Some u \<Rightarrow> u | None \<Rightarrow> [])
      | Some p \<Rightarrow> (case map_of sc p of Some u \<Rightarrow> u | None \<Rightarrow> p))"

fun own_text :: "node list \<Rightarrow> string" where
  "own_text [] = []"
| "own_text (Chars s # ts) = s @ own_text ts"
| "own_text (t # ts) = own_text ts"

text \<open>The identifiers in a header: elements of that name in the namespace of the tag; the last one stays.\<close>

definition ids_in_header :: "scope \<Rightarrow> node \<Rightarrow> string list" where
  "ids_in_header sc h =
     concat (map (\<lambda>t. if local_name (node_name t) = ''MessageID'' \<and>
                        name_space (scope_of (node_attrs t) @ scope_of (node_attrs h) @ sc) (node_name t) = ns_wsa
                      then [own_text (node_children t)] else []) (node_children h))"

definition decoded_id :: "node \<Rightarrow> string" where
  "decoded_id root =
     (if local_name (node_name root) \<noteq> ''Envelope'' then []
      else case concat (map (\<lambda>h. if local_name (node_name h) = ''Header'' then ids_in_header (scope_of (node_attrs root)) h
                                 else []) (node_children root)) of
             [] \<Rightarrow> []
           | ids \<Rightarrow> List.last ids)"

subsection \<open>The answer\<close>

definition probe_matches :: "string \<Rightarrow> string \<Rightarrow> string \<Rightarrow> string \<Rightarrow> doc" where
  "probe_matches message msg_id endpoint x_addrs =
  xblock ''s:Envelope'' [(''xmlns:s'', ''http://www.w3.org/2003/05/soap-envelope''),
      (''xmlns:a'', ''http://schemas.xmlsoap.org/ws/2004/08/addressing''),
      (''xmlns:d'', ''http://schemas.xmlsoap.org/ws/2005/04/discovery''),
      (''xmlns:dn'', ''http://www.onvif.org/ver10/network/wsdl''), (''xmlns:tds'', ''http://www.onvif.org/ver10/device/wsdl'')] [
    xblock ''s:Header'' [] [
      xtext ''a:Action'' ''http://schemas.xmlsoap.org/ws/2005/04/discovery/ProbeMatches'',
      xtext ''a:MessageID'' (''urn:uuid:'' @ message),
      xtext ''a:RelatesTo'' msg_id,
      xtext ''a:To'' ''http://schemas.xmlsoap.org/ws/2004/08/addressing/role/anonymous''],
    xblock ''s:Body'' [] [
      xblock ''d:ProbeMatches'' [] [
        xblock ''d:ProbeMatch'' [] [
          xblock ''a:EndpointReference'' [] [
            xtext ''a:Address'' endpoint],
          xtext ''d:Types'' ''dn:NetworkVideoTransmitter tds:Device'',
          xtext ''d:Scopes'' ''onvif://www.onvif.org/type/video_encoder onvif://www.onvif.org/type/audio_encoder onvif://www.onvif.org/Profile/Streaming onvif://www.onvif.org/Profile/T onvif://www.onvif.org/Profile/S onvif://www.onvif.org/hardware/L625 onvif://www.onvif.org/name/Steinel-CAM'',
          xtext ''d:XAddrs'' x_addrs,
          xtext ''d:MetadataVersion'' ''1'']]]]"

text \<open>
  The answer to a packet: \<open>xml\<close> is the decoder, \<open>made_up\<close> and \<open>message\<close> the random identifiers, \<open>outbound\<close> the
  address of the machine.
\<close>

definition handle_probe :: "(string \<Rightarrow> string) \<Rightarrow> string \<Rightarrow> string \<Rightarrow> string \<Rightarrow> discovery \<Rightarrow> string \<Rightarrow> string" where
  "handle_probe xml outbound made_up message d raw =
     (let msg_id = (if xml raw = [] then ''urn:uuid:'' @ made_up else xml raw);
          ip = (if ds_local d \<noteq> [] then ds_local d else outbound);
          x_addrs = service_url ip (ds_port d) ''device_service''
      in xml_prolog @ show_node (probe_matches message msg_id (''urn:uuid:'' @ ds_uuid d) x_addrs 0))"

text \<open>One turn of the loop for a packet of at most 8192 bytes: the rest of a longer one is lost.\<close>

definition discovery_turn ::
  "(string \<Rightarrow> string) \<Rightarrow> string \<Rightarrow> string \<Rightarrow> string \<Rightarrow> discovery \<Rightarrow> string \<Rightarrow> string option" where
  "discovery_turn xml outbound made_up message d packet =
     (let raw = take 8192 packet in
      if is_probe raw then Some (handle_probe xml outbound made_up message d raw) else None)"

end
