(* ===== verification/Onvif_Discovery_Proofs.thy ===== *)
theory Onvif_Discovery_Proofs
  imports Onvif_Discovery Onvif_Answers_Proofs
begin

text \<open>
  The identifier of a standard probe is not the one the code looks for, and an answer counts as a probe.
\<close>

subsection \<open>Answers are probes\<close>

lemma contains_take:
  assumes "length a + length p \<le> n"
  shows "contains (take n (a @ p @ r)) p"
proof -
  have "take n (a @ p @ r) = a @ p @ take (n - length a - length p) r" using assms by simp
  then show ?thesis unfolding contains_iff by blast
qed

lemma probe_matches_text:
  "\<exists>a r. xml_prolog @ show_node (probe_matches message msg_id endpoint x_addrs 0) = a @ ''Probe'' @ r \<and> length a + 5 \<le> 8192"
proof -
  let ?as = "[(''xmlns:s'', ''http://www.w3.org/2003/05/soap-envelope''),
      (''xmlns:a'', ''http://schemas.xmlsoap.org/ws/2004/08/addressing''),
      (''xmlns:d'', ''http://schemas.xmlsoap.org/ws/2005/04/discovery''),
      (''xmlns:dn'', ''http://www.onvif.org/ver10/network/wsdl''), (''xmlns:tds'', ''http://www.onvif.org/ver10/device/wsdl'')]"
  let ?a = "xml_prolog @ ''<s:Envelope'' @ show_attrs ?as @ ''>'' @ new_line 2 @ ''<s:Header>'' @ new_line 4 @
      ''<a:Action>http://schemas.xmlsoap.org/ws/2005/04/discovery/''"
  have "\<exists>r. xml_prolog @ show_node (probe_matches message msg_id endpoint x_addrs 0) = ?a @ ''Probe'' @ r"
    unfolding probe_matches_def xblock_def by (simp add: xfield_def numeral_eq_Suc)
  moreover have "length ?a + 5 \<le> 8192"
    by (simp add: xml_prolog_def new_line_def)
  ultimately show ?thesis by blast
qed

lemma answer_is_probe: "discovery_turn xml outbound made_up message d (handle_probe xml' outbound' made_up' message' d' raw) \<noteq> None"
proof -
  obtain a r where t: "handle_probe xml' outbound' made_up' message' d' raw = a @ ''Probe'' @ r" "length a + 5 \<le> 8192"
    unfolding handle_probe_def Let_def using probe_matches_text by blast
  then show ?thesis
    using contains_take[of a "''Probe''" 8192 r] by (simp add: discovery_turn_def is_probe_def)
qed

text \<open>
  Two bridges that take each other's packets: each turn is the answer of one of them to the packet before, with the decoder and the
  random identifiers of that turn.
\<close>

fun volley :: "(nat \<Rightarrow> string \<Rightarrow> string option) \<Rightarrow> string \<Rightarrow> nat \<Rightarrow> string option" where
  "volley turn packet 0 = Some packet"
| "volley turn packet (Suc k) = Option.bind (volley turn packet k) (turn k)"

text \<open> An answer of WS-Discovery is itself taken for a probe: when a probe seems to come from the port of another bridge, the two
  answer each other without end. \<close>

theorem discovery_answers_forever:
  assumes "is_probe (take 8192 packet)"
    and "\<And>k. turn k = discovery_turn (xml k) (outbound k) (made_up k) (message k) (bridge k)"
  shows "volley turn packet n \<noteq> None"
proof (induction n)
  case (Suc n)
  then obtain p where p: "volley turn packet n = Some p" by auto
  have "turn n p \<noteq> None"
  proof (cases n)
    case 0
    then show ?thesis using p assms by (simp add: discovery_turn_def)
  next
    case (Suc k)
    then obtain q where "turn k q = Some p" using p by (auto simp: bind_eq_Some_conv)
    then obtain raw where "p = handle_probe (xml k) (outbound k) (made_up k) (message k) (bridge k) raw"
      by (auto simp: assms(2) discovery_turn_def Let_def split: if_splits)
    then show ?thesis using answer_is_probe by (simp add: assms(2))
  qed
  then show ?case using p by simp
qed simp

definition sample_discovery :: discovery where
  "sample_discovery = new_discovery 8000 ''cam1'' []"

theorem discovery_answers_forever_witness:
  "volley (\<lambda>k. discovery_turn (\<lambda>_. []) ''10.0.0.2'' ''a'' ''b'' sample_discovery) ''<Probe/>'' 1000 \<noteq> None"
proof (rule discovery_answers_forever)
  show "is_probe (take 8192 ''<Probe/>'')" by (simp add: is_probe_def has_prefix_def contains_def)
qed (rule refl)

subsection \<open>Which probe is answered\<close>

text \<open>A probe as WS-Discovery of April 2005 has it, with the addressing of August 2004.\<close>

definition standard_probe :: "string \<Rightarrow> doc" where
  "standard_probe msg_id =
  xblock ''e:Envelope'' [(''xmlns:e'', ''http://www.w3.org/2003/05/soap-envelope''),
      (''xmlns:w'', ''http://schemas.xmlsoap.org/ws/2004/08/addressing''),
      (''xmlns:d'', ''http://schemas.xmlsoap.org/ws/2005/04/discovery'')] [
    xblock ''e:Header'' [] [
      xtext ''w:MessageID'' msg_id,
      xtext ''w:To'' ''urn:schemas-xmlsoap-org:ws:2005:04:discovery'',
      xtext ''w:Action'' ''http://schemas.xmlsoap.org/ws/2005/04/discovery/Probe''],
    xblock ''e:Body'' [] [xblock ''d:Probe'' [] [xtext ''d:Types'' ''dn:NetworkVideoTransmitter'']]]"

text \<open>What the library does with a document: it fills the field as \<open>decoded_id\<close> says.\<close>

definition id_decoder :: "(string \<Rightarrow> string) \<Rightarrow> bool" where
  "id_decoder xml \<longleftrightarrow> (\<forall>t. well_formed [] t \<longrightarrow> \<not> is_chars t \<longrightarrow> xml (show_node t) = decoded_id t)"

lemma standard_probe_ok: "no_markup msg_id \<Longrightarrow> doc_ok [] (standard_probe msg_id)"
  unfolding standard_probe_def by (simp add: doc_oks head_simps)

lemma standard_probe_undecoded: "decoded_id (standard_probe msg_id 0) = []"
  unfolding decoded_id_def standard_probe_def
  by (simp add: xblock_def xfield_def local_name_def ids_in_header_def scope_of_def name_space_def prefix_of_def ns_wsa_def)

lemma standard_probe_is_probe:
  "\<exists>a r. show_node (standard_probe msg_id 0) = a @ ''Probe'' @ r"
proof -
  let ?as = "[(''xmlns:e'', ''http://www.w3.org/2003/05/soap-envelope''),
      (''xmlns:w'', ''http://schemas.xmlsoap.org/ws/2004/08/addressing''),
      (''xmlns:d'', ''http://schemas.xmlsoap.org/ws/2005/04/discovery'')]"
  let ?a = "''<e:Envelope'' @ show_attrs ?as @ ''>'' @ new_line 2 @ ''<e:Header>'' @ new_line 4 @ ''<w:MessageID>'' @ msg_id @
      ''</w:MessageID>'' @ new_line 4 @ ''<w:To>urn:schemas-xmlsoap-org:ws:2005:04:discovery</w:To>'' @ new_line 4 @
      ''<w:Action>http://schemas.xmlsoap.org/ws/2005/04/discovery/''"
  have "\<exists>r. show_node (standard_probe msg_id 0) = ?a @ ''Probe'' @ r"
    unfolding standard_probe_def xblock_def by (simp add: xfield_def numeral_eq_Suc)
  then show ?thesis by blast
qed

text \<open> The answer to a standard probe does not name it: the code looks for the identifier in the namespace of a later
  addressing version, finds none and relates its answer to one that it makes up. \<close>

theorem probe_not_related:
  assumes "id_decoder xml" "no_markup msg_id" "length (show_node (standard_probe msg_id 0)) \<le> 8192"
  shows "discovery_turn xml outbound made_up message d (show_node (standard_probe msg_id 0)) =
    Some (xml_prolog @ show_node (probe_matches message (''urn:uuid:'' @ made_up) (''urn:uuid:'' @ ds_uuid d)
      (service_url (if ds_local d \<noteq> [] then ds_local d else outbound) (ds_port d) ''device_service'') 0))"
proof -
  have "well_formed [] (standard_probe msg_id 0)" "\<not> is_chars (standard_probe msg_id 0)"
    using standard_probe_ok[OF assms(2)] by (simp_all add: doc_ok_def)
  then have "xml (show_node (standard_probe msg_id 0)) = []"
    using assms(1) standard_probe_undecoded by (simp add: id_decoder_def)
  moreover have "is_probe (show_node (standard_probe msg_id 0))"
    using standard_probe_is_probe unfolding is_probe_def contains_iff by blast
  ultimately show ?thesis
    using assms(3) by (simp add: discovery_turn_def handle_probe_def Let_def)
qed

definition reading_decoder :: "string \<Rightarrow> string" where
  "reading_decoder s = (case read_xml s of Some [t] \<Rightarrow> decoded_id t | _ \<Rightarrow> [])"

lemma reading_decoder_ok: "id_decoder reading_decoder"
  by (simp add: id_decoder_def reading_decoder_def read_shown)

theorem probe_not_related_witness:
  "discovery_turn reading_decoder ''10.0.0.2'' ''new'' ''m'' sample_discovery (show_node (standard_probe ''urn:uuid:1'' 0)) =
    Some (xml_prolog @ show_node (probe_matches ''m'' ''urn:uuid:new'' ''urn:uuid:cam1''
      (service_url ''10.0.0.2'' 8000 ''device_service'') 0))"
proof -
  have "length (show_node (standard_probe ''urn:uuid:1'' 0)) \<le> 8192"
    unfolding standard_probe_def xblock_def by (simp add: xfield_def new_line_def)
  from probe_not_related[OF reading_decoder_ok _ this] show ?thesis
    by (simp add: sample_discovery_def new_discovery_def)
qed

text \<open>Without a device identifier the bridge announces one and names another.\<close>

lemma endpoints_differ:
  "ds_uuid (new_discovery port [] fresh) = fresh \<and>
   get_endpoint_reference (h\<lparr>dh_id := []\<rparr>) = get_endpoint_reference (h\<lparr>dh_id := ''00000000-0000-0000-0000-000000000000''\<rparr>)"
  by (simp add: new_discovery_def get_endpoint_reference_def)

end
