(* ===== verification/Mqtt_Session.thy ===== *)
theory Mqtt_Session
  imports Home_Control
begin

text \<open>
  The life of the connection to the broker (\<^verbatim>\<open>NewClient\<close>, \<^verbatim>\<open>Start\<close>, \<^verbatim>\<open>UpdateDeviceInfo\<close> and \<^verbatim>\<open>Close\<close> of
  \<^verbatim>\<open>pkg/mqtt/client.go\<close>) with what the broker keeps: the last retained message of every topic, and for every device of
  Home Assistant the base topic that its last discovery names. The broker publishes the will of a connection that is lost.
\<close>

record mqtt_session =
  ms_client :: mqtt_client
  ms_will :: "string option"
  ms_up :: bool
  ms_hooked :: bool
  ms_closed :: bool
  ms_retained :: "string \<Rightarrow> string option"
  ms_devices :: "string \<Rightarrow> string option"
  ms_sent :: "publication list"

definition new_session :: "mqtt_client \<Rightarrow> mqtt_session" where
  "new_session m = \<lparr>ms_client = m, ms_will = None, ms_up = False, ms_hooked = False, ms_closed = False,
     ms_retained = Map.empty, ms_devices = Map.empty, ms_sent = []\<rparr>"

definition availability :: "string \<Rightarrow> string" where
  "availability base = base @ ''/availability''"

definition retain :: "string \<Rightarrow> string \<Rightarrow> mqtt_session \<Rightarrow> mqtt_session" where
  "retain topic payload s =
     s\<lparr>ms_retained := (ms_retained s)(topic \<mapsto> payload), ms_sent := ms_sent s @ [(topic, payload)]\<rparr>"

text \<open>The documents of all entities name the availability topic under the base topic of the moment.\<close>

definition publish_discovery :: "mqtt_session \<Rightarrow> mqtt_session" where
  "publish_discovery s = s\<lparr>ms_devices := (ms_devices s)(mq_node (ms_client s) \<mapsto> mq_base (ms_client s))\<rparr>"

definition publish_all :: "publication list \<Rightarrow> mqtt_session \<Rightarrow> mqtt_session" where
  "publish_all ps s = fold (\<lambda>(t, p). retain t p) ps s"

text \<open>Whether a status holds values of a device.\<close>

definition populated :: "device_status \<Rightarrow> bool" where
  "populated st \<longleftrightarrow> lamp_mode st > 0 \<or> lux st \<ge> 2 \<or> highlight st > 0"

text \<open>\<^verbatim>\<open>OnConnect\<close>: the topic of the availability is the one that \<^verbatim>\<open>Start\<close> computed.\<close>

definition on_connected :: "device_status \<Rightarrow> mqtt_session \<Rightarrow> mqtt_session" where
  "on_connected st s =
     (let s1 = s\<lparr>ms_up := True\<rparr>;
          s2 = (case ms_will s1 of None \<Rightarrow> s1 | Some t \<Rightarrow> retain t ''online'' s1);
          s3 = publish_discovery s2;
          s4 = s3\<lparr>ms_client := on_connect (ms_client s3)\<rparr>
      in if populated st then publish_all (publish_status (mq_base (ms_client s4)) st) s4 else s4)"

text \<open>\<open>reached\<close>: the first connection comes about. Otherwise \<^verbatim>\<open>Start\<close> returns before it listens to the bus.\<close>

definition mqtt_start :: "bool \<Rightarrow> device_status \<Rightarrow> mqtt_session \<Rightarrow> mqtt_session" where
  "mqtt_start reached st s =
     (let s1 = s\<lparr>ms_will := Some (availability (mq_base (ms_client s)))\<rparr>
      in if reached then (on_connected st s1)\<lparr>ms_hooked := True\<rparr> else s1)"

definition mqtt_update :: "string \<Rightarrow> device_status \<Rightarrow> mqtt_session \<Rightarrow> mqtt_session" where
  "mqtt_update dev st s =
     (if dev = [] \<or> mq_device (ms_client s) = dev then s
      else let s1 = s\<lparr>ms_client := update_device_info dev (ms_client s)\<rparr> in
           if \<not> ms_up s1 then s1
           else publish_all (publish_status (mq_base (ms_client s1)) st)
                  (publish_discovery (retain (availability (mq_base (ms_client s1))) ''online'' s1)))"

text \<open>An event of the bus; the state of motion is not retained.\<close>

definition mqtt_event :: "event_type \<Rightarrow> event_data \<Rightarrow> mqtt_session \<Rightarrow> mqtt_session" where
  "mqtt_event evt dat s =
     (if \<not> ms_hooked s \<or> \<not> ms_up s then s
      else let ps = mqtt_listener (mq_base (ms_client s)) evt dat in
           if evt = EventMotion then s\<lparr>ms_sent := ms_sent s @ ps\<rparr> else publish_all ps s)"

definition mqtt_close :: "mqtt_session \<Rightarrow> mqtt_session" where
  "mqtt_close s =
     (if ms_up s
      then (retain (availability (mq_base (ms_client s))) ''offline'' s)\<lparr>ms_up := False, ms_closed := True\<rparr>
      else s)"

text \<open>The connection breaks and the broker publishes the will; the library connects again until it is told to disconnect.\<close>

definition mqtt_lost :: "mqtt_session \<Rightarrow> mqtt_session" where
  "mqtt_lost s =
     (if ms_up s
      then (case ms_will s of
              None \<Rightarrow> s\<lparr>ms_up := False\<rparr>
            | Some t \<Rightarrow> s\<lparr>ms_up := False, ms_retained := (ms_retained s)(t \<mapsto> ''offline'')\<rparr>)
      else s)"

definition mqtt_again :: "device_status \<Rightarrow> mqtt_session \<Rightarrow> mqtt_session" where
  "mqtt_again st s = (if ms_hooked s \<and> \<not> ms_up s \<and> \<not> ms_closed s then on_connected st s else s)"

datatype mqtt_op =
    UpdateDevice string device_status
  | BusEvent event_type event_data
  | Lost
  | Again device_status
  | CloseMqtt

fun mqtt_op_step :: "mqtt_op \<Rightarrow> mqtt_session \<Rightarrow> mqtt_session" where
  "mqtt_op_step (UpdateDevice dev st) s = mqtt_update dev st s"
| "mqtt_op_step (BusEvent evt dat) s = mqtt_event evt dat s"
| "mqtt_op_step Lost s = mqtt_lost s"
| "mqtt_op_step (Again st) s = mqtt_again st s"
| "mqtt_op_step CloseMqtt s = mqtt_close s"

text \<open>What Home Assistant shows of a device: available if the topic that its discovery names says so.\<close>

definition shown_available :: "string \<Rightarrow> mqtt_session \<Rightarrow> bool" where
  "shown_available node s \<longleftrightarrow>
     (case ms_devices s node of None \<Rightarrow> False | Some base \<Rightarrow> ms_retained s (availability base) = Some ''online'')"

end
