(* ===== verification/Mqtt_Session_Proofs.thy ===== *)
theory Mqtt_Session_Proofs
  imports Mqtt_Session
begin

text \<open>
  As long as the device keeps its identifier, Home Assistant shows it available exactly while the connection is up; after a
  change of the identifier it never sees the bridge go.
\<close>

subsection \<open>Publications\<close>

lemma retain_fields [simp]:
  "ms_client (retain t p s) = ms_client s" "ms_will (retain t p s) = ms_will s" "ms_up (retain t p s) = ms_up s"
  "ms_hooked (retain t p s) = ms_hooked s" "ms_closed (retain t p s) = ms_closed s" "ms_devices (retain t p s) = ms_devices s"
  "ms_retained (retain t p s) = (ms_retained s)(t \<mapsto> p)"
  by (simp_all add: retain_def)

lemma publish_all_fields [simp]:
  "ms_client (publish_all ps s) = ms_client s" "ms_will (publish_all ps s) = ms_will s" "ms_up (publish_all ps s) = ms_up s"
  "ms_hooked (publish_all ps s) = ms_hooked s" "ms_closed (publish_all ps s) = ms_closed s"
  "ms_devices (publish_all ps s) = ms_devices s"
  unfolding publish_all_def by (induction ps arbitrary: s) auto

lemma publish_all_retained: "t \<notin> fst ` set ps \<Longrightarrow> ms_retained (publish_all ps s) t = ms_retained s t"
  unfolding publish_all_def by (induction ps arbitrary: s) auto

lemma discovery_fields [simp]:
  "ms_client (publish_discovery s) = ms_client s" "ms_will (publish_discovery s) = ms_will s" "ms_up (publish_discovery s) = ms_up s"
  "ms_hooked (publish_discovery s) = ms_hooked s" "ms_closed (publish_discovery s) = ms_closed s"
  "ms_retained (publish_discovery s) = ms_retained s"
  "ms_devices (publish_discovery s) = (ms_devices s)(mq_node (ms_client s) \<mapsto> mq_base (ms_client s))"
  by (simp_all add: publish_discovery_def)

text \<open>No state has the topic of the availability.\<close>

lemma state_topics: "p \<in> set (publish_status base st) \<Longrightarrow> has_suffix (fst p) ''/state''"
  by (auto simp: publish_status_def has_suffix_def split: if_splits)

lemma availability_no_state: "availability base \<notin> fst ` set (publish_status base' st)"
proof
  assume "availability base \<in> fst ` set (publish_status base' st)"
  then have "has_suffix (availability base) ''/state''" using state_topics by fastforce
  then show False by (simp add: has_suffix_def availability_def)
qed

lemma status_keeps_availability [simp]:
  "ms_retained (publish_all (publish_status base' st) s) (availability base) = ms_retained s (availability base)"
  by (rule publish_all_retained[OF availability_no_state])

lemma availability_inj [simp]: "availability a = availability b \<longleftrightarrow> a = b"
  by (simp add: availability_def)

lemma client_same [simp]:
  "mq_base (on_connect m) = mq_base m" "mq_node (on_connect m) = mq_node m" "mq_device (on_connect m) = mq_device m"
  "mq_prefix (on_connect m) = mq_prefix m"
  by (simp_all add: on_connect_def)

lemma event_keeps [simp]:
  "ms_client (mqtt_event evt dat s) = ms_client s" "ms_will (mqtt_event evt dat s) = ms_will s"
  "ms_up (mqtt_event evt dat s) = ms_up s" "ms_hooked (mqtt_event evt dat s) = ms_hooked s"
  "ms_closed (mqtt_event evt dat s) = ms_closed s" "ms_devices (mqtt_event evt dat s) = ms_devices s"
  "ms_retained (mqtt_event evt dat s) (availability b) = ms_retained s (availability b)"
  by (auto simp: mqtt_event_def Let_def mqtt_listener_def publish_all_def split: event_type.split event_data.split)
     (auto simp flip: publish_all_def)

lemma connected_fields [simp]:
  "ms_client (on_connected st s) = on_connect (ms_client s)" "ms_will (on_connected st s) = ms_will s" "ms_up (on_connected st s)"
  "ms_hooked (on_connected st s) = ms_hooked s" "ms_closed (on_connected st s) = ms_closed s"
  "ms_devices (on_connected st s) = (ms_devices s)(mq_node (ms_client s) \<mapsto> mq_base (ms_client s))"
  "ms_retained (on_connected st s) (availability b) =
     (if ms_will s = Some (availability b) then Some ''online'' else ms_retained s (availability b))"
  by (auto simp: on_connected_def Let_def split: option.split)

subsection \<open>Availability\<close>

text \<open>The will is on the topic that the discovery names, which says whether the connection is up.\<close>

definition truthful :: "mqtt_session \<Rightarrow> bool" where
  "truthful s \<longleftrightarrow>
     (let base = mq_base (ms_client s) in
      ms_will s = Some (availability base) \<and> ms_devices s (mq_node (ms_client s)) = Some base \<and>
      ms_retained s (availability base) = Some (if ms_up s then ''online'' else ''offline''))"

lemma truthful_start: "truthful (mqtt_start True st (new_session m))"
  by (simp add: truthful_def mqtt_start_def new_session_def)

definition keeps_device :: "string \<Rightarrow> mqtt_op \<Rightarrow> bool" where
  "keeps_device dev opn = (case opn of UpdateDevice d st \<Rightarrow> d = [] \<or> d = dev | _ \<Rightarrow> True)"

lemma truthful_step:
  assumes "truthful s" "keeps_device (mq_device (ms_client s)) opn"
  shows "truthful (mqtt_op_step opn s) \<and> mq_device (ms_client (mqtt_op_step opn s)) = mq_device (ms_client s) \<and>
    mq_node (ms_client (mqtt_op_step opn s)) = mq_node (ms_client s)"
  using assms
  by (cases opn)
     (auto simp: truthful_def Let_def keeps_device_def mqtt_update_def mqtt_lost_def mqtt_again_def mqtt_close_def)

lemma truthful_steps:
  "truthful s \<Longrightarrow> list_all (keeps_device (mq_device (ms_client s))) ops \<Longrightarrow>
   truthful (fold mqtt_op_step ops s) \<and> mq_node (ms_client (fold mqtt_op_step ops s)) = mq_node (ms_client s)"
proof (induction ops arbitrary: s)
  case (Cons opn ops)
  then show ?case using truthful_step[of s opn] by auto
qed simp


definition blank_status :: device_status where "blank_status = bus_status (new_bus 0 :: string bus)"


subsection \<open>After a change of the identifier\<close>

text \<open>The will stays on another topic than the one the discovery names, which says that the bridge is there.\<close>

definition deaf :: "string \<Rightarrow> mqtt_session \<Rightarrow> bool" where
  "deaf node s \<longleftrightarrow>
     mq_node (ms_client s) = node \<and> ms_will s \<noteq> Some (availability (mq_base (ms_client s))) \<and>
     ms_devices s node = Some (mq_base (ms_client s)) \<and>
     ms_retained s (availability (mq_base (ms_client s))) = Some ''online''"

definition no_change :: "mqtt_op \<Rightarrow> bool" where
  "no_change opn = (case opn of UpdateDevice d st \<Rightarrow> False | CloseMqtt \<Rightarrow> False | _ \<Rightarrow> True)"

lemma deaf_step: "deaf node s \<Longrightarrow> no_change opn \<Longrightarrow> deaf node (mqtt_op_step opn s)"
  by (cases opn) (auto simp: deaf_def no_change_def mqtt_lost_def mqtt_again_def split: option.split)

lemma deaf_steps: "deaf node s \<Longrightarrow> list_all no_change ops \<Longrightarrow> deaf node (fold mqtt_op_step ops s)"
  by (induction ops arbitrary: s) (auto simp: deaf_step)

theorem changed_device_outlives_bridge:
  assumes "dev \<noteq> []" "dev \<noteq> mq_device m" "mq_base (update_device_info dev m) \<noteq> mq_base m" "list_all no_change ops"
  shows "shown_available (''steinel_'' @ underscored dev)
    (fold mqtt_op_step (ops @ [Lost]) (mqtt_update dev st' (mqtt_start True st (new_session m)))) \<and>
    \<not> ms_up (fold mqtt_op_step (ops @ [Lost]) (mqtt_update dev st' (mqtt_start True st (new_session m))))"
proof -
  let ?u = "mqtt_update dev st' (mqtt_start True st (new_session m))"
  have "deaf (''steinel_'' @ underscored dev) ?u"
    using assms(1-3)
    by (auto simp: deaf_def mqtt_update_def mqtt_start_def new_session_def Let_def update_device_info_def on_connect_def)
  then have "deaf (''steinel_'' @ underscored dev) (fold mqtt_op_step (ops @ [Lost]) ?u)"
    by (rule deaf_steps) (use assms(4) in \<open>simp add: no_change_def\<close>)
  then show ?thesis
    by (auto simp: deaf_def shown_available_def mqtt_lost_def split: option.splits)
qed

text \<open>A first connection that fails is the last: nothing is published any more.\<close>

lemma failed_start_silent:
  assumes "\<not> ms_up s" "\<not> ms_hooked s"
  shows "ms_sent (fold mqtt_op_step ops (mqtt_start False st s)) = ms_sent s"
proof -
  have "\<not> ms_up (fold mqtt_op_step ops t) \<and> \<not> ms_hooked (fold mqtt_op_step ops t) \<and> ms_sent (fold mqtt_op_step ops t) = ms_sent t"
    if "\<not> ms_up t" "\<not> ms_hooked t" for t
    using that
  proof (induction ops arbitrary: t)
    case (Cons opn ops)
    have "\<not> ms_up (mqtt_op_step opn t) \<and> \<not> ms_hooked (mqtt_op_step opn t) \<and> ms_sent (mqtt_op_step opn t) = ms_sent t"
      using Cons.prems
      by (cases opn) (simp_all add: mqtt_update_def mqtt_event_def mqtt_lost_def mqtt_again_def mqtt_close_def Let_def)
    then show ?case using Cons.IH by simp
  qed simp
  then show ?thesis using assms by (simp add: mqtt_start_def Let_def)
qed

text \<open>The status that is published after a reconnect has no motion: an end of motion during an outage is not made up for.\<close>

lemma status_has_no_motion: "base @ ''/motion/state'' \<notin> fst ` set (publish_status base st)"
  by (auto simp: publish_status_def)

end
