(* ===== verification/Launcher.thy ===== *)
theory Launcher
  imports Go_Strings
begin

text \<open>
  The launcher (\<^verbatim>\<open>cmd/launcher/main.go\<close>), which puts the camera library on the data volume before it becomes the bridge.
  A disk is its files; \<^verbatim>\<open>filepath.Join\<close> of clean paths puts slashes between them. The installation is the list of what it does to the
  disk, so that it can break off anywhere.
\<close>

type_synonym path = string
type_synonym disk = "path \<Rightarrow> bytes option"

definition join_path :: "path \<Rightarrow> path \<Rightarrow> path" where
  "join_path a b = a @ ''/'' @ b"

subsection \<open>Settings\<close>

definition or_else :: "string \<Rightarrow> string \<Rightarrow> string" where
  "or_else s fallback = (if s = [] then fallback else s)"

record launch_paths =
  lp_version :: string
  lp_data :: path
  lp_bridge :: path

definition launch_paths_of :: "(string \<Rightarrow> string) \<Rightarrow> launch_paths" where
  "launch_paths_of getenv =
     \<lparr>lp_version = or_else (getenv ''NABTO_SDK_VERSION'') ''5.15.4'',
      lp_data = or_else (getenv ''DATA_DIR'') ''/data'',
      lp_bridge = or_else (getenv ''BRIDGE_BIN_PATH'') ''/app/steinel-bridge''\<rparr>"

definition lib_dir :: "launch_paths \<Rightarrow> path" where "lib_dir p = join_path (lp_data p) ''lib''"
definition target_dir :: "launch_paths \<Rightarrow> path" where "target_dir p = join_path (lib_dir p) (lp_version p)"
definition target_so :: "launch_paths \<Rightarrow> path" where "target_so p = join_path (target_dir p) ''libnabto_client.so''"
definition temp_so :: "launch_paths \<Rightarrow> path" where "temp_so p = target_so p @ ''.tmp''"
definition version_file :: "launch_paths \<Rightarrow> path" where "version_file p = join_path (lib_dir p) ''installed_version.txt''"

definition nabto_arch :: "string \<Rightarrow> string option" where
  "nabto_arch goarch =
     (if goarch = ''amd64'' then Some ''linux-x86_64'' else if goarch = ''arm64'' then Some ''linux-aarch64'' else None)"

subsection \<open>Is it there\<close>

definition min_so_size :: nat where "min_so_size = 1000000"

definition is_library_ready :: "disk \<Rightarrow> path \<Rightarrow> path \<Rightarrow> string \<Rightarrow> bool" where
  "is_library_ready d so ver expected \<longleftrightarrow>
     (case d so of None \<Rightarrow> False | Some b \<Rightarrow> min_so_size \<le> length b) \<and>
     (case d ver of None \<Rightarrow> False | Some v \<Rightarrow> trim_space (string_of v) = expected)"

subsection \<open>The archive\<close>

text \<open>
  The entries as they come out of the stream, each with what arrived of it and whether that was all; a stream can also break between
  entries. A request that fails, a status other than OK and a stream that is no archive come to the same.
\<close>

datatype tar_item = TarEntry string bytes bool | TarBroken

datatype fetched = NotFetched | Archive "tar_item list"

definition so_suffix :: "string \<Rightarrow> string" where
  "so_suffix arch = ''/lib/'' @ arch @ ''/libnabto_client.so''"

text \<open>What is written to the file, if it is opened at all, and whether all went well.\<close>

fun extract_so :: "string \<Rightarrow> bool \<Rightarrow> bool \<Rightarrow> tar_item list \<Rightarrow> bytes option \<times> bool" where
  "extract_so suffix can_open can_close [] = (None, False)"
| "extract_so suffix can_open can_close (TarBroken # its) = (None, False)"
| "extract_so suffix can_open can_close (TarEntry n b whole # its) =
     (if has_suffix n suffix then (if can_open then (Some b, whole \<and> can_close) else (None, False))
      else extract_so suffix can_open can_close its)"

subsection \<open>Installation\<close>

datatype disk_action =
    WriteFile path bytes
  | RemoveFile path
  | RenameFile path path
  | RemoveTree path

fun disk_do :: "disk_action \<Rightarrow> disk \<Rightarrow> disk" where
  "disk_do (WriteFile p b) d = d(p \<mapsto> b)"
| "disk_do (RemoveFile p) d = d(p := None)"
| "disk_do (RenameFile p q) d = d(q := d p, p := None)"
| "disk_do (RemoveTree p) d = (\<lambda>q. if q = p \<or> has_prefix q (p @ ''/'') then None else d q)"

record install_world =
  iw_mkdir :: bool
  iw_open :: bool
  iw_close :: bool
  iw_rename :: bool
  iw_version :: bool

definition fetch_and_extract :: "install_world \<Rightarrow> string \<Rightarrow> path \<Rightarrow> fetched \<Rightarrow> disk_action list \<times> bool" where
  "fetch_and_extract w suffix tmp f =
     (case f of
        NotFetched \<Rightarrow> ([], False)
      | Archive its \<Rightarrow>
          (case extract_so suffix (iw_open w) (iw_close w) its of
             (None, ok) \<Rightarrow> ([], ok)
           | (Some b, ok) \<Rightarrow> ([WriteFile tmp b], ok)))"

text \<open>The addresses in turn: the tag of the version, then the main branch.\<close>

definition download_urls :: "string \<Rightarrow> string list" where
  "download_urls version =
     [''https://github.com/nabto/nabto-client-sdk-releases/archive/refs/tags/v'' @ version @ ''.tar.gz'',
      ''https://github.com/nabto/nabto-client-sdk-releases/archive/refs/heads/main.tar.gz'']"

fun fetch_any :: "install_world \<Rightarrow> string \<Rightarrow> path \<Rightarrow> fetched list \<Rightarrow> disk_action list \<times> bool" where
  "fetch_any w suffix tmp [] = ([], False)"
| "fetch_any w suffix tmp (f # fs) =
     (case fetch_and_extract w suffix tmp f of
        (a, True) \<Rightarrow> (a, True)
      | (a, False) \<Rightarrow> (case fetch_any w suffix tmp fs of (b, ok) \<Rightarrow> (a @ RemoveFile tmp # b, ok)))"

definition download_and_extract ::
  "install_world \<Rightarrow> (string \<Rightarrow> fetched) \<Rightarrow> launch_paths \<Rightarrow> string \<Rightarrow> disk \<Rightarrow> disk_action list \<times> bool" where
  "download_and_extract w web p arch d =
     (if \<not> iw_mkdir w then ([], False)
      else case fetch_any w (so_suffix arch) (temp_so p) (map web (download_urls (lp_version p))) of
        (a, ok) \<Rightarrow>
          (let acts = RemoveFile (temp_so p) # a in
           if \<not> ok then (acts, False)
           else case fold disk_do acts d (temp_so p) of
             None \<Rightarrow> (acts @ [RemoveFile (temp_so p)], False)
           | Some b \<Rightarrow>
               (if length b < min_so_size then (acts @ [RemoveFile (temp_so p)], False)
                else if \<not> iw_rename w then (acts, False)
                else (acts @ RenameFile (temp_so p) (target_so p) #
                        (if iw_version w then [WriteFile (version_file p) (bytes_of (lp_version p))] else []), True))))"

text \<open>The directories that are not the current version; \<open>entries\<close> lists names and whether they are directories.\<close>

definition cleanup_old_versions :: "path \<Rightarrow> string \<Rightarrow> (string \<times> bool) list \<Rightarrow> disk_action list" where
  "cleanup_old_versions lib current entries =
     map (\<lambda>(n, dir). RemoveTree (join_path lib n)) (filter (\<lambda>(n, dir). dir \<and> n \<noteq> current) entries)"

text \<open>The disk when all stops after \<open>n\<close> actions, in a write after \<open>k\<close> bytes.\<close>

definition broken_off :: "nat \<Rightarrow> nat \<Rightarrow> disk_action list \<Rightarrow> disk \<Rightarrow> disk" where
  "broken_off n k acts d =
     (let e = fold disk_do (take n acts) d in
      case drop n acts of
        WriteFile p b # r \<Rightarrow> e(p \<mapsto> take k b)
      | _ \<Rightarrow> e)"

subsection \<open>The environment and the start\<close>

fun set_env :: "string list \<Rightarrow> string \<Rightarrow> string \<Rightarrow> string list" where
  "set_env [] key value = [key @ ''='' @ value]"
| "set_env (e # es) key value =
     (if has_prefix e (key @ ''='') then (key @ ''='' @ value) # es else e # set_env es key value)"

definition library_path :: "launch_paths \<Rightarrow> string \<Rightarrow> string" where
  "library_path p existing =
     (let n = target_dir p @ '':'' @ lp_data p @ ''/lib:/usr/lib'' in if existing \<noteq> [] then n @ '':'' @ existing else n)"

text \<open>What is executed, with which arguments and environment, or the end of the launcher.\<close>

datatype launched = Executes path "string list" "string list" | GivesUp

definition launch ::
  "(string \<Rightarrow> string) \<Rightarrow> string list \<Rightarrow> string list \<Rightarrow> string \<Rightarrow> install_world \<Rightarrow> (string \<Rightarrow> fetched) \<Rightarrow> (string \<times> bool) list \<Rightarrow>
     disk \<Rightarrow> disk_action list \<times> launched" where
  "launch getenv environ args goarch w web entries d =
     (let p = launch_paths_of getenv;
          run = Executes (lp_bridge p) (lp_bridge p # args)
                  (set_env environ ''LD_LIBRARY_PATH'' (library_path p (getenv ''LD_LIBRARY_PATH'')))
      in case nabto_arch goarch of
           None \<Rightarrow> ([], GivesUp)
         | Some arch \<Rightarrow>
             (if is_library_ready d (target_so p) (version_file p) (lp_version p) then ([], run)
              else case download_and_extract w web p arch d of
                (acts, False) \<Rightarrow> (acts, GivesUp)
              | (acts, True) \<Rightarrow> (acts @ cleanup_old_versions (lib_dir p) (lp_version p) entries, run)))"

end
