(* ===== verification/Launcher_Proofs.thy ===== *)
theory Launcher_Proofs
  imports Launcher
begin

text \<open>
  Wherever the installation breaks off, a library that the next start takes for installed came whole out of an archive; and
  what the launcher does not look at.
\<close>

subsection \<open>Paths\<close>

lemma paths_differ [simp]:
  "target_so p \<noteq> temp_so p" "temp_so p \<noteq> target_so p" "version_file p \<noteq> temp_so p" "temp_so p \<noteq> version_file p"
  "version_file p \<noteq> target_so p" "target_so p \<noteq> version_file p"
proof -
  have "last (target_so p) = CHR ''o''" "last (version_file p) = CHR ''t''" "last (temp_so p) = CHR ''p''"
    by (simp_all add: target_so_def version_file_def temp_so_def join_path_def)
  then show "target_so p \<noteq> temp_so p" "temp_so p \<noteq> target_so p" "version_file p \<noteq> temp_so p" "temp_so p \<noteq> version_file p"
    "version_file p \<noteq> target_so p" "target_so p \<noteq> version_file p" by auto
qed

subsection \<open>Breaking off\<close>

lemma broken_off_append:
  "broken_off n k (xs @ ys) d =
   (if n < length xs then broken_off n k xs d else broken_off (n - length xs) k ys (fold disk_do xs d))"
proof (cases "n < length xs")
  case True
  then obtain a r where "drop n xs = a # r" by (cases "drop n xs") auto
  with True show ?thesis by (simp add: broken_off_def split: disk_action.split)
qed (simp add: broken_off_def)

lemma broken_off_0: "broken_off 0 k (RenameFile a b # acts) d = d"
  by (simp add: broken_off_def)

lemma broken_off_Suc: "broken_off (Suc n) k (a # acts) d = broken_off n k acts (disk_do a d)"
  by (simp add: broken_off_def)

text \<open>What every action keeps, a write also halfway, holds wherever it breaks off.\<close>

definition keeps :: "(disk \<Rightarrow> bool) \<Rightarrow> disk_action \<Rightarrow> bool" where
  "keeps P a \<longleftrightarrow> (\<forall>d. P d \<longrightarrow> P (disk_do a d) \<and> (\<forall>q b k. a = WriteFile q b \<longrightarrow> P (d(q \<mapsto> take k b))))"

lemma fold_keeps: "list_all (keeps P) acts \<Longrightarrow> P d \<Longrightarrow> P (fold disk_do acts d)"
  by (induction acts arbitrary: d) (auto simp: keeps_def)

lemma broken_off_keeps:
  assumes "list_all (keeps P) acts" "P d"
  shows "P (broken_off n k acts d)"
proof -
  let ?e = "fold disk_do (take n acts) d"
  have "list_all (keeps P) (take n acts)" "list_all (keeps P) (drop n acts)"
    using assms(1) by (auto simp: list_all_iff dest: in_set_takeD in_set_dropD)
  then have "P ?e" "\<And>a r. drop n acts = a # r \<Longrightarrow> keeps P a"
    using fold_keeps assms(2) by auto
  then show ?thesis
    unfolding broken_off_def Let_def by (auto simp: keeps_def split: list.split disk_action.split)
qed

subsection \<open>What comes out of the archives\<close>

definition from_archive :: "(string \<Rightarrow> fetched) \<Rightarrow> launch_paths \<Rightarrow> string \<Rightarrow> bytes \<Rightarrow> bool" where
  "from_archive web p arch b \<longleftrightarrow>
     (\<exists>u its n. u \<in> set (download_urls (lp_version p)) \<and> web u = Archive its \<and> TarEntry n b True \<in> set its \<and>
        has_suffix n (so_suffix arch))"

lemma extract_whole:
  "extract_so suffix c1 c2 its = (r, True) \<Longrightarrow> \<exists>b n. r = Some b \<and> TarEntry n b True \<in> set its \<and> has_suffix n suffix"
  by (induction suffix c1 c2 its rule: extract_so.induct) (auto split: if_splits)

definition on_file :: "path \<Rightarrow> disk_action \<Rightarrow> bool" where
  "on_file tmp a \<longleftrightarrow> (\<exists>b. a = WriteFile tmp b) \<or> a = RemoveFile tmp"

lemma on_file_remove [simp]: "on_file tmp (RemoveFile tmp)"
  by (simp add: on_file_def)

lemma fetch_on_file: "fetch_and_extract w suffix tmp f = (a, ok) \<Longrightarrow> list_all (on_file tmp) a"
  by (auto simp: fetch_and_extract_def on_file_def split: fetched.splits prod.splits option.splits)

lemma fetch_any_on_file: "fetch_any w suffix tmp fs = (a, ok) \<Longrightarrow> list_all (on_file tmp) a"
proof (induction fs arbitrary: a ok)
  case (Cons f fs)
  then show ?case
    by (auto dest: fetch_on_file split: prod.splits bool.splits)
qed simp

lemma fetch_any_whole:
  "fetch_any w suffix tmp fs = (a, True) \<Longrightarrow>
   \<exists>b f its n. fold disk_do a d tmp = Some b \<and> f \<in> set fs \<and> f = Archive its \<and> TarEntry n b True \<in> set its \<and> has_suffix n suffix"
proof (induction fs arbitrary: a d)
  case (Cons f fs)
  obtain a1 ok where f: "fetch_and_extract w suffix tmp f = (a1, ok)" by fastforce
  show ?case
  proof (cases ok)
    case True
    then obtain its r where "f = Archive its" "extract_so suffix (iw_open w) (iw_close w) its = (r, True)"
        "a1 = (case r of None \<Rightarrow> [] | Some b \<Rightarrow> [WriteFile tmp b])" "a = a1"
      using f Cons.prems by (auto simp: fetch_and_extract_def split: fetched.splits prod.splits option.splits)
    then show ?thesis using extract_whole[of suffix] by fastforce
  next
    case False
    then obtain b where b: "fetch_any w suffix tmp fs = (b, True)" "a = a1 @ RemoveFile tmp # b"
      using f Cons.prems by (auto split: prod.splits)
    from Cons.IH[OF b(1), of "(fold disk_do a1 d)(tmp := None)"] obtain ba g its n where
      g: "fold disk_do b ((fold disk_do a1 d)(tmp := None)) tmp = Some ba" "g \<in> set fs" "g = Archive its"
        "TarEntry n ba True \<in> set its" "has_suffix n suffix" by blast
    then have "fold disk_do a d tmp = Some ba" by (simp add: b(2))
    then show ?thesis using g(2-5) by (intro exI[of _ ba] exI[of _ g] exI[of _ its] exI[of _ n]) simp
  qed
qed simp

lemma on_file_keeps: "list_all (on_file tmp) acts \<Longrightarrow> tmp \<noteq> q \<Longrightarrow> tmp \<noteq> r \<Longrightarrow> list_all (keeps (\<lambda>e. e q = d q \<and> e r = d r)) acts"
  by (induction acts) (auto simp: on_file_def keeps_def)

text \<open>The actions of an installation: on the temporary file only, or those, the move of a whole library, and what leaves it alone.\<close>

lemma download_shape:
  assumes "download_and_extract w web p arch d = (acts, ok)"
  shows "\<exists>a. list_all (on_file (temp_so p)) a \<and>
    (if ok then \<exists>b v. acts = a @ RenameFile (temp_so p) (target_so p) # v \<and> fold disk_do a d (temp_so p) = Some b \<and>
        from_archive web p arch b \<and> min_so_size \<le> length b \<and>
        v = (if iw_version w then [WriteFile (version_file p) (bytes_of (lp_version p))] else [])
     else acts = a)"
proof (cases "iw_mkdir w")
  case False
  then show ?thesis using assms by (auto simp: download_and_extract_def intro: exI[of _ "[]"])
next
  case True
  obtain a1 ok1 where a1: "fetch_any w (so_suffix arch) (temp_so p) (map web (download_urls (lp_version p))) = (a1, ok1)" by fastforce
  let ?a = "RemoveFile (temp_so p) # a1"
  have f: "list_all (on_file (temp_so p)) ?a" using fetch_any_on_file[OF a1] by (simp add: on_file_def)
  then have f': "list_all (on_file (temp_so p)) (?a @ [RemoveFile (temp_so p)])" by (simp add: on_file_def)
  show ?thesis
  proof (cases ok1)
    case False
    then show ?thesis using assms True a1 f by (auto simp: download_and_extract_def)
  next
    case ok1: True
    have a1': "fetch_any w (so_suffix arch) (temp_so p) (map web (download_urls (lp_version p))) = (a1, True)"
      using a1 ok1 by simp
    from fetch_any_whole[OF a1', of "disk_do (RemoveFile (temp_so p)) d"] obtain b where
      b: "fold disk_do ?a d (temp_so p) = Some b" "from_archive web p arch b"
      unfolding from_archive_def by auto
    consider "length b < min_so_size \<or> \<not> iw_rename w" | "min_so_size \<le> length b" "iw_rename w" by linarith
    then show ?thesis
    proof cases
      case 1
      then have "\<not> ok" "acts = ?a \<or> acts = ?a @ [RemoveFile (temp_so p)]"
        using assms True a1 ok1 b(1) by (auto simp: download_and_extract_def Let_def split: if_splits)
      then show ?thesis using f f' by auto
    next
      case 2
      then have "ok" "acts = ?a @ RenameFile (temp_so p) (target_so p) #
          (if iw_version w then [WriteFile (version_file p) (bytes_of (lp_version p))] else [])"
        using assms True a1 ok1 b(1) by (auto simp: download_and_extract_def Let_def split: if_splits)
      then show ?thesis using f b 2(1) by (intro exI[of _ ?a]) auto
    qed
  qed
qed

text \<open> C38. Wherever the launcher is broken off while it installs the library, also in the middle of a write: what the next start takes
  for installed came whole out of one of the archives and has the smallest size. \<close>

theorem broken_install_is_whole:
  assumes "launch getenv environ args goarch w web entries d = (acts, r)" "nabto_arch goarch = Some arch"
    and "p = launch_paths_of getenv" "\<not> is_library_ready d (target_so p) (version_file p) (lp_version p)"
    and "is_library_ready (broken_off n k acts d) (target_so p) (version_file p) (lp_version p)"
  shows "\<exists>b. broken_off n k acts d (target_so p) = Some b \<and> from_archive web p arch b \<and> min_so_size \<le> length b"
proof -
  let ?old = "\<lambda>e. e (target_so p) = d (target_so p) \<and> e (version_file p) = d (version_file p)"
  let ?whole = "\<lambda>e. \<forall>b. e (target_so p) = Some b \<longrightarrow> from_archive web p arch b \<and> min_so_size \<le> length b"
  obtain c ok where c: "download_and_extract w web p arch d = (c, ok)" by fastforce
  obtain a where a: "list_all (on_file (temp_so p)) a"
    and sh: "if ok then \<exists>b v. c = a @ RenameFile (temp_so p) (target_so p) # v \<and> fold disk_do a d (temp_so p) = Some b \<and>
        from_archive web p arch b \<and> min_so_size \<le> length b \<and>
        v = (if iw_version w then [WriteFile (version_file p) (bytes_of (lp_version p))] else []) else c = a"
    using download_shape[OF c] by blast
  have keep: "list_all (keeps ?old) a" by (rule on_file_keeps[OF a]) simp_all
  have old: "\<not> ?old (broken_off n k acts d)" using assms(4,5) by (auto simp: is_library_ready_def)
  have "ok"
  proof (rule ccontr)
    assume "\<not> ok"
    then have "acts = a" using assms(1-4) c sh by (auto simp: launch_def Let_def)
    then show False using old broken_off_keeps[OF keep, of d n k] by simp
  qed
  then obtain b v where acts: "acts = a @ RenameFile (temp_so p) (target_so p) # v @ cleanup_old_versions (lib_dir p) (lp_version p) entries"
    and b: "fold disk_do a d (temp_so p) = Some b" "from_archive web p arch b" "min_so_size \<le> length b"
    and v: "v = (if iw_version w then [WriteFile (version_file p) (bytes_of (lp_version p))] else [])"
    using assms(1-4) c sh by (auto simp: launch_def Let_def)
  have "\<not> n < length a" using old broken_off_keeps[OF keep, of d n k] by (auto simp: acts broken_off_append)
  moreover have "n \<noteq> length a" using old fold_keeps[OF keep, of d] by (auto simp: acts broken_off_append broken_off_0)
  ultimately obtain m where m: "n = length a + Suc m" using less_imp_Suc_add[of "length a" n] by auto
  have "list_all (keeps ?whole) (v @ cleanup_old_versions (lib_dir p) (lp_version p) entries)"
    by (auto simp: v cleanup_old_versions_def list_all_iff keeps_def split: if_splits)
  then have "?whole (broken_off m k (v @ cleanup_old_versions (lib_dir p) (lp_version p) entries)
      (disk_do (RenameFile (temp_so p) (target_so p)) (fold disk_do a d)))"
    by (rule broken_off_keeps) (use b in \<open>simp only: disk_do.simps fun_upd_apply paths_differ if_True if_False option.inject simp_thms\<close>)
  moreover have "broken_off n k acts d = broken_off m k (v @ cleanup_old_versions (lib_dir p) (lp_version p) entries)
      (disk_do (RenameFile (temp_so p) (target_so p)) (fold disk_do a d))"
    unfolding acts m by (simp add: broken_off_append[of "Suc (length a + m)" k a] broken_off_Suc)
  ultimately have "?whole (broken_off n k acts d)" by (simp only:)
  moreover obtain b' where "broken_off n k acts d (target_so p) = Some b'"
    using assms(5) by (cases "broken_off n k acts d (target_so p)") (simp_all add: is_library_ready_def)
  ultimately show ?thesis by blast
qed

definition sample_library :: bytes where "sample_library = replicate min_so_size 0"

definition sample_web :: "string \<Rightarrow> fetched" where
  "sample_web u = Archive [TarEntry ''sdk/lib/linux-x86_64/libnabto_client.so'' sample_library True]"

definition smooth_world :: install_world where
  "smooth_world = \<lparr>iw_mkdir = True, iw_open = True, iw_close = True, iw_rename = True, iw_version = True\<rparr>"

theorem broken_install_is_whole_witness:
  "\<exists>b. broken_off 4 0 (fst (launch (\<lambda>_. []) [] [] ''amd64'' smooth_world sample_web [] Map.empty)) Map.empty
      (target_so (launch_paths_of (\<lambda>_. []))) = Some b \<and>
     from_archive sample_web (launch_paths_of (\<lambda>_. [])) ''linux-x86_64'' b \<and> min_so_size \<le> length b"
proof -
  let ?p = "launch_paths_of (\<lambda>_. [])"
  have not: "\<not> is_library_ready Map.empty (target_so ?p) (version_file ?p) (lp_version ?p)" by (simp add: is_library_ready_def)
  have suf: "has_suffix ''sdk/lib/linux-x86_64/libnabto_client.so'' (so_suffix ''linux-x86_64'')" by code_simp
  have v: "trim_space (lp_version ?p) = lp_version ?p" by code_simp
  have dl: "download_and_extract smooth_world sample_web ?p ''linux-x86_64'' Map.empty =
      ([RemoveFile (temp_so ?p), WriteFile (temp_so ?p) sample_library, RenameFile (temp_so ?p) (target_so ?p),
        WriteFile (version_file ?p) (bytes_of (lp_version ?p))], True)"
    using suf
    by (simp add: download_and_extract_def download_urls_def fetch_and_extract_def sample_web_def smooth_world_def Let_def
        sample_library_def)
  obtain acts r where l: "launch (\<lambda>_. []) [] [] ''amd64'' smooth_world sample_web [] Map.empty = (acts, r)" by fastforce
  have acts: "acts = [RemoveFile (temp_so ?p), WriteFile (temp_so ?p) sample_library, RenameFile (temp_so ?p) (target_so ?p),
        WriteFile (version_file ?p) (bytes_of (lp_version ?p))]"
    using l not dl by (simp add: launch_def Let_def nabto_arch_def cleanup_old_versions_def)
  have "is_library_ready (broken_off 4 0 acts Map.empty) (target_so ?p) (version_file ?p) (lp_version ?p)"
    using v by (simp add: acts broken_off_def is_library_ready_def sample_library_def)
  from broken_install_is_whole[OF l _ refl not this] l show ?thesis by (simp add: nabto_arch_def)
qed

subsection \<open>The next start\<close>

lemma string_of_bytes_of_id: "string_of (bytes_of s) = s" by simp

text \<open>An installation that comes to its end, and could write its version, is found by the next start, if the version has no blanks around it.\<close>

theorem install_found_again:
  assumes "download_and_extract w web p arch d = (acts, True)" "iw_version w"
  shows "is_library_ready (fold disk_do acts d) (target_so p) (version_file p) (lp_version p) \<longleftrightarrow>
    trim_space (lp_version p) = lp_version p"
proof -
  obtain a b where "acts = a @ [RenameFile (temp_so p) (target_so p), WriteFile (version_file p) (bytes_of (lp_version p))]"
      "fold disk_do a d (temp_so p) = Some b" "min_so_size \<le> length b"
    using download_shape[OF assms(1)] assms(2) by auto
  then show ?thesis by (simp add: is_library_ready_def)
qed

text \<open>The archive of the main branch is installed under the version that was asked for, when the tag has none.\<close>

lemma main_branch_installed_as_version:
  assumes "iw_mkdir w" "iw_open w" "iw_close w" "iw_rename w" "iw_version w"
    and "web (hd (download_urls (lp_version p))) = NotFetched" "web (List.last (download_urls (lp_version p))) = Archive [TarEntry n b True]"
    and "has_suffix n (so_suffix arch)" "min_so_size \<le> length b" "trim_space (lp_version p) = lp_version p"
  shows "\<exists>acts. download_and_extract w web p arch d = (acts, True) \<and> fold disk_do acts d (target_so p) = Some b \<and>
    is_library_ready (fold disk_do acts d) (target_so p) (version_file p) (lp_version p)"
proof -
  have "fetch_any w (so_suffix arch) (temp_so p) (map web (download_urls (lp_version p))) =
      ([RemoveFile (temp_so p), WriteFile (temp_so p) b], True)"
    using assms by (simp add: download_urls_def fetch_and_extract_def)
  then have "download_and_extract w web p arch d =
      ([RemoveFile (temp_so p), RemoveFile (temp_so p), WriteFile (temp_so p) b, RenameFile (temp_so p) (target_so p),
        WriteFile (version_file p) (bytes_of (lp_version p))], True)"
    using assms by (simp add: download_and_extract_def Let_def)
  then show ?thesis using assms(9,10) by (simp add: is_library_ready_def)
qed

text \<open>A version with a slash: the clean-up takes the directory that the library has just been put into.\<close>

lemma nested_version_removed:
  assumes "lp_version p = a @ CHR ''/'' # b" "(a, True) \<in> set entries" "a \<noteq> lp_version p"
  shows "fold disk_do (cleanup_old_versions (lib_dir p) (lp_version p) entries) d (target_so p) = None"
proof -
  have "has_prefix (target_so p) (join_path (lib_dir p) a @ ''/'')"
    by (simp add: target_so_def target_dir_def assms(1) join_path_def has_prefix_def)
  then have r: "disk_do (RemoveTree (join_path (lib_dir p) a)) e (target_so p) = None" for e by simp
  have keep: "list_all (keeps (\<lambda>e. e (target_so p) = None)) (cleanup_old_versions (lib_dir p) (lp_version p) es)" for es
    by (auto simp: cleanup_old_versions_def list_all_iff keeps_def)
  obtain xs ys where e: "entries = xs @ (a, True) # ys" using assms(2) by (meson split_list)
  have "cleanup_old_versions (lib_dir p) (lp_version p) entries =
      cleanup_old_versions (lib_dir p) (lp_version p) xs @ RemoveTree (join_path (lib_dir p) a) #
      cleanup_old_versions (lib_dir p) (lp_version p) ys"
    using assms(3) by (simp add: e cleanup_old_versions_def)
  then show ?thesis using fold_keeps[OF keep] r by simp
qed

subsection \<open>The environment\<close>

text \<open>The value a program reads: of the first entry with the name.\<close>

fun env_value :: "string list \<Rightarrow> string \<Rightarrow> string option" where
  "env_value [] key = None"
| "env_value (e # es) key = (if has_prefix e (key @ ''='') then Some (drop (length key + 1) e) else env_value es key)"

lemma prefix_key_eq:
  assumes "has_prefix (key @ CHR ''='' # v) (k @ ''='')" "CHR ''='' \<notin> set key" "CHR ''='' \<notin> set k"
  shows "k = key"
proof -
  obtain r where "key @ CHR ''='' # v = k @ CHR ''='' # r"
    using assms(1) append_take_drop_id[of "length (k @ ''='')" "key @ CHR ''='' # v"] unfolding has_prefix_def
    by (metis append.assoc append_Cons append_Nil)
  then have "takeWhile (\<lambda>c. c \<noteq> CHR ''='') (key @ CHR ''='' # v) = takeWhile (\<lambda>c. c \<noteq> CHR ''='') (k @ CHR ''='' # r)" by simp
  moreover have "takeWhile (\<lambda>c. c \<noteq> CHR ''='') (xs @ CHR ''='' # ys) = xs" if "CHR ''='' \<notin> set xs" for xs ys
    using that by (induction xs) auto
  ultimately show ?thesis using assms(2,3) by simp
qed

lemma set_env_reads:
  assumes "CHR ''='' \<notin> set key" "CHR ''='' \<notin> set k"
  shows "env_value (set_env es key value) k = (if k = key then Some value else env_value es k)"
proof (induction es)
  case Nil
  then show ?case using prefix_key_eq[of key "value" k] assms by (auto simp: has_prefix_def)
next
  case (Cons e es)
  have k: "has_prefix (key @ CHR ''='' # v) (k @ ''='') \<Longrightarrow> k = key" for v using prefix_key_eq assms by blast
  have "k = key" if "has_prefix e (key @ ''='')" "has_prefix e (k @ ''='')"
  proof -
    have "e = key @ CHR ''='' # drop (length key + 1) e"
      using that(1) append_take_drop_id[of "length key + 1" e] by (simp add: has_prefix_def)
    then show ?thesis using that(2) k by metis
  qed
  with k[of "value"] Cons show ?case by (auto simp: has_prefix_def)
qed

end
