(* ===== verification/Bridge_Log.thy ===== *)
theory Bridge_Log
  imports Onvif_Auth Sdcard_Transfer
begin

text \<open>
  The log (\<^verbatim>\<open>pkg/logger/logger.go\<close>): levels, the line on the console and the text of binary data. Levels are the numbers of
  \<^verbatim>\<open>slog\<close>; an attribute is its key with the text that \<^verbatim>\<open>%v\<close> makes of its value, a time its text.
\<close>

subsection \<open>Levels\<close>

definition level_trace :: int where "level_trace = -8"
definition level_debug :: int where "level_debug = -4"
definition level_info :: int where "level_info = 0"
definition level_warn :: int where "level_warn = 4"
definition level_error :: int where "level_error = 8"

text \<open>The level, and whether the text is one.\<close>

definition parse_level :: "string \<Rightarrow> int \<times> bool" where
  "parse_level s =
     (let l = to_lower (trim_space s) in
      if l = ''trace'' then (level_trace, True)
      else if l = ''debug'' then (level_debug, True)
      else if l = ''info'' \<or> l = [] then (level_info, True)
      else if l = ''warn'' \<or> l = ''warning'' then (level_warn, True)
      else if l = ''error'' then (level_error, True)
      else (level_info, False))"

definition format_level :: "int \<Rightarrow> string" where
  "format_level l =
     (if l \<le> level_trace then ''TRACE''
      else if l < level_info then ''DEBUG''
      else if l < level_warn then ''INFO''
      else if l < level_error then ''WARN''
      else ''ERROR'')"

record logger =
  lg_level :: int
  lg_json :: bool

definition first_logger :: logger where "first_logger = \<lparr>lg_level = level_info, lg_json = False\<rparr>"

definition init_logger :: "string \<Rightarrow> string \<Rightarrow> logger" where
  "init_logger level format =
     \<lparr>lg_level = (case parse_level level of (l, ok) \<Rightarrow> if ok then l else level_info),
      lg_json = (to_lower (trim_space format) = ''json'')\<rparr>"

definition set_level :: "string \<Rightarrow> logger \<Rightarrow> logger \<times> bool" where
  "set_level s lg = (case parse_level s of (l, ok) \<Rightarrow> (if ok then lg\<lparr>lg_level := l\<rparr> else lg, ok))"

definition is_enabled :: "logger \<Rightarrow> int \<Rightarrow> bool" where
  "is_enabled lg l \<longleftrightarrow> lg_level lg \<le> l"

subsection \<open>The console\<close>

type_synonym log_attr = "string \<times> string"

record console_handler =
  ch_attrs :: "log_attr list"

definition with_attrs :: "log_attr list \<Rightarrow> console_handler \<Rightarrow> console_handler" where
  "with_attrs as h = h\<lparr>ch_attrs := ch_attrs h @ as\<rparr>"

text \<open>Of the attributes of the handler the last component counts, of those of the record the first and only without one before.\<close>

fun bound_component :: "log_attr list \<Rightarrow> string \<Rightarrow> string \<times> log_attr list" where
  "bound_component [] c = (c, [])"
| "bound_component ((k, v) # as) c =
     (if k = ''component'' then bound_component as v
      else case bound_component as c of (d, extra) \<Rightarrow> (d, (k, v) # extra))"

fun record_component :: "log_attr list \<Rightarrow> string \<Rightarrow> string \<times> log_attr list" where
  "record_component [] c = (c, [])"
| "record_component ((k, v) # as) c =
     (if k = ''component'' \<and> c = [] then record_component as v
      else case record_component as c of (d, extra) \<Rightarrow> (d, (k, v) # extra))"

definition console_line :: "console_handler \<Rightarrow> string \<Rightarrow> int \<Rightarrow> string \<Rightarrow> log_attr list \<Rightarrow> string" where
  "console_line h time level message as =
     (case bound_component (ch_attrs h) [] of
        (c, extra) \<Rightarrow>
          (case record_component as c of
             (d, more_extra) \<Rightarrow>
               time @ '' ['' @ format_level level @ '']'' @
               (if d \<noteq> [] then '' ['' @ d @ '']'' else []) @ '' '' @ message @
               concat (map (\<lambda>(k, v). '' '' @ k @ ''='' @ v) (extra @ more_extra)) @ [CHR 0x0A]))"

text \<open>\<^verbatim>\<open>logf\<close> with a message that is put together already: the sub-logger has the component bound.\<close>

definition logf :: "logger \<Rightarrow> string \<Rightarrow> int \<Rightarrow> string \<Rightarrow> string \<Rightarrow> string option" where
  "logf lg time level component message =
     (if is_enabled lg level
      then Some (console_line (with_attrs [(''component'', component)] \<lparr>ch_attrs = []\<rparr>) time level message [])
      else None)"

subsection \<open>Binary data\<close>

text \<open>A limit of zero or less is none.\<close>

fun hex_bytes_spaced :: "bytes \<Rightarrow> string" where
  "hex_bytes_spaced [] = []"
| "hex_bytes_spaced [b] = hex_of_bytes [b]"
| "hex_bytes_spaced (b # bs) = hex_of_bytes [b] @ '' '' @ hex_bytes_spaced bs"

definition format_binary :: "bytes \<Rightarrow> int option \<Rightarrow> string" where
  "format_binary bs max_bytes =
     (if bs = [] then ''<empty>''
      else let limit = (case max_bytes of
                          Some m \<Rightarrow> if 0 < m \<and> m < int (length bs) then nat m else length bs
                        | None \<Rightarrow> length bs) in
           hex_bytes_spaced (take limit bs) @
           (if limit < length bs then '' ... ['' @ dec_of_nat (length bs) @ '' bytes total]''
            else '' ['' @ dec_of_nat (length bs) @ '' bytes]''))"

subsection \<open>What holds\<close>

lemma level_names_roundtrip:
  "list_all (\<lambda>l. parse_level (format_level l) = (l, True)) [level_trace, level_debug, level_info, level_warn, level_error]"
  by code_simp

text \<open>A record is written exactly if its level is at least the one that was set; an unknown text sets none.\<close>

lemma logged_iff: "logf lg time level component message \<noteq> None \<longleftrightarrow> lg_level lg \<le> level"
  by (simp add: logf_def is_enabled_def)

lemma unknown_level_ignored: "\<not> snd (parse_level s) \<Longrightarrow> fst (set_level s lg) = lg \<and> lg_level (init_logger s f) = level_info"
  by (auto simp: set_level_def init_logger_def split: prod.split)

text \<open>A record is one line, with its component in brackets, as long as component and message have no line break.\<close>

lemma logf_line:
  assumes "lg_level lg \<le> level" "component \<noteq> []"
  shows "logf lg time level component message =
    Some (time @ '' ['' @ format_level level @ ''] ['' @ component @ ''] '' @ message @ [CHR 0x0A])"
  using assms by (simp add: logf_def is_enabled_def console_line_def with_attrs_def)

text \<open>A message with a line break reads like two records: the second is what follows the break.\<close>

lemma forged_line:
  assumes "lg_level lg \<le> level" "component \<noteq> []"
    and "logf lg time' level' component' message' = Some line"
  shows "\<exists>first. logf lg time level component (m @ CHR 0x0A # butlast line) = Some (first @ CHR 0x0A # line)"
proof -
  have "line \<noteq> []" "List.last line = CHR 0x0A"
    using assms(3) by (auto simp: logf_def console_line_def split: if_splits prod.splits)
  then have l: "butlast line @ [CHR 0x0A] = line" using append_butlast_last_id[of line] by simp
  show ?thesis
    by (rule exI[of _ "time @ '' ['' @ format_level level @ ''] ['' @ component @ ''] '' @ m"])
       (simp add: logf_line[OF assms(1,2)] l)
qed

end
