(* ===== verification/Channel_Commands.thy ===== *)
theory Channel_Commands
  imports Mcu_Protocol
begin

text \<open>
  What the bridge of the L 625 sends over the data channel (\<^verbatim>\<open>SendCommand\<close>, \<^verbatim>\<open>SendMCUCommand\<close>, \<^verbatim>\<open>SetResolution\<close> and
  \<^verbatim>\<open>sendJSONCmd\<close> of \<^verbatim>\<open>pkg/webrtc/mcu_dispatch.go\<close>), the polling loop, and the loops that read the tracks
  (\<^verbatim>\<open>pkg/webrtc/media.go\<close>). A JSON object is the list of its entries in the order in which they are visited.
\<close>

subsection \<open>Commands\<close>

datatype json = JString string | JNumber int | JObject "(string \<times> json) list"

type_synonym json_entries = "(string \<times> json) list"

datatype channel_error = NoChannel | BadCommand | NotSent

text \<open>What the channel does with a message; there may be no channel.\<close>

type_synonym channel = "(json_entries \<Rightarrow> bool) option"

definition send_message :: "channel \<Rightarrow> json_entries \<Rightarrow> channel_error option \<times> json_entries option" where
  "send_message dc msg =
     (case dc of
        None \<Rightarrow> (Some NoChannel, None)
      | Some takes \<Rightarrow> (if takes msg then None else Some NotSent, Some msg))"

definition command_head :: "string \<Rightarrow> string \<Rightarrow> json_entries" where
  "command_head cmd msg_id = [(''from'', JString ''Android''), (''cmd'', JString cmd), (''msgid'', JString msg_id)]"

definition send_command :: "channel \<Rightarrow> string \<Rightarrow> string \<Rightarrow> json \<Rightarrow> channel_error option \<times> json_entries option" where
  "send_command dc msg_id cmd info = send_message dc (command_head cmd msg_id @ [(''info'', info)])"

definition bridge_mcu_command :: "channel \<Rightarrow> string \<Rightarrow> string \<Rightarrow> channel_error option \<times> json_entries option" where
  "bridge_mcu_command dc msg_id payload =
     (case build_command payload of
        None \<Rightarrow> (Some BadCommand, None)
      | Some b64 \<Rightarrow>
          send_message dc (command_head ''tran_ctl'' msg_id @ [(''info'', JObject [(''data'', JString b64)])]))"

text \<open>The resolution that is kept for the next session, and the message.\<close>

definition bridge_set_resolution ::
  "channel \<Rightarrow> string \<Rightarrow> string \<Rightarrow> string \<times> channel_error option \<times> json_entries option" where
  "bridge_set_resolution dc msg_id res =
     (res, send_message dc
        (command_head ''set_video_setting'' msg_id @
         [(''action'', JString ''all''),
          (''info'', JObject [(''quality'', JObject [(''sub1'', JObject [(''resolution'', JString res)])])])]))"

text \<open>
  The entries \<^verbatim>\<open>action\<close> and \<^verbatim>\<open>_action\<close> of the information go into the command if they are text, and
  nowhere otherwise; a later one replaces an earlier one.
\<close>

definition is_action :: "string \<Rightarrow> bool" where
  "is_action k \<longleftrightarrow> k = ''action'' \<or> k = ''_action''"

fun lift_action :: "json_entries \<Rightarrow> string option \<times> json_entries \<Rightarrow> string option \<times> json_entries" where
  "lift_action [] acc = acc"
| "lift_action ((k, v) # es) (a, copy) =
     (if is_action k then lift_action es (case v of JString s \<Rightarrow> Some s | _ \<Rightarrow> a, copy)
      else lift_action es (a, copy @ [(k, v)]))"

definition json_command :: "string \<Rightarrow> string \<Rightarrow> json_entries option \<Rightarrow> json_entries" where
  "json_command msg_id cmd info =
     command_head cmd msg_id @
     (case info of
        None \<Rightarrow> []
      | Some es \<Rightarrow>
          (case lift_action es (None, []) of
             (a, copy) \<Rightarrow> (case a of None \<Rightarrow> [] | Some s \<Rightarrow> [(''action'', JString s)]) @ [(''info'', JObject copy)]))"

definition send_json_cmd ::
  "channel \<Rightarrow> string \<Rightarrow> string \<Rightarrow> json_entries option \<Rightarrow> channel_error option \<times> json_entries option" where
  "send_json_cmd dc msg_id cmd info = send_message dc (json_command msg_id cmd info)"

text \<open>The polling loop: once at its start and with every tick of the thirty seconds, until the context ends.\<close>

datatype poll_event = PollTick | PollDone

fun poll_queries :: "poll_event list \<Rightarrow> nat" where
  "poll_queries [] = 0"
| "poll_queries (PollTick # es) = Suc (poll_queries es)"
| "poll_queries (PollDone # es) = 0"

definition mcu_polling :: "poll_event list \<Rightarrow> nat" where
  "mcu_polling es = Suc (poll_queries es)"

lemma lift_action_copy: "snd (lift_action es (a, copy)) = copy @ filter (\<lambda>(k, v). \<not> is_action k) es"
  by (induction es arbitrary: a copy) (auto split: json.split)

lemma lift_action_text:
  "fst (lift_action es (a, copy)) = foldl (\<lambda>b (k, v). case v of JString s \<Rightarrow> if is_action k then Some s else b | _ \<Rightarrow> b) a es"
  by (induction es arbitrary: a copy) (auto split: json.split)

text \<open>
  What the camera is asked: the information without its action, unchanged and in order, and the action beside it.
\<close>

lemma json_command_parts:
  assumes "info = [(''action'', JString s)] @ es" "list_all (\<lambda>(k, v). \<not> is_action k) es"
  shows "json_command msg_id cmd (Some info) =
    command_head cmd msg_id @ [(''action'', JString s), (''info'', JObject es)]"
proof -
  have "filter (\<lambda>(k, v). \<not> is_action k) es = es" using assms(2) by (simp add: filter_id_conv list_all_iff case_prod_unfold)
  moreover have "foldl (\<lambda>b (k, v). case v of JString s \<Rightarrow> if is_action k then Some s else b | _ \<Rightarrow> b) a es = a" for a
    using assms(2) by (induction es arbitrary: a) (auto split: json.split)
  ultimately have "lift_action info (None, []) = (Some s, es)"
    using lift_action_copy[of es "Some s" "[]"] lift_action_text[of es "Some s" "[]"]
    by (simp add: assms(1) is_action_def prod_eq_iff)
  then show ?thesis by (simp add: json_command_def)
qed

text \<open>With both entries, which action is sent depends on the order in which they are visited, which the language leaves open.\<close>

lemma two_actions_depend_on_order:
  "json_command m cmd (Some [(''action'', JString ''a''), (''_action'', JString ''b'')]) \<noteq>
   json_command m cmd (Some [(''_action'', JString ''b''), (''action'', JString ''a'')])"
  by (simp add: json_command_def is_action_def)

subsection \<open>Tracks\<close>

text \<open>A turn of the loop: whether the context has ended, and what reading gives, with the context looked at again after an error.\<close>

datatype 'p track_turn = TrackDone | TrackPacket 'p | TrackError bool

text \<open>The packets that are passed on, and whether the session is ended.\<close>

fun read_video_loop :: "'p track_turn list \<Rightarrow> 'p list \<times> bool" where
  "read_video_loop [] = ([], False)"
| "read_video_loop (TrackDone # ts) = ([], False)"
| "read_video_loop (TrackError ended # ts) = ([], \<not> ended)"
| "read_video_loop (TrackPacket p # ts) = (case read_video_loop ts of (ps, c) \<Rightarrow> (p # ps, c))"

text \<open>The loop of the sound ends without a word.\<close>

fun read_audio_loop :: "'p track_turn list \<Rightarrow> 'p list" where
  "read_audio_loop [] = []"
| "read_audio_loop (TrackDone # ts) = []"
| "read_audio_loop (TrackError ended # ts) = []"
| "read_audio_loop (TrackPacket p # ts) = p # read_audio_loop ts"

lemma loops_read_alike: "fst (read_video_loop ts) = read_audio_loop ts"
  by (induction ts rule: read_video_loop.induct) (auto split: prod.split)

text \<open>Only a video track that ends while the session runs ends the session.\<close>

lemma video_end_ends_session:
  "snd (read_video_loop ts) \<longleftrightarrow> (\<exists>ps r. ts = map TrackPacket ps @ TrackError False # r)"
proof (induction ts rule: read_video_loop.induct)
  case (4 p ts)
  show ?case
  proof
    assume "snd (read_video_loop (TrackPacket p # ts))"
    then obtain ps r where "ts = map TrackPacket ps @ TrackError False # r" using 4 by (auto split: prod.splits)
    then show "\<exists>ps r. TrackPacket p # ts = map TrackPacket ps @ TrackError False # r" by (intro exI[of _ "p # ps"] exI[of _ r]) simp
  next
    assume "\<exists>ps r. TrackPacket p # ts = map TrackPacket ps @ TrackError False # r"
    then obtain ps r where "TrackPacket p # ts = map TrackPacket ps @ TrackError False # r" by blast
    then have "ts = map TrackPacket (tl ps) @ TrackError False # r" by (cases ps) auto
    then show "snd (read_video_loop (TrackPacket p # ts))" using 4 by (auto split: prod.split)
  qed
qed (auto simp: Cons_eq_append_conv)

end
