(* ===== verification/Soap_Security.thy ===== *)
theory Soap_Security
  imports Onvif_Answers
begin

text \<open>
  The WS-Security token of a SOAP request (\<^verbatim>\<open>ExtractUsernameToken\<close> in \<^verbatim>\<open>pkg/onvif/auth.go\<close>) and
  the fault of a request that is refused. What \<^verbatim>\<open>encoding/xml\<close> fills into the structures of
  the code is written out over the elements of the document; the tokens of the document are an argument.
\<close>

subsection \<open>The decoder of Go\<close>

text \<open>The name of an element or attribute without its prefix, both of which must be there.\<close>

definition xml_local :: "string \<Rightarrow> string" where
  "xml_local n =
     (let p = takeWhile (\<lambda>c. c \<noteq> CHR '':'') n; l = drop (Suc (length p)) n in
      if p = [] \<or> l = [] then n else l)"

text \<open>Only the text of the element itself: that of the elements in it is skipped.\<close>

fun own_text :: "node \<Rightarrow> string" where
  "own_text (Chars s) = s"
| "own_text t = []"

definition char_data :: "node \<Rightarrow> string" where
  "char_data t = concat (map own_text (node_children t))"

text \<open>
  The children that a structure has a field for are decoded one after the other into the same
  structure; others are skipped.
\<close>

definition decode_child :: "(string \<Rightarrow> node \<Rightarrow> 'a \<Rightarrow> 'a) \<Rightarrow> node \<Rightarrow> 'a \<Rightarrow> 'a" where
  "decode_child f u = (if is_chars u then id else f (xml_local (node_name u)) u)"

definition decode_children :: "(string \<Rightarrow> node \<Rightarrow> 'a \<Rightarrow> 'a) \<Rightarrow> node \<Rightarrow> 'a \<Rightarrow> 'a" where
  "decode_children f t = fold (decode_child f) (node_children t)"

subsection \<open>The token\<close>

definition empty_token :: username_token where
  "empty_token = \<lparr>t_username = [], t_password_type = [], t_password = [], t_nonce = [], t_created = []\<rparr>"

text \<open>The attribute stays as it was when an element does not give it, the text does not.\<close>

definition type_attr :: "attrs \<Rightarrow> string \<Rightarrow> string" where
  "type_attr as = fold (\<lambda>(k, v). if xml_local k = ''Type'' then \<lambda>_. v else id) as"

definition token_field :: "string \<Rightarrow> node \<Rightarrow> username_token \<Rightarrow> username_token" where
  "token_field n t k =
     (if n = ''Username'' then k\<lparr>t_username := char_data t\<rparr>
      else if n = ''Password''
        then k\<lparr>t_password_type := type_attr (node_attrs t) (t_password_type k), t_password := char_data t\<rparr>
      else if n = ''Nonce'' then k\<lparr>t_nonce := char_data t\<rparr>
      else if n = ''Created'' then k\<lparr>t_created := char_data t\<rparr>
      else k)"

text \<open>A pointer to the token is made by the first element and used again by the next.\<close>

definition security_field :: "string \<Rightarrow> node \<Rightarrow> username_token option \<Rightarrow> username_token option" where
  "security_field n t k =
     (if n = ''UsernameToken''
      then Some (decode_children token_field t (case k of None \<Rightarrow> empty_token | Some u \<Rightarrow> u))
      else k)"

definition header_field :: "string \<Rightarrow> node \<Rightarrow> username_token option \<Rightarrow> username_token option" where
  "header_field n t = (if n = ''Security'' then decode_children security_field t else id)"

definition envelope_field :: "string \<Rightarrow> node \<Rightarrow> username_token option \<Rightarrow> username_token option" where
  "envelope_field n t = (if n = ''Header'' then decode_children header_field t else id)"

text \<open>Both the document that cannot be read and the one with another root element are errors, and give no token.\<close>

definition extract_username_token :: "(string \<Rightarrow> node option) \<Rightarrow> string \<Rightarrow> username_token option" where
  "extract_username_token decode s =
     (case decode s of
        None \<Rightarrow> None
      | Some t \<Rightarrow>
          if xml_local (node_name t) \<noteq> ''Envelope'' then None
          else decode_children envelope_field t None)"

subsection \<open>The fault\<close>

definition not_authorized :: node where
  "not_authorized =
     xblock ''s:Envelope'' [(''xmlns:s'', ''http://www.w3.org/2003/05/soap-envelope''),
         (''xmlns:ter'', ''http://www.onvif.org/ver10/error'')] [
       xblock ''s:Body'' [] [
         xblock ''s:Fault'' [] [
           xblock ''s:Code'' [] [
             xtext ''s:Value'' ''s:Sender'',
             xblock ''s:Subcode'' [] [xtext ''s:Value'' ''ter:NotAuthorized'']],
           xblock ''s:Reason'' [] [
             xfield ''s:Text'' [(''xml:lang'', ''en'')]
               ''The security token could not be authenticated or authorized'']]]] 0"

definition format_not_authorized_fault :: string where
  "format_not_authorized_fault = xml_prolog @ show_node not_authorized"

subsection \<open>The decoder as an interface\<close>

text \<open>What the server relies on: a well-formed document without entities is read as it was written.\<close>

locale xml_decoder =
  fixes decode :: "string \<Rightarrow> node option"
  assumes decode_shown: "well_formed [] t \<Longrightarrow> \<not> is_chars t \<Longrightarrow> decode (xml_prolog @ show_node t) = Some t"

text \<open>The first element of what the reader of these theories reads.\<close>

definition first_element :: "string \<Rightarrow> node option" where
  "first_element s = Option.bind (read_xml s) (find (\<lambda>t. \<not> is_chars t))"

end
