(* ===== verification/Soap_Security_Proofs.thy ===== *)
theory Soap_Security_Proofs
  imports Soap_Security Onvif_Reply_Proofs
begin

text \<open>
  A client that signs its request as the UsernameToken profile says is let in, through the text of the
  document, the decoder, base64 and the hash; and what of a request the server does not look at.
\<close>

subsection \<open>Decoding what was laid out\<close>

lemma decode_block:
  "decode_children f (xblock n as ts d) = fold (\<lambda>t. decode_child f (t (d + 2))) ts"
proof -
  have "fold (decode_child f) (concat (map (\<lambda>t. [Chars (new_line (d + 2)), t (d + 2)]) ts) @ [Chars s]) z =
    fold (\<lambda>t. decode_child f (t (d + 2))) ts z" for s z
    by (induction ts arbitrary: z) (auto simp: decode_child_def)
  then show ?thesis by (auto simp: decode_children_def xblock_def)
qed

lemma part_not_chars [simp]:
  "\<not> is_chars (xblock n as ts d)" "\<not> is_chars (xrow n as ts d)" "\<not> is_chars (xfield n as s d)" "\<not> is_chars (xvoid n as d)"
  by (simp_all add: xblock_def xrow_def xfield_def xvoid_def)

lemma field_parts [simp]: "char_data (xfield n as s d) = s" "node_attrs (xfield n as s d) = as"
  by (simp_all add: char_data_def xfield_def)

lemma no_markup_b64 [simp]: "no_markup (b64_encode bs)"
proof -
  have "list_all (\<lambda>c. c \<noteq> CHR ''<'' \<and> c \<noteq> CHR ''>'' \<and> c \<noteq> CHR ''&'' \<and> c \<noteq> CHR 0x22) b64_alphabet" by code_simp
  then show ?thesis using b64_encode_chars[of _ bs] by (fastforce simp: no_markup_def list_all_iff)
qed

lemma b64_encode_inject: "b64_encode a = b64_encode b \<longleftrightarrow> a = b"
  by (metis b64_decode_encode option.inject)

subsection \<open>A signed request\<close>

definition client_namespaces :: attrs where
  "client_namespaces =
     [(''xmlns:s'', ''http://www.w3.org/2003/05/soap-envelope''),
      (''xmlns:wsse'', ''http://docs.oasis-open.org/wss/2004/01/oasis-200401-wss-wssecurity-secext-1.0.xsd''),
      (''xmlns:wsu'', ''http://docs.oasis-open.org/wss/2004/01/oasis-200401-wss-wssecurity-utility-1.0.xsd'')]"

definition token_doc :: "username_token \<Rightarrow> doc" where
  "token_doc k =
     xblock ''wsse:UsernameToken'' [] [
       xtext ''wsse:Username'' (t_username k),
       xfield ''wsse:Password'' [(''Type'', t_password_type k)] (t_password k),
       xtext ''wsse:Nonce'' (t_nonce k),
       xtext ''wsu:Created'' (t_created k)]"

definition request_with :: "doc list \<Rightarrow> doc \<Rightarrow> node" where
  "request_with ks oper =
     xblock ''s:Envelope'' client_namespaces [
       xblock ''s:Header'' [] [xblock ''wsse:Security'' [] ks],
       xblock ''s:Body'' [] [oper]] 0"

definition plain_token :: "username_token \<Rightarrow> bool" where
  "plain_token k \<longleftrightarrow> no_markup (t_username k) \<and> no_markup (t_password_type k) \<and> no_markup (t_password k) \<and>
     no_markup (t_nonce k) \<and> no_markup (t_created k)"

lemma declared_client: "declared client_namespaces = [''s'', ''wsse'', ''wsu'']"
  by (simp add: declared_def client_namespaces_def)

lemma token_doc_ok: "plain_token k \<Longrightarrow> doc_ok [''s'', ''wsse'', ''wsu''] (token_doc k)"
  unfolding token_doc_def by (intro doc_oks) (simp_all add: head_simps attrs_ok_def plain_token_def doc_oks)

lemma request_ok:
  assumes "list_all (doc_ok [''s'', ''wsse'', ''wsu'']) ks" "doc_ok [''s'', ''wsse'', ''wsu''] oper"
  shows "well_formed [] (request_with ks oper)"
proof -
  have "doc_ok [] (xblock ''s:Envelope'' client_namespaces [
      xblock ''s:Header'' [] [xblock ''wsse:Security'' [] ks], xblock ''s:Body'' [] [oper]])"
    by (intro doc_oks)
      (use assms in \<open>simp_all add: declared_client head_simps attrs_ok_def client_namespaces_def doc_oks\<close>)
  then show ?thesis by (simp add: doc_ok_def request_with_def)
qed

context xml_decoder
begin

lemma extract_request:
  assumes "list_all plain_token ks" "doc_ok [''s'', ''wsse'', ''wsu''] oper"
  shows "extract_username_token decode (xml_prolog @ show_node (request_with (map token_doc ks) oper)) =
    (if ks = [] then None else Some (last ks))"
proof -
  have "well_formed [] (request_with (map token_doc ks) oper)"
    by (rule request_ok) (use assms token_doc_ok in \<open>auto simp: list_all_iff\<close>)
  then have d: "decode (xml_prolog @ show_node (request_with (map token_doc ks) oper)) = Some (request_with (map token_doc ks) oper)"
    by (rule decode_shown) (simp add: request_with_def)
  have "decode_child security_field (token_doc k d) z = Some k" for k d z
    by (cases k, cases z)
       (simp_all add: decode_child_def security_field_def token_doc_def decode_block token_field_def xml_local_def
         type_attr_def empty_token_def)
  then have "fold (\<lambda>t. decode_child security_field (t d)) (map token_doc ks) z = (if ks = [] then z else Some (last ks))" for d z
    by (induction ks arbitrary: z) auto
  then have "decode_children envelope_field (request_with (map token_doc ks) oper) None = (if ks = [] then None else Some (last ks))"
    by (simp add: request_with_def decode_block decode_child_def[of envelope_field] decode_child_def[of header_field]
        envelope_field_def header_field_def xml_local_def)
  moreover have "xml_local (node_name (request_with ts oper)) = ''Envelope''" for ts
    by (simp add: request_with_def xml_local_def)
  ultimately show ?thesis unfolding extract_username_token_def d by simp
qed

end

interpretation reader: xml_decoder first_element
proof
  fix t assume "well_formed [] t" "\<not> is_chars t"
  then show "first_element (xml_prolog @ show_node t) = Some t"
    by (simp add: first_element_def read_prolog)
qed

subsection \<open>Who is let in\<close>

definition signed_text :: "username_token list \<Rightarrow> doc \<Rightarrow> string" where
  "signed_text ks oper = xml_prolog @ show_node (request_with (map token_doc ks) oper)"

definition plain_signer :: "credentials \<Rightarrow> bool" where
  "plain_signer cred \<longleftrightarrow> c_user cred \<noteq> [] \<and> trim_space (c_user cred) = c_user cred \<and> no_markup (c_user cred)"

lemma client_token_plain:
  assumes "plain_signer cred" "no_markup created"
  shows "plain_token (client_token pr cred nonce created)"
  using assms by (simp add: plain_token_def client_token_def plain_signer_def password_digest_def)

lemma client_token_vouched:
  assumes "plain_signer cred" "c_user cred' \<noteq> []" "trim_space created = created"
  shows "validate_ws_security pr (Some (client_token pr cred nonce created)) cred' \<longleftrightarrow>
    c_user cred = c_user cred' \<and>
    sha1 pr (nonce @ bytes_of created @ bytes_of (c_pass cred)) = sha1 pr (nonce @ bytes_of created @ bytes_of (c_pass cred'))"
proof -
  have "contains (trim_space password_digest) ''PasswordDigest''" by code_simp
  then show ?thesis
    using assms by (auto simp: validate_ws_security_def client_token_def ws_digest_def trim_space_b64 b64_decode_encode
        b64_encode_inject Let_def plain_signer_def)
qed

text \<open> C39. A request that a client signs with a WS-Security token as the profile says, written out as a document around
  any operation, is let in by a server that decodes it, whatever the time, exactly if user name and digest are those of the
  configured credentials; unless it needs no credentials or proves them in a header. \<close>

theorem signed_request_vouched:
  assumes "xml_decoder decode" "plain_signer cred" "c_user (sv_cred sv) \<noteq> []"
    and "no_markup created" "trim_space created = created" "doc_ok [''s'', ''wsse'', ''wsu''] oper"
    and "rq_body rq = signed_text [client_token pr cred nonce created] oper"
    and "\<not> is_pre_auth (rq_action rq) (rq_body rq)" "digest_status pr sv rq now \<noteq> AuthSuccess" "\<not> basic_ok sv rq"
  shows "authenticate_soap pr (extract_username_token decode) sv rq now salt = None \<longleftrightarrow>
    c_user cred = c_user (sv_cred sv) \<and>
    sha1 pr (nonce @ bytes_of created @ bytes_of (c_pass cred)) =
      sha1 pr (nonce @ bytes_of created @ bytes_of (c_pass (sv_cred sv)))"
proof -
  have "extract_username_token decode (rq_body rq) = Some (client_token pr cred nonce created)"
    using xml_decoder.extract_request[OF assms(1), of "[client_token pr cred nonce created]" oper] assms(2,4,6,7)
    by (simp add: signed_text_def client_token_plain)
  then show ?thesis
    using assms(3,5,8-10) client_token_vouched[OF assms(2,3,5)] by (simp add: authenticate_soap_def)
qed

lemma not_pre_auth:
  assumes "CHR ''G'' \<notin> set action" "CHR ''G'' \<notin> set body"
  shows "\<not> is_pre_auth action body"
  using assms by (auto simp: is_pre_auth_def pre_auth_actions_def mentions_def contains_iff)

definition reboot_oper :: doc where
  "reboot_oper = xrow ''tds:SystemReboot'' [(''xmlns:tds'', ''http://www.onvif.org/ver10/device/wsdl'')] []"

definition sample_signed :: http_request where
  "sample_signed = toy_request ''device_service''
     (signed_text [client_token toy_prims (sv_cred toy_server) [1, 2] ''2024''] reboot_oper)"

theorem signed_request_vouched_witness:
  "authenticate_soap toy_prims (extract_username_token first_element) toy_server sample_signed 0 [] = None"
proof -
  have "plain_signer (sv_cred toy_server)" "no_markup ''2024''" "trim_space ''2024'' = ''2024''" "c_user (sv_cred toy_server) \<noteq> []"
    by code_simp+
  moreover have "doc_ok [''s'', ''wsse'', ''wsu''] reboot_oper"
    unfolding reboot_oper_def by (intro doc_oks) (simp_all add: head_simps attrs_ok_def)
  moreover have "rq_body sample_signed = signed_text [client_token toy_prims (sv_cred toy_server) [1, 2] ''2024''] reboot_oper"
    by (simp add: sample_signed_def toy_request_def)
  moreover have "CHR ''G'' \<notin> set (rq_body sample_signed)" by code_simp
  then have "\<not> is_pre_auth (rq_action sample_signed) (rq_body sample_signed)"
    by (intro not_pre_auth) (simp_all add: sample_signed_def toy_request_def)
  moreover have "\<not> wants_digest (sample_signed\<lparr>rq_body := []\<rparr>)" "basic_auth [] = None" by code_simp+
  then have "digest_status toy_prims toy_server sample_signed 0 \<noteq> AuthSuccess" "\<not> basic_ok toy_server sample_signed"
    by (simp_all add: wants_digest_def digest_status_def basic_ok_def sample_signed_def toy_request_def)
  ultimately show ?thesis
    using signed_request_vouched[OF reader.xml_decoder_axioms, of "sv_cred toy_server" toy_server "''2024''" reboot_oper
        sample_signed toy_prims "[1, 2]" 0 "[]"] by simp
qed

text \<open>
  Of several tokens in a request the last one counts: the fields of each are decoded over those of the one before.
  A last token without a field takes it from there: here the name comes from the first token, the
  password from the second.
\<close>

lemma last_token_counts:
  assumes "list_all plain_token ks" "ks \<noteq> []" "doc_ok [''s'', ''wsse'', ''wsu''] oper"
  shows "extract_username_token first_element (signed_text ks oper) = Some (last ks)"
  using reader.extract_request[OF assms(1,3)] assms(2) by (simp add: signed_text_def)

lemma tokens_merge:
  "decode_children security_field
     (xblock ''wsse:Security'' [] [
        xblock ''wsse:UsernameToken'' [] [xtext ''wsse:Username'' ''admin''],
        xblock ''x:UsernameToken'' [] [xfield ''y:Password'' [(''Type'', ''#PasswordText'')] ''pw'']] d) None =
   Some (empty_token\<lparr>t_username := ''admin'', t_password_type := ''#PasswordText'', t_password := ''pw''\<rparr>)"
  by (simp add: decode_block decode_child_def security_field_def token_field_def xml_local_def type_attr_def empty_token_def)

subsection \<open>Who is not\<close>

text \<open>The fault of a refused request can be read back, and its subcode says why.\<close>

theorem refusal_read:
  "read_xml format_not_authorized_fault = Some [Chars (new_line 0), not_authorized] \<and>
   well_formed [] not_authorized"
proof -
  have "doc_ok [] (\<lambda>d. not_authorized)"
    unfolding not_authorized_def doc_ok_def
    by (simp add: attrs_ok_def head_simps xblock_def xfield_def)
  then have "well_formed [] not_authorized" "\<not> is_chars not_authorized" by (simp_all add: doc_ok_def)
  then show ?thesis by (simp add: format_not_authorized_fault_def read_prolog)
qed

end
