(* ===== verification/Frame_Extractor.thy ===== *)
theory Frame_Extractor
  imports Recording_Cache_Proofs Sdcard_Transfer
begin

text \<open>
  \<^verbatim>\<open>pkg/storage/extractor.go\<close>: the choice of the ffmpeg binary, one run of it into a temporary file that
  is renamed, and the chain of offsets. What a run leaves and whether it succeeds is the environment; the
  cache sees the extractor as \<^const>\<open>extract_frame\<close>, which the file-by-file account here refines.
\<close>

subsection \<open>The binary\<close>

record ffmpeg =
  ff_path :: string
  ff_available :: bool

text \<open>\<open>look\<close> is what the search in PATH gives, \<open>is_file\<close> whether a path is there and no directory.\<close>

definition new_ffmpeg :: "string option \<Rightarrow> (string \<Rightarrow> bool) \<Rightarrow> string \<Rightarrow> ffmpeg" where
  "new_ffmpeg look is_file path =
     (let p = (if path \<noteq> [] then path
               else case look of
                 Some q \<Rightarrow> q
               | None \<Rightarrow> (case find is_file [''/usr/local/bin/ffmpeg'', ''/usr/bin/ffmpeg''] of Some q \<Rightarrow> q | None \<Rightarrow> []))
      in \<lparr>ff_path = p, ff_available = p \<noteq> [] \<and> is_file p\<rparr>)"

definition ffmpeg_available :: "ffmpeg option \<Rightarrow> bool" where
  "ffmpeg_available e = (case e of None \<Rightarrow> False | Some f \<Rightarrow> ff_available f)"

subsection \<open>One run\<close>

text \<open>The offset in seconds with two decimals; offsets are milliseconds and multiples of ten of them here.\<close>

definition offset_text :: "int \<Rightarrow> string" where
  "offset_text ms =
     (let h = ms div 10 in dec_of_int (h div 100) @ ''.'' @ (if h mod 100 < 10 then ''0'' else []) @ dec_of_int (h mod 100))"

definition ffmpeg_args :: "string \<Rightarrow> int \<Rightarrow> string \<Rightarrow> string list" where
  "ffmpeg_args video ms tmp =
     [''-y'', ''-ss'', offset_text ms, ''-i'', video, ''-frames:v'', ''1'', ''-vf'', ''scale=640:-1'', ''-q:v'', ''3'',
      ''-f'', ''mjpeg'', tmp]"

text \<open>What ffmpeg wrote to the file it was given, its exit, and the rename after it.\<close>

record ffmpeg_run =
  written :: "int option"
  exit_ok :: bool
  saved :: bool

datatype extract_error = ExtractorUnavailable | InvalidVideo | NoThumbDir | RunFailed | EmptyThumb | SaveFailed

definition tmp_thumb :: "string \<Rightarrow> string" where
  "tmp_thumb thumb = ''.tmp_'' @ thumb"

definition ffmpeg_turn :: "ffmpeg_run \<Rightarrow> string \<Rightarrow> directory \<Rightarrow> (extract_error + unit) \<times> directory" where
  "ffmpeg_turn x thumb d =
     (let tmp = tmp_thumb thumb;
          d1 = (case written x of None \<Rightarrow> d | Some n \<Rightarrow> dir_write tmp \<lparr>f_size = n, f_kind = Plain\<rparr> d);
          (r, d2) =
            (if \<not> exit_ok x then (Inl RunFailed, d1)
             else case map_of d1 tmp of
               None \<Rightarrow> (Inl EmptyThumb, d1)
             | Some f \<Rightarrow>
                 if f_size f = 0 then (Inl EmptyThumb, d1)
                 else if \<not> saved x then (Inl SaveFailed, d1)
                 else (Inr (), dir_rename tmp thumb d1))
      in (r, dir_remove tmp d2))"

subsection \<open>The chain\<close>

definition ffmpeg_chain :: "(int \<Rightarrow> ffmpeg_run) \<Rightarrow> int \<Rightarrow> string \<Rightarrow> directory \<Rightarrow> (extract_error + unit) \<times> directory" where
  "ffmpeg_chain run off thumb d =
     (case ffmpeg_turn (run off) thumb d of
        (Inr u, d1) \<Rightarrow> (Inr u, d1)
      | (Inl e, d1) \<Rightarrow>
          (case (if off > 1000 then ffmpeg_turn (run 1000) thumb d1 else (Inl e, d1)) of
             (Inr u, d2) \<Rightarrow> (Inr u, d2)
           | (Inl e2, d2) \<Rightarrow> ffmpeg_turn (run 0) thumb d2))"

definition ffmpeg_extract ::
  "ffmpeg option \<Rightarrow> int option \<Rightarrow> bool \<Rightarrow> (int \<Rightarrow> ffmpeg_run) \<Rightarrow> int \<Rightarrow> string \<Rightarrow> directory \<Rightarrow>
     (extract_error + unit) \<times> directory" where
  "ffmpeg_extract e video_size mkdir_ok run off thumb d =
     (if \<not> ffmpeg_available e then (Inl ExtractorUnavailable, d)
      else case video_size of
        None \<Rightarrow> (Inl InvalidVideo, d)
      | Some n \<Rightarrow>
          if n = 0 then (Inl InvalidVideo, d)
          else if \<not> mkdir_ok then (Inl NoThumbDir, d)
          else ffmpeg_chain run off thumb d)"

subsection \<open>Properties\<close>

text \<open>A path that is configured is not made up for by another one: without a file there, nothing is extracted.\<close>

lemma configured_path_final:
  assumes "path \<noteq> []" "\<not> is_file path"
  shows "\<not> ffmpeg_available (Some (new_ffmpeg look is_file path))"
  using assms by (simp add: ffmpeg_available_def new_ffmpeg_def)

lemma available_is_file: "ffmpeg_available (Some (new_ffmpeg look is_file path)) \<Longrightarrow> is_file (ff_path (new_ffmpeg look is_file path))"
  by (simp add: ffmpeg_available_def new_ffmpeg_def Let_def)

text \<open>The size that the abstract extractor gives for a run.\<close>

definition run_size :: "ffmpeg_run \<Rightarrow> int option" where
  "run_size x = (if exit_ok x \<and> saved x then written x else None)"

lemma tmp_not_thumb [simp]: "tmp_thumb thumb \<noteq> thumb" "thumb \<noteq> tmp_thumb thumb"
  by (auto simp: tmp_thumb_def dest: arg_cong[where f = length])

lemmas dir_lookups = lookup_dir_remove lookup_dir_write

text \<open>A run changes the picture alone, and only when it succeeds; the temporary file is gone in every case.\<close>

lemma turn_files:
  assumes "map_of d (tmp_thumb thumb) = None" "ffmpeg_turn x thumb d = (r, d')"
  shows "map_of d' = (case run_extraction (\<lambda>_. run_size x) ms of
           None \<Rightarrow> map_of d | Some n \<Rightarrow> (map_of d)(thumb \<mapsto> \<lparr>f_size = n, f_kind = Plain\<rparr>))"
    and "r = Inr () \<longleftrightarrow> run_extraction (\<lambda>_. run_size x) ms \<noteq> None"
  using assms
  by (auto simp: ffmpeg_turn_def run_extraction_def run_size_def dir_rename_def dir_lookups Let_def fun_eq_iff
      split: option.splits if_splits)

lemma chain_files:
  assumes "map_of d (tmp_thumb thumb) = None" "ffmpeg_chain run off thumb d = (r, d')"
  shows "map_of d' = (case extract_frame (run_size \<circ> run) (Some 1) off of
           None \<Rightarrow> map_of d | Some n \<Rightarrow> (map_of d)(thumb \<mapsto> \<lparr>f_size = n, f_kind = Plain\<rparr>)) \<and>
    (r = Inr () \<longleftrightarrow> extract_frame (run_size \<circ> run) (Some 1) off \<noteq> None)"
proof -
  have run: "run_extraction (run_size \<circ> run) ms = run_extraction (\<lambda>_. run_size (run ms)) ms" for ms
    by (simp add: run_extraction_def)
  have turn: "ffmpeg_turn (run ms) thumb e = (s, e') \<Longrightarrow> map_of e (tmp_thumb thumb) = None \<Longrightarrow>
      (s = Inr () \<and> (\<exists>n. run_extraction (run_size \<circ> run) ms = Some n \<and> map_of e' = (map_of e)(thumb \<mapsto> \<lparr>f_size = n, f_kind = Plain\<rparr>))) \<or>
      ((\<exists>x. s = Inl x) \<and> run_extraction (run_size \<circ> run) ms = None \<and> map_of e' = map_of e)" for ms e s e'
    unfolding run using turn_files[of e thumb "run ms" s e' ms] by (cases s) (auto split: option.splits)
  show ?thesis
    using assms(2) unfolding ffmpeg_chain_def extract_frame_def
    by (auto split: prod.splits sum.splits if_splits option.splits dest!: turn simp: assms(1))
qed

text \<open>
  The extractor as the cache sees it: with a binary, a directory and a video, a picture is left exactly if the abstract
  extractor gives its size, and then it is that picture; otherwise no file is changed, an older picture included. No
  temporary file stays.
\<close>

theorem extractor_refines:
  assumes "map_of d (tmp_thumb thumb) = None" "ffmpeg_available e" "mkdir_ok"
    and "ffmpeg_extract e video_size mkdir_ok run off thumb d = (r, d')"
  shows "map_of d' = (case extract_frame (run_size \<circ> run) video_size off of
           None \<Rightarrow> map_of d | Some n \<Rightarrow> (map_of d)(thumb \<mapsto> \<lparr>f_size = n, f_kind = Plain\<rparr>)) \<and>
    (r = Inr () \<longleftrightarrow> extract_frame (run_size \<circ> run) video_size off \<noteq> None) \<and>
    map_of d' (tmp_thumb thumb) = None"
proof (cases "video_size = None \<or> video_size = Some 0")
  case True
  then show ?thesis using assms by (auto simp: ffmpeg_extract_def extract_frame_def)
next
  case False
  then have "ffmpeg_chain run off thumb d = (r, d')" "extract_frame (run_size \<circ> run) video_size off = extract_frame (run_size \<circ> run) (Some 1) off"
    using assms(2-4) by (auto simp: ffmpeg_extract_def extract_frame_def split: if_splits)
  with chain_files[OF assms(1)] assms(1) show ?thesis by (fastforce split: option.split)
qed

theorem extractor_refines_witness:
  "extract_frame (run_size \<circ> (\<lambda>ms. \<lparr>written = if ms = 1000 then Some 9 else None, exit_ok = True, saved = True\<rparr>)) (Some 5) 2000 =
     Some 9 \<and>
   map_of (snd (ffmpeg_extract (Some \<lparr>ff_path = ''/usr/bin/ffmpeg'', ff_available = True\<rparr>) (Some 5) True
     (\<lambda>ms. \<lparr>written = if ms = 1000 then Some 9 else None, exit_ok = True, saved = True\<rparr>) 2000 ''1.jpg'' [])) ''1.jpg'' =
     Some \<lparr>f_size = 9, f_kind = Plain\<rparr>"
proof -
  let ?run = "\<lambda>ms :: int. \<lparr>written = if ms = 1000 then Some (9 :: int) else None, exit_ok = True, saved = True\<rparr>"
  let ?e = "Some \<lparr>ff_path = ''/usr/bin/ffmpeg'', ff_available = True\<rparr>"
  have x: "extract_frame (run_size \<circ> ?run) (Some 5) 2000 = Some 9" "ffmpeg_available ?e" by code_simp+
  obtain r d' where p: "ffmpeg_extract ?e (Some 5) True ?run 2000 ''1.jpg'' [] = (r, d')" by fastforce
  from extractor_refines[OF _ x(2) _ p] x(1) p show ?thesis by simp
qed

text \<open>A temporary file that an earlier end of the program left is taken for the picture of a run that writes none.\<close>

lemma stale_temporary_taken:
  "ffmpeg_turn \<lparr>written = None, exit_ok = True, saved = True\<rparr> ''1.jpg'' [(''.tmp_1.jpg'', \<lparr>f_size = 7, f_kind = Plain\<rparr>)] =
   (Inr (), [(''1.jpg'', \<lparr>f_size = 7, f_kind = Plain\<rparr>)])"
  by code_simp

end
