(* ===== verification/Sound_Stamps.thy ===== *)
theory Sound_Stamps
  imports Complex_Main Media_Session_Proofs Rtsp_Server
begin

text \<open>
  What the server writes to its stream (\<^verbatim>\<open>WriteVideoPacket\<close>, \<^verbatim>\<open>WriteAudioPacket\<close> and \<^verbatim>\<open>WriteAACFrame\<close> of
  \<^verbatim>\<open>pkg/rtsp/server.go\<close>). The time stamps of the sound are computed in floating point: the numbers are rationals, and each
  operation rounds its exact result to the nearest double, to the even one in between.
\<close>

subsection \<open>Doubles\<close>

text \<open>How often a positive fraction \<open>n / d\<close> is doubled or halved until its whole part has 53 bits.\<close>

function doublings :: "int \<Rightarrow> int \<Rightarrow> nat" where
  "doublings n d = (if n \<le> 0 \<or> 2 ^ 52 * d \<le> n then 0 else Suc (doublings (2 * n) d))"
  by pat_completeness auto
termination by (relation "measure (\<lambda>(n, d). nat (2 ^ 52 * d - n))") auto

function halvings :: "int \<Rightarrow> int \<Rightarrow> nat" where
  "halvings n d = (if d \<le> 0 \<or> n < 2 ^ 53 * d then 0 else Suc (halvings n (2 * d)))"
  by pat_completeness auto
termination by (relation "measure (\<lambda>(n, d). nat (n - d))") auto

declare doublings.simps [simp del] halvings.simps [simp del]

text \<open>The whole number nearest to \<open>n / d\<close>.\<close>

definition half_even :: "int \<Rightarrow> int \<Rightarrow> int" where
  "half_even n d =
     (let q = n div d; r = n mod d in
      if 2 * r < d \<or> (2 * r = d \<and> even q) then q else q + 1)"

definition round_fraction :: "int \<Rightarrow> int \<Rightarrow> rat" where
  "round_fraction n d =
     (let k = doublings n d; j = halvings n d
      in of_int (half_even (n * 2 ^ k) (d * 2 ^ j)) * 2 ^ j / 2 ^ k)"

definition double :: "rat \<Rightarrow> rat" where
  "double x = (case quotient_of x of (n, d) \<Rightarrow> if n < 0 then - round_fraction (- n) d else round_fraction n d)"

lemma half_even_near:
  assumes "0 < d"
  shows "\<bar>of_int (half_even n d) - of_int n / of_int d\<bar> \<le> (1 / 2 :: rat)"
proof -
  define q r where "q = n div d" and "r = n mod d"
  have n: "n = q * d + r" "0 \<le> r" "r < d" using assms by (simp_all add: q_def r_def)
  have x: "(of_int n / of_int d :: rat) = of_int q + of_int r / of_int d" using assms by (simp add: n field_simps)
  have "half_even n d = q \<and> 2 * r \<le> d \<or> half_even n d = q + 1 \<and> d \<le> 2 * r"
    by (auto simp: half_even_def Let_def q_def r_def)
  then show ?thesis
  proof
    assume "half_even n d = q \<and> 2 * r \<le> d"
    moreover then have "(of_int r / of_int d :: rat) \<le> 1 / 2" using assms by (simp add: field_simps flip: of_int_mult of_int_le_iff)
    moreover have "0 \<le> (of_int r / of_int d :: rat)" using n assms by simp
    ultimately show ?thesis unfolding x by linarith
  next
    assume "half_even n d = q + 1 \<and> d \<le> 2 * r"
    moreover then have "(1 / 2 :: rat) \<le> of_int r / of_int d" "(of_int r / of_int d :: rat) \<le> 1"
      using n assms by (simp_all add: field_simps flip: of_int_mult of_int_le_iff)
    ultimately show ?thesis unfolding x by linarith
  qed
qed

lemma doublings_enough: "0 < n \<Longrightarrow> 2 ^ 52 * d \<le> n * 2 ^ doublings n d"
proof (induction n d rule: doublings.induct)
  case (1 n d)
  then show ?case by (subst doublings.simps) (auto simp: algebra_simps)
qed

lemma halvings_enough: "2 ^ 52 * d \<le> n \<Longrightarrow> 2 ^ 52 * (d * 2 ^ halvings n d) \<le> n"
proof (induction n d rule: halvings.induct)
  case (1 n d)
  then show ?case by (subst halvings.simps) (auto simp: algebra_simps)
qed

lemma one_direction: "doublings n d = 0 \<or> halvings n d = 0 \<or> n \<le> 0"
  by (auto simp: doublings.simps[of n d] halvings.simps[of n d])

lemma round_fraction_near:
  assumes "0 < n" "0 < d"
  shows "\<bar>round_fraction n d - of_int n / of_int d\<bar> \<le> (of_int n / of_int d) / 2 ^ 53"
proof -
  define k j where "k = doublings n d" and "j = halvings n d"
  define N D where "N = n * 2 ^ k" and "D = d * 2 ^ j"
  define c :: rat where "c = 2 ^ j / 2 ^ k"
  have D: "0 < D" and c: "0 < c" using assms by (simp_all add: D_def c_def)
  have "2 ^ 52 * D \<le> N"
  proof (cases "2 ^ 52 * d \<le> n")
    case True
    then have "k = 0" using assms by (simp add: k_def doublings.simps[of n d])
    then show ?thesis using halvings_enough[OF True] by (simp add: N_def D_def j_def)
  next
    case False
    then have "j = 0" using assms by (simp add: j_def halvings.simps[of n d])
    then show ?thesis using doublings_enough[OF assms(1)] by (simp add: N_def D_def k_def)
  qed
  then have "(2 ^ 52 * of_int D :: rat) \<le> of_int N" by (metis of_int_le_iff of_int_mult of_int_numeral of_int_power)
  then have "1 / 2 \<le> (of_int N / of_int D :: rat) / 2 ^ 53" using D by (simp add: field_simps)
  then have "\<bar>of_int (half_even N D) - of_int N / of_int D\<bar> \<le> (of_int N / of_int D :: rat) / 2 ^ 53"
    using half_even_near[OF D, of N] by linarith
  then have "c * \<bar>of_int (half_even N D) - of_int N / of_int D\<bar> \<le> c * ((of_int N / of_int D :: rat) / 2 ^ 53)"
    using c by (intro mult_left_mono) simp_all
  moreover have "c * (of_int N / of_int D) = of_int n / of_int d"
    using assms by (simp add: c_def N_def D_def field_simps)
  moreover have "round_fraction n d = c * of_int (half_even N D)"
    by (simp add: round_fraction_def Let_def c_def N_def D_def k_def j_def)
  moreover have "c * \<bar>y\<bar> = \<bar>c * y\<bar>" for y using c by (simp add: abs_mult)
  ultimately show ?thesis by (simp add: right_diff_distrib)
qed

text \<open>A double is off by a 53rd of its binary digits at most.\<close>

lemma double_near:
  assumes "0 \<le> x"
  shows "\<bar>double x - x\<bar> \<le> x / 2 ^ 53"
proof (cases "x = 0")
  case True
  then show ?thesis by (simp add: double_def round_fraction_def half_even_def doublings.simps halvings.simps)
next
  case False
  obtain n d where q: "quotient_of x = (n, d)" by fastforce
  then have d: "0 < d" "x = of_int n / of_int d" using quotient_of_denom_pos quotient_of_div by auto
  then have "0 < n" using assms False by (metis divide_nonpos_pos not_less of_int_0_less_iff of_int_le_0_iff order_antisym)
  then have "double x = round_fraction n d" by (simp add: double_def q)
  then show ?thesis using round_fraction_near[OF \<open>0 < n\<close> d(1)] by (simp only: d(2))
qed

subsection \<open>What is written\<close>

record media_packet =
  mp_type :: nat
  mp_payload :: bytes

definition write_video_packet :: "bool \<Rightarrow> media_packet \<Rightarrow> media_packet option" where
  "write_video_packet stream p = (if stream then Some (p\<lparr>mp_type := 96\<rparr>) else None)"

definition write_audio_packet :: "bool \<Rightarrow> media_packet \<Rightarrow> media_packet option" where
  "write_audio_packet stream p = (if stream then Some (p\<lparr>mp_type := 0\<rparr>) else None)"

text \<open>\<^verbatim>\<open>Duration.Seconds\<close>: whole seconds and the rest are converted apart.\<close>

definition duration_seconds_of :: "int \<Rightarrow> rat" where
  "duration_seconds_of d =
     (let s = go_div d 1000000000; r = d - s * 1000000000
      in double (double (of_int s) + double (double (of_int r) / 1000000000)))"

text \<open>The conversion of a double that an unsigned 32-bit integer cannot hold is left to the machine, here \<open>big\<close>.\<close>

definition go_uint32 :: "(rat \<Rightarrow> u32) \<Rightarrow> rat \<Rightarrow> u32" where
  "go_uint32 big x =
     (let t = (if x < 0 then - \<lfloor>- x\<rfloor> else \<lfloor>x\<rfloor>) in if 0 \<le> t \<and> t < 2 ^ 32 then word_of_int t else big x)"

definition aac_stamp :: "(rat \<Rightarrow> u32) \<Rightarrow> int \<Rightarrow> u32" where
  "aac_stamp big pts = go_uint32 big (double (duration_seconds_of pts * 16000))"

text \<open>The packets of an access unit, with the packetizer of gortsplib (None: there is none; its None is an error).\<close>

definition write_aac_frame ::
  "(rat \<Rightarrow> u32) \<Rightarrow> bool \<Rightarrow> (bytes \<Rightarrow> bytes list option) option \<Rightarrow> bytes \<Rightarrow> int \<Rightarrow> (u32 \<times> bytes) list" where
  "write_aac_frame big stream enc au pts =
     (case enc of
        None \<Rightarrow> []
      | Some e \<Rightarrow>
          if \<not> stream \<or> au = [] then []
          else case e au of None \<Rightarrow> [] | Some ps \<Rightarrow> map (Pair (aac_stamp big pts)) ps)"

subsection \<open>How far the stamps are off\<close>

lemma double_nonneg:
  assumes "0 \<le> x"
  shows "0 \<le> double x"
proof -
  have "x / 2 ^ 53 \<le> x" using assms by (simp add: field_simps)
  then show ?thesis using double_near[OF assms] by linarith
qed

text \<open>For three days, the error of all six roundings together is far below one.\<close>

lemma double_close:
  assumes "0 \<le> x" "x \<le> 5000000000"
  shows "\<bar>double x - x\<bar> \<le> 1 / 1000000"
proof -
  have "x / 2 ^ 53 \<le> 1 / 1000000" using assms(2) by simp
  then show ?thesis using double_near[OF assms(1)] by linarith
qed

lemma seconds_near:
  assumes "0 \<le> d" "d < 2 ^ 49"
  shows "\<bar>duration_seconds_of d - of_int d / 1000000000\<bar> \<le> 4 / 1000000" "0 \<le> duration_seconds_of d"
proof -
  define s r where "s = d div 1000000000" and "r = d mod 1000000000"
  define a b c :: rat where "a = double (of_int s)" and "b = double (of_int r)" and "c = double (b / 1000000000)"
  define v where "v = (of_int r :: rat) / 1000000000"
  have sr: "0 \<le> s" "0 \<le> r" "r < 1000000000" "s < 1048576" using assms by (simp_all add: s_def r_def)
  have "(of_int d :: rat) = of_int (s * 1000000000 + r)" by (simp only: s_def r_def div_mult_mod_eq)
  then have d: "(of_int d :: rat) / 1000000000 = of_int s + v" by (simp add: v_def field_simps)
  have q: "(of_int s :: rat) < 1048576" "(of_int r :: rat) < 1000000000" "0 \<le> (of_int s :: rat)" "0 \<le> (of_int r :: rat)"
  proof -
    have "(of_int s :: rat) < of_int 1048576" "(of_int r :: rat) < of_int 1000000000"
      using sr by (simp_all only: of_int_less_iff)
    then show "(of_int s :: rat) < 1048576" "(of_int r :: rat) < 1000000000" by simp_all
  qed (use sr in simp_all)
  then have v: "0 \<le> v" "v < 1" by (simp_all add: v_def)
  have a: "\<bar>a - of_int s\<bar> \<le> 1 / 1000000" unfolding a_def by (rule double_close) (use q in simp_all)
  have b: "\<bar>b - of_int r\<bar> \<le> 1 / 1000000" unfolding b_def by (rule double_close) (use q in simp_all)
  have nn: "0 \<le> a" "0 \<le> b" "0 \<le> c" using q by (simp_all add: a_def b_def c_def double_nonneg)
  have "\<bar>b / 1000000000 - v\<bar> = \<bar>b - of_int r\<bar> / 1000000000" by (simp add: v_def flip: diff_divide_distrib)
  then have u: "\<bar>b / 1000000000 - v\<bar> \<le> 1 / 1000000" using b by simp
  then have "b / 1000000000 \<le> 5000000000" using v by linarith
  then have "\<bar>c - b / 1000000000\<bar> \<le> 1 / 1000000" unfolding c_def using nn by (intro double_close) simp_all
  then have c: "\<bar>c - v\<bar> \<le> 2 / 1000000" using u by linarith
  have "a + c \<le> 5000000000" using a c q v by linarith
  then have "\<bar>double (a + c) - (a + c)\<bar> \<le> 1 / 1000000" using nn by (intro double_close) simp_all
  moreover have e: "duration_seconds_of d = double (a + c)"
    using assms(1) by (simp add: duration_seconds_of_def Let_def a_def b_def c_def s_def r_def minus_div_mult_eq_mod del: of_int_diff of_int_mult)
  ultimately show "\<bar>duration_seconds_of d - of_int d / 1000000000\<bar> \<le> 4 / 1000000" unfolding d using a c by linarith
  show "0 \<le> duration_seconds_of d" unfolding e using nn by (simp add: double_nonneg)
qed

lemma stamp_near:
  assumes "i < 4194304"
  shows "uint (aac_stamp big (64000000 * int i)) \<in> {1024 * int i - 1, 1024 * int i}"
proof -
  define y x :: rat where "y = duration_seconds_of (64000000 * int i)" and "x = y * 16000"
  have i: "(of_nat i :: rat) < 4194304" using assms of_nat_less_iff[of i 4194304, where ?'a = rat] by simp
  have "0 \<le> 64000000 * int i" "64000000 * int i < 2 ^ 49" using assms by simp_all
  note near = seconds_near[OF this, folded y_def]
  have "(of_int (64000000 * int i) :: rat) / 1000000000 = of_nat i * 64 / 1000" by simp
  with near(1) have "\<bar>y - of_nat i * 64 / 1000\<bar> \<le> 4 / 1000000" by (simp only:)
  then have x: "\<bar>x - 1024 * of_nat i\<bar> \<le> 64 / 1000" "0 \<le> x" using near(2) unfolding x_def by (linarith, simp)
  then have "\<bar>double x - x\<bar> \<le> 1 / 1000000" using i by (intro double_close) (simp, linarith)
  then have near: "\<bar>double x - 1024 * of_nat i\<bar> \<le> 1 / 4" using x by linarith
  have f: "\<lfloor>double x\<rfloor> = 1024 * int i - 1 \<or> \<lfloor>double x\<rfloor> = 1024 * int i"
  proof (cases "double x < 1024 * of_nat i")
    case True
    then have "\<lfloor>double x\<rfloor> = 1024 * int i - 1" using near unfolding floor_eq_iff by simp
    then show ?thesis ..
  next
    case False
    then have "\<lfloor>double x\<rfloor> = 1024 * int i" using near unfolding floor_eq_iff by simp
    then show ?thesis ..
  qed
  have "0 \<le> double x" using x by (simp add: double_nonneg)
  moreover from this have "0 \<le> \<lfloor>double x\<rfloor>" by simp
  moreover have "\<lfloor>double x\<rfloor> < 2 ^ 32" using f assms by (elim disjE) simp_all
  ultimately have "aac_stamp big (64000000 * int i) = word_of_int \<lfloor>double x\<rfloor>"
    unfolding aac_stamp_def go_uint32_def x_def y_def by simp
  moreover have "uint (word_of_int k :: u32) = k" if "0 \<le> k" "k < 2 ^ 32" for k
    using that by (simp add: uint_word_of_int_eq take_bit_int_eq_self)
  ultimately show ?thesis using f \<open>0 \<le> \<lfloor>double x\<rfloor>\<close> \<open>\<lfloor>double x\<rfloor> < 2 ^ 32\<close> by simp
qed

text \<open>
  Sound from the transcoder to the clients: for the first 4194304 frames, three days and two and a half hours of it, the packets of
  the frame with the number \<open>i\<close> carry the stamp \<open>1024 * i\<close> of its first sample, or one less.
\<close>

theorem stamps_follow_samples:
  assumes "transcode dec ds new_transcoder = (fs, t)" "i < length fs" "i < 4194304"
    and "(w, p) \<in> set (write_aac_frame big stream enc au (snd (fs ! i)))"
  shows "uint w \<in> {1024 * int i - 1, 1024 * int i}"
proof -
  have "snd (fs ! i) = 64000000 * int i" using transcoder_stamps[OF assms(1,2)] assms(3) by simp
  moreover have "w = aac_stamp big (snd (fs ! i))"
    using assms(4) by (auto simp: write_aac_frame_def split: option.splits if_splits)
  ultimately show ?thesis using stamp_near[OF assms(3)] by simp
qed

lemma length_pcm: "length (pcm_of dec d) = 4 * length d"
proof -
  have "length (sample_bytes s) = 2 * length s" for s by (induction s) (simp_all add: sample_bytes_def le16_def)
  then show ?thesis using resample_16k_spec[of "map dec d"] by (simp add: pcm_of_def)
qed

theorem stamps_follow_samples_witness:
  "\<exists>fs t. transcode (\<lambda>_. 0) [replicate 700 0xff] new_transcoder = (fs, t) \<and>
     (\<exists>w. write_aac_frame big True (Some (\<lambda>au. Some [au])) [1] (snd (fs ! 0)) = [(w, [1])] \<and> uint w \<in> {- 1, 0})"
proof -
  obtain fs t where t: "transcode (\<lambda>_. 0) [replicate 700 0xff] new_transcoder = (fs, t)" by fastforce
  have "0 < length fs"
  proof (rule ccontr)
    obtain n where "encode_all (concat (map (pcm_of (\<lambda>_. 0)) [replicate 700 0xff])) 0 = (fs, tc_buf t, n)" using transcoder_run[OF t] ..
    from aac.run_frames[OF this] have "concat (map fst fs) @ tc_buf t = pcm_of (\<lambda>_. 0) (replicate 700 0xff)" "length (tc_buf t) < frame_bytes"
      by simp_all
    moreover assume "\<not> 0 < length fs"
    ultimately have "length (pcm_of (\<lambda>_. 0) (replicate 700 0xff)) < frame_bytes" by simp
    then show False by (simp add: length_pcm frame_bytes_def frame_samples_def)
  qed
  from stamps_follow_samples[OF t this, of _ "[1]" big True "Some (\<lambda>au. Some [au])" "[1]"] show ?thesis
    using t by (auto simp: write_aac_frame_def)
qed

text \<open>One less it is already for the frame with the number 21.\<close>

lemma stamp_one_less: "aac_stamp big (64000000 * 21) = 21503"
  by code_simp

text \<open>After that the stamp is what the machine makes of a number that is too large.\<close>

lemma stamp_overflows: "aac_stamp big (64000000 * 4194304) = big 4294967296"
proof -
  have "double (duration_seconds_of (64000000 * 4194304) * 16000) = 4294967296" by code_simp
  then show ?thesis unfolding aac_stamp_def by (simp only: go_uint32_def) simp
qed

end
