(* ===== verification/Ingest_Life.thy ===== *)
theory Ingest_Life
  imports Camera_Stream
begin

text \<open>
  The life of the stream reader of the L 620 (\<^verbatim>\<open>RTSPIngest\<close> in \<^verbatim>\<open>pkg/xiongmai/rtsp_ingest.go\<close>): its loop and \<^verbatim>\<open>Close\<close> run
  at the same time and share the closed flag, the channel and the field with the client of the current attempt.
  A step is what happens between two points where the other can come in.
\<close>

subsection \<open>The states\<close>

text \<open>
  Where the loop is: before its check, in front of the next of so many candidates (with the error so far), in
  an attempt with a client and so many candidates after it, with the result of the session, in the wait after an error,
  at its end.
\<close>

datatype reader =
    AtCheck
  | Choosing nat "ingest_error option"
  | Attempting nat nat
  | SessionDone "ingest_error option"
  | Backoff
  | Ended

text \<open>How far \<^verbatim>\<open>Close\<close> has come: the flag is set, the channel is closed, the client is taken from the field.\<close>

datatype closer = NotCalled | FlagSet | ChanClosed | Taken "nat option" | CloseDone

record ingest =
  ig_reader :: reader
  ig_closer :: closer
  ig_client :: "nat option"
  ig_open :: "nat set"
  ig_made :: nat
  ig_candidates :: nat

definition new_ingest :: "nat \<Rightarrow> ingest" where
  "new_ingest n = \<lparr>ig_reader = AtCheck, ig_closer = NotCalled, ig_client = None, ig_open = {}, ig_made = 0, ig_candidates = n\<rparr>"

abbreviation ig_closed :: "ingest \<Rightarrow> bool" where
  "ig_closed g \<equiv> ig_closer g \<noteq> NotCalled"

definition chan_closed :: "ingest \<Rightarrow> bool" where
  "chan_closed g \<longleftrightarrow> ig_closer g \<noteq> NotCalled \<and> ig_closer g \<noteq> FlagSet"

subsection \<open>The loop\<close>

definition check :: "ingest \<Rightarrow> ingest" where
  "check g = g\<lparr>ig_reader := (if chan_closed g then Ended else Choosing (ig_candidates g) None)\<rparr>"

text \<open>What the loop does with the result of a session: an error that \<^verbatim>\<open>Close\<close> did not cause is waited for.\<close>

definition after_session :: "ingest_error option \<Rightarrow> ingest \<Rightarrow> ingest" where
  "after_session res g = g\<lparr>ig_reader := (if res \<noteq> None \<and> \<not> ig_closed g then Backoff else AtCheck)\<rparr>"

text \<open>The next candidate gets a client of its own; an address that cannot be parsed is passed over.\<close>

definition next_candidate :: "bool \<Rightarrow> ingest \<Rightarrow> ingest" where
  "next_candidate parsed g =
     (case ig_reader g of
        Choosing (Suc n) err \<Rightarrow>
          if parsed
          then g\<lparr>ig_reader := Attempting (ig_made g) n, ig_client := Some (ig_made g),
                 ig_open := insert (ig_made g) (ig_open g), ig_made := Suc (ig_made g)\<rparr>
          else g\<lparr>ig_reader := Choosing n err\<rparr>
      | Choosing 0 err \<Rightarrow> g\<lparr>ig_reader := SessionDone err\<rparr>
      | _ \<Rightarrow> g)"

text \<open>The end of an attempt: the deferred function, then the checks after it.\<close>

definition attempt_ends :: "ingest_error option \<Rightarrow> ingest \<Rightarrow> ingest" where
  "attempt_ends res g =
     (case ig_reader g of
        Attempting c n \<Rightarrow>
          (let g1 = g\<lparr>ig_client := (if ig_client g = Some c then None else ig_client g), ig_open := ig_open g - {c}\<rparr> in
           if res = None \<or> ig_closed g1 then g1\<lparr>ig_reader := SessionDone None\<rparr>
           else if res = Some DialFailed then g1\<lparr>ig_reader := SessionDone res\<rparr>
           else g1\<lparr>ig_reader := Choosing n res\<rparr>)
      | _ \<Rightarrow> g)"

subsection \<open>Close\<close>

definition close_step :: "ingest \<Rightarrow> ingest" where
  "close_step g =
     (case ig_closer g of
        NotCalled \<Rightarrow> g\<lparr>ig_closer := FlagSet\<rparr>
      | FlagSet \<Rightarrow> g\<lparr>ig_closer := ChanClosed\<rparr>
      | ChanClosed \<Rightarrow> g\<lparr>ig_closer := Taken (ig_client g), ig_client := None\<rparr>
      | Taken c \<Rightarrow> g\<lparr>ig_closer := CloseDone, ig_open := (case c of None \<Rightarrow> ig_open g | Some k \<Rightarrow> ig_open g - {k})\<rparr>
      | CloseDone \<Rightarrow> g)"

text \<open>
  The steps. A wait ends when its time is up, when the channel is closed or with the context of the program, which the
  check sees as well; an attempt ends with some result, for one when its client was closed.
\<close>

inductive ingest_step :: "ingest \<Rightarrow> ingest \<Rightarrow> bool" where
  step_check: "ig_reader g = AtCheck \<Longrightarrow> ingest_step g (check g)"
| step_candidate: "ig_reader g = Choosing n err \<Longrightarrow> ingest_step g (next_candidate parsed g)"
| step_end: "ig_reader g = Attempting c n \<Longrightarrow> ingest_step g (attempt_ends res g)"
| step_result: "ig_reader g = SessionDone res \<Longrightarrow> ingest_step g (after_session res g)"
| step_waited: "ig_reader g = Backoff \<Longrightarrow> ingest_step g (g\<lparr>ig_reader := AtCheck\<rparr>)"
| step_told: "ig_reader g = Backoff \<Longrightarrow> chan_closed g \<Longrightarrow> ingest_step g (g\<lparr>ig_reader := Ended\<rparr>)"
| step_cancelled: "ig_reader g \<in> {AtCheck, Backoff} \<Longrightarrow> ingest_step g (g\<lparr>ig_reader := Ended\<rparr>)"
| step_close: "ig_closer g \<noteq> CloseDone \<Longrightarrow> ingest_step g (close_step g)"

inductive ingest_reachable :: "nat \<Rightarrow> ingest \<Rightarrow> bool" for n where
  reach_new: "ingest_reachable n (new_ingest n)"
| reach_step: "ingest_reachable n g \<Longrightarrow> ingest_step g h \<Longrightarrow> ingest_reachable n h"

inductive ingest_runs :: "ingest \<Rightarrow> ingest \<Rightarrow> bool" where
  runs_none: "ingest_runs g g"
| runs_step: "ingest_runs g h \<Longrightarrow> ingest_step h k \<Longrightarrow> ingest_runs g k"

inductive_cases ingest_stepE: "ingest_step g h"

lemmas ingest_defs = check_def next_candidate_def attempt_ends_def close_step_def after_session_def chan_closed_def Let_def

subsection \<open>One client at a time\<close>

text \<open>The only client that can be open is that of the attempt under way; it is in the field unless \<^verbatim>\<open>Close\<close> has taken it.\<close>

definition ingest_inv :: "ingest \<Rightarrow> bool" where
  "ingest_inv g \<longleftrightarrow>
     (case ig_reader g of
        Attempting c n \<Rightarrow> ig_open g \<subseteq> {c} \<and> c < ig_made g \<and>
          (ig_client g = Some c \<or> ig_client g = None \<and> (ig_closer g = Taken (Some c) \<or> ig_closer g = CloseDone \<and> c \<notin> ig_open g))
      | _ \<Rightarrow> ig_open g = {} \<and> ig_client g = None) \<and>
     (\<forall>k. ig_closer g = Taken (Some k) \<longrightarrow> k < ig_made g)"

lemma ingest_inv_step: "ingest_inv g \<Longrightarrow> ingest_step g h \<Longrightarrow> ingest_inv h"
  by (erule ingest_stepE)
     (auto simp: ingest_inv_def ingest_defs split: reader.splits closer.splits nat.splits if_splits option.splits)

lemma reachable_inv: "ingest_reachable n g \<Longrightarrow> ingest_inv g"
proof (induction rule: ingest_reachable.induct)
  case reach_new
  then show ?case by (simp add: ingest_inv_def new_ingest_def)
next
  case (reach_step g h)
  then show ?case by (blast intro: ingest_inv_step)
qed

subsection \<open>What Close leaves behind\<close>

text \<open>From the moment the flag is set: the clients that the loop can still make.\<close>

definition still_made :: "ingest \<Rightarrow> nat" where
  "still_made g =
     (case ig_reader g of
        Choosing n err \<Rightarrow> min n 1
      | AtCheck \<Rightarrow> if chan_closed g then 0 else 1
      | SessionDone res \<Rightarrow> if chan_closed g then 0 else 1
      | Backoff \<Rightarrow> if chan_closed g then 0 else 1
      | Attempting c n \<Rightarrow> if chan_closed g then 0 else 1
      | Ended \<Rightarrow> 0)"

lemma still_made_step:
  "chan_closed g \<Longrightarrow> ingest_step g h \<Longrightarrow> chan_closed h \<and> ig_made h + still_made h \<le> ig_made g + still_made g"
  by (erule ingest_stepE)
     (auto simp: still_made_def ingest_defs split: reader.splits closer.splits nat.splits if_splits)

lemma made_grows: "ingest_step g h \<Longrightarrow> ig_made g \<le> ig_made h"
  by (erule ingest_stepE) (auto simp: ingest_defs split: reader.splits closer.splits nat.splits if_splits)

lemma still_made_runs:
  "ingest_runs g h \<Longrightarrow> chan_closed g \<Longrightarrow>
   chan_closed h \<and> ig_made h + still_made h \<le> ig_made g + still_made g \<and> ig_made g \<le> ig_made h"
proof (induction rule: ingest_runs.induct)
  case (runs_step g h k)
  then show ?case using still_made_step[of h k] made_grows[of h k] by (meson order.trans)
qed simp

lemma runs_reachable: "ingest_runs g h \<Longrightarrow> ingest_reachable n g \<Longrightarrow> ingest_reachable n h"
  by (induction rule: ingest_runs.induct) (auto intro: reach_step)

lemma settled:
  assumes "chan_closed g" "\<forall>m err. ig_reader g \<noteq> Choosing (Suc m) err"
  shows "still_made g = 0"
proof (cases "ig_reader g")
  case (Choosing m err)
  then show ?thesis using assms(2) by (cases m) (simp_all add: still_made_def)
qed (use assms in \<open>simp_all add: still_made_def\<close>)

text \<open>No client will be made any more, and one that is in the field will be taken by \<^verbatim>\<open>Close\<close>.\<close>

definition winding_up :: "ingest \<Rightarrow> bool" where
  "winding_up g \<longleftrightarrow> chan_closed g \<and> still_made g = 0 \<and> (ig_client g \<noteq> None \<longrightarrow> ig_closer g = ChanClosed)"

lemma winding_up_step: "winding_up g \<Longrightarrow> ingest_step g h \<Longrightarrow> winding_up h"
  by (erule ingest_stepE)
     (auto simp: winding_up_def still_made_def ingest_defs split: reader.splits closer.splits nat.splits if_splits)

lemma winding_up_runs: "ingest_runs g h \<Longrightarrow> winding_up g \<Longrightarrow> winding_up h"
  by (induction rule: ingest_runs.induct) (auto intro: winding_up_step)

lemma wound_up: "winding_up g \<Longrightarrow> ingest_inv g \<Longrightarrow> ig_closer g = CloseDone \<Longrightarrow> ig_open g = {}"
  by (auto simp: winding_up_def ingest_inv_def split: reader.splits)


text \<open>
  Two runs for two candidates. In the first the attempt is under way when \<^verbatim>\<open>Close\<close> comes. In the second the loop has passed its check:
  it makes a client after \<^verbatim>\<open>Close\<close> has returned, and only the camera ends what it reads then.
\<close>

definition closed_while_streaming :: ingest where
  "closed_while_streaming = (close_step ^^ 2) (next_candidate True (check (new_ingest 2)))"

definition closed_before_client :: ingest where
  "closed_before_client = next_candidate True ((close_step ^^ 4) (check (new_ingest 2)))"

lemma closes: "ingest_reachable n g \<Longrightarrow> ingest_reachable n (close_step g)"
proof (cases "ig_closer g = CloseDone")
  case True
  then show "ingest_reachable n g \<Longrightarrow> ?thesis" by (simp add: close_step_def)
next
  case False
  then show "ingest_reachable n g \<Longrightarrow> ?thesis" by (blast intro: reach_step step_close)
qed

lemma candidate_reachable:
  "ingest_reachable n g \<Longrightarrow> ig_reader g = Choosing m err \<Longrightarrow> ingest_reachable n (next_candidate parsed g)"
  by (rule reach_step[OF _ step_candidate])

lemma first_check: "ingest_reachable n (check (new_ingest n))"
  by (rule reach_step[OF reach_new step_check]) (simp add: new_ingest_def)


lemma client_after_close:
  "ingest_reachable 2 closed_before_client \<and> ig_closer closed_before_client = CloseDone \<and> ig_open closed_before_client = {0} \<and>
   (ingest_step closed_before_client h \<longrightarrow> (\<exists>res. h = attempt_ends res closed_before_client))"
proof -
  have "ingest_reachable 2 ((close_step ^^ 4) (check (new_ingest 2)))"
    by (simp add: eval_nat_numeral closes first_check)
  moreover have "ig_reader ((close_step ^^ 4) (check (new_ingest 2))) = Choosing 2 None"
    by (simp add: eval_nat_numeral ingest_defs new_ingest_def)
  ultimately have "ingest_reachable 2 closed_before_client"
    unfolding closed_before_client_def by (rule candidate_reachable)
  moreover have s: "ig_closer closed_before_client = CloseDone" "ig_open closed_before_client = {0}" "ig_reader closed_before_client = Attempting 0 1"
    by (simp_all add: closed_before_client_def eval_nat_numeral ingest_defs new_ingest_def)
  ultimately show ?thesis by (auto elim!: ingest_stepE)
qed

end
