(* ===== verification/Spec2Isabelle.thy ===== *)
theory Spec2Isabelle
  imports CoAP_Proofs CoAP_Client_Proofs Nabto_Stream_Proofs Nabto_Client Nabto_Connect_Proofs
    Nabto_Sdk_Proofs Bridge_App_Proofs Recording_Cache_Proofs
    Recording_Sync_Proofs Onvif_Server_Proofs Rest_Api Sdcard_Transfer_Proofs
    Home_Control_Proofs Camera_Drivers_Proofs Bridge_Config_Proofs Rtsp_Server_Proofs
    Media_Session_Proofs Session_Proofs L625_Session_Proofs Camera_Stream_Proofs Network_Probe_Proofs
    Event_Query_Proofs Onvif_Reply_Proofs Onvif_Discovery_Proofs Mqtt_Session_Proofs
    Launcher_Proofs Bridge_Log Channel_Commands Soap_Security_Proofs Frame_Extractor
    Sound_Stamps Ingest_Life
begin

text \<open>
  A model of the bridge that makes Steinel cameras known to a home network: it speaks to the L 625 over
  Nabto (CoAP and a data channel) and to the L 620 over the Xiongmai protocol, and offers them as an
  ONVIF device with a REST interface and as a Home Assistant device over MQTT, with a cache of the
  recordings on the SD card. Each group of theories models the packages named with it; a theory whose
  name ends in \<open>Proofs\<close> holds the properties of the theory before it.

  \<^bold>\<open>Foundations.\<close> \<open>Bridge_Prelude\<close>: bytes and words, big- and little-endian codecs, lists that
  hold keys once. \<open>Go_Strings\<close>: the functions of Go's \<^verbatim>\<open>strings\<close>, \<^verbatim>\<open>strconv\<close> and
  \<^verbatim>\<open>base64\<close> packages that the program calls. Strings are lists of bytes, shown as characters;
  \<^verbatim>\<open>int\<close> is an unbounded integer, and wrapped at 64 bits where a value from outside is
  multiplied. A slice expression, a send on a closed channel and the second close of a channel
  that panic are values of their own.

  \<^bold>\<open>The way to the L 625\<close> (\<^verbatim>\<open>pkg/nabtopure\<close>). \<open>CoAP\<close>: the message codec. \<open>CoAP_Client\<close>: its client as
  a step relation, whose steps are the critical sections of \<^verbatim>\<open>Execute\<close>,
  \<^verbatim>\<open>HandleIncomingPacket\<close> and \<^verbatim>\<open>Close\<close> and interleave freely. \<open>Nabto_Stream\<close>: the virtual stream,
  its handshake, segments and acknowledgements; what arrives, and when, is a list of events. \<open>Nabto_Client\<close>:
  the packet header below DTLS and the dispatcher above it. \<open>Nabto_Connect\<close>: the key file, \<^verbatim>\<open>Connect\<close> with
  what it opens, the queries, and the search for the identifiers as a step relation with the client's mutex. \<open>Nabto_Sdk\<close>
  (\<^verbatim>\<open>pkg/nabto/client.go\<close>): the same client over the C library: pairing, key file, messages, and the life of the
  library's handles as a step relation in which \<^verbatim>\<open>Connect\<close>, queries and \<^verbatim>\<open>Close\<close> interleave. \<open>Sdcard_Transfer\<close>
  (\<^verbatim>\<open>pkg/webrtc/sdcard.go\<close>): downloads from the SD card over the data channel, with the bounded
  channels between its handlers and the download. \<open>Event_Query\<close>: the list of recordings as several callers ask for it, a
  step relation over the lock, the channel of the answer and the counter of timeouts. \<open>Channel_Commands\<close>
  (\<^verbatim>\<open>pkg/webrtc/mcu_dispatch.go\<close>, \<^verbatim>\<open>media.go\<close>): the messages to the camera and the loops over its tracks.

  \<^bold>\<open>The way to the L 620\<close> (\<^verbatim>\<open>pkg/xiongmai\<close>). \<open>Xiongmai_Packets\<close>: header, padding, keys and password forms.
  \<open>Xiongmai_Client\<close>: requests, telemetry, the login in its variants, closing, discovery and
  the talk channel. Every operation runs under the client's mutex and is a function of the client's state;
  the camera is a list of bytes and silences. The waiting loop terminates because every packet shortens that list.

  \<^bold>\<open>Lamp and sensors.\<close> \<open>Mcu_Protocol\<close> (\<^verbatim>\<open>pkg/mcu\<close>, \<^verbatim>\<open>pkg/xiongmai/mcu.go\<close>): the frames and strings
  of the two microcontrollers. \<open>Home_Control\<close> (\<^verbatim>\<open>pkg/mqtt\<close>): topics, entities,
  commands and states. \<open>Mqtt_Session\<close>: the connection to the broker from \<^verbatim>\<open>Start\<close> to \<^verbatim>\<open>Close\<close>, with the messages that the
  broker retains and its will. \<open>Camera_Drivers\<close> (\<^verbatim>\<open>pkg/driver\<close>, \<^verbatim>\<open>pkg/xiongmai/driver.go\<close>,
  \<^verbatim>\<open>pkg/app/bridge_manager.go\<close>, \<^verbatim>\<open>pkg/webrtc/mcu_dispatch.go\<close>): the setters of both drivers,
  the dispatch of what comes over the data channel, the motion timer and the supervisors.

  \<^bold>\<open>Live pictures and sound.\<close> \<open>Rtsp_Server\<close> (\<^verbatim>\<open>pkg/rtsp\<close>): the callbacks of the RTSP server,
  who may play and who may talk, and the wrapper that takes talk packets out of a connection. \<open>Media_Session\<close>
  (\<^verbatim>\<open>pkg/audio\<close>, \<^verbatim>\<open>pkg/webrtc\<close>): resampling and transcoding, the back channel, the ICE
  manager, the watchdog and the session descriptions; its properties are in \<open>Media_Session_Proofs\<close> and
  \<open>Session_Proofs\<close>. \<open>L625_Session\<close>: a WebRTC session and the loop of the driver around it, as
  sequences of actions. \<open>Sound_Stamps\<close>: the packets that are written to the stream, with the floating-point numbers behind
  their stamps. \<open>Ingest_Life\<close>: the reader of the L 620 and its \<^verbatim>\<open>Close\<close> as a step relation. \<open>Camera_Stream\<close> (\<^verbatim>\<open>pkg/xiongmai/rtsp_ingest.go\<close>, \<^verbatim>\<open>sdcard.go\<close>): the
  stream and the recordings of the L 620.

  \<^bold>\<open>Configuration and network.\<close> \<open>Bridge_Config\<close> (\<^verbatim>\<open>pkg/config\<close>, \<^verbatim>\<open>pkg/nabto/qr.go\<close>,
  \<^verbatim>\<open>registry.go\<close>): the layers of the configuration, its checks and the choice of the driver.
  \<open>Bridge_App\<close> (\<^verbatim>\<open>pkg/app\<close>, \<^verbatim>\<open>pkg/supervisor\<close>): what is wired to what, the order of start and
  clean-up, and the life of the driver of the L 620.
  \<open>Network_Probe\<close> (\<^verbatim>\<open>pkg/netprobe\<close>, \<^verbatim>\<open>pkg/nabto/mdns.go\<close>): the checksum and the strategies of the
  prober, and the wake-up queries.

  \<^bold>\<open>Recordings\<close> (\<^verbatim>\<open>pkg/storage\<close>). \<open>Recording_Cache\<close>: the index and the directory it describes;
  the outcome of a system call is an argument. \<open>Recording_Sync\<close>: the provider in front of a
  camera, whose four methods are a record of functions, and the syncer. \<open>Frame_Extractor\<close>: ffmpeg with its temporary files, which
  refines the extractor that the cache is given.

  \<^bold>\<open>Servers\<close> (\<^verbatim>\<open>pkg/onvif\<close>, \<^verbatim>\<open>pkg/events\<close>). \<open>Onvif_Auth\<close>: nonces, Digest and
  WS-Security. \<open>Soap_Security\<close>: the token as Go's decoder takes it out of a request. \<open>Events_Bus\<close>: the bus, the device status and the pull points. \<open>Onvif_Server\<close>: which
  request is served, by whom, and what it does to the camera. \<open>Onvif_Xml\<close>: documents with the layout of the code's literals
  and a reader for them; \<open>Onvif_Device_Answers\<close> and \<open>Onvif_Answers\<close>: the answers of all services element for element, the envelope
  and the fault, with their properties in \<open>Onvif_Answers_Proofs\<close> and \<open>Onvif_Reply_Proofs\<close>. \<open>Onvif_Discovery\<close>: WS-Discovery.
  \<open>Rest_Api\<close>: the REST interface.

  \<^bold>\<open>Around the bridge.\<close> \<open>Launcher\<close> (\<^verbatim>\<open>cmd/launcher\<close>): the installation of the C library as a list of actions on the disk that may
  break off after any of them, and the start of the bridge. \<open>Bridge_Log\<close> (\<^verbatim>\<open>pkg/logger\<close>): levels and lines of the log.

  \<^bold>\<open>Arguments of the model.\<close> Hash functions, AES and RSA, the JSON and XML codecs, random bytes, the clock,
  the file system's outcomes and the other side of every connection are arguments. The assumptions that
  a property makes about them are named in it: that a block cipher inverts itself, that a reader
  gives back what was written, that a hash has its length.

  \<^bold>\<open>What the lemmas show.\<close> Codecs are exact; in every interleaving a response reaches the call that asked
  for it; messages and downloads arrive whole and in order; index and directory of the cache agree, keep the newest
  recordings and give back every one of them page by page; a sync reaches the state of the camera and
  announces only what can be played; no action that matters runs without credentials; a
  command of Home Assistant becomes the frame it stands for; every setting has the value of the highest
  layer that gives it; no sound is lost between the packets it comes in and the frames it leaves in; sessions
  end exactly when they should and release what they held; no handle of the C library is used after it was freed, and a key
  that the camera refuses is replaced; supervisors keep their distance and never hold
  two connections; every answer of the ONVIF services is a well-formed document that names the request's action, as long as
  nothing with markup is put into it; what Home Assistant shows follows the connection; and a library that the
  launcher takes for installed is whole. Where the code does not do what it means to, a lemma shows how.

  \<^bold>\<open>Bounds.\<close> Loops that wait (watchdogs, the readers of the L 620, the CoAP client) are functions of a number of turns or of
  the list of what happens; each property about them says how many turns are enough.

  \<^bold>\<open>Not modelled.\<close> Sockets and their deadlines, DTLS and WebRTC, the media that passes through, the texts
  of JSON documents, what is logged where, and the command line, which only fills the configuration; the C library of Nabto. The mock
  camera and the probe under \<^verbatim>\<open>tools\<close> are not part of the bridge.
\<close>

end
